(* ===== verification/Prelude.thy ===== *)
theory Prelude
  imports Main "HOL-Library.Word"
begin

text \<open>
  Shared vocabulary of the development: machine integers at the width of the C code,
  exceptions (\<^verbatim>\<open>common/exception.c\<close> throws an error code with longjmp, so a
  function that may throw returns a value of \<open>'a result\<close>), the allocator
  (\<^verbatim>\<open>common/eqp_alloc.c\<close>) over an abstract heap, and the list, word and
  byte-order lemmas the component theories share.
\<close>

unbundle bit_operations_syntax

section \<open>Machine types\<close>

type_synonym u8 = "8 word"
type_synonym u16 = "16 word"
type_synonym u32 = "32 word"
type_synonym u64 = "64 word"
type_synonym i32 = "32 word"
type_synonym bytes = "u8 list"

named_theorems unat_simps \<open>reading machine integers as natural numbers\<close>
named_theorems result_simps \<open>sequencing of throwing operations\<close>

section \<open>Errors as values\<close>

text \<open>
  The error codes the modelled code throws, by their names in
  \<^verbatim>\<open>common/error_codes.h\<close>. \<open>UndefinedBehaviour\<close> is no error code: it marks an
  execution that leaves the C semantics (an access outside an allocation, a null dereference).
  \<open>Diverges\<close> marks a loop that outlasts the fuel its model was given, as many rounds as
  there are cells to visit, so a loop that would not end. No operation catches either; the
  theorems show they are not reached.
\<close>

datatype ErrorCode =
    Try
  | Finally
  | ErrorOutOfMemory
  | ErrorOutOfBounds
  | ErrorDoesNotExist
  | ErrorMismatch
  | ErrorNoData
  | ErrorDuplicate
  | ErrorFormatString
  | ErrorSpawnProcess
  | ErrorDatabase
  | ErrorSql
  | ErrorSyncPrimitive
  | ErrorShareMemInit
  | ErrorConsole
  | ErrorLua
  | ErrorIpc
  | ErrorThread
  | ErrorNetwork
  | ErrorCompression
  | UndefinedBehaviour
  | Diverges

type_synonym 'a result = "ErrorCode + 'a"

fun bindE :: "'a result \<Rightarrow> ('a \<Rightarrow> 'b result) \<Rightarrow> 'b result" where
  "bindE (Inl e) f = Inl e"
| "bindE (Inr a) f = f a"

lemma bindE_eq_Inr [result_simps]: "bindE m f = Inr b \<longleftrightarrow> (\<exists>a. m = Inr a \<and> f a = Inr b)"
  by (cases m) auto

lemma bindE_eq_Inl [result_simps]:
  "bindE m f = Inl e \<longleftrightarrow> m = Inl e \<or> (\<exists>a. m = Inr a \<and> f a = Inl e)"
  by (cases m) auto

lemma bindE_assoc: "bindE (bindE m f) g = bindE m (\<lambda>a. bindE (f a) g)"
  by (cases m) auto

section \<open>The allocator\<close>

text \<open>
  The C heap is outside the program: \<open>can_alloc\<close> says which requests
  \<^verbatim>\<open>realloc\<close> grants and \<open>junk\<close> what fresh bytes hold. \<open>eqp_realloc\<close>
  follows \<^verbatim>\<open>eqp_alloc.c\<close>: the old bytes are kept up to the new length, a
  refused request throws. A block starts with a header struct of \<open>hdr\<close> bytes, which
  the models keep as record fields, so only the bytes after it are passed and returned.
\<close>

record heap =
  can_alloc :: "nat \<Rightarrow> bool"
  junk :: "nat \<Rightarrow> u8"

definition eqp_realloc :: "heap \<Rightarrow> nat \<Rightarrow> bytes \<Rightarrow> nat \<Rightarrow> bytes result" where
  "eqp_realloc h hdr old len =
     (if can_alloc h len
      then Inr (take (len - hdr) old @ map (junk h) [length old..<len - hdr])
      else Inl ErrorOutOfMemory)"

lemma length_eqp_realloc: "eqp_realloc h hdr old len = Inr new \<Longrightarrow> length new = len - hdr"
  by (auto simp: eqp_realloc_def split: if_splits)

lemma take_eqp_realloc:
  "eqp_realloc h hdr old len = Inr new \<Longrightarrow> n \<le> length old \<Longrightarrow> n \<le> len - hdr \<Longrightarrow>
   take n new = take n old"
  by (auto simp: eqp_realloc_def min_def split: if_splits)

section \<open>Words read as natural numbers\<close>

lemma unat_of_nat_u32 [unat_simps]: "n < 2 ^ 32 \<Longrightarrow> unat (of_nat n :: u32) = n"
  by (simp add: unat_of_nat take_bit_nat_eq_self)

lemma unat_of_nat_u16 [unat_simps]: "n < 2 ^ 16 \<Longrightarrow> unat (of_nat n :: u16) = n"
  by (simp add: unat_of_nat take_bit_nat_eq_self)

lemma unat_lt_u32 [simp]: "unat (x :: u32) < 4294967296"
  using unsigned_less [of x] by simp

lemma unat_lt_u16 [simp]: "unat (x :: u16) < 65536"
  using unsigned_less [of x] by simp

lemma unat_lt_u8 [simp]: "unat (x :: u8) < 256"
  using unsigned_less [of x] by simp

lemma unat_add_u32:
  "unat (x :: u32) + unat y < 2 ^ 32 \<Longrightarrow> unat (x + y) = unat x + unat y"
  by (simp add: unat_word_ariths)

lemma unat_mult_u32:
  "unat (x :: u32) * unat y < 2 ^ 32 \<Longrightarrow> unat (x * y) = unat x * unat y"
  by (simp add: unat_word_ariths)

lemma unat_Suc_u32: "unat (x :: u32) < 4294967295 \<Longrightarrow> unat (x + 1) = Suc (unat x)"
  by (simp add: unat_word_ariths)

lemma unat_sub_word: "y \<le> x \<Longrightarrow> unat (x - y :: 'a::len word) = unat x - unat y"
  by (simp add: unat_sub)

lemma unat_power2: "k < LENGTH('a) \<Longrightarrow> unat (2 ^ k :: 'a::len word) = 2 ^ k"
proof -
  assume k: "k < LENGTH('a)"
  have "unat (word_of_nat (2 ^ k) :: 'a word) = 2 ^ k mod 2 ^ LENGTH('a)"
    by (rule unat_of_nat)
  also have "\<dots> = 2 ^ k" using k by simp
  finally show ?thesis by simp
qed

lemma unat_one_iff: "unat (n :: 'a::len word) = 1 \<longleftrightarrow> n = 1"
  by (metis unat_1 word_unat_eq_iff)

lemma unat_pred: "0 < unat n \<Longrightarrow> unat (n - 1 :: 'a::len word) = unat n - 1"
  by (metis unat_0 unat_minus_one not_less_zero)

lemma xor_right_cancel: "a XOR x = b XOR x \<longleftrightarrow> a = (b :: 'a::len word)"
proof
  assume "a XOR x = b XOR x"
  then have "(a XOR x) XOR x = (b XOR x) XOR x" by simp
  then show "a = b" by (simp add: xor.assoc)
qed simp

lemma xor_left_cancel: "x XOR a = x XOR b \<longleftrightarrow> a = (b :: 'a::len word)"
  using xor_right_cancel [of a x b] by (simp add: xor.commute)

lemma unat_ucast_up:
  "LENGTH('a) \<le> LENGTH('b) \<Longrightarrow> unat (ucast (x :: 'a::len word) :: 'b::len word) = unat x"
proof -
  assume le: "LENGTH('a) \<le> LENGTH('b)"
  have "unat x < 2 ^ LENGTH('a)" by (rule unsigned_less)
  also have "(2::nat) ^ LENGTH('a) \<le> 2 ^ LENGTH('b)" using le by simp
  finally show ?thesis by (simp add: unsigned_ucast_eq take_bit_nat_eq_self)
qed

section \<open>Lists as memory\<close>

text \<open>Overwriting a run of cells: what memcpy and the byte loops of the code do.\<close>

definition overwrite :: "'a list \<Rightarrow> nat \<Rightarrow> 'a list \<Rightarrow> 'a list" where
  "overwrite xs off ys = take off xs @ ys @ drop (off + length ys) xs"

definition slice :: "'a list \<Rightarrow> nat \<Rightarrow> nat \<Rightarrow> 'a list" where
  "slice xs off n = take n (drop off xs)"

text \<open>Accesses through a pointer into an allocation, with the bounds C leaves unchecked.\<close>

definition mem_read :: "'a list \<Rightarrow> nat \<Rightarrow> nat \<Rightarrow> 'a list result" where
  "mem_read xs off n =
     (if off + n \<le> length xs then Inr (slice xs off n) else Inl UndefinedBehaviour)"

definition mem_write :: "'a list \<Rightarrow> nat \<Rightarrow> 'a list \<Rightarrow> 'a list result" where
  "mem_write xs off ys =
     (if off + length ys \<le> length xs then Inr (overwrite xs off ys) else Inl UndefinedBehaviour)"

lemma length_overwrite [simp]:
  "off + length ys \<le> length xs \<Longrightarrow> length (overwrite xs off ys) = length xs"
  by (simp add: overwrite_def)

lemma length_slice [simp]: "off + n \<le> length xs \<Longrightarrow> length (slice xs off n) = n"
  by (simp add: slice_def)

lemma overwrite_nth:
  "off + length ys \<le> length xs \<Longrightarrow> i < length xs \<Longrightarrow>
   overwrite xs off ys ! i = (if off \<le> i \<and> i < off + length ys then ys ! (i - off) else xs ! i)"
  by (auto simp: overwrite_def nth_append min_def)

lemma slice_overwrite_same [simp]:
  "off + length ys \<le> length xs \<Longrightarrow> slice (overwrite xs off ys) off (length ys) = ys"
  by (simp add: slice_def overwrite_def)

lemma slice_overwrite_other:
  assumes "off + length ys \<le> length xs" "o2 + n \<le> length xs"
    "o2 + n \<le> off \<or> off + length ys \<le> o2"
  shows "slice (overwrite xs off ys) o2 n = slice xs o2 n"
  using assms
  by (intro nth_equalityI) (auto simp: slice_def overwrite_nth)

lemma take_overwrite_below [simp]:
  "n \<le> off \<Longrightarrow> off \<le> length xs \<Longrightarrow> take n (overwrite xs off ys) = take n xs"
  by (simp add: overwrite_def min_def)

lemma list_update_overwrite: "i < length xs \<Longrightarrow> xs[i := v] = overwrite xs i [v]"
  by (simp add: overwrite_def upd_conv_take_nth_drop)

section \<open>C strings\<close>

text \<open>A C string is memory up to its first null byte; reading past the memory is undefined.\<close>

definition cstr :: "bytes \<Rightarrow> bytes" where
  "cstr m = takeWhile (\<lambda>b. b \<noteq> 0) m"

fun strcmp :: "bytes \<Rightarrow> bytes \<Rightarrow> int result" where
  "strcmp (x # xs) (y # ys) =
     (if x = y then (if x = 0 then Inr 0 else strcmp xs ys)
      else if x < y then Inr (-1) else Inr 1)"
| "strcmp _ _ = Inl UndefinedBehaviour"

fun strlen :: "bytes \<Rightarrow> nat result" where
  "strlen [] = Inl UndefinedBehaviour"
| "strlen (x # xs) = (if x = 0 then Inr 0 else bindE (strlen xs) (\<lambda>n. Inr (Suc n)))"

lemma strcmp_terminated:
  assumes "0 \<in> set xs" "0 \<in> set ys"
  shows "\<exists>c. strcmp xs ys = Inr c \<and> (c = 0 \<longleftrightarrow> cstr xs = cstr ys)"
  using assms
proof (induction xs ys rule: strcmp.induct)
  case (1 x xs y ys)
  then show ?case by (cases "x = y"; cases "x = 0") (auto simp: cstr_def)
qed simp_all

lemma cstr_append_null: "0 \<notin> set k \<Longrightarrow> cstr (k @ 0 # rest) = k"
  by (induction k) (auto simp: cstr_def)

lemma strlen_terminated: "0 \<in> set xs \<Longrightarrow> strlen xs = Inr (length (cstr xs))"
  by (induction xs) (auto simp: cstr_def)

section \<open>Byte order\<close>

text \<open>
  \<^verbatim>\<open>htons\<close>, \<^verbatim>\<open>htonl\<close> and their inverses on the little-endian hosts the
  server is built for: the bytes are reversed (\<^verbatim>\<open>common/netcode.h\<close>).
\<close>

definition toNetworkUint16 :: "u16 \<Rightarrow> u16" where
  "toNetworkUint16 x = (push_bit 8 x) OR (drop_bit 8 x)"

definition toNetworkUint32 :: "u32 \<Rightarrow> u32" where
  "toNetworkUint32 x =
     push_bit 24 x OR push_bit 8 (x AND 0xff00) OR drop_bit 8 (x AND 0xff0000) OR drop_bit 24 x"

abbreviation "toHostUint16 \<equiv> toNetworkUint16"
abbreviation "toHostUint32 \<equiv> toNetworkUint32"

lemma toNetworkUint16_involution [simp]: "toNetworkUint16 (toNetworkUint16 x) = x"
  unfolding toNetworkUint16_def
  by (rule bit_word_eqI) (auto simp: bit_simps)

lemma toNetworkUint32_involution [simp]: "toNetworkUint32 (toNetworkUint32 x) = x"
proof (rule bit_word_eqI)
  fix n assume n: "n < LENGTH(32)"
  have b: "(0xff00 :: u32) = push_bit 8 (mask 8)" "(0xff0000 :: u32) = push_bit 16 (mask 8)"
    by (simp_all add: mask_eq_exp_minus_1 push_bit_eq_mult)
  from n have "n < 8 \<or> 8 \<le> n \<and> n < 16 \<or> 16 \<le> n \<and> n < 24 \<or> 24 \<le> n \<and> n < 32" by auto
  then show "bit (toNetworkUint32 (toNetworkUint32 x)) n = bit x n"
    unfolding toNetworkUint32_def b
    by (elim disjE conjE) (auto simp: bit_simps dest: bit_imp_le_length)
qed

lemma unat_add_wrap_u32:
  assumes "2 ^ 32 \<le> unat (x :: u32) + unat y"
  shows "unat (x + y) = unat x + unat y - 2 ^ 32"
proof -
  have b: "unat x + unat y < 8589934592" using unat_lt_u32 [of x] unat_lt_u32 [of y] by linarith
  have "unat (x + y) = (unat x + unat y) mod 2 ^ 32" by (simp add: unat_word_ariths)
  also have "\<dots> = (unat x + unat y - 2 ^ 32) mod 2 ^ 32" using assms by (rule le_mod_geq)
  also have "\<dots> = unat x + unat y - 2 ^ 32"
    using b by (intro mod_less) simp
  finally show ?thesis .
qed

lemma unat_ucast_down_u16: "unat (x :: u32) < 65536 \<Longrightarrow> unat (ucast x :: u16) = unat x"
  by (simp add: unsigned_ucast_eq take_bit_nat_eq_self)

end
