(* ===== verification/Dyn_Array.thy ===== *)
theory Dyn_Array
  imports Prelude "HOL-Library.Multiset"
begin

text \<open>
  \<^verbatim>\<open>common/container/eqp_array.c\<close>: the growable array of fixed-size elements every
  server component stores its packets, clients and timers in. The model keeps the bytes of the
  block, the 32-bit counters and the 32-bit offset arithmetic of the code; \<open>elems\<close> reads
  the block as the list of its elements. The locale \<open>dyn_vec\<close> is the contract the
  client components use, interpreted below on these definitions.
\<close>

section \<open>The structure\<close>

record array =
  ar_count :: u32
  ar_capacity :: u32
  ar_elementSize :: u32
  ar_data :: bytes

definition sizeof_Array :: nat where "sizeof_Array = 16"
definition MIN_CAPACITY :: u32 where "MIN_CAPACITY = 2"

definition array_create_with_capacity :: "heap \<Rightarrow> u32 \<Rightarrow> u32 \<Rightarrow> array result" where
  "array_create_with_capacity h elementSize capacity =
     (let capacity = (if capacity < MIN_CAPACITY then MIN_CAPACITY else capacity) in
      bindE (eqp_realloc h sizeof_Array [] (sizeof_Array + unat elementSize * unat capacity))
        (\<lambda>d. Inr \<lparr>ar_count = 0, ar_capacity = capacity, ar_elementSize = elementSize, ar_data = d\<rparr>))"

definition array_create :: "heap \<Rightarrow> u32 \<Rightarrow> array result" where
  "array_create h elementSize = array_create_with_capacity h elementSize MIN_CAPACITY"

definition array_is_empty :: "array \<Rightarrow> bool" where
  "array_is_empty a \<longleftrightarrow> ar_count a = 0"

text \<open>A pointer to an element is its byte offset in the data; \<open>None\<close> is \<^verbatim>\<open>NULL\<close>.\<close>

definition array_get :: "array \<Rightarrow> u32 \<Rightarrow> u32 option" where
  "array_get a index = (if ar_count a > index then Some (index * ar_elementSize a) else None)"

definition array_back :: "array \<Rightarrow> u32 option" where
  "array_back a = (let c = ar_count a in
     if c > 0 then Some ((c - 1) * ar_elementSize a) else None)"

definition array_get_copy :: "array \<Rightarrow> u32 \<Rightarrow> bytes option result" where
  "array_get_copy a index =
     (if ar_count a > index
      then bindE (mem_read (ar_data a) (unat (index * ar_elementSize a)) (unat (ar_elementSize a)))
             (\<lambda>v. Inr (Some v))
      else Inr None)"

definition array_back_copy :: "array \<Rightarrow> bytes option result" where
  "array_back_copy a =
     (if ar_count a > 0
      then bindE (mem_read (ar_data a) (unat ((ar_count a - 1) * ar_elementSize a))
                    (unat (ar_elementSize a))) (\<lambda>v. Inr (Some v))
      else Inr None)"

text \<open>\<open>array_set\<close> does not look at the count: an index past the block is undefined.\<close>

definition array_set :: "array \<Rightarrow> u32 \<Rightarrow> bytes \<Rightarrow> array result" where
  "array_set a index value =
     bindE (mem_read value 0 (unat (ar_elementSize a))) (\<lambda>v.
     bindE (mem_write (ar_data a) (unat (index * ar_elementSize a)) v) (\<lambda>d.
     Inr (a\<lparr>ar_data := d\<rparr>)))"

text \<open>
  The exception a refused allocation throws leaves \<open>array_push_back\<close> after the count was
  incremented: the array a handler sees is the first component of the result.
\<close>

definition array_push_store :: "array \<Rightarrow> u32 \<Rightarrow> bytes option \<Rightarrow> array \<times> u32 result" where
  "array_push_store ar index value =
     (let size = ar_elementSize ar; off = index * size in
      case value of
        None \<Rightarrow> (ar, Inr off)
      | Some v \<Rightarrow>
          (case bindE (mem_read v 0 (unat size)) (mem_write (ar_data ar) (unat off)) of
             Inl e \<Rightarrow> (ar, Inl e)
           | Inr d \<Rightarrow> (ar\<lparr>ar_data := d\<rparr>, Inr off)))"

definition array_push_back :: "heap \<Rightarrow> array \<Rightarrow> bytes option \<Rightarrow> array \<times> u32 result" where
  "array_push_back h ar value =
     (let index = ar_count ar;
          ar = ar\<lparr>ar_count := ar_count ar + 1\<rparr>;
          cap = ar_capacity ar;
          size = ar_elementSize ar
      in if index \<ge> cap
         then (let cap = cap * 2 in
               case eqp_realloc h sizeof_Array (ar_data ar) (sizeof_Array + unat (cap * size)) of
                 Inl e \<Rightarrow> (ar, Inl e)
               | Inr d \<Rightarrow> array_push_store (ar\<lparr>ar_data := d, ar_capacity := cap\<rparr>) index value)
         else array_push_store ar index value)"

definition array_pop_back :: "array \<Rightarrow> array" where
  "array_pop_back a = (if ar_count a > 0 then a\<lparr>ar_count := ar_count a - 1\<rparr> else a)"

definition array_swap_and_pop :: "array \<Rightarrow> u32 \<Rightarrow> (array \<times> bool) result" where
  "array_swap_and_pop a index =
     (if ar_count a > 0 \<and> index < ar_count a
      then (let back = ar_count a - 1; a = a\<lparr>ar_count := back\<rparr>; size = ar_elementSize a in
            if index \<noteq> back
            then bindE (mem_read (ar_data a) (unat (back * size)) (unat size)) (\<lambda>v.
                 bindE (mem_write (ar_data a) (unat (index * size)) v) (\<lambda>d.
                 Inr (a\<lparr>ar_data := d\<rparr>, True)))
            else Inr (a, False))
      else Inr (a, False))"

definition array_clear :: "array \<Rightarrow> array" where
  "array_clear a = a\<lparr>ar_count := 0\<rparr>"

definition array_shift_left :: "array \<Rightarrow> u32 \<Rightarrow> array result" where
  "array_shift_left a numIndices =
     (if ar_count a \<le> numIndices then Inr (array_clear a)
      else (let n = ar_count a - numIndices; size = ar_elementSize a in
            bindE (mem_read (ar_data a) (unat (numIndices * size)) (unat (n * size))) (\<lambda>v.
            bindE (mem_write (ar_data a) 0 v) (\<lambda>d.
            Inr (a\<lparr>ar_data := d, ar_count := n\<rparr>)))))"

definition array_reserve :: "heap \<Rightarrow> array \<Rightarrow> u32 \<Rightarrow> array \<times> unit result" where
  "array_reserve h a n =
     (if ar_capacity a \<ge> n then (a, Inr ())
      else (let a = a\<lparr>ar_capacity := n\<rparr> in
            case eqp_realloc h sizeof_Array (ar_data a)
                   (sizeof_Array + unat (n * ar_elementSize a)) of
              Inl e \<Rightarrow> (a, Inl e)
            | Inr d \<Rightarrow> (a\<lparr>ar_data := d\<rparr>, Inr ())))"

definition array_clear_from_index :: "array \<Rightarrow> u32 \<Rightarrow> array" where
  "array_clear_from_index a index = (if index < ar_count a then a\<lparr>ar_count := index\<rparr> else a)"

section \<open>The list an array stands for\<close>

definition elems :: "array \<Rightarrow> bytes list" where
  "elems a = map (\<lambda>i. slice (ar_data a) (i * unat (ar_elementSize a)) (unat (ar_elementSize a)))
                 [0..<unat (ar_count a)]"

definition array_inv :: "array \<Rightarrow> bool" where
  "array_inv a \<longleftrightarrow>
     ar_count a \<le> ar_capacity a \<and> 2 \<le> unat (ar_capacity a) \<and>
     length (ar_data a) = unat (ar_capacity a) * unat (ar_elementSize a) \<and>
     unat (ar_capacity a) * unat (ar_elementSize a) < 2 ^ 32"

section \<open>Offsets\<close>

lemma chunk_bound: "i < c \<Longrightarrow> i * s + s \<le> c * (s::nat)"
  using mult_le_mono1 [of "Suc i" c s] by simp

lemma unat_offset:
  assumes "array_inv a" "unat i \<le> unat (ar_capacity a)"
  shows "unat (i * ar_elementSize a) = unat i * unat (ar_elementSize a)"
proof -
  have "unat i * unat (ar_elementSize a) \<le> unat (ar_capacity a) * unat (ar_elementSize a)"
    using assms(2) by (rule mult_le_mono1)
  also have "\<dots> < 2 ^ 32" using assms(1) by (simp add: array_inv_def)
  finally show ?thesis by (rule unat_mult_u32)
qed

lemma array_inv_count: "array_inv a \<Longrightarrow> unat (ar_count a) \<le> unat (ar_capacity a)"
  by (simp add: array_inv_def word_le_nat_alt)

lemma length_elems [simp]: "length (elems a) = unat (ar_count a)"
  by (simp add: elems_def)

lemma elems_nth:
  "i < unat (ar_count a) \<Longrightarrow>
   elems a ! i = slice (ar_data a) (i * unat (ar_elementSize a)) (unat (ar_elementSize a))"
  by (simp add: elems_def)

lemma elem_in_data:
  assumes "array_inv a" "i < unat (ar_capacity a)"
  shows "i * unat (ar_elementSize a) + unat (ar_elementSize a) \<le> length (ar_data a)"
  using assms chunk_bound [of i "unat (ar_capacity a)" "unat (ar_elementSize a)"]
  by (simp add: array_inv_def)

lemma elems_element_size:
  assumes "array_inv a" "e \<in> set (elems a)"
  shows "length e = unat (ar_elementSize a)"
proof -
  obtain i where i: "i < unat (ar_count a)" "e = elems a ! i"
    using assms(2) by (auto simp: in_set_conv_nth)
  then show ?thesis
    using elem_in_data [OF assms(1), of i] array_inv_count [OF assms(1)] by (simp add: elems_nth)
qed

lemma elems_eqI:
  assumes "ar_elementSize a = ar_elementSize b" "unat (ar_count a) = length xs"
    "\<And>i. i < length xs \<Longrightarrow>
       slice (ar_data a) (i * unat (ar_elementSize a)) (unat (ar_elementSize a)) = xs ! i"
  shows "elems a = xs"
  using assms by (intro nth_equalityI) (simp_all add: elems_nth)

lemma slice_take_eq: "off + n \<le> m \<Longrightarrow> slice (take m xs) off n = slice xs off n"
  by (simp add: slice_def drop_take min_def)

lemma slice_prefix_eq:
  "take m xs = take m ys \<Longrightarrow> off + n \<le> m \<Longrightarrow> slice xs off n = slice ys off n"
  by (metis slice_take_eq)

section \<open>Every operation on the list of elements\<close>

lemma array_create_spec:
  assumes "array_create h sz = Inr a" "2 * unat sz < 2 ^ 32"
  shows "array_inv a \<and> elems a = [] \<and> ar_elementSize a = sz"
  using assms
  by (auto simp: array_create_def array_create_with_capacity_def MIN_CAPACITY_def array_inv_def
      elems_def result_simps mult.commute dest!: length_eqp_realloc)

lemma array_get_spec:
  assumes "array_inv a"
  shows "array_get a i =
    (if unat i < length (elems a) then Some (of_nat (unat i * unat (ar_elementSize a))) else None)"
proof -
  have "unat i < unat (ar_count a) \<Longrightarrow> unat i \<le> unat (ar_capacity a)"
    using array_inv_count [OF assms] by simp
  then show ?thesis
    by (auto simp: array_get_def word_less_nat_alt)
qed

lemma array_get_copy_spec:
  assumes "array_inv a"
  shows "array_get_copy a i =
    Inr (if unat i < length (elems a) then Some (elems a ! unat i) else None)"
proof (cases "unat i < unat (ar_count a)")
  case True
  then have cap: "unat i < unat (ar_capacity a)" using array_inv_count [OF assms] by simp
  show ?thesis
    using True elem_in_data [OF assms cap]
    by (simp add: array_get_copy_def word_less_nat_alt unat_offset [OF assms less_imp_le [OF cap]]
        mem_read_def elems_nth)
qed (simp add: array_get_copy_def word_less_nat_alt)

lemma array_set_spec:
  assumes "array_inv a" "unat i < unat (ar_count a)" "length v = unat (ar_elementSize a)"
  shows "\<exists>a'. array_set a i v = Inr a' \<and> array_inv a' \<and> elems a' = (elems a)[unat i := v]"
proof -
  let ?s = "unat (ar_elementSize a)"
  have cap: "unat i < unat (ar_capacity a)" using array_inv_count [OF assms(1)] assms(2) by simp
  note off = unat_offset [OF assms(1) less_imp_le [OF cap]]
  note fits = elem_in_data [OF assms(1) cap]
  let ?a' = "a\<lparr>ar_data := overwrite (ar_data a) (unat i * ?s) v\<rparr>"
  have "array_set a i v = Inr ?a'"
    using fits assms(3) by (simp add: array_set_def mem_read_def mem_write_def off slice_def)
  moreover have "array_inv ?a'" using assms(1,3) fits by (simp add: array_inv_def)
  moreover have "elems ?a' = (elems a)[unat i := v]"
  proof (rule elems_eqI [of _ a])
    fix j assume j: "j < length ((elems a)[unat i := v])"
    then have jc: "j < unat (ar_capacity a)" using array_inv_count [OF assms(1)] by simp
    have "j < unat i \<or> j = unat i \<or> unat i < j" by auto
    then show "slice (ar_data ?a') (j * unat (ar_elementSize ?a')) (unat (ar_elementSize ?a')) =
        (elems a)[unat i := v] ! j"
      using j fits assms(3) elem_in_data [OF assms(1) jc]
        chunk_bound [of j "unat i" ?s] chunk_bound [of "unat i" j ?s]
      by (auto simp: elems_nth slice_overwrite_other nth_list_update)
        (metis slice_overwrite_same)
  qed simp_all
  ultimately show ?thesis by blast
qed

text \<open>
  Pushing: \<open>array_room\<close> says that the array has a free slot, or that doubling it neither
  wraps the 32-bit size nor is refused.
\<close>

definition array_room :: "heap \<Rightarrow> array \<Rightarrow> bool" where
  "array_room h a \<longleftrightarrow> ar_count a < ar_capacity a \<or>
     (2 * unat (ar_capacity a) < 2 ^ 32 \<and>
      2 * unat (ar_capacity a) * unat (ar_elementSize a) < 2 ^ 32 \<and>
      can_alloc h (sizeof_Array + 2 * unat (ar_capacity a) * unat (ar_elementSize a)))"

lemma array_push_store_spec:
  assumes inv: "array_inv a" and c: "unat (ar_count a) = Suc n"
    and v: "length v = unat (ar_elementSize a)"
  shows "\<exists>a'. array_push_store a (ar_count a - 1) (Some v) =
      (a', Inr ((ar_count a - 1) * ar_elementSize a)) \<and>
    array_inv a' \<and> elems a' = take n (elems a) @ [v]"
proof -
  let ?s = "unat (ar_elementSize a)"
  have n: "unat (ar_count a - 1) = n"
    using c by (simp add: unat_pred)
  have cap: "n < unat (ar_capacity a)" using array_inv_count [OF inv] c by simp
  note off = unat_offset [OF inv, of "ar_count a - 1", unfolded n, OF less_imp_le [OF cap]]
  note fits = elem_in_data [OF inv cap]
  let ?a' = "a\<lparr>ar_data := overwrite (ar_data a) (n * ?s) v\<rparr>"
  have "array_push_store a (ar_count a - 1) (Some v) =
      (?a', Inr ((ar_count a - 1) * ar_elementSize a))"
    using fits v by (simp add: array_push_store_def mem_read_def mem_write_def off slice_def Let_def)
  moreover have "array_inv ?a'" using inv v fits by (simp add: array_inv_def)
  moreover have "elems ?a' = take n (elems a) @ [v]"
  proof (rule elems_eqI [of _ a])
    fix j assume j: "j < length (take n (elems a) @ [v])"
    then have jn: "j < n \<or> j = n" using c by auto
    have jc: "j < unat (ar_capacity a)" using jn cap by auto
    have other: "j < n \<Longrightarrow> slice (overwrite (ar_data a) (n * ?s) v) (j * ?s) ?s
        = slice (ar_data a) (j * ?s) ?s"
      using fits v elem_in_data [OF inv jc] chunk_bound [of j n ?s]
      by (intro slice_overwrite_other) auto
    show "slice (ar_data ?a') (j * unat (ar_elementSize ?a')) (unat (ar_elementSize ?a')) =
        (take n (elems a) @ [v]) ! j"
      using jn c other fits v slice_overwrite_same [of "n * ?s" v "ar_data a"]
      by (auto simp: elems_nth nth_append)
  qed (use c in simp_all)
  ultimately show ?thesis by blast
qed

lemma elems_prefix_eq:
  assumes "ar_elementSize b = ar_elementSize a"
    "take (unat (ar_count a) * unat (ar_elementSize a)) (ar_data b) =
     take (unat (ar_count a) * unat (ar_elementSize a)) (ar_data a)"
    "unat (ar_count a) \<le> unat (ar_count b)"
  shows "take (unat (ar_count a)) (elems b) = elems a"
proof (rule nth_equalityI)
  fix i assume "i < length (take (unat (ar_count a)) (elems b))"
  then have i: "i < unat (ar_count a)" by simp
  with assms(3) chunk_bound [OF i, of "unat (ar_elementSize a)"]
  show "take (unat (ar_count a)) (elems b) ! i = elems a ! i"
    by (simp add: elems_nth assms(1) slice_prefix_eq [OF assms(2)])
qed (use assms(3) in simp)

lemma array_push_back_spec:
  assumes inv: "array_inv a" and room: "array_room h a" and v: "length v = unat (ar_elementSize a)"
  shows "\<exists>a' p. array_push_back h a (Some v) = (a', Inr p) \<and> array_inv a' \<and>
    elems a' = elems a @ [v]"
proof -
  let ?s = "unat (ar_elementSize a)"
  have cc: "unat (ar_count a) \<le> unat (ar_capacity a)" using array_inv_count [OF inv] .
  have len: "length (ar_data a) = unat (ar_capacity a) * ?s" using inv by (simp add: array_inv_def)
  obtain b where b: "array_push_back h a (Some v) = array_push_store b (ar_count b - 1) (Some v)"
      "array_inv b" "ar_elementSize b = ar_elementSize a"
      "unat (ar_count b) = Suc (unat (ar_count a))"
      "take (unat (ar_count a) * ?s) (ar_data b) = take (unat (ar_count a) * ?s) (ar_data a)"
  proof (cases "ar_count a < ar_capacity a")
    case True
    then have lt: "unat (ar_count a) < unat (ar_capacity a)" by (simp add: word_less_nat_alt)
    then have suc: "unat (ar_count a + 1) = Suc (unat (ar_count a))"
      by (intro unat_Suc_u32) (use lt unat_lt_u32 [of "ar_capacity a"] in linarith)
    let ?b = "a\<lparr>ar_count := ar_count a + 1\<rparr>"
    have "array_inv ?b" using inv lt suc by (simp add: array_inv_def word_le_nat_alt)
    moreover have "array_push_back h a (Some v) = array_push_store ?b (ar_count ?b - 1) (Some v)"
      using True by (auto simp: array_push_back_def Let_def dest: leD)
    ultimately show ?thesis using suc that [of ?b] by simp
  next
    case False
    then have full: "ar_count a = ar_capacity a"
      using inv by (simp add: array_inv_def)
    have g: "2 * unat (ar_capacity a) < 2 ^ 32" "2 * unat (ar_capacity a) * ?s < 2 ^ 32"
        "can_alloc h (sizeof_Array + 2 * unat (ar_capacity a) * ?s)"
      using room False by (auto simp: array_room_def)
    have c2: "unat (ar_capacity a * 2) = 2 * unat (ar_capacity a)"
      using g(1) by (simp add: unat_word_ariths)
    have cs: "unat (ar_capacity a * 2 * ar_elementSize a) = 2 * unat (ar_capacity a) * ?s"
      using unat_mult_u32 [of "ar_capacity a * 2" "ar_elementSize a"] c2 g(2) by simp
    obtain d where d: "eqp_realloc h sizeof_Array (ar_data a)
        (sizeof_Array + unat (ar_capacity a * 2 * ar_elementSize a)) = Inr d"
      using g(3) cs by (simp add: eqp_realloc_def)
    have suc: "unat (ar_count a + 1) = Suc (unat (ar_count a))"
      by (intro unat_Suc_u32) (use full g(1) in simp)
    let ?b = "a\<lparr>ar_count := ar_count a + 1, ar_data := d, ar_capacity := ar_capacity a * 2\<rparr>"
    have ld: "length d = 2 * unat (ar_capacity a) * ?s"
      using length_eqp_realloc [OF d] cs by simp
    have "array_inv ?b"
      using inv ld g c2 suc full by (auto simp: array_inv_def word_le_nat_alt)
    moreover have "take (unat (ar_count a) * ?s) d = take (unat (ar_count a) * ?s) (ar_data a)"
      by (rule take_eqp_realloc [OF d]) (simp_all add: len full cs)
    moreover have "array_push_back h a (Some v) = array_push_store ?b (ar_count ?b - 1) (Some v)"
      using False d by (simp add: array_push_back_def Let_def not_less)
    ultimately show ?thesis using suc that [of ?b] by simp
  qed
  obtain a' where "array_push_store b (ar_count b - 1) (Some v) =
      (a', Inr ((ar_count b - 1) * ar_elementSize b))" "array_inv a'"
      "elems a' = take (unat (ar_count a)) (elems b) @ [v]"
    using array_push_store_spec [OF b(2,4)] v b(3) by auto
  then show ?thesis using b elems_prefix_eq [OF b(3,5)] by auto
qed

lemma elems_take:
  assumes "ar_elementSize b = ar_elementSize a" "ar_data b = ar_data a"
    "unat (ar_count b) = n" "n \<le> unat (ar_count a)"
  shows "elems b = take n (elems a)"
  using assms by (intro elems_eqI [of _ a]) (simp_all add: elems_nth)

lemma array_pop_back_spec:
  assumes "array_inv a"
  shows "array_inv (array_pop_back a) \<and> elems (array_pop_back a) = butlast (elems a)"
proof (cases "unat (ar_count a) = 0")
  case True
  then have "elems a = []" by (simp add: elems_def)
  moreover have "array_pop_back a = a" using True by (simp add: array_pop_back_def word_less_nat_alt)
  ultimately show ?thesis using assms by simp
next
  case False
  then have u: "unat (ar_count a - 1) = unat (ar_count a) - 1" by (simp add: unat_pred)
  have p: "array_pop_back a = a\<lparr>ar_count := ar_count a - 1\<rparr>"
    using False by (simp add: array_pop_back_def word_less_nat_alt)
  have "elems (array_pop_back a) = take (unat (ar_count a) - 1) (elems a)"
    unfolding p by (rule elems_take) (simp_all add: u)
  then show ?thesis
    using assms u by (auto simp: butlast_conv_take p array_inv_def word_le_nat_alt)
qed

lemma array_clear_from_index_spec:
  assumes "array_inv a"
  shows "array_inv (array_clear_from_index a i) \<and>
    elems (array_clear_from_index a i) = take (unat i) (elems a)"
proof (cases "i < ar_count a")
  case True
  then have "unat i \<le> unat (ar_count a)" by (simp add: word_less_nat_alt)
  then have "elems (a\<lparr>ar_count := i\<rparr>) = take (unat i) (elems a)"
    by (intro elems_take) simp_all
  then show ?thesis
    using True assms by (auto simp: array_clear_from_index_def array_inv_def)
qed (use assms in \<open>simp add: array_clear_from_index_def word_less_nat_alt\<close>)

lemma array_swap_and_pop_spec:
  assumes inv: "array_inv a" and i: "unat i < length (elems a)"
  shows "\<exists>a'. array_swap_and_pop a i = Inr (a', Suc (unat i) \<noteq> length (elems a)) \<and> array_inv a' \<and>
    elems a' = butlast ((elems a)[unat i := last (elems a)])"
proof -
  let ?s = "unat (ar_elementSize a)" and ?c = "unat (ar_count a)"
  have c: "0 < ?c" "unat i < ?c" using i by auto
  have u: "unat (ar_count a - 1) = ?c - 1" using c by (simp add: unat_pred)
  have ne: "elems a \<noteq> []" using c by (metis length_elems length_0_conv less_not_refl)
  have g: "ar_count a > 0 \<and> i < ar_count a" using c by (simp add: word_less_nat_alt)
  note popped = array_pop_back_spec [OF inv]
  have pb: "array_pop_back a = a\<lparr>ar_count := ar_count a - 1\<rparr>"
    using g by (simp add: array_pop_back_def)
  show ?thesis
  proof (cases "i = ar_count a - 1")
    case True
    then have ui: "unat i = ?c - 1" using u by simp
    have "(elems a)[unat i := last (elems a)] = elems a"
      using ne by (simp add: ui last_conv_nth list_update_id)
    then show ?thesis
      using True g popped c ui by (simp add: array_swap_and_pop_def Let_def pb)
  next
    case False
    then have ni: "unat i \<noteq> ?c - 1" using u by (metis word_unat_eq_iff)
    have cap: "?c - 1 < unat (ar_capacity a)" "unat i < ?c - 1"
      using array_inv_count [OF inv] c ni by simp_all
    let ?p = "a\<lparr>ar_count := ar_count a - 1\<rparr>" and ?last = "elems a ! (?c - 1)"
    have inv': "array_inv ?p" using popped pb by simp
    have off: "unat ((ar_count a - 1) * ar_elementSize a) = (?c - 1) * ?s"
      using unat_offset [OF inv, of "ar_count a - 1"] cap u by simp
    have rd: "mem_read (ar_data a) (unat ((ar_count a - 1) * ar_elementSize a)) ?s = Inr ?last"
      using elem_in_data [OF inv cap(1)] c by (simp add: mem_read_def off elems_nth)
    have ll: "length ?last = ?s" using elems_element_size [OF inv] c by simp
    obtain a' where a': "array_set ?p i ?last = Inr a'" "array_inv a'"
        "elems a' = (elems ?p)[unat i := ?last]"
      using array_set_spec [OF inv', of i ?last] u cap ll by auto
    have "array_swap_and_pop a i = Inr (a', True)"
      using g False rd a'(1) ll
      by (auto simp: array_swap_and_pop_def Let_def array_set_def mem_read_def slice_def
          result_simps split: if_splits)
    moreover have "elems a' = butlast ((elems a)[unat i := last (elems a)])"
      using a'(3) popped pb ne cap
      by (simp add: last_conv_nth butlast_list_update) 
    ultimately show ?thesis using a'(2) ni c by auto
  qed
qed

lemma array_shift_left_spec:
  assumes inv: "array_inv a"
  shows "\<exists>a'. array_shift_left a n = Inr a' \<and> array_inv a' \<and> elems a' = drop (unat n) (elems a)"
proof (cases "ar_count a \<le> n")
  case True
  then show ?thesis
    using inv by (simp add: array_shift_left_def array_clear_def array_inv_def elems_def word_le_nat_alt)
next
  case False
  let ?s = "unat (ar_elementSize a)" and ?c = "unat (ar_count a)" and ?n = "unat n"
  have n: "?n < ?c" using False by (simp add: word_le_nat_alt)
  have k: "unat (ar_count a - n) = ?c - ?n" using n by (simp add: unat_sub_word word_le_nat_alt)
  have cap: "?c \<le> unat (ar_capacity a)" using array_inv_count [OF inv] .
  have o1: "unat (n * ar_elementSize a) = ?n * ?s" using unat_offset [OF inv, of n] n cap by simp
  have o2: "unat ((ar_count a - n) * ar_elementSize a) = (?c - ?n) * ?s"
    using unat_offset [OF inv, of "ar_count a - n"] k cap by simp
  have sum: "?n * ?s + (?c - ?n) * ?s = ?c * ?s" using n by (simp add: algebra_simps)
  have len: "?c * ?s \<le> length (ar_data a)" using cap inv by (simp add: array_inv_def)
  define v where "v = slice (ar_data a) (?n * ?s) ((?c - ?n) * ?s)"
  have lv: "length v = (?c - ?n) * ?s" using sum len by (simp add: v_def)
  have vle: "length v \<le> length (ar_data a)" using sum len lv by linarith
  let ?a' = "a\<lparr>ar_data := overwrite (ar_data a) 0 v, ar_count := ar_count a - n\<rparr>"
  have "array_shift_left a n = Inr ?a'"
    using False sum len lv vle
    by (simp add: array_shift_left_def Let_def mem_read_def mem_write_def o1 o2 v_def)
  moreover have "array_inv ?a'" using inv vle k cap by (auto simp: array_inv_def word_le_nat_alt)
  moreover have "elems ?a' = drop ?n (elems a)"
  proof (rule elems_eqI [of _ a])
    fix j assume "j < length (drop ?n (elems a))"
    then have j: "j < ?c - ?n" by simp
    have jb: "j * ?s + ?s \<le> (?c - ?n) * ?s" using chunk_bound [OF j] .
    have "slice (overwrite (ar_data a) 0 v) (j * ?s) ?s = slice v (j * ?s) ?s"
      using jb lv by (simp add: overwrite_def slice_def)
    also have "\<dots> = slice (ar_data a) ((?n + j) * ?s) ?s"
      using jb by (simp add: v_def slice_def drop_take min_def algebra_simps)
    finally show "slice (ar_data ?a') (j * unat (ar_elementSize ?a')) (unat (ar_elementSize ?a')) =
        drop ?n (elems a) ! j"
      using j by (simp add: elems_nth)
  qed (simp_all add: k)
  ultimately show ?thesis by blast
qed

section \<open>The contract of a growable vector\<close>

text \<open>
  What the packet queues, client tables and timer pool rely on: an operation keeps the
  invariant and acts on the list of elements. Removal by \<open>swap_pop\<close> gives up the order
  but no element.
\<close>

locale dyn_vec =
  fixes invar :: "'s \<Rightarrow> bool"
    and to_list :: "'s \<Rightarrow> 'e list"
    and fits :: "'s \<Rightarrow> 'e \<Rightarrow> bool"
    and room :: "'h \<Rightarrow> 's \<Rightarrow> bool"
    and push :: "'h \<Rightarrow> 's \<Rightarrow> 'e \<Rightarrow> 's \<times> 'r result"
    and pop :: "'s \<Rightarrow> 's"
    and swap_pop :: "'s \<Rightarrow> u32 \<Rightarrow> ('s \<times> bool) result"
    and shift :: "'s \<Rightarrow> u32 \<Rightarrow> 's result"
    and get :: "'s \<Rightarrow> u32 \<Rightarrow> 'e option result"
  assumes push_law: "invar s \<Longrightarrow> room h s \<Longrightarrow> fits s e \<Longrightarrow>
      \<exists>s' p. push h s e = (s', Inr p) \<and> invar s' \<and> to_list s' = to_list s @ [e]"
    and pop_law: "invar s \<Longrightarrow> invar (pop s) \<and> to_list (pop s) = butlast (to_list s)"
    and swap_pop_law: "invar s \<Longrightarrow> unat i < length (to_list s) \<Longrightarrow>
      \<exists>s'. swap_pop s i = Inr (s', Suc (unat i) \<noteq> length (to_list s)) \<and> invar s' \<and>
        to_list s' = butlast ((to_list s)[unat i := last (to_list s)])"
    and shift_law: "invar s \<Longrightarrow>
      \<exists>s'. shift s n = Inr s' \<and> invar s' \<and> to_list s' = drop (unat n) (to_list s)"
    and get_law: "invar s \<Longrightarrow>
      get s i = Inr (if unat i < length (to_list s) then Some (to_list s ! unat i) else None)"
begin

text \<open>Push and shift make a first-in first-out queue.\<close>

lemma push_shift_fifo:
  assumes "invar s" "room h s" "fits s e" "push h s e = (s1, Inr p)" "shift s1 n = Inr s2"
    "unat n \<le> length (to_list s)"
  shows "to_list s2 = drop (unat n) (to_list s) @ [e]"
proof -
  have "invar s1" "to_list s1 = to_list s @ [e]"
    using push_law [OF assms(1-3)] assms(4) by auto
  then show ?thesis using shift_law [of s1 n] assms(5,6) by auto
qed

text \<open>What was pushed is what the last slot reads.\<close>

lemma push_get:
  assumes "invar s" "room h s" "fits s e" "push h s e = (s1, Inr p)"
    "unat i = length (to_list s)"
  shows "get s1 i = Inr (Some e)"
proof -
  have "invar s1" "to_list s1 = to_list s @ [e]"
    using push_law [OF assms(1-3)] assms(4) by auto
  then show ?thesis using get_law [of s1 i] assms(5) by simp
qed

text \<open>Popping what was pushed gives the elements back.\<close>

lemma push_pop:
  assumes "invar s" "room h s" "fits s e" "push h s e = (s1, Inr p)"
  shows "to_list (pop s1) = to_list s"
  using push_law [OF assms(1-3)] assms(4) pop_law [of s1] by auto

lemma swap_pop_mset:
  assumes "invar s" "unat i < length (to_list s)" "swap_pop s i = Inr (s', b)"
  shows "add_mset (to_list s ! unat i) (mset (to_list s')) = mset (to_list s)"
proof -
  let ?xs = "to_list s" and ?i = "unat i"
  have s': "to_list s' = butlast (?xs[?i := last ?xs])"
    using swap_pop_law [OF assms(1,2)] assms(3) by auto
  obtain ys y where ys: "?xs = ys @ [y]"
    using assms(2) by (metis length_greater_0_conv less_nat_zero_code not_gr_zero rev_exhaust)
  show ?thesis
  proof (cases "?i < length ys")
    case True
    then show ?thesis
      using s' ys by (simp add: list_update_append mset_update nth_append)
  next
    case False
    then have "?i = length ys" using assms(2) ys by simp
    then show ?thesis using s' ys by simp
  qed
qed

end

interpretation arr: dyn_vec array_inv elems "\<lambda>a v. length v = unat (ar_elementSize a)" array_room
  "\<lambda>h a v. array_push_back h a (Some v)" array_pop_back array_swap_and_pop array_shift_left
  array_get_copy
  by unfold_locales
    (use array_push_back_spec array_pop_back_spec array_swap_and_pop_spec array_shift_left_spec
      array_get_copy_spec in simp_all)

end
