(* ===== verification/Aligned.thy ===== *)
theory Aligned
  imports Prelude
begin

text \<open>
  \<^verbatim>\<open>common/aligned.c\<close>: the bounds-checked cursor through which every packet is parsed
  and built. A failing bounds check throws \<open>ErrorOutOfBounds\<close>; the cursor object of the
  failed call is not returned, since every caller keeps it on its own stack. The reads and writes
  themselves go through \<open>mem_read\<close> and \<open>mem_write\<close>, so an access the check lets
  through outside the buffer would show as \<open>UndefinedBehaviour\<close>.
\<close>

section \<open>The cursor\<close>

record aligned =
  al_cursor :: u32
  al_length :: u32
  al_buffer :: bytes

definition aligned_init_cursor :: "bytes \<Rightarrow> u32 \<Rightarrow> u32 \<Rightarrow> aligned" where
  "aligned_init_cursor ptr len cursor =
     \<lparr>al_cursor = cursor, al_length = len, al_buffer = ptr\<rparr>"

definition aligned_init :: "bytes \<Rightarrow> u32 \<Rightarrow> aligned" where
  "aligned_init ptr len = aligned_init_cursor ptr len 0"

definition aligned_init_copy :: "aligned \<Rightarrow> aligned" where
  "aligned_init_copy src = src"

definition aligned_reinit :: "aligned \<Rightarrow> bytes \<Rightarrow> u32 \<Rightarrow> aligned" where
  "aligned_reinit a ptr len = a\<lparr>al_cursor := 0, al_length := len, al_buffer := ptr\<rparr>"

definition aligned_reinit_cursor :: "aligned \<Rightarrow> bytes \<Rightarrow> u32 \<Rightarrow> u32 \<Rightarrow> aligned" where
  "aligned_reinit_cursor a ptr len cursor =
     a\<lparr>al_cursor := cursor, al_length := len, al_buffer := ptr\<rparr>"

definition aligned_remaining :: "aligned \<Rightarrow> u32" where
  "aligned_remaining a = al_length a - al_cursor a"

definition aligned_reduce_size :: "aligned \<Rightarrow> u32 \<Rightarrow> aligned" where
  "aligned_reduce_size a by' = a\<lparr>al_length := al_length a - by'\<rparr>"

definition aligned_reset :: "aligned \<Rightarrow> aligned" where
  "aligned_reset a = a\<lparr>al_cursor := 0\<rparr>"

definition aligned_reset_to :: "aligned \<Rightarrow> u32 \<Rightarrow> aligned" where
  "aligned_reset_to a offset = a\<lparr>al_cursor := offset\<rparr>"

text \<open>The addition is the 32-bit one of the code: it wraps before the check.\<close>

definition aligned_advance :: "aligned \<Rightarrow> u32 \<Rightarrow> (aligned \<times> u32) result" where
  "aligned_advance a len =
     (let c = al_cursor a; a = a\<lparr>al_cursor := al_cursor a + len\<rparr> in
      if al_cursor a > al_length a then Inl ErrorOutOfBounds else Inr (a, c))"

text \<open>The subtraction is on \<^verbatim>\<open>int\<close>.\<close>

definition aligned_reverse :: "aligned \<Rightarrow> u32 \<Rightarrow> (aligned \<times> u32) result" where
  "aligned_reverse a len =
     (let c = al_cursor a; cursor = sint (al_cursor a) - sint len in
      if cursor < 0 then Inl ErrorOutOfBounds
      else Inr (a\<lparr>al_cursor := word_of_int cursor\<rparr>, c))"

definition aligned_check :: "aligned \<Rightarrow> u32 \<Rightarrow> unit result" where
  "aligned_check a len =
     (if al_cursor a + len > al_length a then Inl ErrorOutOfBounds else Inr ())"

function aligned_advance_null_terminator :: "aligned \<Rightarrow> int \<Rightarrow> (aligned \<times> int) result" where
  "aligned_advance_null_terminator a len =
     (if al_cursor a < al_length a
      then bindE (mem_read (al_buffer a) (unat (al_cursor a)) 1) (\<lambda>c.
           let a' = a\<lparr>al_cursor := al_cursor a + 1\<rparr> in
           if c = [0] then Inr (a', len) else aligned_advance_null_terminator a' (len + 1))
      else Inr (a, -1))"
  by pat_completeness auto
termination
proof (relation "measure (\<lambda>(a, _). unat (al_length a) - unat (al_cursor a))", simp)
  fix a :: aligned and len c a'
  assume "al_cursor a < al_length a" "a' = a\<lparr>al_cursor := al_cursor a + 1\<rparr>" "c \<noteq> [0]"
  moreover from this have "unat (al_cursor a + 1) = Suc (unat (al_cursor a))"
    by (intro unat_Suc_u32) (use unat_lt_u32 [of "al_length a"] in
        \<open>simp add: word_less_nat_alt; linarith\<close>)
  ultimately show "((a', len + 1), (a, len)) \<in> measure (\<lambda>(a, _). unat (al_length a) - unat (al_cursor a))"
    by (simp add: word_less_nat_alt)
qed

declare aligned_advance_null_terminator.simps [simp del]

section \<open>Reading\<close>

definition aligned_read_uint8 :: "aligned \<Rightarrow> (aligned \<times> u8) result" where
  "aligned_read_uint8 a =
     bindE (aligned_advance a 1) (\<lambda>(a, c).
     bindE (mem_read (al_buffer a) (unat c) 1) (\<lambda>b. Inr (a, b ! 0)))"

definition aligned_read_uint16 :: "aligned \<Rightarrow> (aligned \<times> u16) result" where
  "aligned_read_uint16 a =
     bindE (aligned_advance a 2) (\<lambda>(a, c).
     bindE (mem_read (al_buffer a) (unat c) 2) (\<lambda>b.
     Inr (a, ucast (b ! 0) OR push_bit 8 (ucast (b ! 1)))))"

definition aligned_read_uint32 :: "aligned \<Rightarrow> (aligned \<times> u32) result" where
  "aligned_read_uint32 a =
     bindE (aligned_advance a 4) (\<lambda>(a, c).
     bindE (mem_read (al_buffer a) (unat c) 4) (\<lambda>b.
     Inr (a, ucast (b ! 0) OR push_bit 8 (ucast (b ! 1)) OR push_bit 16 (ucast (b ! 2))
             OR push_bit 24 (ucast (b ! 3)))))"

definition aligned_read_uint64 :: "aligned \<Rightarrow> (aligned \<times> u64) result" where
  "aligned_read_uint64 a =
     bindE (aligned_advance a 8) (\<lambda>(a, c).
     bindE (mem_read (al_buffer a) (unat c) 8) (\<lambda>b.
     Inr (a, ucast (b ! 0) OR push_bit 8 (ucast (b ! 1)) OR push_bit 16 (ucast (b ! 2))
             OR push_bit 24 (ucast (b ! 3)) OR push_bit 32 (ucast (b ! 4))
             OR push_bit 40 (ucast (b ! 5)) OR push_bit 48 (ucast (b ! 6))
             OR push_bit 56 (ucast (b ! 7)))))"

text \<open>A float is its 32 bits.\<close>

definition aligned_read_float :: "aligned \<Rightarrow> (aligned \<times> u32) result" where
  "aligned_read_float a = aligned_read_uint32 a"

definition aligned_read_buffer :: "aligned \<Rightarrow> u32 \<Rightarrow> (aligned \<times> bytes) result" where
  "aligned_read_buffer a len =
     bindE (aligned_advance a len) (\<lambda>(a, c).
     bindE (mem_read (al_buffer a) (unat c) (unat len)) (\<lambda>b. Inr (a, b)))"

definition aligned_peek_uint8 :: "aligned \<Rightarrow> u8 result" where
  "aligned_peek_uint8 a =
     bindE (aligned_check a 1) (\<lambda>_.
     bindE (mem_read (al_buffer a) (unat (al_cursor a)) 1) (\<lambda>b. Inr (b ! 0)))"

section \<open>Writing\<close>

definition aligned_store :: "aligned \<Rightarrow> u32 \<Rightarrow> bytes \<Rightarrow> aligned result" where
  "aligned_store a c bs =
     bindE (mem_write (al_buffer a) (unat c) bs) (\<lambda>buf. Inr (a\<lparr>al_buffer := buf\<rparr>))"

definition aligned_write_memset :: "aligned \<Rightarrow> u8 \<Rightarrow> u32 \<Rightarrow> aligned result" where
  "aligned_write_memset a val len =
     bindE (aligned_advance a len) (\<lambda>(a, c). aligned_store a c (replicate (unat len) val))"

definition aligned_write_zeroes :: "aligned \<Rightarrow> u32 \<Rightarrow> aligned result" where
  "aligned_write_zeroes a n =
     bindE (aligned_advance a n) (\<lambda>(a, c). aligned_store a c (replicate (unat n) 0))"

definition aligned_write_uint8 :: "aligned \<Rightarrow> u8 \<Rightarrow> aligned result" where
  "aligned_write_uint8 a v = bindE (aligned_advance a 1) (\<lambda>(a, c). aligned_store a c [v])"

definition uint16_bytes :: "u16 \<Rightarrow> bytes" where
  "uint16_bytes v = [ucast (v AND 0x00ff), ucast (drop_bit 8 (v AND 0xff00))]"

definition uint32_bytes :: "u32 \<Rightarrow> bytes" where
  "uint32_bytes v =
     [ucast (v AND 0x000000ff), ucast (drop_bit 8 (v AND 0x0000ff00)),
      ucast (drop_bit 16 (v AND 0x00ff0000)), ucast (drop_bit 24 (v AND 0xff000000))]"

definition uint64_bytes :: "u64 \<Rightarrow> bytes" where
  "uint64_bytes v =
     [ucast (v AND 0x00000000000000ff), ucast (drop_bit 8 (v AND 0x000000000000ff00)),
      ucast (drop_bit 16 (v AND 0x0000000000ff0000)), ucast (drop_bit 24 (v AND 0x00000000ff000000)),
      ucast (drop_bit 32 (v AND 0x000000ff00000000)), ucast (drop_bit 40 (v AND 0x0000ff0000000000)),
      ucast (drop_bit 48 (v AND 0x00ff000000000000)), ucast (drop_bit 56 (v AND 0xff00000000000000))]"

definition aligned_write_uint16 :: "aligned \<Rightarrow> u16 \<Rightarrow> aligned result" where
  "aligned_write_uint16 a v =
     bindE (aligned_advance a 2) (\<lambda>(a, c). aligned_store a c (uint16_bytes v))"

definition aligned_write_uint32 :: "aligned \<Rightarrow> u32 \<Rightarrow> aligned result" where
  "aligned_write_uint32 a v =
     bindE (aligned_advance a 4) (\<lambda>(a, c). aligned_store a c (uint32_bytes v))"

definition aligned_write_uint64 :: "aligned \<Rightarrow> u64 \<Rightarrow> aligned result" where
  "aligned_write_uint64 a v =
     bindE (aligned_advance a 8) (\<lambda>(a, c). aligned_store a c (uint64_bytes v))"

definition aligned_write_float :: "aligned \<Rightarrow> u32 \<Rightarrow> aligned result" where
  "aligned_write_float a v = aligned_write_uint32 a v"

definition aligned_write_buffer :: "aligned \<Rightarrow> bytes \<Rightarrow> u32 \<Rightarrow> aligned result" where
  "aligned_write_buffer a data len =
     bindE (aligned_advance a len) (\<lambda>(a, c).
     bindE (mem_read data 0 (unat len)) (\<lambda>bs. aligned_store a c bs))"

text \<open>The random bytes come from sqlite; the snprintf text from libc, cut at \<open>n - 1\<close>
  characters and terminated (nothing is stored for \<open>n = 0\<close>).\<close>

definition aligned_write_random :: "aligned \<Rightarrow> bytes \<Rightarrow> u32 \<Rightarrow> aligned result" where
  "aligned_write_random a random n =
     bindE (aligned_advance a n) (\<lambda>(a, c). aligned_store a c (take (unat n) random))"

definition aligned_write_snprintf_full_advance :: "aligned \<Rightarrow> u32 \<Rightarrow> bytes \<Rightarrow> aligned result" where
  "aligned_write_snprintf_full_advance a n text =
     bindE (aligned_advance a n) (\<lambda>(a, c).
       aligned_store a c (if n = 0 then [] else take (unat n - 1) text @ [0]))"

definition aligned_write_reverse_uint8 :: "aligned \<Rightarrow> u8 \<Rightarrow> aligned result" where
  "aligned_write_reverse_uint8 a v =
     bindE (aligned_reverse a 1) (\<lambda>(a, c). aligned_store a (c - 1) [v])"

definition aligned_write_reverse_uint16 :: "aligned \<Rightarrow> u16 \<Rightarrow> aligned result" where
  "aligned_write_reverse_uint16 a v =
     bindE (aligned_reverse a 2) (\<lambda>(a, c). aligned_store a (c - 2) (uint16_bytes v))"

section \<open>Little-endian codecs\<close>

text \<open>The byte masks of the code select the bits a shifted byte mask selects.\<close>

lemma byte_masks:
  "(0xff00 :: u16) = push_bit 8 (mask 8)" "(0xff :: u16) = mask 8"
  "(0xff :: u32) = mask 8" "(0xff00 :: u32) = push_bit 8 (mask 8)"
  "(0xff0000 :: u32) = push_bit 16 (mask 8)" "(0xff000000 :: u32) = push_bit 24 (mask 8)"
  "(0xff :: u64) = mask 8" "(0xff00 :: u64) = push_bit 8 (mask 8)"
  "(0xff0000 :: u64) = push_bit 16 (mask 8)" "(0xff000000 :: u64) = push_bit 24 (mask 8)"
  "(0xff00000000 :: u64) = push_bit 32 (mask 8)" "(0xff0000000000 :: u64) = push_bit 40 (mask 8)"
  "(0xff000000000000 :: u64) = push_bit 48 (mask 8)"
  "(0xff00000000000000 :: u64) = push_bit 56 (mask 8)"
  by (simp_all add: mask_eq_exp_minus_1 push_bit_eq_mult)

lemma bit_byte:
  "k + 8 \<le> LENGTH('a) \<Longrightarrow>
   bit (ucast (drop_bit k v AND drop_bit k (push_bit k (mask 8))) :: u8) i \<longleftrightarrow>
     i < 8 \<and> bit (v :: 'a::len word) (k + i)"
  by (auto simp: bit_simps)

lemma bit_byte0:
  "8 \<le> LENGTH('a) \<Longrightarrow>
   bit (ucast (v AND mask 8) :: u8) i \<longleftrightarrow> i < 8 \<and> bit (v :: 'a::len word) i"
  by (auto simp: bit_simps)

lemma bit_placed:
  "k + 8 \<le> LENGTH('a) \<Longrightarrow>
   bit (push_bit k (ucast (b :: u8)) :: 'a::len word) n \<longleftrightarrow> k \<le> n \<and> n < k + 8 \<and> bit b (n - k)"
  by (auto simp: bit_simps dest: bit_imp_le_length)

lemma bit_placed0:
  "8 \<le> LENGTH('a) \<Longrightarrow> bit (ucast (b :: u8) :: 'a::len word) n \<longleftrightarrow> n < 8 \<and> bit b n"
  by (auto simp: bit_simps dest: bit_imp_le_length)

lemmas bit_codec = bit_byte bit_byte0 bit_placed bit_placed0 bit_or_iff

lemma uint16_roundtrip:
  "ucast (uint16_bytes v ! 0) OR push_bit 8 (ucast (uint16_bytes v ! 1)) = v"
  (is "?lhs = v")
proof (rule bit_word_eqI)
  fix n assume "n < LENGTH(16)"
  then have "n < 8 \<or> 8 \<le> n \<and> n < 16" by auto
  then show "bit ?lhs n = bit v n"
    unfolding uint16_bytes_def byte_masks
    by (elim disjE conjE) (auto simp: bit_codec)
qed

lemma uint32_roundtrip:
  "ucast (uint32_bytes v ! 0) OR push_bit 8 (ucast (uint32_bytes v ! 1))
     OR push_bit 16 (ucast (uint32_bytes v ! 2)) OR push_bit 24 (ucast (uint32_bytes v ! 3)) = v"
  (is "?lhs = v")
proof (rule bit_word_eqI)
  fix n assume "n < LENGTH(32)"
  then have "n < 8 \<or> 8 \<le> n \<and> n < 16 \<or> 16 \<le> n \<and> n < 24 \<or> 24 \<le> n \<and> n < 32" by auto
  then show "bit ?lhs n = bit v n"
    unfolding uint32_bytes_def byte_masks
    by (elim disjE conjE) (auto simp: bit_codec)
qed

lemma uint64_roundtrip:
  "ucast (uint64_bytes v ! 0) OR push_bit 8 (ucast (uint64_bytes v ! 1))
     OR push_bit 16 (ucast (uint64_bytes v ! 2)) OR push_bit 24 (ucast (uint64_bytes v ! 3))
     OR push_bit 32 (ucast (uint64_bytes v ! 4)) OR push_bit 40 (ucast (uint64_bytes v ! 5))
     OR push_bit 48 (ucast (uint64_bytes v ! 6)) OR push_bit 56 (ucast (uint64_bytes v ! 7)) = v"
  (is "?lhs = v")
proof (rule bit_word_eqI)
  fix n assume "n < LENGTH(64)"
  then have "n < 8 \<or> 8 \<le> n \<and> n < 16 \<or> 16 \<le> n \<and> n < 24 \<or> 24 \<le> n \<and> n < 32 \<or>
    32 \<le> n \<and> n < 40 \<or> 40 \<le> n \<and> n < 48 \<or> 48 \<le> n \<and> n < 56 \<or> 56 \<le> n \<and> n < 64" by auto
  then show "bit ?lhs n = bit v n"
    unfolding uint64_bytes_def byte_masks
    by (elim disjE conjE) (auto simp: bit_codec)
qed

section \<open>Bounds\<close>

text \<open>A cursor is sound when it and the length lie inside the buffer it was given.\<close>

definition aligned_ok :: "aligned \<Rightarrow> bool" where
  "aligned_ok a \<longleftrightarrow> al_cursor a \<le> al_length a \<and> unat (al_length a) \<le> length (al_buffer a)"

lemma aligned_advance_Inr:
  assumes "unat (al_cursor a) + unat len < 2 ^ 32"
  shows "aligned_advance a len = Inr (a', c) \<longleftrightarrow>
    unat (al_cursor a) + unat len \<le> unat (al_length a) \<and> c = al_cursor a \<and>
    a' = a\<lparr>al_cursor := al_cursor a + len\<rparr>"
  using unat_add_u32 [OF assms]
  by (auto simp: aligned_advance_def word_less_nat_alt not_less)

lemma aligned_advance_Inl:
  assumes "unat (al_cursor a) + unat len < 2 ^ 32"
  shows "aligned_advance a len = Inl e \<longleftrightarrow>
    unat (al_length a) < unat (al_cursor a) + unat len \<and> e = ErrorOutOfBounds"
  using unat_add_u32 [OF assms]
  by (auto simp: aligned_advance_def word_less_nat_alt not_less)

text \<open>
  The arithmetic of the check wraps at 32 bits; where the sum does not wrap, the check is exact,
  and the access behind it stays inside the buffer.
\<close>

definition no_wrap :: "aligned \<Rightarrow> u32 \<Rightarrow> bool" where
  "no_wrap a len \<longleftrightarrow> unat (al_cursor a) + unat len < 2 ^ 32"

lemma advance_fits:
  assumes "aligned_ok a" "no_wrap a len" "aligned_advance a len = Inr (a', c)"
  shows "aligned_ok a' \<and> c = al_cursor a \<and> a' = a\<lparr>al_cursor := al_cursor a + len\<rparr> \<and>
    unat c + unat len \<le> unat (al_length a) \<and> unat c + unat len \<le> length (al_buffer a)"
  using assms(1,3) assms(2) [unfolded no_wrap_def]
  by (auto simp: aligned_advance_Inr aligned_ok_def word_le_nat_alt unat_add_u32)

lemma read_bytes_spec:
  assumes "aligned_ok a" "no_wrap a len"
  shows "bindE (aligned_advance a len) (\<lambda>(a, c).
      bindE (mem_read (al_buffer a) (unat c) (unat len)) (\<lambda>b. f a b)) =
    (if unat (al_cursor a) + unat len \<le> unat (al_length a)
     then f (a\<lparr>al_cursor := al_cursor a + len\<rparr>) (slice (al_buffer a) (unat (al_cursor a)) (unat len))
     else Inl ErrorOutOfBounds)"
proof (cases "aligned_advance a len")
  case (Inl e)
  then have "unat (al_length a) < unat (al_cursor a) + unat len" "e = ErrorOutOfBounds"
    using assms(2) by (simp_all add: aligned_advance_Inl no_wrap_def)
  then show ?thesis using Inl by simp
next
  case (Inr r)
  obtain a' c where r: "r = (a', c)" by (cases r)
  note fits = advance_fits [OF assms Inr [unfolded r]]
  show ?thesis using fits Inr r by (auto simp: mem_read_def)
qed

lemma write_bytes_spec:
  assumes "aligned_ok a" "no_wrap a len" "length bs = unat len"
  shows "bindE (aligned_advance a len) (\<lambda>(a, c). aligned_store a c bs) =
    (if unat (al_cursor a) + unat len \<le> unat (al_length a)
     then Inr (a\<lparr>al_cursor := al_cursor a + len,
                 al_buffer := overwrite (al_buffer a) (unat (al_cursor a)) bs\<rparr>)
     else Inl ErrorOutOfBounds)"
proof (cases "aligned_advance a len")
  case (Inl e)
  then have "unat (al_length a) < unat (al_cursor a) + unat len" "e = ErrorOutOfBounds"
    using assms(2) by (simp_all add: aligned_advance_Inl no_wrap_def)
  then show ?thesis using Inl by simp
next
  case (Inr r)
  obtain a' c where r: "r = (a', c)" by (cases r)
  note fits = advance_fits [OF assms(1,2) Inr [unfolded r]]
  show ?thesis using fits Inr r assms(3) by (auto simp: aligned_store_def mem_write_def)
qed

section \<open>The contract of a fixed-width field\<close>

text \<open>
  A field of \<open>width\<close> bytes with its encoding; \<open>rd\<close> and \<open>wr\<close> are the
  reading and writing operation of the cursor for it. Every field type of the protocol code is
  an instance, so the laws below hold for all of them.
\<close>

locale field_codec =
  fixes width :: u32
    and enc :: "'v \<Rightarrow> bytes"
    and dec :: "bytes \<Rightarrow> 'v"
    and rd :: "aligned \<Rightarrow> (aligned \<times> 'v) result"
    and wr :: "aligned \<Rightarrow> 'v \<Rightarrow> aligned result"
  assumes enc_length: "length (enc v) = unat width"
    and dec_enc: "dec (enc v) = v"
    and rd_eq: "rd a = bindE (aligned_advance a width) (\<lambda>(a, c).
        bindE (mem_read (al_buffer a) (unat c) (unat width)) (\<lambda>b. Inr (a, dec b)))"
    and wr_eq: "wr a v = bindE (aligned_advance a width) (\<lambda>(a, c). aligned_store a c (enc v))"
begin

lemma rd_spec:
  assumes "aligned_ok a" "no_wrap a width"
  shows "rd a =
    (if unat (al_cursor a) + unat width \<le> unat (al_length a)
     then Inr (a\<lparr>al_cursor := al_cursor a + width\<rparr>,
               dec (slice (al_buffer a) (unat (al_cursor a)) (unat width)))
     else Inl ErrorOutOfBounds)"
  unfolding rd_eq by (rule read_bytes_spec [OF assms])

lemma wr_spec:
  assumes "aligned_ok a" "no_wrap a width"
  shows "wr a v =
    (if unat (al_cursor a) + unat width \<le> unat (al_length a)
     then Inr (a\<lparr>al_cursor := al_cursor a + width,
                 al_buffer := overwrite (al_buffer a) (unat (al_cursor a)) (enc v)\<rparr>)
     else Inl ErrorOutOfBounds)"
  unfolding wr_eq by (rule write_bytes_spec [OF assms enc_length])

text \<open>A read or write either throws the bounds error or stays inside the buffer.\<close>

lemma rd_safe:
  assumes "aligned_ok a" "no_wrap a width"
  shows "rd a \<noteq> Inl UndefinedBehaviour"
  using assms by (simp add: rd_spec)

lemma wr_safe:
  assumes "aligned_ok a" "no_wrap a width"
  shows "wr a v \<noteq> Inl UndefinedBehaviour"
  using assms by (simp add: wr_spec)

lemma wr_ok:
  assumes "aligned_ok a" "no_wrap a width" "wr a v = Inr a'"
  shows "aligned_ok a'"
  using assms enc_length [of v] unat_add_u32 [of "al_cursor a" width]
  by (auto simp: wr_spec aligned_ok_def no_wrap_def word_le_nat_alt split: if_splits)

text \<open>What was written is read back from the same position.\<close>

lemma wr_rd:
  assumes "aligned_ok a" "no_wrap a width" "wr a v = Inr a'"
  shows "rd (aligned_reset_to a' (al_cursor a)) = Inr (a', v)"
proof -
  let ?c = "unat (al_cursor a)"
  have f: "?c + unat width \<le> unat (al_length a)"
    and a': "a' = a\<lparr>al_cursor := al_cursor a + width,
                  al_buffer := overwrite (al_buffer a) ?c (enc v)\<rparr>"
    using assms(3) by (auto simp: wr_spec [OF assms(1,2)] split: if_splits)
  have fb: "?c + length (enc v) \<le> length (al_buffer a)"
    using f assms(1) enc_length [of v] by (simp add: aligned_ok_def)
  let ?r = "aligned_reset_to a' (al_cursor a)"
  have ok: "aligned_ok ?r" and nw: "no_wrap ?r width"
    using assms(1,2) fb by (simp_all add: a' aligned_reset_to_def aligned_ok_def no_wrap_def)
  have "slice (overwrite (al_buffer a) ?c (enc v)) ?c (unat width) = enc v"
    using slice_overwrite_same [OF fb] enc_length [of v] by simp
  then show ?thesis
    unfolding rd_spec [OF ok nw] using f by (simp add: a' aligned_reset_to_def dec_enc)
qed

text \<open>A write leaves every byte before the cursor and past the field alone.\<close>

lemma wr_frame:
  assumes "aligned_ok a" "no_wrap a width" "wr a v = Inr a'" "i < length (al_buffer a)"
    "i < unat (al_cursor a) \<or> unat (al_cursor a) + unat width \<le> i"
  shows "al_buffer a' ! i = al_buffer a ! i"
proof -
  have "unat (al_cursor a) + unat width \<le> unat (al_length a)"
    and a': "al_buffer a' = overwrite (al_buffer a) (unat (al_cursor a)) (enc v)"
    using assms(3) by (auto simp: wr_spec [OF assms(1,2)] split: if_splits)
  then have "unat (al_cursor a) + length (enc v) \<le> length (al_buffer a)"
    using assms(1) enc_length [of v] by (simp add: aligned_ok_def)
  then show ?thesis using assms(4,5) enc_length [of v] by (auto simp: a' overwrite_nth)
qed

end

interpretation u8c: field_codec 1 "\<lambda>v. [v]" "\<lambda>b. b ! 0" aligned_read_uint8 aligned_write_uint8
  by unfold_locales (simp_all add: aligned_read_uint8_def aligned_write_uint8_def)

interpretation u16c: field_codec 2 uint16_bytes
  "\<lambda>b. ucast (b ! 0) OR push_bit 8 (ucast (b ! 1))" aligned_read_uint16 aligned_write_uint16
  by unfold_locales
    (simp add: uint16_bytes_def, rule uint16_roundtrip,
     simp_all add: aligned_read_uint16_def aligned_write_uint16_def)

interpretation u32c: field_codec 4 uint32_bytes
  "\<lambda>b. ucast (b ! 0) OR push_bit 8 (ucast (b ! 1)) OR push_bit 16 (ucast (b ! 2))
       OR push_bit 24 (ucast (b ! 3))" aligned_read_uint32 aligned_write_uint32
  by unfold_locales
    (simp add: uint32_bytes_def, rule uint32_roundtrip,
     simp_all add: aligned_read_uint32_def aligned_write_uint32_def)

interpretation u64c: field_codec 8 uint64_bytes
  "\<lambda>b. ucast (b ! 0) OR push_bit 8 (ucast (b ! 1)) OR push_bit 16 (ucast (b ! 2))
       OR push_bit 24 (ucast (b ! 3)) OR push_bit 32 (ucast (b ! 4)) OR push_bit 40 (ucast (b ! 5))
       OR push_bit 48 (ucast (b ! 6)) OR push_bit 56 (ucast (b ! 7))"
  aligned_read_uint64 aligned_write_uint64
  by unfold_locales
    (simp add: uint64_bytes_def, rule uint64_roundtrip,
     simp_all add: aligned_read_uint64_def aligned_write_uint64_def)

end
