(* ===== verification/Crc.thy ===== *)
theory Crc
  imports Aligned
begin

text \<open>
  \<^verbatim>\<open>non_master/crc.c\<close>: the checksum at the end of every packet. The table-driven
  update is shown equal to the bit-by-bit division by the reflected polynomial
  \<open>0xEDB88320\<close>, for every table entry and every input, and the checksum is shown to
  differ whenever two messages of one length differ in a single byte.
\<close>

section \<open>The code\<close>

definition crc_table :: "u32 list" where
  "crc_table = [
    0x00000000, 0x77073096, 0xEE0E612C, 0x990951BA, 0x076DC419, 0x706AF48F, 0xE963A535, 0x9E6495A3,
    0x0EDB8832, 0x79DCB8A4, 0xE0D5E91E, 0x97D2D988, 0x09B64C2B, 0x7EB17CBD, 0xE7B82D07, 0x90BF1D91,
    0x1DB71064, 0x6AB020F2, 0xF3B97148, 0x84BE41DE, 0x1ADAD47D, 0x6DDDE4EB, 0xF4D4B551, 0x83D385C7,
    0x136C9856, 0x646BA8C0, 0xFD62F97A, 0x8A65C9EC, 0x14015C4F, 0x63066CD9, 0xFA0F3D63, 0x8D080DF5,
    0x3B6E20C8, 0x4C69105E, 0xD56041E4, 0xA2677172, 0x3C03E4D1, 0x4B04D447, 0xD20D85FD, 0xA50AB56B,
    0x35B5A8FA, 0x42B2986C, 0xDBBBC9D6, 0xACBCF940, 0x32D86CE3, 0x45DF5C75, 0xDCD60DCF, 0xABD13D59,
    0x26D930AC, 0x51DE003A, 0xC8D75180, 0xBFD06116, 0x21B4F4B5, 0x56B3C423, 0xCFBA9599, 0xB8BDA50F,
    0x2802B89E, 0x5F058808, 0xC60CD9B2, 0xB10BE924, 0x2F6F7C87, 0x58684C11, 0xC1611DAB, 0xB6662D3D,
    0x76DC4190, 0x01DB7106, 0x98D220BC, 0xEFD5102A, 0x71B18589, 0x06B6B51F, 0x9FBFE4A5, 0xE8B8D433,
    0x7807C9A2, 0x0F00F934, 0x9609A88E, 0xE10E9818, 0x7F6A0DBB, 0x086D3D2D, 0x91646C97, 0xE6635C01,
    0x6B6B51F4, 0x1C6C6162, 0x856530D8, 0xF262004E, 0x6C0695ED, 0x1B01A57B, 0x8208F4C1, 0xF50FC457,
    0x65B0D9C6, 0x12B7E950, 0x8BBEB8EA, 0xFCB9887C, 0x62DD1DDF, 0x15DA2D49, 0x8CD37CF3, 0xFBD44C65,
    0x4DB26158, 0x3AB551CE, 0xA3BC0074, 0xD4BB30E2, 0x4ADFA541, 0x3DD895D7, 0xA4D1C46D, 0xD3D6F4FB,
    0x4369E96A, 0x346ED9FC, 0xAD678846, 0xDA60B8D0, 0x44042D73, 0x33031DE5, 0xAA0A4C5F, 0xDD0D7CC9,
    0x5005713C, 0x270241AA, 0xBE0B1010, 0xC90C2086, 0x5768B525, 0x206F85B3, 0xB966D409, 0xCE61E49F,
    0x5EDEF90E, 0x29D9C998, 0xB0D09822, 0xC7D7A8B4, 0x59B33D17, 0x2EB40D81, 0xB7BD5C3B, 0xC0BA6CAD,
    0xEDB88320, 0x9ABFB3B6, 0x03B6E20C, 0x74B1D29A, 0xEAD54739, 0x9DD277AF, 0x04DB2615, 0x73DC1683,
    0xE3630B12, 0x94643B84, 0x0D6D6A3E, 0x7A6A5AA8, 0xE40ECF0B, 0x9309FF9D, 0x0A00AE27, 0x7D079EB1,
    0xF00F9344, 0x8708A3D2, 0x1E01F268, 0x6906C2FE, 0xF762575D, 0x806567CB, 0x196C3671, 0x6E6B06E7,
    0xFED41B76, 0x89D32BE0, 0x10DA7A5A, 0x67DD4ACC, 0xF9B9DF6F, 0x8EBEEFF9, 0x17B7BE43, 0x60B08ED5,
    0xD6D6A3E8, 0xA1D1937E, 0x38D8C2C4, 0x4FDFF252, 0xD1BB67F1, 0xA6BC5767, 0x3FB506DD, 0x48B2364B,
    0xD80D2BDA, 0xAF0A1B4C, 0x36034AF6, 0x41047A60, 0xDF60EFC3, 0xA867DF55, 0x316E8EEF, 0x4669BE79,
    0xCB61B38C, 0xBC66831A, 0x256FD2A0, 0x5268E236, 0xCC0C7795, 0xBB0B4703, 0x220216B9, 0x5505262F,
    0xC5BA3BBE, 0xB2BD0B28, 0x2BB45A92, 0x5CB36A04, 0xC2D7FFA7, 0xB5D0CF31, 0x2CD99E8B, 0x5BDEAE1D,
    0x9B64C2B0, 0xEC63F226, 0x756AA39C, 0x026D930A, 0x9C0906A9, 0xEB0E363F, 0x72076785, 0x05005713,
    0x95BF4A82, 0xE2B87A14, 0x7BB12BAE, 0x0CB61B38, 0x92D28E9B, 0xE5D5BE0D, 0x7CDCEFB7, 0x0BDBDF21,
    0x86D3D2D4, 0xF1D4E242, 0x68DDB3F8, 0x1FDA836E, 0x81BE16CD, 0xF6B9265B, 0x6FB077E1, 0x18B74777,
    0x88085AE6, 0xFF0F6A70, 0x66063BCA, 0x11010B5C, 0x8F659EFF, 0xF862AE69, 0x616BFFD3, 0x166CCF45,
    0xA00AE278, 0xD70DD2EE, 0x4E048354, 0x3903B3C2, 0xA7672661, 0xD06016F7, 0x4969474D, 0x3E6E77DB,
    0xAED16A4A, 0xD9D65ADC, 0x40DF0B66, 0x37D83BF0, 0xA9BCAE53, 0xDEBB9EC5, 0x47B2CF7F, 0x30B5FFE9,
    0xBDBDF21C, 0xCABAC28A, 0x53B39330, 0x24B4A3A6, 0xBAD03605, 0xCDD70693, 0x54DE5729, 0x23D967BF,
    0xB3667A2E, 0xC4614AB8, 0x5D681B02, 0x2A6F2B94, 0xB40BBE37, 0xC30C8EA1, 0x5A05DF1B, 0x2D02EF8D]"

fun crc_update :: "bytes \<Rightarrow> u32 \<Rightarrow> u32" where
  "crc_update [] crc = crc"
| "crc_update (b # data) crc =
     crc_update data (drop_bit 8 crc XOR crc_table ! unat (ucast b XOR (crc AND 0xff)))"

definition crc_calc16 :: "bytes \<Rightarrow> u32 \<Rightarrow> u16" where
  "crc_calc16 data key =
     (if key = 0 then 0
      else (let crc = crc_update (uint32_bytes key) 0xffffffff;
                crc = crc_update data crc
            in ucast (NOT crc AND 0xffff)))"

definition crc_calc16_network :: "bytes \<Rightarrow> u32 \<Rightarrow> u16" where
  "crc_calc16_network data key = toNetworkUint16 (crc_calc16 data key)"

definition crc_calc32 :: "bytes \<Rightarrow> u32" where
  "crc_calc32 data = NOT (crc_update data 0xffffffff)"

definition crc_calc32_network :: "bytes \<Rightarrow> u32" where
  "crc_calc32_network data = toNetworkUint32 (crc_calc32 data)"

section \<open>The reference: division by the polynomial, bit by bit\<close>

definition crc_bit :: "u32 \<Rightarrow> u32" where
  "crc_bit c = drop_bit 1 c XOR (if bit c 0 then 0xEDB88320 else 0)"

definition crc_byte :: "u32 \<Rightarrow> u32" where
  "crc_byte c = crc_bit (crc_bit (crc_bit (crc_bit (crc_bit (crc_bit (crc_bit (crc_bit c)))))))"

fun crc_ref :: "bytes \<Rightarrow> u32 \<Rightarrow> u32" where
  "crc_ref [] crc = crc"
| "crc_ref (b # data) crc = crc_ref data (crc_byte (crc XOR ucast b))"

text \<open>Every table entry is the reference division of its index.\<close>

lemma crc_table_entries: "crc_table = map crc_byte (map of_nat [0..<256])"
  by (simp add: crc_byte_def crc_bit_def crc_table_def upt_rec)

lemma crc_table_nth: "unat i < 256 \<Longrightarrow> crc_table ! unat (i :: u32) = crc_byte i"
proof -
  assume i: "unat i < 256"
  then have "map crc_byte (map of_nat [0..<256]) ! unat i = crc_byte (of_nat ([0..<256] ! unat i))"
    by (simp only: nth_map length_map length_upt diff_zero)
  also have "[0..<256] ! unat i = unat i" using i by (subst nth_upt) simp_all
  finally have "map crc_byte (map of_nat [0..<256]) ! unat i = crc_byte (of_nat (unat i))" .
  moreover have "of_nat (unat i) = i" by simp
  ultimately show ?thesis by (simp only: crc_table_entries)
qed

lemma crc_bit_xor: "crc_bit (a XOR b) = crc_bit a XOR crc_bit b"
  by (rule bit_word_eqI) (auto simp: crc_bit_def bit_simps)

lemma crc_byte_xor: "crc_byte (a XOR b) = crc_byte a XOR crc_byte b"
  by (simp add: crc_byte_def crc_bit_xor)

lemma crc_bit_shift: "\<not> bit c 0 \<Longrightarrow> crc_bit c = drop_bit 1 c"
  by (simp add: crc_bit_def)

text \<open>A register whose low byte is zero only shifts.\<close>

lemma crc_byte_shift:
  assumes "\<And>i. i < 8 \<Longrightarrow> \<not> bit c i"
  shows "crc_byte c = drop_bit 8 c"
proof -
  have step: "crc_bit (drop_bit i c) = drop_bit (Suc i) c" if "i < 8" for i
    using assms [OF that] by (simp add: crc_bit_shift bit_simps)
  show ?thesis
    using step [of 0] step [of 1] step [of 2] step [of 3] step [of 4] step [of 5] step [of 6]
      step [of 7]
    by (simp add: crc_byte_def eval_nat_numeral)
qed

lemma crc_byte_table:
  "crc_byte (c XOR ucast b) = drop_bit 8 c XOR crc_table ! unat (ucast (b::u8) XOR (c AND 0xff))"
proof -
  let ?hi = "c AND NOT 0xff" and ?lo = "ucast b XOR (c AND 0xff)"
  have m: "(0xff :: u32) = mask 8" by (simp add: mask_eq_exp_minus_1)
  have split: "c XOR ucast b = ?hi XOR ?lo"
    by (rule bit_word_eqI) (auto simp: bit_simps)
  have hi: "crc_byte ?hi = drop_bit 8 c"
  proof -
    have "crc_byte ?hi = drop_bit 8 ?hi"
      by (rule crc_byte_shift) (simp add: m bit_simps)
    also have "\<dots> = drop_bit 8 c"
      unfolding m by (rule bit_word_eqI) (auto simp: bit_simps dest: bit_imp_le_length)
    finally show ?thesis .
  qed
  have "?lo = take_bit 8 ?lo"
    unfolding m by (rule bit_word_eqI) (auto simp: bit_simps dest: bit_imp_le_length)
  then have "unat ?lo = unat (take_bit 8 ?lo)" by (rule arg_cong)
  also have "\<dots> = take_bit 8 (unat ?lo)" by (rule unsigned_take_bit_eq)
  also have "\<dots> < 2 ^ 8" by (rule take_bit_nat_less_exp)
  finally have "unat ?lo < 256" by simp
  then show ?thesis using split hi crc_table_nth [of ?lo] by (simp add: crc_byte_xor)
qed

lemma crc_update_eq_ref: "crc_update data crc = crc_ref data crc"
  by (induction data arbitrary: crc) (simp_all add: crc_byte_table)

lemma crc_update_append: "crc_update (xs @ ys) crc = crc_update ys (crc_update xs crc)"
  by (induction xs arbitrary: crc) simp_all

section \<open>Error detection\<close>

text \<open>One division step can be undone: the top bit of the result tells the bit shifted out.\<close>

lemma crc_bit_inj: "crc_bit a = crc_bit b \<Longrightarrow> a = b"
proof -
  assume eq: "crc_bit a = crc_bit b"
  have top: "bit (crc_bit c) 31 \<longleftrightarrow> bit c 0" for c
    by (auto simp: crc_bit_def bit_simps dest: bit_imp_le_length)
  have b0: "bit a 0 = bit b 0" using top [of a] top [of b] eq by simp
  then have "drop_bit 1 a = drop_bit 1 b"
    using eq by (auto simp: crc_bit_def xor_right_cancel split: if_splits)
  show "a = b"
  proof (rule bit_word_eqI)
    fix n
    show "bit a n = bit b n"
    proof (cases n)
      case 0
      with b0 show ?thesis by simp
    next
      case (Suc k)
      from \<open>drop_bit 1 a = drop_bit 1 b\<close> have "bit (drop_bit 1 a) k = bit (drop_bit 1 b) k" by simp
      with Suc show ?thesis by (simp add: bit_simps)
    qed
  qed
qed

lemma crc_byte_inj: "crc_byte a = crc_byte b \<Longrightarrow> a = b"
  unfolding crc_byte_def by (blast dest: crc_bit_inj)

lemma crc_ref_inj: "crc_ref data a = crc_ref data b \<Longrightarrow> a = b"
proof (induction data arbitrary: a b)
  case (Cons x data)
  then have "crc_byte (a XOR ucast x) = crc_byte (b XOR ucast x)" by simp
  then have "a XOR ucast x = b XOR ucast x" by (rule crc_byte_inj)
  then show ?case by (simp add: xor_right_cancel)
qed simp

lemma crc_ref_byte_change:
  assumes "b \<noteq> b'"
  shows "crc_ref (xs @ b # ys) c \<noteq> crc_ref (xs @ b' # ys) c"
proof -
  have app: "crc_ref (xs @ zs) c = crc_ref zs (crc_ref xs c)" for zs
    by (simp add: crc_update_append flip: crc_update_eq_ref)
  have "(ucast b :: u32) \<noteq> ucast b'"
    using assms unat_ucast_up [of b, where 'b = 32] unat_ucast_up [of b', where 'b = 32]
    by (auto simp: word_unat_eq_iff)
  then show ?thesis
    unfolding app by (auto simp: xor_left_cancel dest!: crc_ref_inj crc_byte_inj)
qed

lemma crc_calc32_byte_change:
  assumes "b \<noteq> b'"
  shows "crc_calc32 (xs @ b # ys) \<noteq> crc_calc32 (xs @ b' # ys)"
    "crc_calc32_network (xs @ b # ys) \<noteq> crc_calc32_network (xs @ b' # ys)"
proof -
  show ne: "crc_calc32 (xs @ b # ys) \<noteq> crc_calc32 (xs @ b' # ys)"
    using crc_ref_byte_change [OF assms, of xs ys "0xffffffff"] by (simp add: crc_calc32_def crc_update_eq_ref)
  then show "crc_calc32_network (xs @ b # ys) \<noteq> crc_calc32_network (xs @ b' # ys)"
    by (metis crc_calc32_network_def toNetworkUint32_involution)
qed

end
