(* ===== verification/Bits.thy ===== *)
theory Bits
  imports Prelude
begin

text \<open>
  \<^verbatim>\<open>common/bit.c\<close> and the macros of \<^verbatim>\<open>common/bit.h\<close>: rounding to powers of two
  by smearing the top bit downwards. Shown: on every argument whose result is representable the
  smearing computes the least power of two that is large enough, so the capacities the string
  and table code derive from it are powers of two above the requested length.
\<close>

section \<open>The operations\<close>

definition bit_next_pow2_u32 :: "u32 \<Rightarrow> u32" where
  "bit_next_pow2_u32 n =
     (let n = n - 1;
          n = n OR drop_bit 1 n;
          n = n OR drop_bit 2 n;
          n = n OR drop_bit 4 n;
          n = n OR drop_bit 8 n;
          n = n OR drop_bit 16 n
      in n + 1)"

definition bit_next_pow2_u64 :: "u64 \<Rightarrow> u64" where
  "bit_next_pow2_u64 n =
     (let n = n - 1;
          n = n OR drop_bit 1 n;
          n = n OR drop_bit 2 n;
          n = n OR drop_bit 4 n;
          n = n OR drop_bit 8 n;
          n = n OR drop_bit 16 n;
          n = n OR drop_bit 32 n
      in n + 1)"

text \<open>The signed variants cast to unsigned and back, which keeps the bits.\<close>

definition bit_next_pow2_i32 :: "i32 \<Rightarrow> i32" where
  "bit_next_pow2_i32 n = bit_next_pow2_u32 n"

definition bit_next_pow2_i64 :: "u64 \<Rightarrow> u64" where
  "bit_next_pow2_i64 n = bit_next_pow2_u64 n"

definition bit_is_pow2 :: "u32 \<Rightarrow> bool" where
  "bit_is_pow2 n \<longleftrightarrow> n \<noteq> 0 \<and> n AND (n - 1) = 0"

definition bit_pow2_greater_than :: "u32 \<Rightarrow> u32" where
  "bit_pow2_greater_than n = (if bit_is_pow2 n then push_bit 1 n else bit_next_pow2_u32 n)"

definition bit_pow2_greater_or_equal :: "u32 \<Rightarrow> u32" where
  "bit_pow2_greater_or_equal n = (if bit_is_pow2 n then n else bit_next_pow2_u32 n)"

section \<open>Smearing\<close>

text \<open>\<open>smeared w x y\<close>: bit \<open>i\<close> of \<open>y\<close> is set iff some bit of \<open>x\<close> in
  the window of \<open>w\<close> bits from \<open>i\<close> upwards is.\<close>

definition smeared :: "nat \<Rightarrow> 'a::len word \<Rightarrow> 'a word \<Rightarrow> bool" where
  "smeared w x y \<longleftrightarrow> (\<forall>i. bit y i \<longleftrightarrow> (\<exists>j. i \<le> j \<and> j < i + w \<and> bit x j))"

lemma smeared_refl: "smeared 1 x x"
  unfolding smeared_def
proof
  fix i
  show "bit x i \<longleftrightarrow> (\<exists>j. i \<le> j \<and> j < i + 1 \<and> bit x j)"
    by (auto simp: less_Suc_eq_le intro: le_antisym dest: le_antisym)
qed

lemma smeared_step:
  assumes "smeared w x y"
  shows "smeared (w + w) x (y OR drop_bit w y)"
  unfolding smeared_def
proof
  fix i
  have win: "(\<exists>j. i \<le> j \<and> j < i + (w + w) \<and> bit x j) \<longleftrightarrow>
      (\<exists>j. i \<le> j \<and> j < i + w \<and> bit x j) \<or> (\<exists>j. i + w \<le> j \<and> j < i + w + w \<and> bit x j)"
    (is "?L \<longleftrightarrow> ?R")
  proof
    assume ?L
    then obtain j where j: "i \<le> j" "j < i + (w + w)" "bit x j" by blast
    show ?R
    proof (cases "j < i + w")
      case True
      with j show ?thesis by blast
    next
      case False
      then have "i + w \<le> j" "j < i + w + w" using j by simp_all
      with j(3) show ?thesis by blast
    qed
  next
    assume ?R
    then show ?L by (auto intro: le_trans trans_less_add1) (metis add.assoc add_leD1 trans_less_add1)+
  qed
  have "bit (y OR drop_bit w y) i \<longleftrightarrow> bit y i \<or> bit y (i + w)"
    by (simp add: bit_simps add.commute)
  then show "bit (y OR drop_bit w y) i \<longleftrightarrow> (\<exists>j. i \<le> j \<and> j < i + (w + w) \<and> bit x j)"
    using assms by (simp add: smeared_def win)
qed

lemma smeared_full:
  fixes x y :: "'a::len word"
  assumes sm: "smeared w x y" and w: "LENGTH('a) \<le> w" and t: "bit x t"
    and top: "\<And>j. bit x j \<Longrightarrow> j \<le> t"
  shows "y = mask (Suc t)"
proof (rule bit_word_eqI)
  fix i assume i: "i < LENGTH('a)"
  have tl: "t < LENGTH('a)" using t by (rule bit_imp_le_length)
  have "bit y i \<longleftrightarrow> i \<le> t"
  proof
    assume "bit y i"
    then show "i \<le> t" using sm top by (auto simp: smeared_def intro: le_trans)
  next
    assume "i \<le> t"
    moreover have "t < i + w" using tl w by simp
    ultimately show "bit y i" using sm t by (auto simp: smeared_def)
  qed
  then show "bit y i \<longleftrightarrow> bit (mask (Suc t) :: 'a word) i"
    using i by (simp add: bit_mask_iff less_Suc_eq_le)
qed

lemma smeared_zero: "smeared w 0 y \<Longrightarrow> y = 0"
  by (rule bit_word_eqI) (simp add: smeared_def)

lemma smear_u32:
  fixes n :: u32
  defines "a \<equiv> n OR drop_bit 1 n"
  defines "b \<equiv> a OR drop_bit 2 a"
  defines "c \<equiv> b OR drop_bit 4 b"
  defines "d \<equiv> c OR drop_bit 8 c"
  defines "e \<equiv> d OR drop_bit 16 d"
  shows "smeared 32 n e"
proof -
  have "smeared 2 n a" using smeared_step [OF smeared_refl [of n]] by (simp add: a_def numeral_2_eq_2)
  from smeared_step [OF this] have "smeared 4 n b" by (simp add: b_def)
  from smeared_step [OF this] have "smeared 8 n c" by (simp add: c_def)
  from smeared_step [OF this] have "smeared 16 n d" by (simp add: d_def)
  from smeared_step [OF this] show ?thesis by (simp add: e_def)
qed

lemma smear_u64:
  fixes n :: u64
  defines "a \<equiv> n OR drop_bit 1 n"
  defines "b \<equiv> a OR drop_bit 2 a"
  defines "c \<equiv> b OR drop_bit 4 b"
  defines "d \<equiv> c OR drop_bit 8 c"
  defines "e \<equiv> d OR drop_bit 16 d"
  defines "f \<equiv> e OR drop_bit 32 e"
  shows "smeared 64 n f"
proof -
  have "smeared 2 n a" using smeared_step [OF smeared_refl [of n]] by (simp add: a_def numeral_2_eq_2)
  from smeared_step [OF this] have "smeared 4 n b" by (simp add: b_def)
  from smeared_step [OF this] have "smeared 8 n c" by (simp add: c_def)
  from smeared_step [OF this] have "smeared 16 n d" by (simp add: d_def)
  from smeared_step [OF this] have "smeared 32 n e" by (simp add: e_def)
  from smeared_step [OF this] show ?thesis by (simp add: f_def)
qed

text \<open>The top bit of a non-zero word, and the range it puts the word in.\<close>

lemma top_bit_range:
  fixes x :: "'a::len word"
  assumes "x \<noteq> 0"
  obtains t where "bit x t" "\<And>j. bit x j \<Longrightarrow> j \<le> t" "2 ^ t \<le> unat x" "unat x < 2 ^ Suc t"
proof -
  let ?B = "{j. bit x j}"
  have fin: "finite ?B"
    by (rule finite_subset [of _ "{..<LENGTH('a)}"]) (auto dest: bit_imp_le_length)
  have ne: "?B \<noteq> {}"
  proof
    assume "?B = {}"
    then have "x = 0" by (intro bit_word_eqI) auto
    with assms show False by simp
  qed
  define t where "t = Max ?B"
  have t: "bit x t" using Max_in [OF fin ne] by (simp add: t_def)
  have top: "j \<le> t" if "bit x j" for j using Max_ge [OF fin] that by (simp add: t_def)
  have "unat x div 2 ^ Suc t = 0"
  proof -
    have "drop_bit (Suc t) x = 0"
      by (rule bit_word_eqI) (use top in \<open>fastforce simp: bit_simps\<close>)
    then have "drop_bit (Suc t) (unat x) = 0" by (metis unat_drop_bit_eq unat_0)
    then show ?thesis by (simp add: drop_bit_eq_div)
  qed
  then have hi: "unat x < 2 ^ Suc t" by (metis div_eq_0_iff power_not_zero zero_neq_numeral)
  have lo: "2 ^ t \<le> unat x"
  proof (rule ccontr)
    assume "\<not> 2 ^ t \<le> unat x"
    then have "unat x div 2 ^ t = 0" by simp
    moreover have "odd (unat x div 2 ^ t)"
    proof -
      have "bit (unat x) t" using t by (simp add: bit_unsigned_iff bit_imp_le_length)
      then show ?thesis by (simp add: bit_iff_odd)
    qed
    ultimately show False by simp
  qed
  show ?thesis using that [OF t top lo hi] .
qed

section \<open>Correctness\<close>

lemma smear_succ:
  fixes n y :: "'a::len word"
  assumes sm: "smeared w (n - 1) y" and w: "LENGTH('a) \<le> w"
    and n: "1 < unat n" "unat n \<le> 2 ^ (LENGTH('a) - 1)"
  shows "\<exists>k. unat (y + 1) = 2 ^ k \<and> unat n \<le> 2 ^ k \<and> 2 ^ k < 2 * unat n"
proof -
  have n0: "n \<noteq> 0" using n(1) by auto
  have u: "unat (n - 1) = unat n - 1" using n0 by (simp add: unat_minus_one)
  with n(1) have "n - 1 \<noteq> 0" by (metis diff_is_0_eq not_le unat_0)
  then obtain t where t: "bit (n - 1) t" "\<And>j. bit (n - 1) j \<Longrightarrow> j \<le> t"
      "2 ^ t \<le> unat (n - 1)" "unat (n - 1) < 2 ^ Suc t"
    by (rule top_bit_range) blast
  have y: "y = mask (Suc t)" using smeared_full [OF sm w t(1) t(2)] .
  have "(2::nat) ^ t < 2 ^ (LENGTH('a) - 1)" using t(3) u n by linarith
  then have lt: "Suc t < LENGTH('a)" using n by simp
  have "y + 1 = 2 ^ Suc t" unfolding y by (simp add: mask_eq_decr_exp)
  then have "unat (y + 1) = 2 ^ Suc t" using lt by (metis unat_power2)
  moreover have "unat n \<le> 2 ^ Suc t" using t(4) u by linarith
  moreover have "2 ^ Suc t < 2 * unat n" using t(3) u n(1) by simp
  ultimately show ?thesis by blast
qed

lemma next_pow2_u32_spec:
  assumes "0 < unat n" "unat n \<le> 2 ^ 31"
  shows "\<exists>k. unat (bit_next_pow2_u32 n) = 2 ^ k \<and> unat n \<le> 2 ^ k \<and> 2 ^ k < 2 * unat n"
proof (cases "unat n = 1")
  case True
  then have "n = 1" by (simp only: unat_one_iff)
  then show ?thesis by (intro exI [of _ 0]) (simp add: bit_next_pow2_u32_def)
next
  case False
  with assms have gt: "1 < unat n" by simp
  show ?thesis
    unfolding bit_next_pow2_u32_def Let_def
    by (rule smear_succ [OF smear_u32]) (use assms gt in simp_all)
qed

lemma next_pow2_u64_spec:
  assumes "0 < unat n" "unat n \<le> 2 ^ 63"
  shows "\<exists>k. unat (bit_next_pow2_u64 n) = 2 ^ k \<and> unat n \<le> 2 ^ k \<and> 2 ^ k < 2 * unat n"
proof (cases "unat n = 1")
  case True
  then have "n = 1" by (simp only: unat_one_iff)
  then show ?thesis by (intro exI [of _ 0]) (simp add: bit_next_pow2_u64_def)
next
  case False
  with assms have gt: "1 < unat n" by simp
  show ?thesis
    unfolding bit_next_pow2_u64_def Let_def
    by (rule smear_succ [OF smear_u64]) (use assms gt in simp_all)
qed

lemma bit_is_pow2_iff: "bit_is_pow2 n \<longleftrightarrow> (\<exists>k. unat n = 2 ^ k)"
proof
  assume p: "bit_is_pow2 n"
  then have "n \<noteq> 0" by (simp add: bit_is_pow2_def)
  then obtain t where t: "bit n t" "\<And>j. bit n j \<Longrightarrow> j \<le> t" "2 ^ t \<le> unat n" "unat n < 2 ^ Suc t"
    by (rule top_bit_range) blast
  show "\<exists>k. unat n = 2 ^ k"
  proof (rule ccontr)
    assume "\<nexists>k. unat n = 2 ^ k"
    with t(3) have gt: "2 ^ t < unat n" by (metis le_neq_implies_less)
    have u: "unat (n - 1) = unat n - 1" using \<open>n \<noteq> 0\<close> by (simp add: unat_minus_one)
    have "1 < unat n" using gt by (rule le_less_trans [rotated]) simp
    then have "n - 1 \<noteq> 0" using u by (metis diff_is_0_eq not_le unat_0)
    then obtain s where s: "bit (n - 1) s" "2 ^ s \<le> unat (n - 1)" "unat (n - 1) < 2 ^ Suc s"
      by (rule top_bit_range) blast
    have "(2::nat) ^ t < 2 ^ Suc s" "(2::nat) ^ s < 2 ^ Suc t" using gt u s t(4) by linarith+
    then have "s = t" by (simp add: power_strict_increasing_iff del: power_Suc)
    with s(1) t(1) have "bit (n AND (n - 1)) t" by (simp add: bit_and_iff)
    with p show False by (simp add: bit_is_pow2_def)
  qed
next
  assume "\<exists>k. unat n = 2 ^ k"
  then obtain k where k: "unat n = 2 ^ k" ..
  moreover have "unat n < 2 ^ 32" by simp
  ultimately have "(2::nat) ^ k < 2 ^ 32" by simp
  then have "k < 32" by (rule power_less_imp_less_exp [rotated]) simp
  then have n: "n = 2 ^ k" using k by (simp add: word_unat_eq_iff unat_power2)
  have "n - 1 = mask k" by (simp add: n mask_eq_decr_exp)
  then have "n AND (n - 1) = 0"
    by (intro bit_word_eqI) (auto simp: bit_simps n)
  moreover have "n \<noteq> 0" using k by auto
  ultimately show "bit_is_pow2 n" by (simp add: bit_is_pow2_def)
qed

lemma pow2_greater_than_spec:
  assumes "0 < unat n" "unat n < 2 ^ 31"
  shows "\<exists>k. unat (bit_pow2_greater_than n) = 2 ^ k \<and> unat n < 2 ^ k \<and> 2 ^ k \<le> 2 * unat n"
proof (cases "bit_is_pow2 n")
  case True
  then obtain k where k: "unat n = 2 ^ k" by (auto simp: bit_is_pow2_iff)
  have "unat (push_bit 1 n) = 2 * unat n"
    using assms(2) by (simp add: push_bit_eq_mult unat_word_ariths)
  with True k show ?thesis
    by (intro exI [of _ "Suc k"]) (simp add: bit_pow2_greater_than_def)
next
  case False
  obtain k where k: "unat (bit_next_pow2_u32 n) = 2 ^ k" "unat n \<le> 2 ^ k" "2 ^ k < 2 * unat n"
    using next_pow2_u32_spec [of n] assms by auto
  have "unat n \<noteq> 2 ^ k" using False by (auto simp: bit_is_pow2_iff)
  with k False show ?thesis
    by (intro exI [of _ k]) (simp add: bit_pow2_greater_than_def)
qed

lemma pow2_greater_than_0 [simp]: "bit_pow2_greater_than 0 = 0"
  by (simp add: bit_pow2_greater_than_def bit_is_pow2_def bit_next_pow2_u32_def)

lemma pow2_greater_or_equal_spec:
  assumes "0 < unat n" "unat n \<le> 2 ^ 31"
  shows "\<exists>k. unat (bit_pow2_greater_or_equal n) = 2 ^ k \<and> unat n \<le> 2 ^ k \<and> 2 ^ k < 2 * unat n"
proof (cases "bit_is_pow2 n")
  case True
  then obtain k where "unat n = 2 ^ k" by (auto simp: bit_is_pow2_iff)
  with True show ?thesis by (intro exI [of _ k]) (simp add: bit_pow2_greater_or_equal_def)
next
  case False
  with next_pow2_u32_spec [OF assms] show ?thesis by (simp add: bit_pow2_greater_or_equal_def)
qed

end
