(* ===== verification/Eqp_String.thy ===== *)
theory Eqp_String
  imports Bits
begin

text \<open>
  \<^verbatim>\<open>common/container/eqp_string.c\<close>: the length-counted, reference-counted string with
  a terminating null byte. Every operation that allocates or writes is modelled with its bytes,
  so that the capacity bookkeeping is what keeps the writes inside the block.
\<close>

section \<open>The structure\<close>

text \<open>\<open>str_data\<close> holds the bytes of the block after the struct.\<close>

record estring =
  str_length :: u32
  str_capacity :: u32
  str_refCount :: int
  str_data :: bytes

definition sizeof_String :: nat where "sizeof_String = 12"
definition STR_MIN_CAPACITY :: u32 where "STR_MIN_CAPACITY = 8"

definition string_create :: "heap \<Rightarrow> estring result" where
  "string_create h =
     bindE (eqp_realloc h sizeof_String [] (sizeof_String + unat STR_MIN_CAPACITY)) (\<lambda>d.
     Inr \<lparr>str_length = 0, str_capacity = STR_MIN_CAPACITY, str_refCount = 1, str_data = d\<rparr>)"

definition string_create_with_capacity :: "heap \<Rightarrow> u32 \<Rightarrow> estring result" where
  "string_create_with_capacity h capacity =
     (let capacity = (if capacity < STR_MIN_CAPACITY then STR_MIN_CAPACITY
                      else bit_pow2_greater_or_equal capacity) in
      bindE (eqp_realloc h sizeof_String [] (sizeof_String + unat capacity)) (\<lambda>d.
      Inr \<lparr>str_length = 0, str_capacity = capacity, str_refCount = 1, str_data = d\<rparr>))"

text \<open>A null \<open>str\<close> reallocates nothing: the fields it leaves unset are the fresh block's
  (the reference count is then set by the caller).\<close>

definition string_realloc_next_pow2 :: "heap \<Rightarrow> estring option \<Rightarrow> u32 \<Rightarrow> estring result" where
  "string_realloc_next_pow2 h str len =
     (let cap = bit_pow2_greater_than len;
          old = (case str of None \<Rightarrow> [] | Some s \<Rightarrow> str_data s);
          refs = (case str of None \<Rightarrow> 0 | Some s \<Rightarrow> str_refCount s) in
      bindE (eqp_realloc h sizeof_String old (unat cap + sizeof_String + 1)) (\<lambda>d.
      Inr \<lparr>str_length = len, str_capacity = cap, str_refCount = refs, str_data = d\<rparr>))"

definition string_realloc_and_fill :: "heap \<Rightarrow> estring option \<Rightarrow> bytes \<Rightarrow> u32 \<Rightarrow> estring result" where
  "string_realloc_and_fill h str src len =
     bindE (string_realloc_next_pow2 h str len) (\<lambda>s.
     bindE (mem_read src 0 (unat len)) (\<lambda>bs.
     bindE (mem_write (str_data s) 0 bs) (\<lambda>d.
     bindE (mem_write d (unat len) [0]) (\<lambda>d.
     Inr (s\<lparr>str_data := d\<rparr>)))))"

definition string_create_from_cstr :: "heap \<Rightarrow> bytes \<Rightarrow> u32 \<Rightarrow> estring result" where
  "string_create_from_cstr h src len =
     bindE (string_realloc_and_fill h None src len) (\<lambda>s. Inr (s\<lparr>str_refCount := 1\<rparr>))"

text \<open>The file's size and bytes are the environment's; the bytes after a short read stay.\<close>

definition string_create_from_file :: "heap \<Rightarrow> bytes \<Rightarrow> estring result" where
  "string_create_from_file h file =
     (let len = of_nat (length file) :: u32 in
      bindE (string_create_with_capacity h (len + 1)) (\<lambda>s.
      bindE (if len > 0
             then bindE (mem_write (str_data s) 0 (take (unat len) file)) (\<lambda>d.
                  Inr (s\<lparr>str_length := len, str_data := d\<rparr>))
             else Inr s) (\<lambda>s.
      bindE (mem_write (str_data s) (unat len) [0]) (\<lambda>d. Inr (s\<lparr>str_data := d\<rparr>)))))"

definition string_grab :: "estring \<Rightarrow> estring" where
  "string_grab s = s\<lparr>str_refCount := str_refCount s + 1\<rparr>"

text \<open>\<open>None\<close>: the block was freed.\<close>

definition string_drop :: "estring \<Rightarrow> estring option" where
  "string_drop s =
     (let s = s\<lparr>str_refCount := str_refCount s - 1\<rparr> in
      if str_refCount s \<le> 0 then None else Some s)"

definition string_clear :: "estring \<Rightarrow> estring result" where
  "string_clear s =
     bindE (mem_write (str_data s) 0 [0]) (\<lambda>d. Inr (s\<lparr>str_length := 0, str_data := d\<rparr>))"

definition string_set_from_cstr :: "heap \<Rightarrow> estring \<Rightarrow> bytes option \<Rightarrow> u32 \<Rightarrow> estring result" where
  "string_set_from_cstr h base src len =
     (case src of
        None \<Rightarrow> Inr (base\<lparr>str_length := 0\<rparr>)
      | Some src \<Rightarrow>
          if len = 0 then Inr (base\<lparr>str_length := 0\<rparr>)
          else if len < str_capacity base
          then bindE (mem_read src 0 (unat len)) (\<lambda>bs.
               bindE (mem_write (str_data base) 0 bs) (\<lambda>d.
               bindE (mem_write d (unat len) [0]) (\<lambda>d.
               Inr (base\<lparr>str_length := len, str_data := d\<rparr>))))
          else string_realloc_and_fill h (Some base) src len)"

text \<open>
  \<open>formatted\<close> is what \<^verbatim>\<open>vsnprintf\<close> produces for the format and arguments;
  \<open>None\<close> is its negative return. The second call stores at most \<open>capacity - 1\<close>
  characters and the null byte.
\<close>

definition string_set_from_vformat :: "heap \<Rightarrow> estring \<Rightarrow> bytes option \<Rightarrow> estring result" where
  "string_set_from_vformat h base formatted =
     (case formatted of
        None \<Rightarrow> Inl ErrorFormatString
      | Some out \<Rightarrow>
          (let len = of_nat (length out) :: u32 in
           bindE (if str_capacity base \<le> len
                  then (let cap = bit_pow2_greater_than len in
                        bindE (eqp_realloc h sizeof_String (str_data base)
                                 (unat cap + sizeof_String + 1)) (\<lambda>d.
                        Inr (base\<lparr>str_capacity := cap, str_data := d\<rparr>)))
                  else Inr base) (\<lambda>base.
           bindE (mem_write (str_data base) 0
                    (if str_capacity base = 0 then []
                     else take (unat (str_capacity base) - 1) out @ [0])) (\<lambda>d.
           Inr (base\<lparr>str_length := len, str_data := d\<rparr>)))))"

definition string_get_data :: "estring \<Rightarrow> bytes option" where
  "string_get_data s = (if str_length s = 0 then None else Some (str_data s))"

definition string_add_char :: "heap \<Rightarrow> estring \<Rightarrow> u8 \<Rightarrow> estring result" where
  "string_add_char h base c =
     (let index = str_length base; base = base\<lparr>str_length := str_length base + 1\<rparr> in
      bindE (if str_length base \<ge> str_capacity base
             then string_realloc_next_pow2 h (Some base) (str_length base)
             else Inr base) (\<lambda>base.
      bindE (mem_write (str_data base) (unat index) [c]) (\<lambda>d.
      bindE (mem_write d (unat (index + 1)) [0]) (\<lambda>d.
      Inr (base\<lparr>str_data := d\<rparr>)))))"

definition string_add_cstr :: "heap \<Rightarrow> estring \<Rightarrow> bytes \<Rightarrow> u32 \<Rightarrow> estring result" where
  "string_add_cstr h base cs len =
     (let index = str_length base; end' = index + len in
      bindE (if end' \<ge> str_capacity base
             then string_realloc_next_pow2 h (Some base) end'
             else Inr (base\<lparr>str_length := end'\<rparr>)) (\<lambda>base.
      bindE (mem_read cs 0 (unat len)) (\<lambda>bs.
      bindE (mem_write (str_data base) (unat index) bs) (\<lambda>d.
      bindE (mem_write d (unat end') [0]) (\<lambda>d.
      Inr (base\<lparr>str_data := d\<rparr>))))))"

definition string_add_string :: "heap \<Rightarrow> estring \<Rightarrow> estring \<Rightarrow> estring result" where
  "string_add_string h str src = string_add_cstr h str (str_data src) (str_length src)"

definition string_compare_cstr :: "estring \<Rightarrow> bytes \<Rightarrow> int result" where
  "string_compare_cstr s cs = strcmp (str_data s) cs"

section \<open>Well-formed strings\<close>

text \<open>The characters a string stands for.\<close>

definition str_chars :: "estring \<Rightarrow> bytes" where
  "str_chars s = take (unat (str_length s)) (str_data s)"

definition string_inv :: "estring \<Rightarrow> bool" where
  "string_inv s \<longleftrightarrow>
     unat (str_length s) < length (str_data s) \<and>
     unat (str_capacity s) \<le> length (str_data s) \<and>
     (str_length s \<noteq> 0 \<longrightarrow> str_data s ! unat (str_length s) = 0)"

lemma pow2_greater_than_ge:
  assumes "unat n < 2 ^ 31"
  shows "unat n \<le> unat (bit_pow2_greater_than n)"
proof (cases "unat n = 0")
  case False
  then show ?thesis using pow2_greater_than_spec [of n] assms by auto
qed simp

lemma realloc_next_pow2_spec:
  assumes "string_realloc_next_pow2 h str len = Inr s" "unat len < 2 ^ 31"
  shows "str_length s = len \<and> unat len < length (str_data s) \<and>
    length (str_data s) = Suc (unat (str_capacity s)) \<and>
    (\<forall>b n. str = Some b \<longrightarrow> n \<le> length (str_data b) \<longrightarrow> n \<le> unat len \<longrightarrow>
       take n (str_data s) = take n (str_data b))"
proof -
  let ?cap = "bit_pow2_greater_than len" and ?old = "case str of None \<Rightarrow> [] | Some s \<Rightarrow> str_data s"
  obtain d where d: "eqp_realloc h sizeof_String ?old (unat ?cap + sizeof_String + 1) = Inr d"
      and s: "str_data s = d" "str_capacity s = ?cap" "str_length s = len"
    using assms(1) by (auto simp: string_realloc_next_pow2_def Let_def result_simps)
  have l: "length d = Suc (unat ?cap)" using length_eqp_realloc [OF d] by simp
  have ge: "unat len \<le> unat ?cap" using pow2_greater_than_ge [OF assms(2)] .
  have "take n d = take n (str_data b)"
    if "str = Some b" "n \<le> length (str_data b)" "n \<le> unat len" for b n
    using take_eqp_realloc [OF d, of n] that ge by simp
  then show ?thesis using s l ge by auto
qed

text \<open>Storing characters and the null byte behind them.\<close>

lemma store_terminated:
  assumes "unat (i + len) = unat i + unat len" "length bs = unat len" "unat i + unat len < length d"
  shows "bindE (mem_write d (unat i) bs) (\<lambda>d. bindE (mem_write d (unat (i + len)) [0]) (\<lambda>d. Inr (f d)))
    = Inr (f (overwrite (overwrite d (unat i) bs) (unat i + unat len) [0]))"
  using assms by (simp add: mem_write_def)

lemma take_store_terminated:
  assumes "length bs = n" "i + n < length d"
  shows "take (i + n) (overwrite (overwrite d i bs) (i + n) [0]) = take i d @ bs"
    "overwrite (overwrite d i bs) (i + n) [0] ! (i + n) = 0"
  using assms by (simp_all add: overwrite_def nth_append min_def)

lemma string_create_from_cstr_spec:
  assumes "string_create_from_cstr h src len = Inr s" "unat len < 2 ^ 31" "length src = unat len"
  shows "string_inv s \<and> str_chars s = src \<and> str_refCount s = 1 \<and> str_data s ! unat len = 0"
proof -
  obtain b where b: "string_realloc_next_pow2 h None len = Inr b"
      and r: "bindE (mem_write (str_data b) 0 src) (\<lambda>d.
        bindE (mem_write d (unat len) [0]) (\<lambda>d. Inr (b\<lparr>str_data := d, str_refCount := 1\<rparr>))) = Inr s"
    using assms(1,3)
    by (auto simp: string_create_from_cstr_def string_realloc_and_fill_def result_simps mem_read_def
        slice_def)
  note sp = realloc_next_pow2_spec [OF b assms(2)]
  have "s = b\<lparr>str_data := overwrite (overwrite (str_data b) 0 src) (unat len) [0], str_refCount := 1\<rparr>"
    using r store_terminated [of 0 len src "str_data b" "\<lambda>d. b\<lparr>str_data := d, str_refCount := 1\<rparr>"]
      assms(3) sp by simp
  then show ?thesis
    using sp take_store_terminated [of src "unat len" 0 "str_data b"] assms(3)
    by (simp add: string_inv_def str_chars_def)
qed

lemma string_create_from_cstr_total:
  assumes "can_alloc h (unat (bit_pow2_greater_than len) + sizeof_String + 1)"
    "unat len < 2 ^ 31" "length src \<ge> unat len"
  shows "\<exists>s. string_create_from_cstr h src len = Inr s"
proof -
  obtain b where b: "string_realloc_next_pow2 h None len = Inr b"
    using assms(1) by (auto simp: string_realloc_next_pow2_def Let_def eqp_realloc_def)
  note sp = realloc_next_pow2_spec [OF b assms(2)]
  show ?thesis
    using b sp assms(3)
    by (simp add: string_create_from_cstr_def string_realloc_and_fill_def mem_read_def mem_write_def)
qed

lemma string_add_cstr_spec:
  assumes inv: "string_inv b" and sum: "unat (str_length b) + unat len < 2 ^ 31"
    and src: "length cs = unat len" and r: "string_add_cstr h b cs len = Inr s"
  shows "string_inv s \<and> str_chars s = str_chars b @ cs"
proof -
  let ?i = "str_length b" and ?stop = "str_length b + len"
  have e: "unat ?stop = unat ?i + unat len" using sum by (intro unat_add_u32) simp
  obtain b' where b': "(if ?stop \<ge> str_capacity b then string_realloc_next_pow2 h (Some b) ?stop
        else Inr (b\<lparr>str_length := ?stop\<rparr>)) = Inr b'"
    and st: "bindE (mem_write (str_data b') (unat ?i) cs) (\<lambda>d.
        bindE (mem_write d (unat ?stop) [0]) (\<lambda>d. Inr (b'\<lparr>str_data := d\<rparr>))) = Inr s"
    using r src by (auto simp: string_add_cstr_def Let_def result_simps mem_read_def slice_def)
  have b'p: "str_length b' = ?stop \<and> unat ?i + unat len < length (str_data b') \<and>
      take (unat ?i) (str_data b') = take (unat ?i) (str_data b) \<and>
      unat (str_capacity b') \<le> length (str_data b')"
  proof (cases "?stop \<ge> str_capacity b")
    case True
    then have rr: "string_realloc_next_pow2 h (Some b) ?stop = Inr b'" using b' by simp
    note sp = realloc_next_pow2_spec [OF rr, unfolded e, OF sum]
    have "unat ?i \<le> length (str_data b)" using inv by (simp add: string_inv_def)
    then show ?thesis using sp by simp
  next
    case False
    then have "unat ?stop < unat (str_capacity b)" by (simp add: word_le_nat_alt)
    then show ?thesis using b' False inv e by (auto simp: string_inv_def)
  qed
  have "s = b'\<lparr>str_data := overwrite (overwrite (str_data b') (unat ?i) cs) (unat ?i + unat len) [0]\<rparr>"
    using st store_terminated [OF e src, of "str_data b'" "\<lambda>d. b'\<lparr>str_data := d\<rparr>"] b'p by simp
  then show ?thesis
    using b'p e src take_store_terminated [OF src, of "unat ?i" "str_data b'"]
    by (simp add: string_inv_def str_chars_def)
qed

text \<open>Appending never writes outside the block.\<close>

lemma string_add_cstr_safe:
  assumes inv: "string_inv b" and sum: "unat (str_length b) + unat len < 2 ^ 31"
    and src: "length cs = unat len"
  shows "string_add_cstr h b cs len \<noteq> Inl UndefinedBehaviour"
proof -
  let ?i = "str_length b" and ?stop = "str_length b + len"
  have e: "unat ?stop = unat ?i + unat len" using sum by (intro unat_add_u32) simp
  have nub: "string_realloc_next_pow2 h (Some b) ?stop \<noteq> Inl UndefinedBehaviour"
    by (auto simp: string_realloc_next_pow2_def Let_def result_simps eqp_realloc_def split: if_splits)
  have fits: "unat ?i + unat len < length (str_data b')"
    if "(if ?stop \<ge> str_capacity b then string_realloc_next_pow2 h (Some b) ?stop
        else Inr (b\<lparr>str_length := ?stop\<rparr>)) = Inr b'" for b'
  proof (cases "?stop \<ge> str_capacity b")
    case True
    then show ?thesis
      using that realloc_next_pow2_spec [of h "Some b" ?stop b', unfolded e, OF _ sum] by simp
  next
    case False
    then have "unat ?stop < unat (str_capacity b)" by (simp add: word_le_nat_alt)
    then show ?thesis using that False inv e by (auto simp: string_inv_def)
  qed
  show ?thesis
  proof (cases "if ?stop \<ge> str_capacity b then string_realloc_next_pow2 h (Some b) ?stop
      else Inr (b\<lparr>str_length := ?stop\<rparr>)")
    case (Inl err)
    then show ?thesis
      using nub by (simp add: string_add_cstr_def Let_def split: if_splits)
  next
    case (Inr b')
    then show ?thesis
      using fits [OF Inr] src e
      by (simp add: string_add_cstr_def Let_def mem_read_def mem_write_def slice_def)
  qed
qed

lemma string_set_from_cstr_spec:
  assumes inv: "string_inv b" and len: "0 < unat len" "unat len < 2 ^ 31"
    and src: "length cs = unat len" and r: "string_set_from_cstr h b (Some cs) len = Inr s"
  shows "string_inv s \<and> str_chars s = cs"
proof -
  obtain b' where b': "(if len < str_capacity b then Inr (b\<lparr>str_length := len\<rparr>)
        else string_realloc_next_pow2 h (Some b) len) = Inr b'"
    and st: "bindE (mem_write (str_data b') 0 cs) (\<lambda>d.
        bindE (mem_write d (unat len) [0]) (\<lambda>d. Inr (b'\<lparr>str_data := d\<rparr>))) = Inr s"
    using r src len(1)
    by (auto simp: string_set_from_cstr_def string_realloc_and_fill_def result_simps mem_read_def
        slice_def split: if_splits)
  have b'p: "str_length b' = len \<and> unat len < length (str_data b') \<and>
      unat (str_capacity b') \<le> length (str_data b')"
  proof (cases "len < str_capacity b")
    case True
    then have "unat len < unat (str_capacity b)" by (simp add: word_less_nat_alt)
    then show ?thesis using b' True inv by (auto simp: string_inv_def)
  next
    case False
    then have "string_realloc_next_pow2 h (Some b) len = Inr b'" using b' by simp
    from realloc_next_pow2_spec [OF this len(2)] show ?thesis by simp
  qed
  have "s = b'\<lparr>str_data := overwrite (overwrite (str_data b') 0 cs) (unat len) [0]\<rparr>"
    using st store_terminated [of 0 len cs "str_data b'" "\<lambda>d. b'\<lparr>str_data := d\<rparr>"] b'p src by simp
  then show ?thesis
    using b'p src take_store_terminated [OF src, of 0 "str_data b'"]
    by (simp add: string_inv_def str_chars_def)
qed

text \<open>Comparing a string that holds no null byte with a terminated C string.\<close>

lemma string_compare_terminated:
  assumes "0 \<in> set (str_data s)" "0 \<in> set cs"
  shows "\<exists>c. string_compare_cstr s cs = Inr c \<and> (c = 0 \<longleftrightarrow> cstr (str_data s) = cstr cs)"
  unfolding string_compare_cstr_def using assms by (rule strcmp_terminated)

end
