(* ===== verification/Hash_Table.thy ===== *)
theory Hash_Table
  imports Eqp_String
begin

text \<open>
  \<^verbatim>\<open>common/container/eqp_hash_table.c\<close>: the string-keyed hash table used to find
  clients and zones by name. Colliding entries are chained through the free slots of the one
  entry array (coalesced chaining with eviction), so an entry may sit in the main position of
  another chain until that position is claimed. This theory holds the code; the theory
  \<^verbatim>\<open>Hash_Table_Correct\<close> its invariant and its refinement to a finite map.

  An entry pointer is its index. Loops along \<open>next\<close> links get as much fuel as there are
  slots; running out of it is \<open>Diverges\<close>.
\<close>

section \<open>Entries and tables\<close>

definition NEXT_INVALID :: u32 where "NEXT_INVALID = 0xffffffff"
definition FREE_INDEX_INVALID :: u32 where "FREE_INDEX_INVALID = 0xffffffff"
definition DEFAULT_CAPACITY :: u32 where "DEFAULT_CAPACITY = 2"
definition sizeof_HashTable_Entry :: u32 where "sizeof_HashTable_Entry = 16"
definition sizeof_HashTable :: u32 where "sizeof_HashTable = 16"

record entry =
  ent_key :: "estring option"
  ent_hash :: u32
  ent_next :: u32
  ent_data :: bytes

record table =
  ht_capacity :: u32
  ht_elemSize :: u32
  ht_freeIndex :: u32
  ht_entSize :: u32
  ht_entries :: "entry list"

definition ent_at :: "entry list \<Rightarrow> u32 \<Rightarrow> entry result" where
  "ent_at es i = (if unat i < length es then Inr (es ! unat i) else Inl UndefinedBehaviour)"

definition ent_set :: "entry list \<Rightarrow> u32 \<Rightarrow> entry \<Rightarrow> entry list result" where
  "ent_set es i e = (if unat i < length es then Inr (es[unat i := e]) else Inl UndefinedBehaviour)"

text \<open>What the memset and the loop that marks every chain as ended leave in a slot.\<close>

definition fresh_entry :: "u32 \<Rightarrow> entry" where
  "fresh_entry elemSize =
     \<lparr>ent_key = None, ent_hash = 0, ent_next = NEXT_INVALID, ent_data = replicate (unat elemSize) 0\<rparr>"

definition hash_table_ent_size :: "u32 \<Rightarrow> u32" where
  "hash_table_ent_size elementSize =
     (let entSize = elementSize + sizeof_HashTable_Entry in
      if entSize mod 8 \<noteq> 0 then entSize + (8 - entSize mod 8) else entSize)"

definition hash_table_create :: "heap \<Rightarrow> u32 \<Rightarrow> table result" where
  "hash_table_create h elementSize =
     (let entSize = hash_table_ent_size elementSize;
          initSize = sizeof_HashTable + entSize * DEFAULT_CAPACITY in
      if can_alloc h (unat initSize)
      then Inr \<lparr>ht_capacity = DEFAULT_CAPACITY, ht_elemSize = elementSize, ht_freeIndex = 0,
                ht_entSize = entSize,
                ht_entries = replicate (unat DEFAULT_CAPACITY) (fresh_entry elementSize)\<rparr>
      else Inl ErrorOutOfMemory)"

text \<open>The keys the destructor drops, in slot order, and what each is left as; the callbacks of
  \<open>hash_table_for_each\<close> get the data of the occupied slots, in slot order.\<close>

definition hash_table_destroy :: "table \<Rightarrow> estring option list" where
  "hash_table_destroy tbl = map string_drop (List.map_filter ent_key (ht_entries tbl))"

definition hash_table_for_each :: "table \<Rightarrow> ('s \<Rightarrow> bytes \<Rightarrow> 's) \<Rightarrow> 's \<Rightarrow> 's" where
  "hash_table_for_each tbl callback s =
     fold (\<lambda>e s. if ent_key e \<noteq> None then callback s (ent_data e) else s) (ht_entries tbl) s"

section \<open>Hashing\<close>

text \<open>\<^verbatim>\<open>char\<close> is signed on the platforms the server runs on. The step is at least 1.\<close>

function hash_loop :: "bytes \<Rightarrow> nat \<Rightarrow> nat \<Rightarrow> u32 \<Rightarrow> u32 result" where
  "hash_loop key step i h =
     (if step \<le> i \<and> 0 < step
      then bindE (mem_read key (i - 1) 1) (\<lambda>c.
           hash_loop key step (i - step)
             (h XOR (push_bit 5 h + drop_bit 2 h + scast (c ! 0))))
      else Inr h)"
  by pat_completeness auto
termination
  by (relation "measure (\<lambda>(_, _, i, _). i)") auto

declare hash_loop.simps [simp del]

definition hash_table_calc_hash :: "bytes \<Rightarrow> u32 \<Rightarrow> u32 result" where
  "hash_table_calc_hash key length' =
     (let step = drop_bit 5 length' + 1 in hash_loop key (unat step) (unat length') length')"

section \<open>Chains and the free index\<close>

fun scan_free :: "nat \<Rightarrow> entry list \<Rightarrow> u32 \<Rightarrow> u32 \<Rightarrow> u32 result" where
  "scan_free 0 es capacity i = Inl Diverges"
| "scan_free (Suc n) es capacity i =
     (let i = i + 1 in
      if i \<noteq> capacity
      then bindE (ent_at es i) (\<lambda>e.
           if ent_key e = None then Inr i else scan_free n es capacity i)
      else Inr FREE_INDEX_INVALID)"

definition hash_table_advance_free_index :: "table \<Rightarrow> table result" where
  "hash_table_advance_free_index tbl =
     bindE (scan_free (length (ht_entries tbl)) (ht_entries tbl) (ht_capacity tbl) (ht_freeIndex tbl))
       (\<lambda>i. Inr (tbl\<lparr>ht_freeIndex := i\<rparr>))"

definition hash_table_do_insert ::
  "heap \<Rightarrow> entry \<Rightarrow> bytes \<Rightarrow> u32 \<Rightarrow> bytes \<Rightarrow> u32 \<Rightarrow> u32 \<Rightarrow> entry result" where
  "hash_table_do_insert h ent key length' value hash elemSize =
     bindE (string_create_from_cstr h key length') (\<lambda>s.
     bindE (mem_read value 0 (unat elemSize)) (\<lambda>v.
     Inr (ent\<lparr>ent_key := Some s, ent_hash := hash, ent_data := v\<rparr>)))"

definition hash_table_entry_copy :: "entry \<Rightarrow> entry \<Rightarrow> entry" where
  "hash_table_entry_copy newEnt oldEnt =
     newEnt\<lparr>ent_key := ent_key oldEnt, ent_hash := ent_hash oldEnt, ent_data := ent_data oldEnt\<rparr>"

text \<open>The loop \<^verbatim>\<open>while (ent->next != target) ent = data[ent->next]\<close>: with
  \<open>target = NEXT_INVALID\<close> it runs to the end of the chain.\<close>

fun follow_chain :: "nat \<Rightarrow> entry list \<Rightarrow> u32 \<Rightarrow> u32 \<Rightarrow> u32 result" where
  "follow_chain 0 es target i = Inl Diverges"
| "follow_chain (Suc n) es target i =
     bindE (ent_at es i) (\<lambda>e.
     if ent_next e \<noteq> target then follow_chain n es target (ent_next e) else Inr i)"

definition entry_matches :: "entry \<Rightarrow> bytes \<Rightarrow> u32 \<Rightarrow> bool result" where
  "entry_matches e key hash =
     (if ent_hash e = hash
      then (case ent_key e of
              None \<Rightarrow> Inl UndefinedBehaviour
            | Some s \<Rightarrow> bindE (string_compare_cstr s key) (\<lambda>c. Inr (c = 0)))
      else Inr False)"

text \<open>The search loop of set, get and remove: where the key was found, with the entry before
  it, or the last entry of the chain.\<close>

datatype walk = Found "u32 option" u32 | End u32

fun walk_chain :: "nat \<Rightarrow> entry list \<Rightarrow> bytes \<Rightarrow> u32 \<Rightarrow> u32 option \<Rightarrow> u32 \<Rightarrow> walk result" where
  "walk_chain 0 es key hash prev i = Inl Diverges"
| "walk_chain (Suc n) es key hash prev i =
     bindE (ent_at es i) (\<lambda>e.
     bindE (entry_matches e key hash) (\<lambda>m.
     if m then Inr (Found prev i)
     else if ent_next e \<noteq> NEXT_INVALID then walk_chain n es key hash (Some i) (ent_next e)
     else Inr (End i)))"

section \<open>Growing\<close>

fun realloc_advance :: "nat \<Rightarrow> entry list \<Rightarrow> u32 \<Rightarrow> u32 result" where
  "realloc_advance 0 es i = Inl Diverges"
| "realloc_advance (Suc n) es i =
     (let i = i + 1 in
      bindE (ent_at es i) (\<lambda>e. if ent_key e = None then Inr i else realloc_advance n es i))"

definition realloc_move :: "u32 \<Rightarrow> entry list \<Rightarrow> u32 \<Rightarrow> entry \<Rightarrow> (entry list \<times> u32) result" where
  "realloc_move capMinusOne es free oldEnt =
     (let n = length es; pos = ent_hash oldEnt AND capMinusOne in
      bindE (ent_at es pos) (\<lambda>newEnt.
      if ent_key newEnt = None
      then bindE (ent_set es pos (hash_table_entry_copy newEnt oldEnt)) (\<lambda>es.
           if pos \<noteq> free then Inr (es, free)
           else bindE (realloc_advance n es free) (\<lambda>free. Inr (es, free)))
      else (let mainPos = ent_hash newEnt AND capMinusOne in
            if mainPos \<noteq> pos
            then bindE (ent_set es free newEnt) (\<lambda>es.
                 bindE (follow_chain n es pos mainPos) (\<lambda>m.
                 bindE (ent_at es m) (\<lambda>mainEnt.
                 bindE (ent_set es m (mainEnt\<lparr>ent_next := free\<rparr>)) (\<lambda>es.
                 bindE (ent_at es pos) (\<lambda>newEnt.
                 bindE (ent_set es pos
                          ((hash_table_entry_copy newEnt oldEnt)\<lparr>ent_next := FREE_INDEX_INVALID\<rparr>)) (\<lambda>es.
                 bindE (realloc_advance n es free) (\<lambda>free. Inr (es, free))))))))
            else bindE (follow_chain n es NEXT_INVALID pos) (\<lambda>l.
                 bindE (ent_at es l) (\<lambda>lastEnt.
                 bindE (ent_set es l (lastEnt\<lparr>ent_next := free\<rparr>)) (\<lambda>es.
                 bindE (ent_at es free) (\<lambda>freeEnt.
                 bindE (ent_set es free (hash_table_entry_copy freeEnt oldEnt)) (\<lambda>es.
                 bindE (realloc_advance n es free) (\<lambda>free. Inr (es, free))))))))))"

fun realloc_loop :: "u32 \<Rightarrow> entry list \<Rightarrow> u32 \<Rightarrow> entry list \<Rightarrow> (entry list \<times> u32) result" where
  "realloc_loop capMinusOne es free [] = Inr (es, free)"
| "realloc_loop capMinusOne es free (oldEnt # olds) =
     bindE (realloc_move capMinusOne es free oldEnt) (\<lambda>(es, free). realloc_loop capMinusOne es free olds)"

definition hash_table_realloc :: "heap \<Rightarrow> table \<Rightarrow> table result" where
  "hash_table_realloc h oldTbl =
     (let newCap = ht_capacity oldTbl * 2;
          elemSize = ht_elemSize oldTbl;
          entSize = ht_entSize oldTbl;
          initSize = sizeof_HashTable + entSize * newCap in
      if can_alloc h (unat initSize)
      then bindE (realloc_loop (newCap - 1) (replicate (unat newCap) (fresh_entry elemSize)) 0
                    (ht_entries oldTbl)) (\<lambda>(es, free).
           Inr \<lparr>ht_capacity = newCap, ht_elemSize = elemSize, ht_freeIndex = free,
                ht_entSize = entSize, ht_entries = es\<rparr>)
      else Inl ErrorOutOfMemory)"

section \<open>Set, get, remove\<close>

text \<open>One run of \<open>hash_table_do_set\<close> up to the recursive call: \<open>None\<close> when no slot is
  free, so that the table has to grow.\<close>

definition do_set_step ::
  "heap \<Rightarrow> table \<Rightarrow> bytes \<Rightarrow> u32 \<Rightarrow> bytes \<Rightarrow> u32 \<Rightarrow> (table \<times> bool) option result" where
  "do_set_step h tbl key length' value hash =
     (let es = ht_entries tbl; n = length es; freeIndex = ht_freeIndex tbl;
          capMinusOne = ht_capacity tbl - 1; pos = hash AND capMinusOne in
      bindE (ent_at es pos) (\<lambda>ent.
      if ent_key ent = None
      then bindE (if pos = freeIndex then hash_table_advance_free_index tbl else Inr tbl) (\<lambda>tbl.
           bindE (hash_table_do_insert h ent key length' value hash (ht_elemSize tbl)) (\<lambda>ent.
           bindE (ent_set es pos ent) (\<lambda>es.
           Inr (Some (tbl\<lparr>ht_entries := es\<rparr>, True)))))
      else if freeIndex \<noteq> FREE_INDEX_INVALID
      then (let mainPos = ent_hash ent AND capMinusOne in
            if mainPos \<noteq> pos
            then bindE (ent_set es freeIndex ent) (\<lambda>es.
                 bindE (follow_chain n es pos mainPos) (\<lambda>m.
                 bindE (ent_at es m) (\<lambda>mainEnt.
                 bindE (ent_set es m (mainEnt\<lparr>ent_next := freeIndex\<rparr>)) (\<lambda>es.
                 bindE (hash_table_advance_free_index (tbl\<lparr>ht_entries := es\<rparr>)) (\<lambda>tbl.
                 bindE (ent_at es pos) (\<lambda>ent.
                 bindE (hash_table_do_insert h ent key length' value hash (ht_elemSize tbl)) (\<lambda>ent.
                 bindE (ent_set es pos (ent\<lparr>ent_next := FREE_INDEX_INVALID\<rparr>)) (\<lambda>es.
                 Inr (Some (tbl\<lparr>ht_entries := es\<rparr>, True))))))))))
            else bindE (walk_chain n es key hash None pos) (\<lambda>w.
                 case w of
                   Found prev i \<Rightarrow> Inr (Some (tbl, False))
                 | End l \<Rightarrow>
                     bindE (ent_at es l) (\<lambda>lastEnt.
                     bindE (ent_set es l (lastEnt\<lparr>ent_next := freeIndex\<rparr>)) (\<lambda>es.
                     bindE (hash_table_advance_free_index (tbl\<lparr>ht_entries := es\<rparr>)) (\<lambda>tbl.
                     bindE (ent_at es freeIndex) (\<lambda>ent.
                     bindE (hash_table_do_insert h ent key length' value hash (ht_elemSize tbl)) (\<lambda>ent.
                     bindE (ent_set es freeIndex ent) (\<lambda>es.
                     Inr (Some (tbl\<lparr>ht_entries := es\<rparr>, True))))))))))
      else Inr None))"

fun hash_table_do_set ::
  "nat \<Rightarrow> heap \<Rightarrow> table \<Rightarrow> bytes \<Rightarrow> u32 \<Rightarrow> bytes \<Rightarrow> u32 \<Rightarrow> (table \<times> bool) result" where
  "hash_table_do_set 0 h tbl key length' value hash = Inl Diverges"
| "hash_table_do_set (Suc n) h tbl key length' value hash =
     bindE (do_set_step h tbl key length' value hash) (\<lambda>r.
     case r of
       Some res \<Rightarrow> Inr res
     | None \<Rightarrow> bindE (hash_table_realloc h tbl) (\<lambda>tbl.
               hash_table_do_set n h tbl key length' value hash))"

text \<open>After growing there is a free slot, so two runs are enough.\<close>

definition hash_table_set_by_cstr ::
  "heap \<Rightarrow> table \<Rightarrow> bytes \<Rightarrow> u32 \<Rightarrow> bytes \<Rightarrow> (table \<times> bool) result" where
  "hash_table_set_by_cstr h tbl key length' value =
     bindE (hash_table_calc_hash key length') (\<lambda>hash.
     hash_table_do_set 2 h tbl key length' value hash)"

definition hash_table_get_by_cstr :: "table \<Rightarrow> bytes \<Rightarrow> u32 \<Rightarrow> bytes option result" where
  "hash_table_get_by_cstr tbl key length' =
     bindE (hash_table_calc_hash key length') (\<lambda>hash.
     let es = ht_entries tbl; capMinusOne = ht_capacity tbl - 1; pos = hash AND capMinusOne in
     bindE (ent_at es pos) (\<lambda>ent.
     if ent_key ent = None then Inr None
     else if ent_hash ent AND capMinusOne \<noteq> pos then Inr None
     else bindE (walk_chain (length es) es key hash None pos) (\<lambda>w.
          case w of
            Found prev i \<Rightarrow> bindE (ent_at es i) (\<lambda>e. Inr (Some (ent_data e)))
          | End l \<Rightarrow> Inr None)))"

text \<open>The key string of the removed entry is dropped; the slot that becomes free is the last
  one of the rearranged links.\<close>

definition hash_table_remove_by_cstr :: "table \<Rightarrow> bytes \<Rightarrow> u32 \<Rightarrow> table result" where
  "hash_table_remove_by_cstr tbl key length' =
     bindE (hash_table_calc_hash key length') (\<lambda>hash.
     let es = ht_entries tbl; capMinusOne = ht_capacity tbl - 1; freeIndex = ht_freeIndex tbl;
         pos = hash AND capMinusOne in
     bindE (ent_at es pos) (\<lambda>ent.
     if ent_key ent = None then Inr tbl
     else if ent_hash ent AND capMinusOne \<noteq> pos then Inr tbl
     else bindE (walk_chain (length es) es key hash None pos) (\<lambda>w.
          case w of
            End l \<Rightarrow> Inr tbl
          | Found prev i \<Rightarrow>
              bindE (ent_at es i) (\<lambda>ent.
              case prev of
                Some p \<Rightarrow>
                  bindE (ent_at es p) (\<lambda>prevEnt.
                  let cur = ent_next prevEnt in
                  bindE (ent_set es p (prevEnt\<lparr>ent_next := ent_next ent\<rparr>)) (\<lambda>es.
                  bindE (ent_set es i (ent\<lparr>ent_key := None, ent_next := NEXT_INVALID\<rparr>)) (\<lambda>es.
                  Inr (tbl\<lparr>ht_entries := es,
                           ht_freeIndex := (if freeIndex > cur then cur else freeIndex)\<rparr>))))
              | None \<Rightarrow>
                  (let next = ent_next ent in
                   if next \<noteq> NEXT_INVALID
                   then bindE (ent_at es next) (\<lambda>nextEnt.
                        bindE (ent_set es i nextEnt) (\<lambda>es.
                        bindE (ent_set es next (nextEnt\<lparr>ent_key := None, ent_next := NEXT_INVALID\<rparr>)) (\<lambda>es.
                        Inr (tbl\<lparr>ht_entries := es,
                                 ht_freeIndex := (if freeIndex > next then next else freeIndex)\<rparr>))))
                   else bindE (ent_set es i (ent\<lparr>ent_key := None, ent_next := NEXT_INVALID\<rparr>)) (\<lambda>es.
                        Inr (tbl\<lparr>ht_entries := es\<rparr>)))))))"

end
