(* ===== verification/Chains.thy ===== *)
theory Chains
  imports Hash_Table
begin

text \<open>
  The shape of the hash table's entry array, apart from keys and values: every main position
  \<open>p\<close> heads a chain that visits exactly the occupied slots whose hash has main position
  \<open>p\<close>. The lemmas say what the three kinds of insertion (into an empty main position, by
  eviction, at the end of a chain) and the three kinds of removal do to the chains; the table
  operations and the rebuilding loop of \<open>hash_table_realloc\<close> both use them.
\<close>

section \<open>List segments\<close>

fun lseg :: "entry list \<Rightarrow> nat list \<Rightarrow> u32 \<Rightarrow> u32 \<Rightarrow> bool" where
  "lseg es [] a t \<longleftrightarrow> a = t"
| "lseg es (i # r) a t \<longleftrightarrow> a = of_nat i \<and> lseg es r (ent_next (es ! i)) t"

lemma lseg_append: "lseg es (xs @ ys) a t \<longleftrightarrow> (\<exists>b. lseg es xs a b \<and> lseg es ys b t)"
  by (induction xs arbitrary: a) auto

lemma lseg_cong:
  "(\<And>i. i \<in> set ch \<Longrightarrow> ent_next (es' ! i) = ent_next (es ! i)) \<Longrightarrow> lseg es' ch a t = lseg es ch a t"
  by (induction ch arbitrary: a) auto

text \<open>Slots off the segment may change.\<close>

lemma lseg_upd:
  assumes "\<And>i. i \<notin> S \<Longrightarrow> es' ! i = es ! i" "set ch \<inter> S = {}"
  shows "lseg es' ch a t = lseg es ch a t"
  by (rule lseg_cong) (use assms in \<open>metis disjoint_iff\<close>)

lemma lseg_next_last: "lseg es (xs @ [l]) a t \<Longrightarrow> ent_next (es ! l) = t"
  by (auto simp: lseg_append)

lemma lseg_next_mid: "lseg es (xs @ i # j # ys) a t \<Longrightarrow> ent_next (es ! i) = of_nat j"
  by (auto simp: lseg_append)

section \<open>Main positions, buckets, chains\<close>

definition home :: "u32 \<Rightarrow> entry \<Rightarrow> nat" where
  "home c e = unat (ent_hash e AND c)"

definition occ :: "entry list \<Rightarrow> nat \<Rightarrow> bool" where
  "occ es i \<longleftrightarrow> i < length es \<and> ent_key (es ! i) \<noteq> None"

definition bucket :: "u32 \<Rightarrow> entry list \<Rightarrow> nat \<Rightarrow> nat set" where
  "bucket c es p = {i. occ es i \<and> home c (es ! i) = p}"

definition chain :: "u32 \<Rightarrow> entry list \<Rightarrow> nat \<Rightarrow> nat list \<Rightarrow> bool" where
  "chain c es p ch \<longleftrightarrow> distinct ch \<and> set ch = bucket c es p \<and>
     (ch \<noteq> [] \<longrightarrow> lseg es ch (of_nat p) NEXT_INVALID)"

definition chains :: "u32 \<Rightarrow> entry list \<Rightarrow> bool" where
  "chains c es \<longleftrightarrow> (\<forall>p < length es. \<exists>ch. chain c es p ch)"

text \<open>The array has a power of two many slots, few enough for the indices to be told from the
  invalid one, and the mask selects exactly the indices.\<close>

definition cap_ok :: "u32 \<Rightarrow> entry list \<Rightarrow> bool" where
  "cap_ok c es \<longleftrightarrow> (\<exists>k. 1 \<le> k \<and> k \<le> 31 \<and> length es = 2 ^ k \<and> c = mask k)"

lemma cap_ok_length: "cap_ok c es \<Longrightarrow> 2 \<le> length es \<and> length es \<le> 2 ^ 31"
proof -
  assume "cap_ok c es"
  then obtain k where k: "1 \<le> k" "k \<le> 31" "length es = 2 ^ k" by (auto simp: cap_ok_def)
  have "(2::nat) ^ 1 \<le> 2 ^ k" "(2::nat) ^ k \<le> 2 ^ 31"
    using k by (intro power_increasing; simp)+
  then show ?thesis using k by simp
qed

lemma cap_ok_cong: "length es' = length es \<Longrightarrow> cap_ok c es' = cap_ok c es"
  by (simp add: cap_ok_def)

lemma unat_idx: "cap_ok c es \<Longrightarrow> i < length es \<Longrightarrow> unat (of_nat i :: u32) = i"
  using cap_ok_length [of c es] by (intro unat_of_nat_u32) simp

lemma idx_inj: "cap_ok c es \<Longrightarrow> i < length es \<Longrightarrow> j < length es \<Longrightarrow> (of_nat i :: u32) = of_nat j \<Longrightarrow> i = j"
  by (metis unat_idx)

lemma idx_valid: "cap_ok c es \<Longrightarrow> i < length es \<Longrightarrow> (of_nat i :: u32) \<noteq> NEXT_INVALID"
proof
  assume a: "cap_ok c es" "i < length es" "(of_nat i :: u32) = NEXT_INVALID"
  then have "i = unat NEXT_INVALID" using unat_idx [of c es i] by simp
  then show False using a(2) cap_ok_length [OF a(1)] by (simp add: NEXT_INVALID_def)
qed

lemma home_less: "cap_ok c es \<Longrightarrow> home c e < length es"
proof -
  assume "cap_ok c es"
  then obtain k where k: "k \<le> 31" "length es = 2 ^ k" "c = mask k" by (auto simp: cap_ok_def)
  have "ent_hash e AND c = take_bit k (ent_hash e)" by (simp add: k take_bit_eq_mask)
  then have "home c e = take_bit k (unat (ent_hash e))"
    by (simp add: home_def unsigned_take_bit_eq)
  then show ?thesis by (simp add: k)
qed

lemma pos_of_nat: "(h AND c :: u32) = of_nat (unat (h AND c))"
  by simp

lemma chain_hd:
  assumes "cap_ok c es" "chain c es p ch" "ch \<noteq> []" "p < length es"
  shows "hd ch = p"
proof -
  obtain i r where ch: "ch = i # r" using assms(3) by (cases ch) auto
  have "i < length es" using assms(2) ch by (auto simp: chain_def bucket_def occ_def)
  moreover have "(of_nat p :: u32) = of_nat i" using assms(2) ch by (simp add: chain_def)
  ultimately show ?thesis using idx_inj [OF assms(1)] assms(4) ch by auto
qed

text \<open>An empty or foreign main position means an empty bucket.\<close>

lemma bucket_empty:
  assumes "cap_ok c es" "chains c es" "p < length es"
    "ent_key (es ! p) = None \<or> home c (es ! p) \<noteq> p"
  shows "bucket c es p = {}"
proof -
  obtain ch where ch: "chain c es p ch" using assms(2,3) by (auto simp: chains_def)
  have "ch = []"
  proof (rule ccontr)
    assume ne: "ch \<noteq> []"
    then have "p \<in> set ch" using chain_hd [OF assms(1) ch ne assms(3)] by (metis hd_in_set)
    then show False using ch assms(4) by (auto simp: chain_def bucket_def occ_def)
  qed
  with ch show ?thesis by (simp add: chain_def)
qed

text \<open>Changing the slots in \<open>S\<close> touches only the chains of the main positions in \<open>P\<close>.\<close>

lemma chains_update:
  assumes old: "chains c es" and len: "length es' = length es"
    and same: "\<And>i. i < length es \<Longrightarrow> i \<notin> S \<Longrightarrow> es' ! i = es ! i"
    and S: "\<And>i. i \<in> S \<Longrightarrow> occ es i \<Longrightarrow> home c (es ! i) \<in> P"
    and S': "\<And>i. i \<in> S \<Longrightarrow> occ es' i \<Longrightarrow> home c (es' ! i) \<in> P"
    and P: "\<And>p. p \<in> P \<Longrightarrow> p < length es \<Longrightarrow> \<exists>ch. chain c es' p ch"
  shows "chains c es'"
  unfolding chains_def len
proof (intro allI impI)
  fix p assume p: "p < length es"
  show "\<exists>ch. chain c es' p ch"
  proof (cases "p \<in> P")
    case True
    then show ?thesis using P p by blast
  next
    case False
    obtain ch where ch: "chain c es p ch" using old p by (auto simp: chains_def)
    have out: "i \<notin> S \<and> i < length es" if "i \<in> bucket c es p" for i
      using that S False by (auto simp: bucket_def occ_def)
    have "bucket c es' p = bucket c es p"
    proof (intro set_eqI iffI)
      fix i assume i: "i \<in> bucket c es' p"
      then have "i \<notin> S" using S' False by (auto simp: bucket_def)
      then show "i \<in> bucket c es p" using i same len by (auto simp: bucket_def occ_def)
    next
      fix i assume "i \<in> bucket c es p"
      then show "i \<in> bucket c es' p" using out [of i] same len by (auto simp: bucket_def occ_def)
    qed
    moreover have "lseg es' ch a t = lseg es ch a t" for a t
      by (rule lseg_cong) (use ch out same in \<open>auto simp: chain_def\<close>)
    ultimately show ?thesis using ch by (auto simp: chain_def)
  qed
qed

section \<open>Insertion\<close>

lemma chains_fill:
  assumes cap: "cap_ok c es" and ch: "chains c es" and p: "p < length es"
    and empty: "ent_key (es ! p) = None"
    and e: "ent_key e \<noteq> None" "home c e = p" "ent_next e = NEXT_INVALID"
  shows "chains c (es[p := e])"
proof (rule chains_update [OF ch, where S = "{p}" and P = "{p}"])
  fix q assume "q \<in> {p}"
  have "bucket c (es[p := e]) p = {p}"
  proof (intro set_eqI iffI)
    fix i assume i: "i \<in> bucket c (es[p := e]) p"
    show "i \<in> {p}"
    proof (rule ccontr)
      assume "i \<notin> {p}"
      then have "i \<in> bucket c es p" using i by (simp add: bucket_def occ_def)
      then show False using bucket_empty [OF cap ch p] empty by simp
    qed
  qed (use p e in \<open>simp add: bucket_def occ_def\<close>)
  then have "chain c (es[p := e]) p [p]" using p e by (simp add: chain_def)
  then show "\<exists>ch. chain c (es[p := e]) q ch" using \<open>q \<in> {p}\<close> by auto
qed (use p empty e in \<open>auto simp: occ_def\<close>)

lemma chains_hole:
  assumes "chains c es" "p < length es" "ent_key (es ! p) = None" "ent_key e = None"
  shows "chains c (es[p := e])"
  by (rule chains_update [OF assms(1), where S = "{p}" and P = "{}"])
    (use assms in \<open>auto simp: occ_def\<close>)

text \<open>Appending a new entry in the free slot \<open>f\<close> to the chain of \<open>p\<close>.\<close>

lemma chains_append:
  assumes cap: "cap_ok c es" and ch: "chains c es" and p: "p < length es"
    and c0: "chain c es p (us @ [l])"
    and f: "f < length es" "ent_key (es ! f) = None"
    and e: "ent_key e \<noteq> None" "home c e = p" "ent_next e = NEXT_INVALID"
    and es': "es' = es[l := (es ! l)\<lparr>ent_next := of_nat f\<rparr>, f := e]"
  shows "chains c es'"
proof (rule chains_update [OF ch, where S = "{l, f}" and P = "{p}"])
  have inb: "set (us @ [l]) = bucket c es p" and dist: "distinct (us @ [l])"
    and seg: "lseg es (us @ [l]) (of_nat p) NEXT_INVALID"
    using c0 by (auto simp: chain_def)
  have l: "l < length es" "ent_key (es ! l) \<noteq> None" "home c (es ! l) = p"
    using inb by (auto simp: bucket_def occ_def set_eq_iff)
  have fn: "f \<notin> set (us @ [l])" using inb f(2) by (auto simp: bucket_def occ_def)
  show "\<exists>ch. chain c es' q ch" if "q \<in> {p}" for q
  proof -
    have "bucket c es' p = insert f (bucket c es p)"
      using l f fn e by (auto simp: es' bucket_def occ_def nth_list_update home_def)
    moreover have "lseg es' (us @ [l, f]) (of_nat p) NEXT_INVALID"
    proof -
      have "lseg es us (of_nat p) (of_nat l)" using seg by (auto simp: lseg_append)
      moreover have "lseg es' us (of_nat p) (of_nat l) = lseg es us (of_nat p) (of_nat l)"
        by (rule lseg_upd [where S = "{l, f}"]) (use dist fn in \<open>auto simp: es'\<close>)
      ultimately show ?thesis using l f fn e by (auto simp: lseg_append es' nth_list_update)
    qed
    ultimately have "chain c es' p (us @ [l, f])" using dist fn inb by (auto simp: chain_def)
    then show ?thesis using that by auto
  qed
  show "length es' = length es" by (simp add: es')
  show "es' ! i = es ! i" if "i < length es" "i \<notin> {l, f}" for i using that by (simp add: es')
  show "home c (es ! i) \<in> {p}" if "i \<in> {l, f}" "occ es i" for i
    using that l f by (auto simp: occ_def)
  show "home c (es' ! i) \<in> {p}" if "i \<in> {l, f}" "occ es' i" for i
    using that l f e fn by (auto simp: es' nth_list_update home_def)
qed

text \<open>
  Evicting the foreign entry in \<open>p\<close> to the free slot \<open>f\<close>: the entry \<open>a\<close>
  before it in its chain is redirected, and \<open>p\<close> takes a new entry of its own or stays
  without a key.
\<close>

lemma chains_evict:
  assumes cap: "cap_ok c es" and ch: "chains c es" and p: "p < length es"
    and c0: "chain c es q (us @ a # p # vs)" and q: "q < length es" "q \<noteq> p"
    and f: "f < length es" "ent_key (es ! f) = None"
    and e: "ent_key e = None \<or> home c e = p" "ent_next e = NEXT_INVALID"
    and es': "es' = es[f := es ! p, a := (es ! a)\<lparr>ent_next := of_nat f\<rparr>, p := e]"
  shows "chains c es'"
proof (rule chains_update [OF ch, where S = "{a, p, f}" and P = "{p, q}"])
  have inb: "set (us @ a # p # vs) = bucket c es q" and dist: "distinct (us @ a # p # vs)"
    and seg: "lseg es (us @ a # p # vs) (of_nat q) NEXT_INVALID"
    using c0 by (auto simp: chain_def)
  have ap: "a < length es" "ent_key (es ! a) \<noteq> None" "home c (es ! a) = q"
      "ent_key (es ! p) \<noteq> None" "home c (es ! p) = q"
    using inb by (auto simp: bucket_def occ_def set_eq_iff)
  have fn: "f \<notin> set (us @ a # p # vs)" using inb f(2) by (auto simp: bucket_def occ_def)
  have bp: "bucket c es p = {}" using bucket_empty [OF cap ch p] ap q by simp
  have nth: "es' ! f = es ! p" "es' ! a = (es ! a)\<lparr>ent_next := of_nat f\<rparr>" "es' ! p = e"
      "length es' = length es" and other: "\<And>i. i \<notin> {a, p, f} \<Longrightarrow> es' ! i = es ! i"
    using f ap p dist fn by (auto simp: es' nth_list_update)
  have bq: "bucket c es' q = insert f (bucket c es q - {p})"
  proof (intro set_eqI)
    fix i
    show "i \<in> bucket c es' q \<longleftrightarrow> i \<in> insert f (bucket c es q - {p})"
      using nth other [of i] ap f p e q fn dist
      by (cases "i \<in> {a, p, f}") (auto simp: bucket_def occ_def home_def)
  qed
  have bp': "bucket c es' p = (if ent_key e = None then {} else {p})"
  proof (intro set_eqI)
    fix i
    show "i \<in> bucket c es' p \<longleftrightarrow> i \<in> (if ent_key e = None then {} else {p})"
    proof (cases "i \<in> {a, p, f}")
      case True
      then show ?thesis using nth ap p e q dist by (auto simp: bucket_def occ_def home_def)
    next
      case False
      then have "i \<in> bucket c es' p \<longleftrightarrow> i \<in> bucket c es p"
        using nth other [of i] by (simp add: bucket_def occ_def)
      then show ?thesis using bp False by simp
    qed
  qed
  have cq: "chain c es' q (us @ a # f # vs)"
  proof -
    have s1: "lseg es us (of_nat q) (of_nat a)" and s2: "lseg es vs (ent_next (es ! p)) NEXT_INVALID"
      using seg by (auto simp: lseg_append)
    have "lseg es' us (of_nat q) (of_nat a)"
      using s1 lseg_upd [of "{a, p, f}" es' es us] other dist fn by auto
    moreover have "lseg es' vs (ent_next (es ! p)) NEXT_INVALID"
      using s2 lseg_upd [of "{a, p, f}" es' es vs] other dist fn by auto
    ultimately have "lseg es' (us @ a # f # vs) (of_nat q) NEXT_INVALID"
      using nth by (auto simp: lseg_append)
    moreover have "set (us @ a # f # vs) = bucket c es' q"
      unfolding bq inb [symmetric] using dist by auto
    ultimately show ?thesis using dist fn by (auto simp: chain_def)
  qed
  have cp: "\<exists>ch. chain c es' p ch"
  proof (cases "ent_key e = None")
    case True
    then have "chain c es' p []" using bp' by (simp add: chain_def)
    then show ?thesis ..
  next
    case False
    then have "chain c es' p [p]" using bp' nth e by (simp add: chain_def)
    then show ?thesis ..
  qed
  show "\<exists>ch. chain c es' r ch" if "r \<in> {p, q}" for r using that cp cq by auto
  show "length es' = length es" using nth by simp
  show "es' ! i = es ! i" if "i < length es" "i \<notin> {a, p, f}" for i using other that by simp
  show "home c (es ! i) \<in> {p, q}" if "i \<in> {a, p, f}" "occ es i" for i
    using that ap f by (auto simp: occ_def)
  show "home c (es' ! i) \<in> {p, q}" if "i \<in> {a, p, f}" "occ es' i" for i
    using that ap nth e by (auto simp: occ_def home_def)
qed

section \<open>Removal\<close>

text \<open>Unlinking \<open>i\<close> from behind \<open>a\<close>.\<close>

lemma chains_unlink:
  assumes ch: "chains c es"
    and c0: "chain c es q (us @ a # i # vs)"
    and e: "ent_key e = None"
    and es': "es' = es[a := (es ! a)\<lparr>ent_next := ent_next (es ! i)\<rparr>, i := e]"
  shows "chains c es'"
proof (rule chains_update [OF ch, where S = "{a, i}" and P = "{q}"])
  have inb: "set (us @ a # i # vs) = bucket c es q" and dist: "distinct (us @ a # i # vs)"
    and seg: "lseg es (us @ a # i # vs) (of_nat q) NEXT_INVALID"
    using c0 by (auto simp: chain_def)
  have ai: "a < length es" "i < length es" "home c (es ! a) = q" "home c (es ! i) = q"
      "ent_key (es ! a) \<noteq> None"
    using inb by (auto simp: bucket_def occ_def set_eq_iff)
  have nth: "es' ! a = (es ! a)\<lparr>ent_next := ent_next (es ! i)\<rparr>" "es' ! i = e"
      "length es' = length es" and other: "\<And>j. j \<notin> {a, i} \<Longrightarrow> es' ! j = es ! j"
    using ai dist by (auto simp: es' nth_list_update)
  have bq: "bucket c es' q = bucket c es q - {i}"
  proof (intro set_eqI)
    fix j
    show "j \<in> bucket c es' q \<longleftrightarrow> j \<in> bucket c es q - {i}"
      using nth other [of j] ai e dist
      by (cases "j \<in> {a, i}") (auto simp: bucket_def occ_def home_def)
  qed
  have "chain c es' q (us @ a # vs)"
  proof -
    have s1: "lseg es us (of_nat q) (of_nat a)" and s2: "lseg es vs (ent_next (es ! i)) NEXT_INVALID"
      using seg by (auto simp: lseg_append)
    have "lseg es' us (of_nat q) (of_nat a)"
      using s1 lseg_upd [of "{a, i}" es' es us] other dist by auto
    moreover have "lseg es' vs (ent_next (es ! i)) NEXT_INVALID"
      using s2 lseg_upd [of "{a, i}" es' es vs] other dist by auto
    ultimately have "lseg es' (us @ a # vs) (of_nat q) NEXT_INVALID"
      using nth by (auto simp: lseg_append)
    then show ?thesis
      unfolding chain_def bq inb [symmetric] using dist by auto
  qed
  then show "\<exists>ch. chain c es' r ch" if "r \<in> {q}" for r using that by auto
  show "length es' = length es" using nth by simp
  show "es' ! j = es ! j" if "j < length es" "j \<notin> {a, i}" for j using other that by simp
  show "home c (es ! j) \<in> {q}" if "j \<in> {a, i}" "occ es j" for j using that ai by auto
  show "home c (es' ! j) \<in> {q}" if "j \<in> {a, i}" "occ es' j" for j
    using that ai nth e by (auto simp: occ_def home_def)
qed

text \<open>Removing the head \<open>p\<close>: the next entry moves into the main position.\<close>

lemma chains_pull:
  assumes cap: "cap_ok c es" and ch: "chains c es" and p: "p < length es"
    and c0: "chain c es p (p # j # vs)"
    and e: "ent_key e = None"
    and es': "es' = es[p := es ! j, j := e]"
  shows "chains c es'"
proof (rule chains_update [OF ch, where S = "{p, j}" and P = "{p}"])
  have inb: "set (p # j # vs) = bucket c es p" and dist: "distinct (p # j # vs)"
    and seg: "lseg es (p # j # vs) (of_nat p) NEXT_INVALID"
    using c0 by (auto simp: chain_def)
  have j: "j < length es" "home c (es ! p) = p" "home c (es ! j) = p" "ent_key (es ! j) \<noteq> None"
      "ent_key (es ! p) \<noteq> None"
    using inb by (auto simp: bucket_def occ_def set_eq_iff)
  have nth: "es' ! p = es ! j" "es' ! j = e" "length es' = length es"
      and other: "\<And>i. i \<notin> {p, j} \<Longrightarrow> es' ! i = es ! i"
    using j p dist by (auto simp: es' nth_list_update)
  have bq: "bucket c es' p = bucket c es p - {j}"
  proof (intro set_eqI)
    fix i
    show "i \<in> bucket c es' p \<longleftrightarrow> i \<in> bucket c es p - {j}"
      using nth other [of i] j e dist p
      by (cases "i \<in> {p, j}") (auto simp: bucket_def occ_def home_def)
  qed
  have "chain c es' p (p # vs)"
  proof -
    have "lseg es vs (ent_next (es ! j)) NEXT_INVALID" using seg by simp
    then have "lseg es' vs (ent_next (es ! j)) NEXT_INVALID"
      using lseg_upd [of "{p, j}" es' es vs] other dist by auto
    then show ?thesis
      unfolding chain_def bq inb [symmetric] using dist nth by auto
  qed
  then show "\<exists>ch. chain c es' r ch" if "r \<in> {p}" for r using that by auto
  show "length es' = length es" using nth by simp
  show "es' ! i = es ! i" if "i < length es" "i \<notin> {p, j}" for i using other that by simp
  show "home c (es ! i) \<in> {p}" if "i \<in> {p, j}" "occ es i" for i using that j by auto
  show "home c (es' ! i) \<in> {p}" if "i \<in> {p, j}" "occ es' i" for i
    using that j nth e by (auto simp: occ_def)
qed

lemma chains_drop_single:
  assumes ch: "chains c es" and p: "p < length es" and c0: "chain c es p [p]"
    and e: "ent_key e = None"
  shows "chains c (es[p := e])"
proof (rule chains_update [OF ch, where S = "{p}" and P = "{p}"])
  have inb: "bucket c es p = {p}" using c0 by (auto simp: chain_def)
  have "bucket c (es[p := e]) p = {}"
  proof (intro set_eqI)
    fix i
    show "i \<in> bucket c (es[p := e]) p \<longleftrightarrow> i \<in> {}"
      using inb e p by (cases "i = p") (auto simp: bucket_def occ_def set_eq_iff)
  qed
  then have "chain c (es[p := e]) p []" by (simp add: chain_def)
  then show "\<exists>ch. chain c (es[p := e]) r ch" if "r \<in> {p}" for r using that by auto
  show "home c (es ! i) \<in> {p}" if "i \<in> {p}" "occ es i" for i
    using inb that by (auto simp: bucket_def occ_def set_eq_iff)
qed (use p e in \<open>auto simp: occ_def\<close>)

end
