(* ===== verification/Hash_Table_Correct.thy ===== *)
theory Hash_Table_Correct
  imports Chains "HOL-Library.Multiset"
begin

text \<open>
  Correctness of the hash table: the invariant of a table, what each loop of the code returns on
  a table that has it, and that set, get and remove are insertion if absent, lookup and deletion
  in the finite map the table stands for. Growing keeps the map, also when removals have left
  holes below the free index.
\<close>

section \<open>Following links\<close>

lemma follow_chain_lseg:
  assumes cap: "cap_ok c es"
  shows "lseg es (us @ [a]) p t \<Longrightarrow> \<forall>j \<in> set us. ent_next (es ! j) \<noteq> t \<Longrightarrow>
    \<forall>j \<in> set (us @ [a]). j < length es \<Longrightarrow> length us < n \<Longrightarrow>
    follow_chain n es t p = Inr (of_nat a)"
proof (induction us arbitrary: p n)
  case Nil
  then obtain m where "n = Suc m" by (cases n) auto
  with Nil show ?case by (auto simp: ent_at_def unat_idx [OF cap])
next
  case (Cons u us)
  then obtain m where n: "n = Suc m" by (cases n) auto
  have "follow_chain m es t (ent_next (es ! u)) = Inr (of_nat a)"
    using Cons n by (intro Cons.IH) auto
  with Cons.prems n show ?case by (auto simp: ent_at_def unat_idx [OF cap])
qed

text \<open>In a chain without repetitions, only its predecessor points at an entry.\<close>

lemma lseg_next_unique:
  assumes cap: "cap_ok c es" and seg: "lseg es (us @ a # p # vs) q NEXT_INVALID"
    and dist: "distinct (us @ a # p # vs)" and bound: "\<forall>j \<in> set (us @ a # p # vs). j < length es"
    and j: "j \<in> set us"
  shows "ent_next (es ! j) \<noteq> of_nat p"
proof -
  obtain xs ys where us: "us = xs @ j # ys" using j by (auto simp: in_set_conv_decomp)
  obtain y zs where y: "ys @ a # p # vs = y # zs" "y \<in> set ys \<or> y = a" by (cases ys) auto
  have "ent_next (es ! j) = of_nat y"
    by (rule lseg_next_mid [of es xs j y zs q NEXT_INVALID]) (use seg us y in simp)
  moreover have "p \<in> set zs"
  proof (cases ys)
    case Nil
    then show ?thesis using y(1) by auto
  next
    case (Cons b bs)
    then show ?thesis using y(1) by auto
  qed
  moreover have "distinct (y # zs)" "\<forall>j \<in> set (y # zs). j < length es"
    using dist bound us unfolding y(1) [symmetric] by auto
  ultimately have "y \<noteq> p" "y < length es" "p < length es" by auto
  moreover note \<open>ent_next (es ! j) = of_nat y\<close>
  ultimately show ?thesis using idx_inj [OF cap] by auto
qed

lemma chain_length:
  assumes "cap_ok c es" "chain c es p ch"
  shows "length ch \<le> length es"
proof -
  have "set ch \<subseteq> {..<length es}" using assms(2) by (auto simp: chain_def bucket_def occ_def)
  then have "card (set ch) \<le> length es" using card_mono [of "{..<length es}" "set ch"] by simp
  then show ?thesis using assms(2) by (metis chain_def distinct_card)
qed

lemma chain_bound: "chain c es p ch \<Longrightarrow> \<forall>j \<in> set ch. j < length es"
  by (auto simp: chain_def bucket_def occ_def)

lemma follow_to_pred:
  assumes cap: "cap_ok c es" and ch: "chain c es q (us @ a # p # vs)"
  shows "follow_chain (length es) es (of_nat p) (of_nat q) = Inr (of_nat a)"
proof (rule follow_chain_lseg [OF cap])
  have seg: "lseg es (us @ a # p # vs) (of_nat q) NEXT_INVALID"
    and dist: "distinct (us @ a # p # vs)" using ch by (auto simp: chain_def)
  note bound = chain_bound [OF ch]
  show "lseg es (us @ [a]) (of_nat q) (of_nat p)" using seg by (auto simp: lseg_append)
  show "\<forall>j \<in> set us. ent_next (es ! j) \<noteq> of_nat p"
    using lseg_next_unique [OF cap seg dist bound] by blast
  show "length us < length es" using chain_length [OF cap ch] by simp
qed (use chain_bound [OF ch] in auto)

lemma follow_to_end:
  assumes cap: "cap_ok c es" and ch: "chain c es q (us @ [l])"
  shows "follow_chain (length es) es NEXT_INVALID (of_nat q) = Inr (of_nat l)"
proof (rule follow_chain_lseg [OF cap])
  have seg: "lseg es (us @ [l]) (of_nat q) NEXT_INVALID"
    and dist: "distinct (us @ [l])" using ch by (auto simp: chain_def)
  then show "lseg es (us @ [l]) (of_nat q) NEXT_INVALID" by simp
  show "\<forall>j \<in> set us. ent_next (es ! j) \<noteq> NEXT_INVALID"
  proof
    fix j assume "j \<in> set us"
    then obtain xs ys where us: "us = xs @ j # ys" by (auto simp: in_set_conv_decomp)
    obtain y zs where y: "ys @ [l] = y # zs" by (cases ys) auto
    have "ent_next (es ! j) = of_nat y"
      by (rule lseg_next_mid [of es xs j y zs "of_nat q" NEXT_INVALID]) (use seg us y in simp)
    moreover have "y \<in> set (us @ [l])" using us y by (metis UnCI append_assoc list.set_intros(1) list.set_intros(2) set_append append_Cons)
    then have "y < length es" using chain_bound [OF ch] by blast
    ultimately show "ent_next (es ! j) \<noteq> NEXT_INVALID" using idx_valid [OF cap] by simp
  qed
  show "length us < length es" using chain_length [OF cap ch] by simp
qed (use chain_bound [OF ch] in auto)

text \<open>A foreign entry is in the chain of its own main position, behind another entry.\<close>

lemma foreign_split:
  assumes cap: "cap_ok c es" and chs: "chains c es" and p: "occ es p" and q: "home c (es ! p) \<noteq> p"
  obtains us a vs where "chain c es (home c (es ! p)) (us @ a # p # vs)"
proof -
  let ?q = "home c (es ! p)"
  have ql: "?q < length es" by (rule home_less [OF cap])
  obtain ch where ch: "chain c es ?q ch" using chs ql by (auto simp: chains_def)
  have pin: "p \<in> set ch" using ch p by (simp add: chain_def bucket_def)
  then obtain xs ys where s: "ch = xs @ p # ys" by (auto simp: in_set_conv_decomp)
  have "xs \<noteq> []" using chain_hd [OF cap ch _ ql] s q pin by auto
  then obtain us a where "xs = us @ [a]" by (cases xs rule: rev_cases) auto
  with s ch that show ?thesis by simp
qed

section \<open>Keys\<close>

definition ekey :: "entry \<Rightarrow> bytes option" where
  "ekey e = map_option (\<lambda>s. cstr (str_data s)) (ent_key e)"

definition khash :: "bytes \<Rightarrow> u32" where
  "khash k = (case hash_table_calc_hash k (of_nat (length k)) of Inr h \<Rightarrow> h | Inl _ \<Rightarrow> 0)"

lemma hash_loop_prefix:
  "i \<le> length k \<Longrightarrow> hash_loop (k @ r) step i h = hash_loop k step i h \<and>
   (\<exists>h'. hash_loop k step i h = Inr h')"
proof (induction "k @ r" step i h rule: hash_loop.induct)
  case (1 step i h)
  show ?case
  proof (cases "step \<le> i \<and> 0 < step")
    case True
    have rd: "mem_read (k @ r) (i - 1) 1 = mem_read k (i - 1) 1" "\<exists>c. mem_read k (i - 1) 1 = Inr c"
      using "1.prems" True by (auto simp: mem_read_def slice_def)
    then obtain cc where cc: "mem_read k (i - 1) 1 = Inr cc" by blast
    have "i - step \<le> length k" using "1.prems" by simp
    with "1.hyps" True rd cc show ?thesis
      by (simp add: hash_loop.simps [of "k @ r" step i h] hash_loop.simps [of k step i h])
  next
    case False
    then show ?thesis
      by (auto simp: hash_loop.simps [of "k @ r" step i h] hash_loop.simps [of k step i h])
  qed
qed

lemma calc_hash_khash:
  assumes "length k < 2 ^ 32"
  shows "hash_table_calc_hash (k @ r) (of_nat (length k)) = Inr (khash k)"
proof -
  have u: "unat (of_nat (length k) :: u32) = length k" using assms by (rule unat_of_nat_u32)
  note p = hash_loop_prefix [of "length k" k]
  show ?thesis
    unfolding khash_def hash_table_calc_hash_def Let_def u
    using p [of r "unat (drop_bit 5 (of_nat (length k)) + 1 :: u32)" "of_nat (length k)"]
    by auto
qed

definition entry_ok :: "entry \<Rightarrow> bool" where
  "entry_ok e \<longleftrightarrow> (\<forall>s. ent_key e = Some s \<longrightarrow>
     0 \<in> set (str_data s) \<and> ent_hash e = khash (cstr (str_data s)))"

lemma entry_matches_spec:
  assumes "entry_ok e" "ent_key e \<noteq> None" "0 \<in> set key"
  shows "entry_matches e key (khash (cstr key)) = Inr (ekey e = Some (cstr key))"
proof -
  obtain s where s: "ent_key e = Some s" using assms(2) by auto
  obtain r where r: "string_compare_cstr s key = Inr r" "r = 0 \<longleftrightarrow> cstr (str_data s) = cstr key"
    using string_compare_terminated [of s key] assms(1,3) s by (auto simp: entry_ok_def)
  show ?thesis
    using assms(1) s r by (auto simp: entry_matches_def entry_ok_def ekey_def)
qed

lemma walk_chain_lseg:
  assumes cap: "cap_ok c es" and key: "0 \<in> set key"
  shows "lseg es ch p NEXT_INVALID \<Longrightarrow> ch \<noteq> [] \<Longrightarrow> \<forall>i \<in> set ch. occ es i \<and> entry_ok (es ! i) \<Longrightarrow>
    length ch \<le> n \<Longrightarrow>
    (\<exists>xs i ys. ch = xs @ i # ys \<and> ekey (es ! i) = Some (cstr key) \<and>
       walk_chain n es key (khash (cstr key)) pv p =
         Inr (Found (if xs = [] then pv else Some (of_nat (last xs))) (of_nat i))) \<or>
    (\<forall>i \<in> set ch. ekey (es ! i) \<noteq> Some (cstr key)) \<and>
       walk_chain n es key (khash (cstr key)) pv p = Inr (End (of_nat (last ch)))"
proof (induction ch arbitrary: p n pv)
  case (Cons i ch)
  obtain m where n: "n = Suc m" using Cons.prems(4) by (cases n) auto
  have i: "p = of_nat i" "i < length es" "ent_key (es ! i) \<noteq> None" "entry_ok (es ! i)"
    using Cons.prems by (auto simp: occ_def)
  note mt = entry_matches_spec [OF i(4,3) key]
  show ?case
  proof (cases "ekey (es ! i) = Some (cstr key)")
    case True
    then show ?thesis
      using i mt n by (intro disjI1 exI [of _ "[]"] exI [of _ i] exI [of _ ch])
        (simp add: ent_at_def unat_idx [OF cap])
  next
    case False
    show ?thesis
    proof (cases "ch = []")
      case True
      then show ?thesis
        using False i mt n Cons.prems(1) by (simp add: ent_at_def unat_idx [OF cap])
    next
      case ne: False
      then obtain j r where ch: "ch = j # r" by (cases ch) auto
      have nx: "ent_next (es ! i) = of_nat j" "j < length es"
        using Cons.prems ch by (auto simp: occ_def)
      have st: "walk_chain n es key (khash (cstr key)) pv p =
          walk_chain m es key (khash (cstr key)) (Some p) (ent_next (es ! i))"
        using False i mt n nx idx_valid [OF cap nx(2)] by (simp add: ent_at_def unat_idx [OF cap])
      have seg: "lseg es ch (ent_next (es ! i)) NEXT_INVALID" using Cons.prems(1) by simp
      have "\<forall>i \<in> set ch. occ es i \<and> entry_ok (es ! i)" "length ch \<le> m"
        using Cons.prems(3,4) n by auto
      from Cons.IH [OF seg ne this, of "Some p"]
      consider (found) xs x ys where "ch = xs @ x # ys" "ekey (es ! x) = Some (cstr key)"
          "walk_chain m es key (khash (cstr key)) (Some p) (ent_next (es ! i)) =
             Inr (Found (if xs = [] then Some p else Some (of_nat (last xs))) (of_nat x))"
        | (absent) "\<forall>i \<in> set ch. ekey (es ! i) \<noteq> Some (cstr key)"
          "walk_chain m es key (khash (cstr key)) (Some p) (ent_next (es ! i)) =
             Inr (End (of_nat (last ch)))"
        by blast
      then show ?thesis
      proof cases
        case found
        then show ?thesis
          using st i(1) by (intro disjI1 exI [of _ "i # xs"] exI [of _ x] exI [of _ ys]) auto
      next
        case absent
        then show ?thesis using st False ne by auto
      qed
    qed
  qed
qed simp

section \<open>The map a table stands for\<close>

definition kv :: "entry \<Rightarrow> (bytes \<times> bytes) option" where
  "kv e = map_option (\<lambda>k. (k, ent_data e)) (ekey e)"

definition pairs :: "entry list \<Rightarrow> (bytes \<times> bytes) list" where
  "pairs es = List.map_filter kv es"

definition ht_contents :: "table \<Rightarrow> bytes \<Rightarrow> bytes option" where
  "ht_contents tbl = map_of (pairs (ht_entries tbl))"

definition opt_mset :: "'a option \<Rightarrow> 'a multiset" where
  "opt_mset x = (case x of None \<Rightarrow> {#} | Some y \<Rightarrow> {#y#})"

lemma opt_mset_simps [simp]: "opt_mset None = {#}" "opt_mset (Some y) = {#y#}"
  by (simp_all add: opt_mset_def)

lemma kv_None: "kv e = None \<longleftrightarrow> ent_key e = None"
  by (simp add: kv_def ekey_def)

lemma pairs_append: "pairs (xs @ ys) = pairs xs @ pairs ys"
  by (simp add: pairs_def List.map_filter_def)

lemma mset_pairs_Cons: "mset (pairs (e # es)) = opt_mset (kv e) + mset (pairs es)"
  by (cases "kv e") (simp_all add: pairs_def List.map_filter_def)

lemma mset_pairs_update:
  assumes "i < length es"
  shows "mset (pairs (es[i := e])) + opt_mset (kv (es ! i)) = mset (pairs es) + opt_mset (kv e)"
proof -
  let ?a = "take i es" and ?b = "drop (Suc i) es"
  have es: "es = ?a @ es ! i # ?b" using assms by (rule id_take_nth_drop)
  have "mset (pairs es) = mset (pairs ?a) + (opt_mset (kv (es ! i)) + mset (pairs ?b))"
    by (subst es) (simp add: pairs_append mset_pairs_Cons)
  moreover have "mset (pairs (es[i := e])) = mset (pairs ?a) + (opt_mset (kv e) + mset (pairs ?b))"
    using assms by (simp add: upd_conv_take_nth_drop pairs_append mset_pairs_Cons)
  ultimately show ?thesis by (simp add: ac_simps)
qed

lemma set_pairs: "(k, v) \<in> set (pairs es) \<longleftrightarrow> (\<exists>i < length es. kv (es ! i) = Some (k, v))"
proof -
  have "set (pairs es) = {x. \<exists>e \<in> set es. kv e = Some x}"
    by (auto simp: pairs_def List.map_filter_def image_iff) (metis option.sel)
  then show ?thesis by (auto simp: in_set_conv_nth) (metis nth_mem)
qed

lemma key_in_pairs: "k \<in> fst ` set (pairs es) \<longleftrightarrow> (\<exists>i < length es. ekey (es ! i) = Some k)"
proof
  assume "k \<in> fst ` set (pairs es)"
  then show "\<exists>i < length es. ekey (es ! i) = Some k" by (auto simp: set_pairs kv_def)
next
  assume "\<exists>i < length es. ekey (es ! i) = Some k"
  then obtain i where "i < length es" "ekey (es ! i) = Some k" by blast
  then have "(k, ent_data (es ! i)) \<in> set (pairs es)" by (auto simp: set_pairs kv_def)
  then show "k \<in> fst ` set (pairs es)" by force
qed

lemma map_of_mset_eq:
  assumes "mset xs = mset ys" "distinct (map fst xs)"
  shows "map_of xs = map_of ys \<and> distinct (map fst ys)"
proof -
  have "mset (map fst xs) = mset (map fst ys)" using assms(1) by simp
  then have d: "distinct (map fst ys)" using assms(2) mset_eq_imp_distinct_iff by blast
  moreover have "set xs = set ys" using assms(1) by (rule mset_eq_setD)
  ultimately show ?thesis using map_of_inject_set [OF assms(2) d] by simp
qed

lemma pairs_insert:
  assumes "mset ys = add_mset (k, v) (mset xs)" "distinct (map fst xs)" "k \<notin> fst ` set xs"
  shows "distinct (map fst ys) \<and> map_of ys = (map_of xs)(k \<mapsto> v)"
proof -
  have "mset ((k, v) # xs) = mset ys" "distinct (map fst ((k, v) # xs))"
    using assms by auto
  from map_of_mset_eq [OF this] show ?thesis by (metis fun_upd_def map_of.simps(2) fst_conv snd_conv)
qed

lemma pairs_remove:
  assumes "mset xs = add_mset (k, v) (mset ys)" "distinct (map fst xs)"
  shows "distinct (map fst ys) \<and> map_of ys = (map_of xs)(k := None)"
proof -
  have m: "mset xs = mset ((k, v) # ys)" using assms(1) by simp
  from map_of_mset_eq [OF this assms(2)]
  have e: "map_of xs = (map_of ys)(k \<mapsto> v)" and d: "distinct (map fst ((k, v) # ys))" by auto
  then have "map_of ys k = None" by (simp add: map_of_eq_None_iff)
  then show ?thesis using e d by auto
qed

section \<open>The invariant\<close>

definition ended :: "entry list \<Rightarrow> bool" where
  "ended es \<longleftrightarrow> (\<forall>i < length es. ent_key (es ! i) = None \<longrightarrow> ent_next (es ! i) = NEXT_INVALID)"

definition free_ok :: "entry list \<Rightarrow> u32 \<Rightarrow> bool" where
  "free_ok es free \<longleftrightarrow>
     free \<noteq> FREE_INDEX_INVALID \<longrightarrow> unat free < length es \<and> ent_key (es ! unat free) = None"

text \<open>A slot without key below the free index was vacated as the only entry of its chain: the
  free index never returns to it, and its stale hash still names its own position, which is what
  makes moving it along in \<open>hash_table_realloc\<close> harmless.\<close>

definition holes_ok :: "u32 \<Rightarrow> entry list \<Rightarrow> u32 \<Rightarrow> bool" where
  "holes_ok c es free \<longleftrightarrow> (\<forall>i < length es.
     ent_key (es ! i) = None \<and> (free = FREE_INDEX_INVALID \<or> i < unat free) \<longrightarrow> home c (es ! i) = i)"

definition es_inv :: "u32 \<Rightarrow> entry list \<Rightarrow> u32 \<Rightarrow> bool" where
  "es_inv c es free \<longleftrightarrow>
     cap_ok c es \<and> chains c es \<and> ended es \<and> free_ok es free \<and> holes_ok c es free \<and>
     (\<forall>e \<in> set es. entry_ok e) \<and> distinct (map fst (pairs es))"

definition table_inv :: "table \<Rightarrow> bool" where
  "table_inv tbl \<longleftrightarrow> length (ht_entries tbl) = unat (ht_capacity tbl) \<and>
     es_inv (ht_capacity tbl - 1) (ht_entries tbl) (ht_freeIndex tbl)"

lemma es_invD:
  assumes "es_inv c es free"
  shows "cap_ok c es" "chains c es" "ended es" "free_ok es free" "holes_ok c es free"
    "\<And>i. i < length es \<Longrightarrow> entry_ok (es ! i)" "\<forall>e \<in> set es. entry_ok e" "distinct (map fst (pairs es))"
  using assms by (auto simp: es_inv_def)

lemma scan_free_spec:
  assumes cap: "cap_ok c es"
  shows "f < length es \<Longrightarrow> length es - f \<le> n \<Longrightarrow>
    scan_free n es (of_nat (length es)) (of_nat f) = Inr FREE_INDEX_INVALID \<and>
      (\<forall>j. f < j \<and> j < length es \<longrightarrow> ent_key (es ! j) \<noteq> None) \<or>
    (\<exists>g. scan_free n es (of_nat (length es)) (of_nat f) = Inr (of_nat g) \<and> f < g \<and> g < length es \<and>
      ent_key (es ! g) = None \<and> (\<forall>j. f < j \<and> j < g \<longrightarrow> ent_key (es ! j) \<noteq> None))"
proof (induction n arbitrary: f)
  case (Suc n)
  have lt: "length es < 2 ^ 32" using cap_ok_length [OF cap] by simp
  have su: "(of_nat f + 1 :: u32) = of_nat (Suc f)" by simp
  show ?case
  proof (cases "Suc f = length es")
    case True
    then have "(of_nat f + 1 :: u32) = of_nat (length es)" using su by simp
    then show ?thesis using True by (auto simp: Let_def)
  next
    case False
    then have sf: "Suc f < length es" using Suc.prems by simp
    have uf: "unat (of_nat f + 1 :: u32) = Suc f" unfolding su by (rule unat_idx [OF cap sf])
    have ne: "(of_nat f + 1 :: u32) \<noteq> of_nat (length es)"
      using uf sf lt unat_of_nat_u32 [OF lt] by auto
    have step: "scan_free (Suc n) es (of_nat (length es)) (of_nat f) =
        (if ent_key (es ! Suc f) = None then Inr (of_nat (Suc f))
         else scan_free n es (of_nat (length es)) (of_nat (Suc f)))"
      using ne uf sf su by (simp add: Let_def ent_at_def del: of_nat_Suc)
    show ?thesis
    proof (cases "ent_key (es ! Suc f) = None")
      case True
      then show ?thesis using step sf by (intro disjI2 exI [of _ "Suc f"]) auto
    next
      case occ: False
      then have st: "scan_free (Suc n) es (of_nat (length es)) (of_nat f) =
          scan_free n es (of_nat (length es)) (of_nat (Suc f))" using step by (simp only: if_False)
      have all: "(\<forall>j. Suc f < j \<and> P j \<longrightarrow> ent_key (es ! j) \<noteq> None) \<Longrightarrow>
          (\<forall>j. f < j \<and> P j \<longrightarrow> ent_key (es ! j) \<noteq> None)" for P
        using occ by (metis Suc_lessI)
      have le: "length es - Suc f \<le> n" using Suc.prems by simp
      from Suc.IH [OF sf le] show ?thesis
      proof (elim disjE conjE exE)
        fix g assume "scan_free n es (of_nat (length es)) (of_nat (Suc f)) = Inr (of_nat g)"
          "Suc f < g" "g < length es" "ent_key (es ! g) = None"
          "\<forall>j. Suc f < j \<and> j < g \<longrightarrow> ent_key (es ! j) \<noteq> None"
        then show ?thesis
          unfolding st using all [of "\<lambda>j. j < g"] by (intro disjI2 exI [of _ g]) auto
      qed (use st all [of "\<lambda>j. j < length es"] in auto)
    qed
  qed
qed simp

text \<open>Filling the slot the free index names and moving the index on keeps both conditions on
  it. The scan may run before or after the other slots are written.\<close>

lemma scan_free_inv:
  assumes cap: "cap_ok c es" and len: "length es0 = length es" "length es' = length es"
    and f: "f < length es" and holes: "holes_ok c es (of_nat f)"
    and scan: "\<And>j. f < j \<Longrightarrow> j < length es \<Longrightarrow> ent_key (es0 ! j) = None \<longleftrightarrow> ent_key (es' ! j) = None"
    and fill: "ent_key (es' ! f) \<noteq> None"
    and keep: "\<And>j. j < length es \<Longrightarrow> ent_key (es' ! j) = None \<Longrightarrow>
      ent_key (es ! j) = None \<and> home c (es' ! j) = home c (es ! j)"
  obtains g where "scan_free (length es0) es0 (of_nat (length es)) (of_nat f) = Inr g"
    "free_ok es' g" "holes_ok c es' g"
proof -
  have cap0: "cap_ok c es0" using cap len cap_ok_cong by blast
  have hole: "home c (es' ! j) = j" if "j < length es" "ent_key (es' ! j) = None" "j \<le> f" for j
  proof -
    have "j < f" using that fill by (metis le_neq_implies_less)
    then show ?thesis
      using that keep [of j] holes f unat_idx [OF cap f] by (auto simp: holes_ok_def)
  qed
  from scan_free_spec [OF cap0, of f "length es0"] f len
  consider (none) "scan_free (length es0) es0 (of_nat (length es)) (of_nat f) = Inr FREE_INDEX_INVALID"
      "\<forall>j. f < j \<and> j < length es \<longrightarrow> ent_key (es0 ! j) \<noteq> None"
    | (some) g where "scan_free (length es0) es0 (of_nat (length es)) (of_nat f) = Inr (of_nat g)"
      "f < g" "g < length es" "ent_key (es0 ! g) = None"
      "\<forall>j. f < j \<and> j < g \<longrightarrow> ent_key (es0 ! j) \<noteq> None"
    by auto
  then show thesis
  proof cases
    case none
    have "holes_ok c es' FREE_INDEX_INVALID"
      unfolding holes_ok_def using none scan hole len by (metis not_le)
    then show thesis using that none by (simp add: free_ok_def)
  next
    case some
    have u: "unat (of_nat g :: u32) = g" by (rule unat_idx [OF cap some(3)])
    have ne: "(of_nat g :: u32) \<noteq> FREE_INDEX_INVALID"
      using idx_valid [OF cap some(3)] by (simp add: NEXT_INVALID_def FREE_INDEX_INVALID_def)
    have "holes_ok c es' (of_nat g)"
      unfolding holes_ok_def using some scan hole len u ne by (metis less_trans not_le)
    moreover have "free_ok es' (of_nat g)" using some scan len u by (simp add: free_ok_def)
    ultimately show thesis using that some by blast
  qed
qed

section \<open>Writing slots\<close>

lemma mset_pairs_fill:
  "i < length es \<Longrightarrow> ent_key (es ! i) = None \<Longrightarrow>
   mset (pairs (es[i := e])) = mset (pairs es) + opt_mset (kv e)"
  using mset_pairs_update [of i es e] kv_None [of "es ! i"] by simp

lemma mset_pairs_vacate:
  "i < length es \<Longrightarrow> ent_key e = None \<Longrightarrow>
   mset (pairs es) = mset (pairs (es[i := e])) + opt_mset (kv (es ! i))"
  using mset_pairs_update [of i es e] kv_None [of e] by simp

lemma mset_pairs_same:
  "i < length es \<Longrightarrow> kv e = kv (es ! i) \<Longrightarrow> mset (pairs (es[i := e])) = mset (pairs es)"
  using mset_pairs_update [of i es e] by simp

lemma kv_next [simp]: "kv (e\<lparr>ent_next := n\<rparr>) = kv e"
  by (simp add: kv_def ekey_def)

lemma entry_ok_next [simp]: "entry_ok (e\<lparr>ent_next := n\<rparr>) = entry_ok e"
  by (simp add: entry_ok_def)

lemma home_next [simp]: "home c (e\<lparr>ent_next := n\<rparr>) = home c e"
  by (simp add: home_def)

lemma all_update: "\<forall>e \<in> set es. P e \<Longrightarrow> P x \<Longrightarrow> \<forall>e \<in> set (es[i := x]). P e"
  using set_update_subset_insert by fast

lemma ended_update: "ended es \<Longrightarrow> ent_key e \<noteq> None \<or> ent_next e = NEXT_INVALID \<Longrightarrow> ended (es[i := e])"
  by (cases "i < length es") (auto simp: ended_def nth_list_update)

lemma ended_next: "ended es \<Longrightarrow> ent_key (es ! i) \<noteq> None \<Longrightarrow> ended (es[i := (es ! i)\<lparr>ent_next := n\<rparr>])"
  by (cases "i < length es") (auto simp: ended_def nth_list_update)

text \<open>The new entry: the key without its terminator, the hash, and the value's bytes.\<close>

definition alloc_ok :: "heap \<Rightarrow> bytes \<Rightarrow> bool" where
  "alloc_ok h k \<longleftrightarrow> length k < 2 ^ 31 \<and>
     can_alloc h (unat (bit_pow2_greater_than (of_nat (length k))) + sizeof_String + 1)"

lemma string_create_prefix:
  "length k < 2 ^ 32 \<Longrightarrow>
   string_create_from_cstr h (k @ r) (of_nat (length k)) = string_create_from_cstr h k (of_nat (length k))"
  by (simp add: string_create_from_cstr_def string_realloc_and_fill_def mem_read_def slice_def
      unat_of_nat_u32)

lemma do_insert_spec:
  assumes k: "0 \<notin> set k" "alloc_ok h k" and v: "unat sz \<le> length v"
  obtains e' where
    "hash_table_do_insert h e (k @ 0 # r) (of_nat (length k)) v (khash k) sz = Inr e'"
    "kv e' = Some (k, take (unat sz) v)" "entry_ok e'" "ent_next e' = ent_next e"
    "ent_hash e' = khash k" "ent_key e' \<noteq> None"
proof -
  have lk: "length k < 2 ^ 31" and al: "can_alloc h (unat (bit_pow2_greater_than (of_nat (length k))) + sizeof_String + 1)"
    using k(2) by (auto simp: alloc_ok_def)
  have u: "unat (of_nat (length k) :: u32) = length k" using lk by (intro unat_of_nat_u32) simp
  obtain s where s: "string_create_from_cstr h k (of_nat (length k)) = Inr s"
    using string_create_from_cstr_total [OF al] lk u by auto
  have pre: "string_create_from_cstr h (k @ 0 # r) (of_nat (length k)) = Inr s"
    using string_create_prefix [of k] s lk by simp
  note sp = string_create_from_cstr_spec [OF s] u lk
  have d: "take (length k) (str_data s) = k" "str_data s ! length k = 0" "length k < length (str_data s)"
    using sp by (auto simp: str_chars_def string_inv_def)
  have sd: "str_data s = k @ 0 # drop (Suc (length k)) (str_data s)"
    using id_take_nth_drop [OF d(3)] d by simp
  have c: "cstr (str_data s) = k" "0 \<in> set (str_data s)"
    using cstr_append_null [OF k(1)] sd by (metis, metis in_set_conv_decomp)
  show thesis
    by (rule that [of "e\<lparr>ent_key := Some s, ent_hash := khash k, ent_data := take (unat sz) v\<rparr>"])
      (use pre v c in \<open>auto simp: hash_table_do_insert_def mem_read_def slice_def kv_def ekey_def entry_ok_def\<close>)
qed

section \<open>Set\<close>

definition set_done :: "table \<Rightarrow> bytes \<Rightarrow> bytes \<Rightarrow> table \<Rightarrow> bool \<Rightarrow> bool" where
  "set_done tbl k v tbl' b \<longleftrightarrow>
     table_inv tbl' \<and> ht_elemSize tbl' = ht_elemSize tbl \<and> ht_entSize tbl' = ht_entSize tbl \<and>
     b = (ht_contents tbl k = None) \<and>
     ht_contents tbl' = (if b then (ht_contents tbl)(k \<mapsto> v) else ht_contents tbl)"

lemma contents_None: "ht_contents tbl k = None \<longleftrightarrow> k \<notin> fst ` set (pairs (ht_entries tbl))"
  by (simp add: ht_contents_def map_of_eq_None_iff)

lemma set_done_insert:
  assumes inv: "table_inv tbl" and absent: "k \<notin> fst ` set (pairs (ht_entries tbl))"
    and m: "mset (pairs es') = add_mset (k, v) (mset (pairs (ht_entries tbl)))"
    and len: "length es' = length (ht_entries tbl)"
    and es': "chains (ht_capacity tbl - 1) es'" "ended es'" "free_ok es' g"
      "holes_ok (ht_capacity tbl - 1) es' g" "\<forall>e \<in> set es'. entry_ok e"
  shows "set_done tbl k v (tbl\<lparr>ht_freeIndex := g, ht_entries := es'\<rparr>) True"
proof -
  have "distinct (map fst (pairs (ht_entries tbl)))" using inv by (simp add: table_inv_def es_inv_def)
  note pi = pairs_insert [OF m this absent]
  have "cap_ok (ht_capacity tbl - 1) es'"
    using inv cap_ok_cong [OF len] by (simp add: table_inv_def es_inv_def)
  moreover have "ht_contents tbl k = None" using absent by (simp add: contents_None)
  ultimately show ?thesis
    using inv pi es' len by (simp add: set_done_def table_inv_def es_inv_def ht_contents_def)
qed

text \<open>Every entry with key \<open>k\<close> is in the bucket of the main position of \<open>k\<close>.\<close>

lemma present_in_bucket:
  assumes "es_inv c es free" "i < length es" "ekey (es ! i) = Some k"
  shows "i \<in> bucket c es (unat (khash k AND c))"
  using es_invD(6) [OF assms(1,2)] assms(2,3)
  by (auto simp: bucket_def occ_def home_def entry_ok_def ekey_def)

lemma absent_if_bucket_empty:
  "es_inv c es free \<Longrightarrow> bucket c es (unat (khash k AND c)) = {} \<Longrightarrow> k \<notin> fst ` set (pairs es)"
  by (auto simp: key_in_pairs dest: present_in_bucket)

lemma free_slot:
  assumes "es_inv c es free" "free \<noteq> FREE_INDEX_INVALID"
  obtains f where "free = of_nat f" "f < length es" "ent_key (es ! f) = None" "unat free = f"
    "holes_ok c es (of_nat f)"
proof
  show "holes_ok c es (of_nat (unat free))" using es_invD(5) [OF assms(1)] by simp
qed (use es_invD(4) [OF assms(1)] assms(2) in \<open>auto simp: free_ok_def\<close>)

lemma advance_free_index:
  "hash_table_advance_free_index tbl =
     bindE (scan_free (length (ht_entries tbl)) (ht_entries tbl) (ht_capacity tbl) (ht_freeIndex tbl))
       (\<lambda>g. Inr (tbl\<lparr>ht_freeIndex := g\<rparr>))"
  by (simp add: hash_table_advance_free_index_def)

text \<open>First branch: the main position is empty.\<close>

lemma do_set_fill:
  assumes inv: "table_inv tbl" and k: "0 \<notin> set k" "alloc_ok h k" and v: "unat (ht_elemSize tbl) \<le> length v"
    and pos: "ent_key (ht_entries tbl ! unat (khash k AND (ht_capacity tbl - 1))) = None"
  shows "\<exists>tbl'. do_set_step h tbl (k @ 0 # r) (of_nat (length k)) v (khash k) = Inr (Some (tbl', True)) \<and>
    set_done tbl k (take (unat (ht_elemSize tbl)) v) tbl' True"
proof -
  define c es p where "c = ht_capacity tbl - 1" and "es = ht_entries tbl" and "p = unat (khash k AND c)"
  have len: "length es = unat (ht_capacity tbl)" and ei: "es_inv c es (ht_freeIndex tbl)"
    using inv by (auto simp: table_inv_def c_def es_def)
  note ed = es_invD [OF ei]
  have p: "p < length es" "ent_key (es ! p) = None"
    using home_less [OF ed(1), of "undefined\<lparr>ent_hash := khash k\<rparr>"] pos
    by (auto simp: home_def p_def c_def es_def)
  obtain e where ins: "hash_table_do_insert h (es ! p) (k @ 0 # r) (of_nat (length k)) v (khash k)
        (ht_elemSize tbl) = Inr e"
    and e: "kv e = Some (k, take (unat (ht_elemSize tbl)) v)" "entry_ok e"
      "ent_next e = ent_next (es ! p)" "ent_hash e = khash k" "ent_key e \<noteq> None"
    by (rule do_insert_spec [OF k v])
  have e: "kv e = Some (k, take (unat (ht_elemSize tbl)) v)" "entry_ok e" "ent_next e = NEXT_INVALID"
      "home c e = p" "ent_key e \<noteq> None"
    using e ed(3) p by (auto simp: ended_def home_def p_def)
  have ch: "chains c (es[p := e])" by (rule chains_fill [OF ed(1,2) p e(5,4,3)])
  have ab: "k \<notin> fst ` set (pairs es)"
    using absent_if_bucket_empty [OF ei] bucket_empty [OF ed(1,2)] p unfolding p_def by blast
  have m: "mset (pairs (es[p := e])) = add_mset (k, take (unat (ht_elemSize tbl)) v) (mset (pairs es))"
    using mset_pairs_fill [OF p] e(1) by simp
  obtain g where adv: "(if khash k AND c = ht_freeIndex tbl then hash_table_advance_free_index tbl
        else Inr tbl) = Inr (tbl\<lparr>ht_freeIndex := g\<rparr>)"
    and g: "free_ok (es[p := e]) g" "holes_ok c (es[p := e]) g"
  proof (cases "khash k AND c = ht_freeIndex tbl")
    case True
    then have fp: "ht_freeIndex tbl = of_nat p" by (simp add: p_def flip: True)
    obtain g where "scan_free (length es) es (of_nat (length es)) (of_nat p) = Inr g"
      "free_ok (es[p := e]) g" "holes_ok c (es[p := e]) g"
      by (rule scan_free_inv [OF ed(1), of es "es[p := e]" p])
        (use p e ed(5) fp in \<open>auto simp: nth_list_update\<close>)
    then show thesis using True len fp
      by (intro that [of g]) (auto simp: advance_free_index es_def)
  next
    case False
    then have "p \<noteq> unat (ht_freeIndex tbl)" by (metis p_def word_unat_eq_iff)
    then have "free_ok (es[p := e]) (ht_freeIndex tbl)" "holes_ok c (es[p := e]) (ht_freeIndex tbl)"
      using ed(4,5) p e by (auto simp: free_ok_def holes_ok_def nth_list_update)
    then show thesis using False by (intro that [of "ht_freeIndex tbl"]) auto
  qed
  have run: "do_set_step h tbl (k @ 0 # r) (of_nat (length k)) v (khash k) =
      Inr (Some (tbl\<lparr>ht_freeIndex := g, ht_entries := es[p := e]\<rparr>, True))"
    using p ins adv by (simp add: do_set_step_def Let_def ent_at_def ent_set_def
        flip: c_def es_def p_def)
  have "set_done tbl k (take (unat (ht_elemSize tbl)) v) (tbl\<lparr>ht_freeIndex := g, ht_entries := es[p := e]\<rparr>) True"
    by (rule set_done_insert [OF inv])
      (use ab m ch ended_update [OF ed(3), of e p] g all_update [OF ed(7), of e p] e in
        \<open>auto simp: c_def es_def\<close>)
  with run show ?thesis by blast
qed

section \<open>Evicting and appending\<close>

text \<open>The array after an eviction, shared by set and by the rebuilding loop.\<close>

definition evicted :: "entry list \<Rightarrow> nat \<Rightarrow> nat \<Rightarrow> nat \<Rightarrow> entry \<Rightarrow> entry list" where
  "evicted es f a p e = es[f := es ! p, a := (es ! a)\<lparr>ent_next := of_nat f\<rparr>, p := e]"

lemma evict_pred:
  assumes cap: "cap_ok c es" and chs: "chains c es"
    and p: "occ es p" "home c (es ! p) \<noteq> p" and f: "f < length es" "ent_key (es ! f) = None"
  obtains a where "occ es a" "a \<noteq> p" "a \<noteq> f" "f \<noteq> p"
    "follow_chain (length es) (es[f := es ! p]) (of_nat p) (of_nat (home c (es ! p))) = Inr (of_nat a)"
    "\<And>e. ent_key e = None \<or> home c e = p \<Longrightarrow> ent_next e = NEXT_INVALID \<Longrightarrow> chains c (evicted es f a p e)"
proof -
  let ?q = "home c (es ! p)"
  obtain us a vs where ch: "chain c es ?q (us @ a # p # vs)"
    by (rule foreign_split [OF cap chs p])
  have inb: "set (us @ a # p # vs) = bucket c es ?q" and dist: "distinct (us @ a # p # vs)"
    using ch by (simp_all add: chain_def)
  have fb: "f \<notin> bucket c es ?q" using f by (simp add: bucket_def occ_def)
  have "a \<in> bucket c es ?q" using inb by auto
  then have a: "occ es a" "a \<noteq> p" "a \<noteq> f" "f \<noteq> p"
    using fb dist f p by (auto simp: bucket_def occ_def)
  define es1 where "es1 = es[f := es ! p]"
  have "ent_next (es1 ! j) = ent_next (es ! j)" if "j \<in> set (us @ a # p # vs)" for j
    using that fb unfolding inb by (cases "j = f") (auto simp: es1_def)
  then have seg1: "lseg es1 (us @ a # p # vs) x t = lseg es (us @ a # p # vs) x t" for x t
    by (intro lseg_cong) blast
  have cap1: "cap_ok c es1" using cap cap_ok_cong [of es1 es] by (simp add: es1_def)
  have fol: "follow_chain (length es) es1 (of_nat p) (of_nat ?q) = Inr (of_nat a)"
  proof (rule follow_chain_lseg [OF cap1])
    have sg: "lseg es1 (us @ a # p # vs) (of_nat ?q) NEXT_INVALID" "distinct (us @ a # p # vs)"
      using ch seg1 by (auto simp: chain_def)
    have bd: "\<forall>j \<in> set (us @ a # p # vs). j < length es1" using chain_bound [OF ch] by (simp add: es1_def)
    show "lseg es1 (us @ [a]) (of_nat ?q) (of_nat p)" using sg by (auto simp: lseg_append)
    show "\<forall>j \<in> set us. ent_next (es1 ! j) \<noteq> of_nat p"
      using lseg_next_unique [OF cap1 sg bd] by blast
    show "\<forall>j \<in> set (us @ [a]). j < length es1" using bd by simp
    show "length us < length es" using chain_length [OF cap ch] by simp
  qed
  have pl: "p < length es" using p by (simp add: occ_def)
  have "chains c (evicted es f a p e)"
    if "ent_key e = None \<or> home c e = p" "ent_next e = NEXT_INVALID" for e
    by (rule chains_evict [OF cap chs pl ch home_less [OF cap] p(2) f that]) (simp add: evicted_def)
  then show thesis using that a fol unfolding es1_def by blast
qed

lemma evicted_nth:
  assumes "f < length es" "a < length es" "p < length es" "a \<noteq> p" "a \<noteq> f" "f \<noteq> p"
  shows "evicted es f a p e ! f = es ! p" "evicted es f a p e ! p = e"
    "evicted es f a p e ! a = (es ! a)\<lparr>ent_next := of_nat f\<rparr>"
    "j \<noteq> f \<Longrightarrow> j \<noteq> a \<Longrightarrow> j \<noteq> p \<Longrightarrow> evicted es f a p e ! j = es ! j"
    "length (evicted es f a p e) = length es"
  using assms by (auto simp: evicted_def nth_list_update)

lemma evicted_props:
  assumes i: "f < length es" "occ es a" "occ es p" "a \<noteq> p" "a \<noteq> f" "f \<noteq> p" "ent_key (es ! f) = None"
    and e: "entry_ok e" "ent_next e = NEXT_INVALID"
    and es: "ended es" "\<forall>e \<in> set es. entry_ok e"
  shows "mset (pairs (evicted es f a p e)) = mset (pairs es) + opt_mset (kv e)"
    "ended (evicted es f a p e)" "\<forall>e \<in> set (evicted es f a p e). entry_ok e"
proof -
  have l: "a < length es" "p < length es" using i by (auto simp: occ_def)
  note n = evicted_nth [OF i(1) l i(4-6)]
  let ?es1 = "es[f := es ! p]" and ?es2 = "es[f := es ! p, a := (es ! a)\<lparr>ent_next := of_nat f\<rparr>]"
  have "mset (pairs ?es2) = mset (pairs ?es1)" by (rule mset_pairs_same) (use l i in auto)
  moreover have "mset (pairs ?es1) = mset (pairs es) + opt_mset (kv (es ! p))"
    by (rule mset_pairs_fill [OF i(1,7)])
  moreover have "mset (pairs (evicted es f a p e)) + opt_mset (kv (es ! p)) = mset (pairs ?es2) + opt_mset (kv e)"
    using mset_pairs_update [of p ?es2 e] l i by (simp add: evicted_def)
  ultimately show "mset (pairs (evicted es f a p e)) = mset (pairs es) + opt_mset (kv e)" by simp
  show "ended (evicted es f a p e)"
    unfolding evicted_def by (intro ended_update es(1)) (use i e in \<open>auto simp: occ_def\<close>)
  show "\<forall>e \<in> set (evicted es f a p e). entry_ok e"
    unfolding evicted_def by (intro all_update es(2)) (use l es(2) e in auto)
qed

definition appended :: "entry list \<Rightarrow> nat \<Rightarrow> nat \<Rightarrow> entry \<Rightarrow> entry list" where
  "appended es l f e = es[l := (es ! l)\<lparr>ent_next := of_nat f\<rparr>, f := e]"

lemma appended_nth:
  assumes "f < length es" "l < length es" "l \<noteq> f"
  shows "appended es l f e ! f = e" "appended es l f e ! l = (es ! l)\<lparr>ent_next := of_nat f\<rparr>"
    "j \<noteq> f \<Longrightarrow> j \<noteq> l \<Longrightarrow> appended es l f e ! j = es ! j"
    "length (appended es l f e) = length es"
  using assms by (auto simp: appended_def nth_list_update)

lemma appended_props:
  assumes i: "f < length es" "occ es l" "ent_key (es ! f) = None"
    and e: "entry_ok e" "ent_next e = NEXT_INVALID"
    and es: "ended es" "\<forall>e \<in> set es. entry_ok e"
  shows "mset (pairs (appended es l f e)) = mset (pairs es) + opt_mset (kv e)"
    "ended (appended es l f e)" "\<forall>e \<in> set (appended es l f e). entry_ok e"
proof -
  have l: "l < length es" "l \<noteq> f" using i by (auto simp: occ_def)
  let ?es1 = "es[l := (es ! l)\<lparr>ent_next := of_nat f\<rparr>]"
  have "mset (pairs ?es1) = mset (pairs es)" by (rule mset_pairs_same) (use l in auto)
  moreover have "mset (pairs (?es1[f := e])) = mset (pairs ?es1) + opt_mset (kv e)"
    by (rule mset_pairs_fill) (use i l in auto)
  ultimately show "mset (pairs (appended es l f e)) = mset (pairs es) + opt_mset (kv e)"
    by (simp add: appended_def)
  show "ended (appended es l f e)"
    unfolding appended_def by (intro ended_update es(1)) (use i e in \<open>auto simp: occ_def\<close>)
  show "\<forall>e \<in> set (appended es l f e). entry_ok e"
    unfolding appended_def by (intro all_update es(2)) (use l es(2) e in auto)
qed

text \<open>Second branch of set: the main position holds an entry of another chain, which moves to
  the free slot.\<close>

lemma do_set_evict:
  assumes inv: "table_inv tbl" and k: "0 \<notin> set k" "alloc_ok h k" and v: "unat (ht_elemSize tbl) \<le> length v"
    and pdef: "p = unat (khash k AND (ht_capacity tbl - 1))"
    and pos: "ent_key (ht_entries tbl ! p) \<noteq> None" "home (ht_capacity tbl - 1) (ht_entries tbl ! p) \<noteq> p"
    and free: "ht_freeIndex tbl \<noteq> FREE_INDEX_INVALID"
  shows "\<exists>tbl'. do_set_step h tbl (k @ 0 # r) (of_nat (length k)) v (khash k) = Inr (Some (tbl', True)) \<and>
    set_done tbl k (take (unat (ht_elemSize tbl)) v) tbl' True"
proof -
  define c es where "c = ht_capacity tbl - 1" and "es = ht_entries tbl"
  have len: "length es = unat (ht_capacity tbl)" and ei: "es_inv c es (ht_freeIndex tbl)"
    using inv by (auto simp: table_inv_def c_def es_def)
  note ed = es_invD [OF ei]
  have pc: "p = unat (khash k AND c)" by (simp add: pdef c_def)
  have pl: "p < length es" using home_less [OF ed(1), of "undefined\<lparr>ent_hash := khash k\<rparr>"]
    by (simp add: home_def pc)
  have p: "occ es p" "home c (es ! p) \<noteq> p" using pos pl by (auto simp: occ_def c_def es_def)
  obtain f where f: "ht_freeIndex tbl = of_nat f" "f < length es" "ent_key (es ! f) = None"
      "unat (ht_freeIndex tbl) = f" "holes_ok c es (of_nat f)"
    by (rule free_slot [OF ei free])
  obtain a where a: "occ es a" "a \<noteq> p" "a \<noteq> f" "f \<noteq> p"
    and fol: "follow_chain (length es) (es[f := es ! p]) (of_nat p) (of_nat (home c (es ! p))) = Inr (of_nat a)"
    and chs: "\<And>e. ent_key e = None \<or> home c e = p \<Longrightarrow> ent_next e = NEXT_INVALID \<Longrightarrow> chains c (evicted es f a p e)"
    by (rule evict_pred [OF ed(1,2) p f(2,3)]) blast
  have al: "a < length es" using a by (simp add: occ_def)
  obtain e0 where ins: "hash_table_do_insert h (es ! p) (k @ 0 # r) (of_nat (length k)) v (khash k)
        (ht_elemSize tbl) = Inr e0"
    and e0: "kv e0 = Some (k, take (unat (ht_elemSize tbl)) v)" "entry_ok e0"
      "ent_next e0 = ent_next (es ! p)" "ent_hash e0 = khash k" "ent_key e0 \<noteq> None"
    by (rule do_insert_spec [OF k v])
  define e where "e = e0\<lparr>ent_next := NEXT_INVALID\<rparr>"
  have e: "kv e = Some (k, take (unat (ht_elemSize tbl)) v)" "entry_ok e" "ent_next e = NEXT_INVALID"
      "home c e = p" "ent_key e \<noteq> None"
    using e0 by (auto simp: home_def pc e_def)
  note n = evicted_nth [OF f(2) al pl a(2-4), where e = e]
  note pr = evicted_props [OF f(2) a(1) p(1) a(2-4) f(3) e(2,3) ed(3,7)]
  define es2 where "es2 = es[f := es ! p, a := (es ! a)\<lparr>ent_next := of_nat f\<rparr>]"
  have es2: "evicted es f a p e = es2[p := e]" "length es2 = length es" "es2 ! p = es ! p"
    using a by (simp_all add: es2_def evicted_def)
  have k3: "j \<noteq> f \<and> j \<noteq> a \<and> j \<noteq> p" if "ent_key (evicted es f a p e ! j) = None" for j
    using that n p a e by (auto simp: occ_def)
  have k2: "ent_key (es2 ! j) = None \<longleftrightarrow> ent_key (evicted es f a p e ! j) = None" for j
    using es2 p e by (cases "j = p") (auto simp: occ_def)
  obtain g where sc: "scan_free (length es2) es2 (of_nat (length es)) (of_nat f) = Inr g"
    and g: "free_ok (evicted es f a p e) g" "holes_ok c (evicted es f a p e) g"
  proof (rule scan_free_inv [OF ed(1) es2(2) n(5) f(2,5)])
    show "ent_key (evicted es f a p e ! f) \<noteq> None" using n p by (simp add: occ_def)
    show "ent_key (es ! j) = None \<and> home c (evicted es f a p e ! j) = home c (es ! j)"
      if "j < length es" "ent_key (evicted es f a p e ! j) = None" for j
      using k3 [OF that(2)] n(4) [of j] that(2) by simp
  qed (use k2 that in auto)
  have ab: "k \<notin> fst ` set (pairs es)"
    using absent_if_bucket_empty [OF ei] bucket_empty [OF ed(1,2) pl] p unfolding pc by blast
  have run: "do_set_step h tbl (k @ 0 # r) (of_nat (length k)) v (khash k) =
      Inr (Some (tbl\<lparr>ht_freeIndex := g, ht_entries := es2[p := e]\<rparr>, True))"
  proof -
    have q: "ent_hash (es ! p) AND c = of_nat (home c (es ! p))" "khash k AND c = of_nat p"
        "(of_nat (home c (es ! p)) :: u32) \<noteq> of_nat p"
      using p idx_inj [OF ed(1) home_less [OF ed(1)] pl] by (auto simp: home_def pc)
    have u: "unat (of_nat f :: u32) = f" "unat (of_nat a :: u32) = a" "unat (of_nat p :: u32) = p"
      using unat_idx [OF ed(1)] f al pl by auto
    have adv: "hash_table_advance_free_index (tbl\<lparr>ht_entries := es2\<rparr>) =
        Inr (tbl\<lparr>ht_entries := es2, ht_freeIndex := g\<rparr>)"
      using sc len es2 f by (simp add: advance_free_index)
    show ?thesis
      using p f a al pl q u fol ins es2 adv free
      by (simp add: do_set_step_def Let_def ent_at_def ent_set_def e_def FREE_INDEX_INVALID_def
          NEXT_INVALID_def occ_def del: not_None_eq flip: c_def es_def es2_def)
  qed
  have "set_done tbl k (take (unat (ht_elemSize tbl)) v)
      (tbl\<lparr>ht_freeIndex := g, ht_entries := evicted es f a p e\<rparr>) True"
    by (rule set_done_insert [OF inv])
      (use ab pr chs [of e] e g n(5) in \<open>simp_all flip: c_def es_def\<close>)
  with run es2(1) show ?thesis by (metis (no_types))
qed

text \<open>Third branch: the chain of the key's main position is searched, and extended when the key
  is not in it.\<close>

lemma search_chain:
  assumes ei: "es_inv c es free" and k: "0 \<notin> set k" and pc: "p = unat (khash k AND c)"
    and p: "occ es p" "home c (es ! p) = p"
  obtains (found) us i vs where "chain c es p (us @ i # vs)" "ekey (es ! i) = Some k"
      "walk_chain (length es) es (k @ 0 # r) (khash k) None (of_nat p) =
         Inr (Found (if us = [] then None else Some (of_nat (last us))) (of_nat i))"
  | (absent) us l where "chain c es p (us @ [l])" "k \<notin> fst ` set (pairs es)"
      "walk_chain (length es) es (k @ 0 # r) (khash k) None (of_nat p) = Inr (End (of_nat l))"
proof -
  note ed = es_invD [OF ei]
  have ck: "cstr (k @ 0 # r) = k" by (rule cstr_append_null [OF k])
  have pl: "p < length es" using p by (simp add: occ_def)
  obtain ch where ch: "chain c es p ch" using ed(2) pl by (auto simp: chains_def)
  have pb: "p \<in> set ch" using ch p by (simp add: chain_def bucket_def)
  then have ne: "ch \<noteq> []" by auto
  have sg: "lseg es ch (of_nat p) NEXT_INVALID" using ch ne by (simp add: chain_def)
  have ok: "\<forall>i \<in> set ch. occ es i \<and> entry_ok (es ! i)"
    using ch ed(6) by (auto simp: chain_def bucket_def occ_def)
  have z: "0 \<in> set (k @ 0 # r)" by simp
  from walk_chain_lseg [OF ed(1) z sg ne ok chain_length [OF ed(1) ch], of None, unfolded ck]
  show thesis
  proof (elim disjE exE conjE)
    fix xs i ys assume "ch = xs @ i # ys" "ekey (es ! i) = Some k"
      "walk_chain (length es) es (k @ 0 # r) (khash k) None (of_nat p) =
         Inr (Found (if xs = [] then None else Some (of_nat (last xs))) (of_nat i))"
    then show thesis using found ch by blast
  next
    assume none: "\<forall>i \<in> set ch. ekey (es ! i) \<noteq> Some k"
      and w: "walk_chain (length es) es (k @ 0 # r) (khash k) None (of_nat p) = Inr (End (of_nat (last ch)))"
    have "k \<notin> fst ` set (pairs es)"
      using none ch present_in_bucket [OF ei] pc by (auto simp: key_in_pairs chain_def)
    moreover obtain us l where "ch = us @ [l]" using ne by (cases ch rule: rev_cases) auto
    ultimately show thesis using absent ch w by auto
  qed
qed

lemma do_set_chain:
  assumes inv: "table_inv tbl" and k: "0 \<notin> set k" "alloc_ok h k" and v: "unat (ht_elemSize tbl) \<le> length v"
    and pdef: "p = unat (khash k AND (ht_capacity tbl - 1))"
    and pos: "ent_key (ht_entries tbl ! p) \<noteq> None" "home (ht_capacity tbl - 1) (ht_entries tbl ! p) = p"
    and free: "ht_freeIndex tbl \<noteq> FREE_INDEX_INVALID"
  shows "\<exists>tbl' b. do_set_step h tbl (k @ 0 # r) (of_nat (length k)) v (khash k) = Inr (Some (tbl', b)) \<and>
    set_done tbl k (take (unat (ht_elemSize tbl)) v) tbl' b"
proof -
  define c es where "c = ht_capacity tbl - 1" and "es = ht_entries tbl"
  have len: "length es = unat (ht_capacity tbl)" and ei: "es_inv c es (ht_freeIndex tbl)"
    using inv by (auto simp: table_inv_def c_def es_def)
  note ed = es_invD [OF ei]
  have pc: "p = unat (khash k AND c)" by (simp add: pdef c_def)
  have pl: "p < length es" using home_less [OF ed(1), of "undefined\<lparr>ent_hash := khash k\<rparr>"]
    by (simp add: home_def pc)
  have p: "occ es p" "home c (es ! p) = p" using pos pl by (auto simp: occ_def c_def es_def)
  obtain f where f: "ht_freeIndex tbl = of_nat f" "f < length es" "ent_key (es ! f) = None"
      "unat (ht_freeIndex tbl) = f" "holes_ok c es (of_nat f)"
    by (rule free_slot [OF ei free])
  have q: "ent_hash (es ! p) AND c = of_nat p" "khash k AND c = of_nat p"
    using p(2) pc by (metis home_def pos_of_nat, simp)
  have u: "unat (of_nat f :: u32) = f" "unat (of_nat p :: u32) = p"
    using unat_idx [OF ed(1)] f pl by auto
  show ?thesis
  proof (rule search_chain [OF ei k(1) pc p, of r])
    fix us i vs assume ch: "chain c es p (us @ i # vs)" and ki: "ekey (es ! i) = Some k"
      and w: "walk_chain (length es) es (k @ 0 # r) (khash k) None (of_nat p) =
         Inr (Found (if us = [] then None else Some (of_nat (last us))) (of_nat i))"
    have il: "i < length es" using chain_bound [OF ch] by simp
    have "ht_contents tbl k \<noteq> None" using il ki by (auto simp: contents_None key_in_pairs es_def)
    then have "set_done tbl k (take (unat (ht_elemSize tbl)) v) tbl False" using inv by (simp add: set_done_def)
    moreover have "do_set_step h tbl (k @ 0 # r) (of_nat (length k)) v (khash k) = Inr (Some (tbl, False))"
      using p pl q u w free
      by (simp add: do_set_step_def Let_def ent_at_def ent_set_def occ_def del: not_None_eq
          flip: c_def es_def)
    ultimately show ?thesis by blast
  next
    fix us l assume ch: "chain c es p (us @ [l])" and ab: "k \<notin> fst ` set (pairs es)"
      and w: "walk_chain (length es) es (k @ 0 # r) (khash k) None (of_nat p) = Inr (End (of_nat l))"
    have lo: "occ es l" and ll: "l < length es" using ch by (auto simp: chain_def bucket_def occ_def set_eq_iff)
    then have lf: "l \<noteq> f" using f by (auto simp: occ_def)
    define es1 where "es1 = es[l := (es ! l)\<lparr>ent_next := of_nat f\<rparr>]"
    have es1: "es1 ! f = es ! f" "length es1 = length es" using lf by (simp_all add: es1_def)
    obtain e where ins: "hash_table_do_insert h (es ! f) (k @ 0 # r) (of_nat (length k)) v (khash k)
          (ht_elemSize tbl) = Inr e"
      and e: "kv e = Some (k, take (unat (ht_elemSize tbl)) v)" "entry_ok e"
        "ent_next e = ent_next (es ! f)" "ent_hash e = khash k" "ent_key e \<noteq> None"
      by (rule do_insert_spec [OF k v])
    have e: "kv e = Some (k, take (unat (ht_elemSize tbl)) v)" "entry_ok e" "ent_next e = NEXT_INVALID"
        "home c e = p" "ent_key e \<noteq> None"
      using e ed(3) f by (auto simp: home_def pc ended_def)
    note n = appended_nth [OF f(2) ll lf, where e = e]
    note pr = appended_props [OF f(2) lo f(3) e(2,3) ed(3,7)]
    have chs: "chains c (appended es l f e)"
      by (rule chains_append [OF ed(1,2) pl ch f(2,3) e(5,4,3)]) (simp add: appended_def)
    have ap: "appended es l f e = es1[f := e]" by (simp add: appended_def es1_def)
    have kk: "j \<noteq> f \<and> j \<noteq> l" if "ent_key (appended es l f e ! j) = None" for j
      using that n e lo by (auto simp: occ_def)
    obtain g where sc: "scan_free (length es1) es1 (of_nat (length es)) (of_nat f) = Inr g"
      and g: "free_ok (appended es l f e) g" "holes_ok c (appended es l f e) g"
    proof (rule scan_free_inv [OF ed(1) es1(2) n(4) f(2,5)])
      show "ent_key (appended es l f e ! f) \<noteq> None" using n e by simp
      show "ent_key (es ! j) = None \<and> home c (appended es l f e ! j) = home c (es ! j)"
        if "j < length es" "ent_key (appended es l f e ! j) = None" for j
        using kk [OF that(2)] n(3) [of j] that(2) by simp
    qed (use ap that in auto)
    have adv: "hash_table_advance_free_index (tbl\<lparr>ht_entries := es1\<rparr>) =
        Inr (tbl\<lparr>ht_entries := es1, ht_freeIndex := g\<rparr>)"
      using sc len es1 f by (simp add: advance_free_index)
    have "do_set_step h tbl (k @ 0 # r) (of_nat (length k)) v (khash k) =
        Inr (Some (tbl\<lparr>ht_freeIndex := g, ht_entries := es1[f := e]\<rparr>, True))"
      using p pl q u w free f ll unat_idx [OF ed(1) ll] es1 adv ins
      by (simp add: do_set_step_def Let_def ent_at_def ent_set_def occ_def del: not_None_eq
          flip: c_def es_def es1_def)
    moreover have "set_done tbl k (take (unat (ht_elemSize tbl)) v)
        (tbl\<lparr>ht_freeIndex := g, ht_entries := appended es l f e\<rparr>) True"
      by (rule set_done_insert [OF inv])
        (use ab pr chs e g n(4) in \<open>simp_all flip: c_def es_def\<close>)
    ultimately show ?thesis using ap by (metis (no_types))
  qed
qed

lemma do_set_step_spec:
  assumes inv: "table_inv tbl" and k: "0 \<notin> set k" "alloc_ok h k" and v: "unat (ht_elemSize tbl) \<le> length v"
  shows "do_set_step h tbl (k @ 0 # r) (of_nat (length k)) v (khash k) = Inr None \<and>
      ht_freeIndex tbl = FREE_INDEX_INVALID \<or>
    (\<exists>tbl' b. do_set_step h tbl (k @ 0 # r) (of_nat (length k)) v (khash k) = Inr (Some (tbl', b)) \<and>
      set_done tbl k (take (unat (ht_elemSize tbl)) v) tbl' b)"
proof -
  let ?p = "unat (khash k AND (ht_capacity tbl - 1))"
  have pl: "?p < length (ht_entries tbl)"
    using inv home_less [of "ht_capacity tbl - 1" "ht_entries tbl" "undefined\<lparr>ent_hash := khash k\<rparr>"]
    by (simp add: table_inv_def es_inv_def home_def)
  show ?thesis
  proof (cases "ent_key (ht_entries tbl ! ?p) = None")
    case True
    then show ?thesis using do_set_fill [OF inv k v] by blast
  next
    case False
    show ?thesis
    proof (cases "ht_freeIndex tbl = FREE_INDEX_INVALID")
      case True
      then show ?thesis using False pl by (simp add: do_set_step_def Let_def ent_at_def del: not_None_eq)
    next
      case free: False
      show ?thesis
        using do_set_evict [OF inv k v refl False _ free] do_set_chain [OF inv k v refl False _ free]
        by blast
    qed
  qed
qed

section \<open>Get\<close>

lemma contents_found:
  assumes "es_inv c (ht_entries tbl) free" "i < length (ht_entries tbl)" "ekey (ht_entries tbl ! i) = Some k"
  shows "ht_contents tbl k = Some (ent_data (ht_entries tbl ! i))"
proof -
  have "(k, ent_data (ht_entries tbl ! i)) \<in> set (pairs (ht_entries tbl))"
    using assms by (auto simp: set_pairs kv_def)
  then show ?thesis using es_invD(8) [OF assms(1)] by (simp add: ht_contents_def)
qed

lemma calc_hash_key:
  "length k < 2 ^ 32 \<Longrightarrow> hash_table_calc_hash (k @ 0 # r) (of_nat (length k)) = Inr (khash k)"
  by (rule calc_hash_khash)

text \<open>Where get and remove go: the main position is empty or foreign, and the key absent, or
  its chain is searched.\<close>

lemma get_spec:
  assumes inv: "table_inv tbl" and k: "0 \<notin> set k" "length k < 2 ^ 32"
  shows "hash_table_get_by_cstr tbl (k @ 0 # r) (of_nat (length k)) = Inr (ht_contents tbl k)"
proof -
  define c es p where "c = ht_capacity tbl - 1" and "es = ht_entries tbl" and "p = unat (khash k AND c)"
  have ei: "es_inv c es (ht_freeIndex tbl)" using inv by (auto simp: table_inv_def c_def es_def)
  note ed = es_invD [OF ei]
  have pl: "p < length es" using home_less [OF ed(1), of "undefined\<lparr>ent_hash := khash k\<rparr>"]
    by (simp add: home_def p_def)
  have kp: "khash k AND c = of_nat p" "unat (of_nat p :: u32) = p"
    using unat_idx [OF ed(1) pl] by (simp_all add: p_def)
  show ?thesis
  proof (cases "ent_key (es ! p) = None \<or> home c (es ! p) \<noteq> p")
    case True
    then have "k \<notin> fst ` set (pairs es)"
      using absent_if_bucket_empty [OF ei] bucket_empty [OF ed(1,2) pl] p_def by blast
    then have "ht_contents tbl k = None" by (simp add: contents_None es_def)
    moreover have "ent_hash (es ! p) AND c \<noteq> of_nat p" if "home c (es ! p) \<noteq> p"
      using that kp(2) by (auto simp: home_def)
    ultimately show ?thesis
      using True pl kp calc_hash_key [OF k(2)]
      by (auto simp: hash_table_get_by_cstr_def Let_def ent_at_def simp flip: c_def es_def)
  next
    case False
    then have p: "occ es p" "home c (es ! p) = p" using pl by (auto simp: occ_def)
    have hp: "ent_hash (es ! p) AND c = of_nat p" using p(2) by (metis home_def pos_of_nat)
    show ?thesis
    proof (rule search_chain [OF ei k(1) p_def p, of r])
      fix us i vs assume ch: "chain c es p (us @ i # vs)" and ki: "ekey (es ! i) = Some k"
        and w: "walk_chain (length es) es (k @ 0 # r) (khash k) None (of_nat p) =
           Inr (Found (if us = [] then None else Some (of_nat (last us))) (of_nat i))"
      have il: "i < length es" using chain_bound [OF ch] by simp
      show ?thesis
        using contents_found [of c tbl "ht_freeIndex tbl" i k] ei il ki False pl kp hp w
          calc_hash_key [OF k(2)] unat_idx [OF ed(1) il]
        by (simp add: hash_table_get_by_cstr_def Let_def ent_at_def del: not_None_eq flip: c_def es_def)
    next
      fix us l assume "k \<notin> fst ` set (pairs es)"
        and w: "walk_chain (length es) es (k @ 0 # r) (khash k) None (of_nat p) = Inr (End (of_nat l))"
      then have "ht_contents tbl k = None" by (simp add: contents_None es_def)
      then show ?thesis
        using False pl kp hp w calc_hash_key [OF k(2)]
        by (simp add: hash_table_get_by_cstr_def Let_def ent_at_def del: not_None_eq flip: c_def es_def)
    qed
  qed
qed

section \<open>Remove\<close>

definition vacated :: "entry \<Rightarrow> entry" where
  "vacated e = e\<lparr>ent_key := None, ent_next := NEXT_INVALID\<rparr>"

lemma vacated_simps [simp]:
  "ent_key (vacated e) = None" "ent_next (vacated e) = NEXT_INVALID" "home c (vacated e) = home c e"
  "entry_ok (vacated e)"
  by (simp_all add: vacated_def home_def entry_ok_def)

definition remove_done :: "table \<Rightarrow> bytes \<Rightarrow> table \<Rightarrow> bool" where
  "remove_done tbl k tbl' \<longleftrightarrow>
     table_inv tbl' \<and> ht_elemSize tbl' = ht_elemSize tbl \<and> ht_entSize tbl' = ht_entSize tbl \<and>
     ht_capacity tbl' = ht_capacity tbl \<and> ht_contents tbl' = (ht_contents tbl)(k := None)"

lemma remove_done_absent: "table_inv tbl \<Longrightarrow> ht_contents tbl k = None \<Longrightarrow> remove_done tbl k tbl"
  by (simp add: remove_done_def fun_upd_idem)

lemma remove_done_vacate:
  assumes inv: "table_inv tbl"
    and m: "mset (pairs (ht_entries tbl)) = add_mset (k, v) (mset (pairs es'))"
    and len: "length es' = length (ht_entries tbl)"
    and es': "chains (ht_capacity tbl - 1) es'" "ended es'" "free_ok es' g"
      "holes_ok (ht_capacity tbl - 1) es' g" "\<forall>e \<in> set es'. entry_ok e"
  shows "remove_done tbl k (tbl\<lparr>ht_entries := es', ht_freeIndex := g\<rparr>)"
proof -
  have "distinct (map fst (pairs (ht_entries tbl)))" using inv by (simp add: table_inv_def es_inv_def)
  note pr = pairs_remove [OF m this]
  have "cap_ok (ht_capacity tbl - 1) es'"
    using inv cap_ok_cong [OF len] by (simp add: table_inv_def es_inv_def)
  then show ?thesis
    using inv pr es' len by (simp add: remove_done_def table_inv_def es_inv_def ht_contents_def)
qed

text \<open>The free index never has to grow when a slot is vacated.\<close>

lemma free_vacate:
  assumes cap: "cap_ok c es" and i: "i < length es" and len: "length es' = length es"
    and free: "free_ok es free" "holes_ok c es free"
    and e: "ent_key (es' ! i) = None"
    and other: "\<And>j. j < length es \<Longrightarrow> j \<noteq> i \<Longrightarrow> (ent_key (es' ! j) = None \<longleftrightarrow> ent_key (es ! j) = None) \<and>
      home c (es' ! j) = home c (es ! j)"
    and g: "g = (if free > of_nat i then of_nat i else free)"
  shows "free_ok es' g" "holes_ok c es' g"
proof -
  have u: "unat (of_nat i :: u32) = i" by (rule unat_idx [OF cap i])
  have gi: "unat g \<le> i" "unat g \<le> unat free" using g u by (auto simp: word_less_nat_alt)
  have ne: "g \<noteq> FREE_INDEX_INVALID"
    using gi(1) i cap_ok_length [OF cap] by (auto simp: FREE_INDEX_INVALID_def)
  have "g = of_nat i \<or> g = free" by (simp add: g)
  then show "free_ok es' g"
    using e u i len free(1) other [of "unat free"] ne by (cases "unat free = i") (auto simp: free_ok_def)
  show "holes_ok c es' g"
    unfolding holes_ok_def
  proof (intro allI impI)
    fix j assume j: "j < length es'" "ent_key (es' ! j) = None \<and> (g = FREE_INDEX_INVALID \<or> j < unat g)"
    then have "j < unat g" using ne by blast
    then have "j < i" "j < unat free" using gi by simp_all
    then show "home c (es' ! j) = j"
      using j len other [of j] free(2) by (auto simp: holes_ok_def)
  qed
qed

text \<open>What the three ways of vacating a slot leave, for the entry \<open>i\<close> that has the key.\<close>

lemma remove_unlink:
  assumes inv: "table_inv tbl" and es: "es = ht_entries tbl" and c: "c = ht_capacity tbl - 1"
    and ch: "chain c es p (us @ a # i # vs)" and ki: "ekey (es ! i) = Some k"
    and g: "g = (if ht_freeIndex tbl > of_nat i then of_nat i else ht_freeIndex tbl)"
  shows "remove_done tbl k (tbl\<lparr>ht_entries :=
      es[a := (es ! a)\<lparr>ent_next := ent_next (es ! i)\<rparr>, i := vacated (es ! i)], ht_freeIndex := g\<rparr>)"
proof -
  have ei: "es_inv c es (ht_freeIndex tbl)" using inv by (simp add: table_inv_def c es)
  note ed = es_invD [OF ei]
  have ai: "a < length es" "i < length es" "a \<noteq> i" "ent_key (es ! a) \<noteq> None"
    using ch by (auto simp: chain_def bucket_def occ_def set_eq_iff)
  let ?es1 = "es[a := (es ! a)\<lparr>ent_next := ent_next (es ! i)\<rparr>]"
  let ?es2 = "?es1[i := vacated (es ! i)]"
  have m1: "mset (pairs ?es1) = mset (pairs es)" by (rule mset_pairs_same) (use ai in auto)
  have "mset (pairs ?es1) = mset (pairs ?es2) + opt_mset (kv (?es1 ! i))"
    by (rule mset_pairs_vacate) (use ai in auto)
  then have m: "mset (pairs es) = add_mset (k, ent_data (es ! i)) (mset (pairs ?es2))"
    using ai ki m1 by (simp add: kv_def)
  have nth: "?es2 ! j = (if j = i then vacated (es ! i) else if j = a then
      (es ! a)\<lparr>ent_next := ent_next (es ! i)\<rparr> else es ! j)" for j
    using ai by (simp add: nth_list_update)
  have "free_ok ?es2 g" "holes_ok c ?es2 g"
    by (rule free_vacate [OF ed(1) ai(2) _ ed(4,5) _ _ g]; use nth in simp)+
  moreover have "chains c ?es2" by (rule chains_unlink [OF ed(2) ch _ refl]) simp
  moreover have "ended ?es2" by (intro ended_update ed(3)) (use ai in auto)
  moreover have "\<forall>e \<in> set ?es2. entry_ok e" by (intro all_update ed(7)) (use ai ed(6) in auto)
  ultimately show ?thesis
    using remove_done_vacate [OF inv, of k "ent_data (es ! i)" ?es2 g] m by (simp add: c es)
qed

lemma remove_pull:
  assumes inv: "table_inv tbl" and es: "es = ht_entries tbl" and c: "c = ht_capacity tbl - 1"
    and ch: "chain c es p (p # j # vs)" and p: "p < length es" and kp: "ekey (es ! p) = Some k"
    and g: "g = (if ht_freeIndex tbl > of_nat j then of_nat j else ht_freeIndex tbl)"
  shows "remove_done tbl k (tbl\<lparr>ht_entries := es[p := es ! j, j := vacated (es ! j)], ht_freeIndex := g\<rparr>)"
proof -
  have ei: "es_inv c es (ht_freeIndex tbl)" using inv by (simp add: table_inv_def c es)
  note ed = es_invD [OF ei]
  have inb: "set (p # j # vs) = bucket c es p" "distinct (p # j # vs)" using ch by (auto simp: chain_def)
  have j: "j < length es" "j \<noteq> p" "ent_key (es ! j) \<noteq> None" "ent_key (es ! p) \<noteq> None"
      "home c (es ! p) = p" "home c (es ! j) = p"
    using inb by (auto simp: bucket_def occ_def set_eq_iff)
  let ?es1 = "es[p := es ! j]"
  let ?es2 = "?es1[j := vacated (es ! j)]"
  have "mset (pairs ?es1) + opt_mset (kv (es ! p)) = mset (pairs es) + opt_mset (kv (es ! j))"
    by (rule mset_pairs_update [OF p])
  moreover have "mset (pairs ?es1) = mset (pairs ?es2) + opt_mset (kv (?es1 ! j))"
    by (rule mset_pairs_vacate) (use j in auto)
  ultimately have "mset (pairs es) = opt_mset (kv (es ! p)) + mset (pairs ?es2)"
    using j by (simp add: ac_simps)
  then have m: "mset (pairs es) = add_mset (k, ent_data (es ! p)) (mset (pairs ?es2))"
    using kp by (simp add: kv_def)
  have nth: "?es2 ! i = (if i = j then vacated (es ! j) else if i = p then es ! j else es ! i)" for i
    using j p by (simp add: nth_list_update)
  have "free_ok ?es2 g" "holes_ok c ?es2 g"
    by (rule free_vacate [OF ed(1) j(1) _ ed(4,5) _ _ g]; use nth j in \<open>simp del: not_None_eq\<close>)+
  moreover have "chains c ?es2" by (rule chains_pull [OF ed(1,2) p ch _ refl]) simp
  moreover have "ended ?es2" by (intro ended_update ed(3)) (use j in auto)
  moreover have "\<forall>e \<in> set ?es2. entry_ok e" by (intro all_update ed(7)) (use j ed(6) in auto)
  ultimately show ?thesis
    using remove_done_vacate [OF inv, of k "ent_data (es ! p)" ?es2 g] m by (simp add: c es)
qed

lemma remove_single:
  assumes inv: "table_inv tbl" and es: "es = ht_entries tbl" and c: "c = ht_capacity tbl - 1"
    and ch: "chain c es p [p]" and p: "p < length es" and kp: "ekey (es ! p) = Some k"
  shows "remove_done tbl k (tbl\<lparr>ht_entries := es[p := vacated (es ! p)]\<rparr>)"
proof -
  have ei: "es_inv c es (ht_freeIndex tbl)" using inv by (simp add: table_inv_def c es)
  note ed = es_invD [OF ei]
  have "p \<in> bucket c es p" using ch by (auto simp: chain_def)
  then have hp: "home c (es ! p) = p" by (simp add: bucket_def)
  let ?es1 = "es[p := vacated (es ! p)]"
  have m: "mset (pairs es) = add_mset (k, ent_data (es ! p)) (mset (pairs ?es1))"
    using mset_pairs_vacate [OF p, of "vacated (es ! p)"] kp by (simp add: kv_def)
  have nth: "?es1 ! i = (if i = p then vacated (es ! p) else es ! i)" for i using p by simp
  have "free_ok ?es1 (ht_freeIndex tbl)" "holes_ok c ?es1 (ht_freeIndex tbl)"
    using ed(4,5) hp nth by (auto simp: free_ok_def holes_ok_def)
  moreover have "chains c ?es1" by (rule chains_drop_single [OF ed(2) p ch]) simp
  moreover have "ended ?es1" by (intro ended_update ed(3)) simp
  moreover have "\<forall>e \<in> set ?es1. entry_ok e" by (intro all_update ed(7)) simp
  ultimately show ?thesis
    using remove_done_vacate [OF inv, of k "ent_data (es ! p)" ?es1 "ht_freeIndex tbl"] m by (simp add: c es)
qed

lemma remove_spec:
  assumes inv: "table_inv tbl" and k: "0 \<notin> set k" "length k < 2 ^ 32"
  obtains tbl' where "hash_table_remove_by_cstr tbl (k @ 0 # r) (of_nat (length k)) = Inr tbl'"
    "remove_done tbl k tbl'"
proof -
  define c es p where "c = ht_capacity tbl - 1" and "es = ht_entries tbl" and "p = unat (khash k AND c)"
  have ei: "es_inv c es (ht_freeIndex tbl)" using inv by (auto simp: table_inv_def c_def es_def)
  note ed = es_invD [OF ei]
  have pl: "p < length es" using home_less [OF ed(1), of "undefined\<lparr>ent_hash := khash k\<rparr>"]
    by (simp add: home_def p_def)
  have kp: "khash k AND c = of_nat p" "unat (of_nat p :: u32) = p"
    using unat_idx [OF ed(1) pl] by (simp_all add: p_def)
  note unf = hash_table_remove_by_cstr_def Let_def ent_at_def ent_set_def
  show thesis
  proof (cases "ent_key (es ! p) = None \<or> home c (es ! p) \<noteq> p")
    case True
    then have "k \<notin> fst ` set (pairs es)"
      using absent_if_bucket_empty [OF ei] bucket_empty [OF ed(1,2) pl] p_def by blast
    then have "remove_done tbl k tbl" using remove_done_absent [OF inv] by (simp add: contents_None es_def)
    moreover have "ent_hash (es ! p) AND c \<noteq> of_nat p" if "home c (es ! p) \<noteq> p"
      using that kp(2) by (auto simp: home_def)
    ultimately show thesis
      using True pl kp calc_hash_key [OF k(2)]
      by (intro that [of tbl]) (auto simp: unf simp flip: c_def es_def)
  next
    case False
    then have p: "occ es p" "home c (es ! p) = p" using pl by (auto simp: occ_def)
    have hp: "ent_hash (es ! p) AND c = of_nat p" using p(2) by (metis home_def pos_of_nat)
    note red = False pl kp hp calc_hash_key [OF k(2), of r]
    show thesis
    proof (rule search_chain [OF ei k(1) p_def p, of r])
      fix us i vs assume ch: "chain c es p (us @ i # vs)" and ki: "ekey (es ! i) = Some k"
        and w: "walk_chain (length es) es (k @ 0 # r) (khash k) None (of_nat p) =
           Inr (Found (if us = [] then None else Some (of_nat (last us))) (of_nat i))"
      have bd: "\<forall>j \<in> set (us @ i # vs). j < length es" by (rule chain_bound [OF ch])
      then have il: "i < length es" "unat (of_nat i :: u32) = i" using unat_idx [OF ed(1)] by auto
      have sg: "lseg es (us @ i # vs) (of_nat p) NEXT_INVALID" using ch by (simp add: chain_def)
      show thesis
      proof (cases us rule: rev_cases)
        case Nil
        then have ip: "i = p" using chain_hd [OF ed(1) ch _ pl] by simp
        show thesis
        proof (cases vs)
          case vs: Nil
          have "ent_next (es ! p) = NEXT_INVALID" using sg Nil vs ip by simp
          then show thesis
            using remove_single [OF inv es_def c_def _ pl, of k] ch ki Nil vs ip w red
            by (intro that [of "tbl\<lparr>ht_entries := es[p := vacated (es ! p)]\<rparr>"])
              (simp_all add: unf vacated_def del: not_None_eq flip: c_def es_def)
        next
          case vs: (Cons j ws)
          have jl: "j < length es" "unat (of_nat j :: u32) = j" using bd vs unat_idx [OF ed(1)] by auto
          have nx: "ent_next (es ! p) = of_nat j" "(of_nat j :: u32) \<noteq> NEXT_INVALID"
            using sg Nil vs ip idx_valid [OF ed(1) jl(1)] by auto
          define g where "g = (if ht_freeIndex tbl > of_nat j then of_nat j else ht_freeIndex tbl)"
          have "chain c es p (p # j # ws)" using ch Nil vs ip by simp
          from remove_pull [OF inv es_def c_def this pl _ g_def, of k] show thesis
            using ki Nil ip w red nx jl
            by (intro that [of "tbl\<lparr>ht_entries := es[p := es ! j, j := vacated (es ! j)], ht_freeIndex := g\<rparr>"])
              (simp_all add: unf vacated_def g_def del: not_None_eq flip: c_def es_def)
        qed
      next
        case (snoc vs' a)
        have al: "a < length es" "unat (of_nat a :: u32) = a" using bd snoc unat_idx [OF ed(1)] by auto
        have nx: "ent_next (es ! a) = of_nat i"
          using sg snoc lseg_next_mid [of es vs' a i vs] by simp
        define g where "g = (if ht_freeIndex tbl > of_nat i then of_nat i else ht_freeIndex tbl)"
        have "chain c es p (vs' @ a # i # vs)" using ch snoc by simp
        from remove_unlink [OF inv es_def c_def this ki g_def] show thesis
          using snoc w red nx al il
          by (intro that [of "tbl\<lparr>ht_entries := es[a := (es ! a)\<lparr>ent_next := ent_next (es ! i)\<rparr>,
                i := vacated (es ! i)], ht_freeIndex := g\<rparr>"])
            (simp_all add: unf vacated_def g_def del: not_None_eq flip: c_def es_def)
      qed
    next
      fix us l assume "k \<notin> fst ` set (pairs es)"
        and w: "walk_chain (length es) es (k @ 0 # r) (khash k) None (of_nat p) = Inr (End (of_nat l))"
      then have "remove_done tbl k tbl" using remove_done_absent [OF inv] by (simp add: contents_None es_def)
      then show thesis
        using red w by (intro that [of tbl]) (simp_all add: unf del: not_None_eq flip: c_def es_def)
    qed
  qed
qed

section \<open>Growing\<close>

definition nfree :: "entry list \<Rightarrow> nat" where
  "nfree es = length (filter (\<lambda>e. ent_key e = None) es)"

lemma nfree_append [simp]: "nfree (xs @ ys) = nfree xs + nfree ys"
  by (simp add: nfree_def)

lemma nfree_single: "nfree [e] = (if ent_key e = None then 1 else 0)"
  by (simp add: nfree_def)

lemma nfree_pairs: "nfree es + length (pairs es) = length es"
proof (induction es)
  case (Cons e es)
  then show ?case
    by (cases "ent_key e") (auto simp: nfree_def pairs_def List.map_filter_def kv_def ekey_def)
qed (simp add: nfree_def pairs_def List.map_filter_def)

lemma nfree_update_le: "nfree (es[i := e]) \<le> nfree es + nfree [e]"
proof (induction es arbitrary: i)
  case (Cons x es)
  then show ?case by (cases i) (auto simp: nfree_def intro: le_SucI)
qed (simp add: nfree_def)

lemma nfree_pos: "0 < nfree es \<Longrightarrow> \<exists>j < length es. ent_key (es ! j) = None"
  by (auto simp: nfree_def filter_empty_conv in_set_conv_nth)

lemma nfree_take_skip:
  assumes "i \<le> j" "j \<le> length es" "\<forall>m. i \<le> m \<and> m < j \<longrightarrow> ent_key (es ! m) \<noteq> None"
  shows "nfree (take j es) = nfree (take i es)"
  using assms
proof (induction j)
  case (Suc j)
  show ?case
  proof (cases "i = Suc j")
    case False
    then have "nfree (take j es) = nfree (take i es)" using Suc by simp
    moreover have "ent_key (es ! j) \<noteq> None" using Suc False by simp
    ultimately show ?thesis using Suc.prems by (simp add: take_Suc_conv_app_nth nfree_single)
  qed simp
qed simp

lemma realloc_advance_spec:
  assumes cap: "cap_ok c es"
  shows "length es - f \<le> n \<Longrightarrow> f < g \<Longrightarrow> g < length es \<Longrightarrow> ent_key (es ! g) = None \<Longrightarrow>
    (\<forall>j. f < j \<and> j < g \<longrightarrow> ent_key (es ! j) \<noteq> None) \<Longrightarrow>
    realloc_advance n es (of_nat f) = Inr (of_nat g)"
proof (induction n arbitrary: f)
  case (Suc n)
  have sf: "Suc f < length es" using Suc.prems by simp
  have su: "(of_nat f + 1 :: u32) = of_nat (Suc f)" by simp
  have u: "unat (of_nat (Suc f) :: u32) = Suc f" by (rule unat_idx [OF cap sf])
  show ?case
  proof (cases "g = Suc f")
    case True
    then show ?thesis using Suc.prems su u by (simp add: Let_def ent_at_def del: of_nat_Suc)
  next
    case False
    then have "Suc f < g" using Suc.prems by simp
    then have "realloc_advance n es (of_nat (Suc f)) = Inr (of_nat g)"
      using Suc.prems by (intro Suc.IH) auto
    moreover have "ent_key (es ! Suc f) \<noteq> None" using Suc.prems \<open>Suc f < g\<close> by simp
    ultimately show ?thesis
      using sf su u by (simp add: Let_def ent_at_def del: of_nat_Suc not_None_eq)
  qed
qed simp

text \<open>The state of the rebuilding loop after the old entries \<open>dones\<close>: besides the
  shape, the slots without key below the free index are not more than the holes seen so far, so
  that the index cannot run off the array, and every key comes from the old array.\<close>

definition from_old :: "entry list \<Rightarrow> entry \<Rightarrow> bool" where
  "from_old olds e \<longleftrightarrow> (ent_key e \<noteq> None \<longrightarrow>
     (\<exists>e' \<in> set olds. ent_key e' \<noteq> None \<and> ent_hash e' = ent_hash e))"

definition rebuilt :: "u32 \<Rightarrow> entry list \<Rightarrow> entry list \<Rightarrow> entry list \<Rightarrow> bool" where
  "rebuilt c olds dones es \<longleftrightarrow>
     cap_ok c es \<and> chains c es \<and> ended es \<and> (\<forall>e \<in> set es. entry_ok e \<and> from_old olds e) \<and>
     mset (pairs es) = mset (pairs dones)"

definition free_at :: "u32 \<Rightarrow> entry list \<Rightarrow> entry list \<Rightarrow> nat \<Rightarrow> bool" where
  "free_at c dones es f \<longleftrightarrow>
     f < length es \<and> ent_key (es ! f) = None \<and> nfree (take f es) \<le> nfree dones \<and>
     (\<forall>j < f. ent_key (es ! j) = None \<longrightarrow> home c (es ! j) = j)"

lemma rebuilt_advance:
  assumes rb: "rebuilt c olds dones es" and len: "length dones < length es"
    and f: "f < length es" "nfree (take (Suc f) es) \<le> nfree dones"
    and holes: "\<forall>j \<le> f. ent_key (es ! j) = None \<longrightarrow> home c (es ! j) = j"
  obtains g where "realloc_advance (length es) es (of_nat f) = Inr (of_nat g)" "free_at c dones es g"
proof -
  have cap: "cap_ok c es" using rb by (simp add: rebuilt_def)
  have "length (pairs es) = length (pairs dones)" using rb by (metis rebuilt_def size_mset)
  then have "nfree es > nfree dones" using nfree_pairs [of es] nfree_pairs [of dones] len by simp
  then have "0 < nfree (drop (Suc f) es)" using f(2) nfree_append [of "take (Suc f) es" "drop (Suc f) es"] by simp
  then obtain j where "j < length (drop (Suc f) es)" "ent_key (drop (Suc f) es ! j) = None"
    using nfree_pos by blast
  then have ex: "\<exists>g. f < g \<and> g < length es \<and> ent_key (es ! g) = None"
    by (intro exI [of _ "Suc f + j"]) auto
  define g where "g = (LEAST g. f < g \<and> g < length es \<and> ent_key (es ! g) = None)"
  have g: "f < g" "g < length es" "ent_key (es ! g) = None" using LeastI_ex [OF ex] by (auto simp: g_def)
  have sk: "\<forall>j. f < j \<and> j < g \<longrightarrow> ent_key (es ! j) \<noteq> None"
    using not_less_Least g(2) unfolding g_def by fastforce
  have "realloc_advance (length es) es (of_nat f) = Inr (of_nat g)"
    by (rule realloc_advance_spec [OF cap _ g sk]) simp
  moreover have "nfree (take g es) = nfree (take (Suc f) es)"
    by (rule nfree_take_skip) (use g sk in auto)
  ultimately show thesis
    using that g sk f(2) holes by (auto simp: free_at_def) (metis not_le option.distinct(1))
qed

lemma copy_simps [simp]:
  "kv (hash_table_entry_copy n e) = kv e" "entry_ok (hash_table_entry_copy n e) = entry_ok e"
  "home c (hash_table_entry_copy n e) = home c e" "ent_next (hash_table_entry_copy n e) = ent_next n"
  "ent_key (hash_table_entry_copy n e) = ent_key e" "ent_hash (hash_table_entry_copy n e) = ent_hash e"
  by (simp_all add: hash_table_entry_copy_def kv_def ekey_def entry_ok_def home_def)

lemma from_old_next [simp]: "from_old olds (e\<lparr>ent_next := x\<rparr>) = from_old olds e"
  by (simp add: from_old_def)

lemma pairs_snoc: "mset (pairs (dones @ [e])) = mset (pairs dones) + opt_mset (kv e)"
  using mset_pairs_Cons [of e "[]"] by (simp add: pairs_append pairs_def List.map_filter_def)

lemma nfree_copy [simp]: "nfree [hash_table_entry_copy n e] = nfree [e]" "nfree [e\<lparr>ent_next := x\<rparr>] = nfree [e]"
  by (simp_all add: nfree_single)

lemma rebuilt_fill:
  assumes rb: "rebuilt c olds dones es" and fa: "free_at c dones es f" and len: "Suc (length dones) < length es"
    and e: "e \<in> set olds" "entry_ok e"
    and p: "p = home c e" "ent_key (es ! p) = None"
  obtains es' g where "realloc_move c es (of_nat f) e = Inr (es', of_nat g)"
    "rebuilt c olds (dones @ [e]) es'" "free_at c (dones @ [e]) es' g" "length es' = length es"
proof -
  have cap: "cap_ok c es" and chs: "chains c es" and edd: "ended es"
    and ok: "\<forall>e \<in> set es. entry_ok e \<and> from_old olds e" and m: "mset (pairs es) = mset (pairs dones)"
    using rb by (auto simp: rebuilt_def)
  have pl: "p < length es" using home_less [OF cap] p by simp
  have f: "f < length es" "ent_key (es ! f) = None" using fa by (auto simp: free_at_def)
  define e' where "e' = hash_table_entry_copy (es ! p) e"
  define es' where "es' = es[p := e']"
  have e': "ent_next e' = NEXT_INVALID" "home c e' = p" "entry_ok e'" "from_old olds e'" "kv e' = kv e"
      "ent_key e' = ent_key e"
    using edd pl p e by (auto simp: e'_def ended_def from_old_def)
  have ch': "chains c es'"
  proof (cases "ent_key e' = None")
    case True
    then show ?thesis unfolding es'_def by (rule chains_hole [OF chs pl p(2)])
  next
    case False
    then show ?thesis unfolding es'_def by (rule chains_fill [OF cap chs pl p(2) _ e'(2,1)])
  qed
  have rb': "rebuilt c olds (dones @ [e]) es'"
    unfolding rebuilt_def pairs_snoc
    using ch' cap cap_ok_cong [of es' es] ended_update [OF edd, of e' p] all_update [OF ok, of e' p]
      mset_pairs_fill [OF pl p(2), of e'] m e'
    by (simp add: es'_def)
  have hp: "ent_hash e AND c = of_nat p" "unat (of_nat p :: u32) = p"
    using p(1) unat_idx [OF cap pl] by (auto simp: home_def)
  have le: "nfree (take x es') \<le> nfree (take x es) + nfree [e]" for x
    using nfree_update_le [of "take x es" p e'] by (simp add: es'_def take_update_swap e'_def)
  show thesis
  proof (cases "p = f")
    case True
    have nf: "nfree (take (Suc f) es') \<le> nfree (dones @ [e])"
      using fa f True by (simp add: es'_def take_Suc_conv_app_nth free_at_def e'_def)
    have hl: "\<forall>j \<le> f. ent_key (es' ! j) = None \<longrightarrow> home c (es' ! j) = j"
      using fa e' True f by (auto simp: es'_def free_at_def nth_list_update)
    have "length (dones @ [e]) < length es'" "f < length es'" using len f by (simp_all add: es'_def)
    from rebuilt_advance [OF rb' this nf hl] obtain g
      where "realloc_advance (length es') es' (of_nat f) = Inr (of_nat g)" "free_at c (dones @ [e]) es' g" .
    then show thesis
      using that [OF _ rb'] hp p pl True
      by (simp add: realloc_move_def Let_def ent_at_def ent_set_def es'_def e'_def)
  next
    case False
    then have "(of_nat p :: u32) \<noteq> of_nat f" using idx_inj [OF cap pl f(1)] by auto
    moreover have "free_at c (dones @ [e]) es' f"
      using fa e' False le [of f] by (auto simp: es'_def free_at_def nth_list_update pl)
    ultimately show thesis
      using that [OF _ rb'] hp p pl
      by (simp add: realloc_move_def Let_def ent_at_def ent_set_def es'_def e'_def)
  qed
qed

lemma rebuilt_evict:
  assumes rb: "rebuilt c olds dones es" and fa: "free_at c dones es f" and len: "Suc (length dones) < length es"
    and e: "e \<in> set olds" "entry_ok e"
    and p: "p = home c e" "occ es p" "home c (es ! p) \<noteq> p"
  obtains es' g where "realloc_move c es (of_nat f) e = Inr (es', of_nat g)"
    "rebuilt c olds (dones @ [e]) es'" "free_at c (dones @ [e]) es' g" "length es' = length es"
proof -
  have cap: "cap_ok c es" and chs: "chains c es" and edd: "ended es"
    and ok: "\<forall>e \<in> set es. entry_ok e \<and> from_old olds e" and m: "mset (pairs es) = mset (pairs dones)"
    using rb by (auto simp: rebuilt_def)
  have pl: "p < length es" using p by (simp add: occ_def)
  have f: "f < length es" "ent_key (es ! f) = None" using fa by (auto simp: free_at_def)
  obtain a where a: "occ es a" "a \<noteq> p" "a \<noteq> f" "f \<noteq> p"
    and fol: "follow_chain (length es) (es[f := es ! p]) (of_nat p) (of_nat (home c (es ! p))) = Inr (of_nat a)"
    and ch: "\<And>e. ent_key e = None \<or> home c e = p \<Longrightarrow> ent_next e = NEXT_INVALID \<Longrightarrow> chains c (evicted es f a p e)"
    by (rule evict_pred [OF cap chs p(2,3) f]) blast
  have al: "a < length es" using a by (simp add: occ_def)
  define e' where "e' = (hash_table_entry_copy (es ! p) e)\<lparr>ent_next := NEXT_INVALID\<rparr>"
  have e': "ent_next e' = NEXT_INVALID" "home c e' = p" "entry_ok e'" "from_old olds e'" "kv e' = kv e"
    using p e by (auto simp: e'_def from_old_def)
  note n = evicted_nth [OF f(1) al pl a(2-4), where e = e']
  have "\<forall>e \<in> set es. entry_ok e" using ok by blast
  note pr = evicted_props [OF f(1) a(1) p(2) a(2-4) f(2) e'(3,1) edd this]
  define es' where "es' = evicted es f a p e'"
  have fo: "\<forall>e \<in> set es'. from_old olds e"
    unfolding es'_def evicted_def by (intro all_update) (use ok e' al pl in auto)
  have rb': "rebuilt c olds (dones @ [e]) es'"
    unfolding rebuilt_def pairs_snoc
    using ch [of e'] cap cap_ok_cong [of es' es] pr n(5) m e' fo by (simp add: es'_def)
  have nf: "nfree (take (Suc f) es') \<le> nfree (dones @ [e])"
  proof -
    let ?x = "take (Suc f) (es[f := es ! p])" and ?na = "(es ! a)\<lparr>ent_next := of_nat f\<rparr>"
    have "nfree ?x \<le> nfree dones"
      using f fa p(2) by (simp add: take_Suc_conv_app_nth free_at_def nfree_single occ_def del: not_None_eq)
    moreover have "nfree (?x[a := ?na]) \<le> nfree ?x"
      using nfree_update_le [of ?x a ?na] a by (simp add: nfree_single occ_def del: not_None_eq)
    moreover have "nfree (?x[a := ?na, p := e']) \<le> nfree (?x[a := ?na]) + nfree [e]"
      using nfree_update_le [of "?x[a := ?na]" p e'] by (simp add: e'_def)
    ultimately show ?thesis by (simp add: es'_def evicted_def take_update_swap)
  qed
  have hl: "\<forall>j \<le> f. ent_key (es' ! j) = None \<longrightarrow> home c (es' ! j) = j"
  proof (intro allI impI)
    fix j assume j: "j \<le> f" "ent_key (es' ! j) = None"
    have "j \<noteq> f" "j \<noteq> a" using j n a p by (auto simp: es'_def occ_def)
    then show "home c (es' ! j) = j"
      using j n e' fa by (cases "j = p") (auto simp: es'_def free_at_def)
  qed
  have "length (dones @ [e]) < length es'" "f < length es'" using len f n by (simp_all add: es'_def)
  from rebuilt_advance [OF rb' this nf hl] obtain g
    where g: "realloc_advance (length es') es' (of_nat f) = Inr (of_nat g)" "free_at c (dones @ [e]) es' g" .
  have q: "ent_hash (es ! p) AND c = of_nat (home c (es ! p))" "ent_hash e AND c = of_nat p"
      "(of_nat (home c (es ! p)) :: u32) \<noteq> of_nat p"
    using p idx_inj [OF cap home_less [OF cap] pl] by (auto simp: home_def)
  have u: "unat (of_nat f :: u32) = f" "unat (of_nat a :: u32) = a" "unat (of_nat p :: u32) = p"
    using unat_idx [OF cap] f al pl by auto
  have "realloc_move c es (of_nat f) e = Inr (es', of_nat g)"
    using p f a al pl q u fol g(1) n(5)
    by (simp add: realloc_move_def Let_def ent_at_def ent_set_def e'_def es'_def evicted_def
        FREE_INDEX_INVALID_def NEXT_INVALID_def occ_def del: not_None_eq)
  then show thesis using that rb' g(2) n(5) by (simp add: es'_def)
qed

lemma rebuilt_append:
  assumes rb: "rebuilt c olds dones es" and fa: "free_at c dones es f" and len: "Suc (length dones) < length es"
    and e: "e \<in> set olds" "entry_ok e" "ent_key e \<noteq> None"
    and p: "p = home c e" "occ es p" "home c (es ! p) = p"
  obtains es' g where "realloc_move c es (of_nat f) e = Inr (es', of_nat g)"
    "rebuilt c olds (dones @ [e]) es'" "free_at c (dones @ [e]) es' g" "length es' = length es"
proof -
  have cap: "cap_ok c es" and chs: "chains c es" and edd: "ended es"
    and ok: "\<forall>e \<in> set es. entry_ok e \<and> from_old olds e" and m: "mset (pairs es) = mset (pairs dones)"
    using rb by (auto simp: rebuilt_def)
  have pl: "p < length es" using p by (simp add: occ_def)
  have f: "f < length es" "ent_key (es ! f) = None" using fa by (auto simp: free_at_def)
  obtain ch where ch: "chain c es p ch" using chs pl by (auto simp: chains_def)
  have "p \<in> set ch" using ch p by (simp add: chain_def bucket_def)
  then obtain us l where "ch = us @ [l]" by (cases ch rule: rev_cases) auto
  with ch have ch: "chain c es p (us @ [l])" by simp
  have lo: "occ es l" and ll: "l < length es" using ch by (auto simp: chain_def bucket_def occ_def set_eq_iff)
  then have lf: "l \<noteq> f" using f by (auto simp: occ_def)
  define e' where "e' = hash_table_entry_copy (es ! f) e"
  have e': "ent_next e' = NEXT_INVALID" "home c e' = p" "entry_ok e'" "from_old olds e'" "kv e' = kv e"
      "ent_key e' \<noteq> None"
    using edd f p e by (auto simp: e'_def ended_def from_old_def)
  note n = appended_nth [OF f(1) ll lf, where e = e']
  have "\<forall>e \<in> set es. entry_ok e" using ok by blast
  note pr = appended_props [OF f(1) lo f(2) e'(3,1) edd this]
  define es' where "es' = appended es l f e'"
  have chs': "chains c es'"
    unfolding es'_def by (rule chains_append [OF cap chs pl ch f e'(6,2,1)]) (simp add: appended_def)
  have fo: "\<forall>e \<in> set es'. from_old olds e"
    unfolding es'_def appended_def by (intro all_update) (use ok e' ll in auto)
  have rb': "rebuilt c olds (dones @ [e]) es'"
    unfolding rebuilt_def pairs_snoc
    using chs' cap cap_ok_cong [of es' es] pr n(4) m e' fo by (simp add: es'_def)
  have nf: "nfree (take (Suc f) es') \<le> nfree (dones @ [e])"
  proof -
    let ?nl = "(es ! l)\<lparr>ent_next := of_nat f\<rparr>"
    have "nfree ((take f es)[l := ?nl]) \<le> nfree (take f es)"
      using nfree_update_le [of "take f es" l ?nl] lo by (simp add: nfree_single occ_def del: not_None_eq)
    moreover have "take (Suc f) es' = take f (es[l := ?nl]) @ [e']"
      using f by (simp add: es'_def appended_def take_Suc_conv_app_nth)
    ultimately show ?thesis
      using fa e' by (simp add: take_update_swap free_at_def nfree_single del: not_None_eq)
  qed
  have hl: "\<forall>j \<le> f. ent_key (es' ! j) = None \<longrightarrow> home c (es' ! j) = j"
  proof (intro allI impI)
    fix j assume j: "j \<le> f" "ent_key (es' ! j) = None"
    have "j \<noteq> f" "j \<noteq> l" using j n lo e' by (auto simp: es'_def occ_def)
    then show "home c (es' ! j) = j" using j n fa by (auto simp: es'_def free_at_def)
  qed
  have "length (dones @ [e]) < length es'" "f < length es'" using len f n by (simp_all add: es'_def)
  from rebuilt_advance [OF rb' this nf hl] obtain g
    where g: "realloc_advance (length es') es' (of_nat f) = Inr (of_nat g)" "free_at c (dones @ [e]) es' g" .
  have q: "ent_hash (es ! p) AND c = of_nat p" "ent_hash e AND c = of_nat p"
    using p(1,3) by (metis home_def pos_of_nat)+
  have u: "unat (of_nat f :: u32) = f" "unat (of_nat l :: u32) = l" "unat (of_nat p :: u32) = p"
    using unat_idx [OF cap] f ll pl by auto
  have "realloc_move c es (of_nat f) e = Inr (es', of_nat g)"
    using p f ll pl q u follow_to_end [OF cap ch] g(1) n(4) lf
    by (simp add: realloc_move_def Let_def ent_at_def ent_set_def e'_def es'_def appended_def occ_def
        del: not_None_eq)
  then show thesis using that rb' g(2) n(4) by (simp add: es'_def)
qed

text \<open>A hole never collides with an entry of its own main position: in the old array that
  position was the hole itself.\<close>

definition holes_apart :: "u32 \<Rightarrow> entry list \<Rightarrow> bool" where
  "holes_apart c olds \<longleftrightarrow> (\<forall>e \<in> set olds. \<forall>e' \<in> set olds.
     ent_key e = None \<and> ent_key e' \<noteq> None \<longrightarrow> home c e \<noteq> home c e')"

lemma rebuilt_move:
  assumes rb: "rebuilt c olds dones es" and fa: "free_at c dones es f" and len: "Suc (length dones) < length es"
    and e: "e \<in> set olds" "entry_ok e" and apart: "holes_apart c olds"
  obtains es' g where "realloc_move c es (of_nat f) e = Inr (es', of_nat g)"
    "rebuilt c olds (dones @ [e]) es'" "free_at c (dones @ [e]) es' g" "length es' = length es"
proof -
  let ?p = "home c e"
  have pl: "?p < length es" using rb home_less by (auto simp: rebuilt_def)
  consider "ent_key (es ! ?p) = None" | "occ es ?p" "home c (es ! ?p) \<noteq> ?p"
    | "occ es ?p" "home c (es ! ?p) = ?p"
    using pl by (auto simp: occ_def)
  then show thesis
  proof cases
    case 1
    from rebuilt_fill [OF rb fa len e refl this] show thesis using that by blast
  next
    case 2
    from rebuilt_evict [OF rb fa len e refl this] show thesis using that by blast
  next
    case 3
    have "from_old olds (es ! ?p)" using rb pl by (simp add: rebuilt_def)
    then have "\<exists>e' \<in> set olds. ent_key e' \<noteq> None \<and> home c e' = ?p"
      using 3 by (auto simp: from_old_def occ_def home_def)
    then have "ent_key e \<noteq> None" using apart e(1) unfolding holes_apart_def by metis
    from rebuilt_append [OF rb fa len e this refl 3] show thesis using that by blast
  qed
qed

lemma realloc_loop_spec:
  "rebuilt c olds dones es \<Longrightarrow> free_at c dones es f \<Longrightarrow> length dones + length rest < length es \<Longrightarrow>
   set rest \<subseteq> set olds \<Longrightarrow> \<forall>e \<in> set olds. entry_ok e \<Longrightarrow> holes_apart c olds \<Longrightarrow>
   \<exists>es' g. realloc_loop c es (of_nat f) rest = Inr (es', of_nat g) \<and> length es' = length es \<and>
     rebuilt c olds (dones @ rest) es' \<and> free_at c (dones @ rest) es' g"
proof (induction rest arbitrary: dones es f)
  case (Cons e rest)
  have e: "e \<in> set olds" "entry_ok e" and len: "Suc (length dones) < length es" using Cons.prems by auto
  obtain es' g where mv: "realloc_move c es (of_nat f) e = Inr (es', of_nat g)"
    "rebuilt c olds (dones @ [e]) es'" "free_at c (dones @ [e]) es' g" "length es' = length es"
    by (rule rebuilt_move [OF Cons.prems(1,2) len e Cons.prems(6)])
  have "length (dones @ [e]) + length rest < length es'" "set rest \<subseteq> set olds"
    using Cons.prems(3,4) mv(4) by auto
  from Cons.IH [OF mv(2,3) this Cons.prems(5,6)] show ?case using mv(1,4) by simp
qed auto

lemma fresh_simps [simp]:
  "ent_key (fresh_entry z) = None" "ent_next (fresh_entry z) = NEXT_INVALID" "entry_ok (fresh_entry z)"
  "from_old olds (fresh_entry z)" "kv (fresh_entry z) = None"
  by (simp_all add: fresh_entry_def entry_ok_def from_old_def kv_def ekey_def)

lemma pairs_fresh [simp]: "pairs (replicate n (fresh_entry z)) = []"
  by (induction n) (simp_all add: pairs_def List.map_filter_def)

lemma chains_fresh: "chains c (replicate n (fresh_entry z))"
  unfolding chains_def by (auto simp: chain_def bucket_def occ_def intro: exI [of _ "[]"])

lemma cap_ok_double:
  assumes "cap_ok (cap - 1) es" "length es = unat (cap :: u32)" "unat cap \<le> 2 ^ 30"
    "length es' = unat (cap * 2)"
  shows "cap_ok (cap * 2 - 1) es'" "unat (cap * 2) = 2 * unat cap"
    "\<And>e e'. home (cap * 2 - 1) e = home (cap * 2 - 1) e' \<Longrightarrow> home (cap - 1) e = home (cap - 1) e'"
proof -
  obtain k where k: "1 \<le> k" "length es = 2 ^ k" "cap - 1 = mask k" using assms(1) by (auto simp: cap_ok_def)
  have "(2::nat) ^ k \<le> 2 ^ 30" using assms(2,3) k by simp
  then have k30: "k \<le> 30" by (rule power_le_imp_le_exp [rotated]) simp
  show u: "unat (cap * 2) = 2 * unat cap" using assms(3) by (simp add: unat_mult_u32)
  have "cap = 2 ^ k" using k(3) by (simp add: mask_eq_exp_minus_1 diff_eq_eq)
  then have c2: "cap * 2 - 1 = mask (Suc k)" by (simp add: mask_eq_exp_minus_1)
  have "length es' = 2 ^ Suc k" using assms(2,4) k u by simp
  then show "cap_ok (cap * 2 - 1) es'"
    unfolding cap_ok_def using k30 k(1) c2 by (intro exI [of _ "Suc k"]) simp
  show "home (cap - 1) e = home (cap - 1) e'" if "home (cap * 2 - 1) e = home (cap * 2 - 1) e'" for e e'
  proof -
    have "take_bit (Suc k) (ent_hash e) = take_bit (Suc k) (ent_hash e')"
      using that unfolding home_def c2 by (simp add: take_bit_eq_mask word_unat_eq_iff)
    then have "take_bit k (take_bit (Suc k) (ent_hash e)) = take_bit k (take_bit (Suc k) (ent_hash e'))"
      by simp
    then have "take_bit k (ent_hash e) = take_bit k (ent_hash e')" by (simp add: min_def)
    then show ?thesis unfolding home_def k(3) by (simp add: take_bit_eq_mask)
  qed
qed

lemma holes_apart_double:
  assumes ei: "es_inv (cap - 1) es FREE_INDEX_INVALID" and len: "length es = unat (cap :: u32)" "unat cap \<le> 2 ^ 30"
  shows "holes_apart (cap * 2 - 1) es"
  unfolding holes_apart_def
proof (intro ballI impI notI)
  fix e e' assume e: "e \<in> set es" "e' \<in> set es" "ent_key e = None \<and> ent_key e' \<noteq> None"
    and h: "home (cap * 2 - 1) e = home (cap * 2 - 1) e'"
  obtain i j where i: "i < length es" "es ! i = e" and j: "j < length es" "es ! j = e'"
    using e by (metis in_set_conv_nth)
  note ed = es_invD [OF ei]
  have "home (cap - 1) e = i" using ed(5) i e by (auto simp: holes_ok_def)
  moreover have "length (replicate (unat (cap * 2)) e) = unat (cap * 2)" by simp
  note cap_ok_double(3) [OF ed(1) len this h]
  ultimately have "j \<in> bucket (cap - 1) es i" using j e by (simp add: bucket_def occ_def)
  then show False using bucket_empty [OF ed(1,2) i(1)] i e by simp
qed

definition grow_ok :: "heap \<Rightarrow> table \<Rightarrow> bool" where
  "grow_ok h tbl \<longleftrightarrow> unat (ht_capacity tbl) \<le> 2 ^ 30 \<and>
     can_alloc h (unat (sizeof_HashTable + ht_entSize tbl * (ht_capacity tbl * 2)))"

lemma realloc_spec:
  assumes inv: "table_inv tbl" and full: "ht_freeIndex tbl = FREE_INDEX_INVALID" and grow: "grow_ok h tbl"
  obtains tbl' where "hash_table_realloc h tbl = Inr tbl'" "table_inv tbl'"
    "ht_freeIndex tbl' \<noteq> FREE_INDEX_INVALID" "ht_contents tbl' = ht_contents tbl"
    "ht_elemSize tbl' = ht_elemSize tbl" "ht_entSize tbl' = ht_entSize tbl"
    "ht_capacity tbl' = ht_capacity tbl * 2"
proof -
  define cap es where "cap = ht_capacity tbl" and "es = ht_entries tbl"
  have ei: "es_inv (cap - 1) es FREE_INDEX_INVALID" and len: "length es = unat cap" "unat cap \<le> 2 ^ 30"
    using inv full grow by (auto simp: table_inv_def grow_ok_def cap_def es_def)
  note ed = es_invD [OF ei]
  define c where "c = cap * 2 - 1"
  define new where "new = replicate (unat (cap * 2)) (fresh_entry (ht_elemSize tbl))"
  have ln: "length new = unat (cap * 2)" by (simp add: new_def)
  note dbl = cap_ok_double [OF ed(1) len ln]
  have pos: "0 < unat cap" using cap_ok_length [OF ed(1)] len by simp
  have "rebuilt c es [] new"
    unfolding rebuilt_def using dbl(1) chains_fresh
    by (auto simp: new_def c_def ended_def pairs_def List.map_filter_def)
  moreover have "free_at c [] new 0"
    using dbl(2) pos by (simp add: free_at_def new_def nfree_def)
  ultimately obtain es' g where loop: "realloc_loop c new (of_nat 0) es = Inr (es', of_nat g)"
      "length es' = length new" "rebuilt c es es es'" "free_at c es es' g"
    using realloc_loop_spec [of c es "[]" new 0 es] holes_apart_double [OF ei len] ed(7) ln dbl(2) len pos
    by (auto simp: c_def)
  define tbl' where "tbl' = \<lparr>ht_capacity = cap * 2, ht_elemSize = ht_elemSize tbl, ht_freeIndex = of_nat g,
      ht_entSize = ht_entSize tbl, ht_entries = es'\<rparr>"
  have run: "hash_table_realloc h tbl = Inr tbl'"
    using grow loop(1) by (simp add: hash_table_realloc_def Let_def grow_ok_def tbl'_def c_def new_def
        cap_def es_def)
  have cap': "cap_ok c es'" and g: "g < length es'" using loop(3,4) by (auto simp: rebuilt_def free_at_def)
  have u: "unat (of_nat g :: u32) = g" by (rule unat_idx [OF cap' g])
  have ne: "(of_nat g :: u32) \<noteq> FREE_INDEX_INVALID"
    using idx_valid [OF cap' g] by (simp add: NEXT_INVALID_def FREE_INDEX_INVALID_def)
  have fr: "free_ok es' (of_nat g)" "holes_ok c es' (of_nat g)"
    using loop(4) u ne by (auto simp: free_at_def free_ok_def holes_ok_def)
  have "mset (pairs es) = mset (pairs es')" using loop(3) by (simp add: rebuilt_def)
  note mo = map_of_mset_eq [OF this ed(8)]
  have inv': "table_inv tbl'"
    using loop(2,3) ln fr mo by (auto simp: table_inv_def tbl'_def es_inv_def rebuilt_def c_def)
  show thesis
    by (rule that [OF run inv']) (use ne mo in \<open>auto simp: tbl'_def ht_contents_def es_def cap_def\<close>)
qed

section \<open>The table as a finite map\<close>

lemma set_spec:
  assumes inv: "table_inv tbl" and k: "0 \<notin> set k" "alloc_ok h k" and v: "unat (ht_elemSize tbl) \<le> length v"
    and grow: "grow_ok h tbl"
  obtains tbl' b where "hash_table_set_by_cstr h tbl (k @ 0 # r) (of_nat (length k)) v = Inr (tbl', b)"
    "set_done tbl k (take (unat (ht_elemSize tbl)) v) tbl' b"
proof -
  have two: "2 = Suc (Suc 0)" by simp
  have hk: "hash_table_calc_hash (k @ 0 # r) (of_nat (length k)) = Inr (khash k)"
    using k(2) by (intro calc_hash_key) (simp add: alloc_ok_def)
  note red = hk hash_table_set_by_cstr_def two
  from do_set_step_spec [OF inv k v, of r] show thesis
  proof (elim disjE exE conjE)
    fix tbl' b assume "do_set_step h tbl (k @ 0 # r) (of_nat (length k)) v (khash k) = Inr (Some (tbl', b))"
      "set_done tbl k (take (unat (ht_elemSize tbl)) v) tbl' b"
    then show thesis using that [of tbl' b] by (simp add: red)
  next
    assume s: "do_set_step h tbl (k @ 0 # r) (of_nat (length k)) v (khash k) = Inr None"
      and full: "ht_freeIndex tbl = FREE_INDEX_INVALID"
    obtain t where t: "hash_table_realloc h tbl = Inr t" "table_inv t"
      "ht_freeIndex t \<noteq> FREE_INDEX_INVALID" "ht_contents t = ht_contents tbl"
      "ht_elemSize t = ht_elemSize tbl" "ht_entSize t = ht_entSize tbl"
      by (rule realloc_spec [OF inv full grow])
    have "unat (ht_elemSize t) \<le> length v" using v t(5) by simp
    from do_set_step_spec [OF t(2) k this, of r] t(3) obtain tbl' b where
      "do_set_step h t (k @ 0 # r) (of_nat (length k)) v (khash k) = Inr (Some (tbl', b))"
      "set_done t k (take (unat (ht_elemSize t)) v) tbl' b" by blast
    then show thesis using that [of tbl' b] s t by (simp add: red set_done_def)
  qed
qed

lemma create_spec:
  assumes "hash_table_create h sz = Inr tbl"
  shows "table_inv tbl \<and> ht_contents tbl = Map.empty \<and> ht_elemSize tbl = sz"
proof -
  let ?es = "replicate 2 (fresh_entry sz)"
  have t: "tbl = \<lparr>ht_capacity = 2, ht_elemSize = sz, ht_freeIndex = 0,
      ht_entSize = hash_table_ent_size sz, ht_entries = ?es\<rparr>"
    using assms by (auto simp: hash_table_create_def Let_def DEFAULT_CAPACITY_def split: if_splits)
  have "cap_ok 1 ?es" unfolding cap_ok_def by (intro exI [of _ 1]) (simp add: mask_eq_exp_minus_1)
  then have "es_inv 1 ?es 0"
    using chains_fresh by (auto simp: es_inv_def ended_def free_ok_def holes_ok_def FREE_INDEX_INVALID_def)
  then show ?thesis using t by (simp add: table_inv_def ht_contents_def)
qed

text \<open>What the client lists and zone tables rely on: a map from C strings to fixed-size
  values whose insertion keeps an existing value.\<close>

locale string_map =
  fixes inv :: "'t \<Rightarrow> bool"
    and contents :: "'t \<Rightarrow> bytes \<Rightarrow> bytes option"
    and fits :: "'t \<Rightarrow> bytes \<Rightarrow> bytes \<Rightarrow> bool"
    and get :: "'t \<Rightarrow> bytes \<Rightarrow> bytes option result"
    and put :: "'t \<Rightarrow> bytes \<Rightarrow> bytes \<Rightarrow> ('t \<times> bool) result"
    and del :: "'t \<Rightarrow> bytes \<Rightarrow> 't result"
  assumes get: "inv t \<Longrightarrow> 0 \<notin> set k \<Longrightarrow> length k < 2 ^ 32 \<Longrightarrow> get t k = Inr (contents t k)"
    and put: "inv t \<Longrightarrow> fits t k v \<Longrightarrow>
      \<exists>t' b. put t k v = Inr (t', b) \<and> inv t' \<and> b = (contents t k = None) \<and>
        contents t' = (if b then (contents t)(k \<mapsto> v) else contents t)"
    and del: "inv t \<Longrightarrow> 0 \<notin> set k \<Longrightarrow> length k < 2 ^ 32 \<Longrightarrow>
      \<exists>t'. del t k = Inr t' \<and> inv t' \<and> contents t' = (contents t)(k := None)"
    and fits_key: "fits t k v \<Longrightarrow> 0 \<notin> set k \<and> length k < 2 ^ 32"
begin

lemma put_get:
  assumes "inv t" "fits t k v" "put t k v = Inr (t', b)" "0 \<notin> set k'" "length k' < 2 ^ 32"
  shows "get t' k' = (if k' = k \<and> b then Inr (Some v) else get t k')"
  using put [OF assms(1,2)] assms get by auto

lemma del_get:
  assumes "inv t" "0 \<notin> set k" "length k < 2 ^ 32" "del t k = Inr t'" "0 \<notin> set k'" "length k' < 2 ^ 32"
  shows "get t' k' = (if k' = k then Inr None else get t k')"
  using del [OF assms(1-3)] assms get by auto

lemma put_keeps_first:
  assumes "inv t" "contents t k = Some w" "fits t k v"
  shows "\<exists>t'. put t k v = Inr (t', False) \<and> inv t' \<and> contents t' = contents t"
  using put [OF assms(1,3)] assms(2) by auto

lemma replace:
  assumes "inv t" "fits t k v" "del t k = Inr t'" "fits t' k v"
  shows "\<exists>t''. put t' k v = Inr (t'', True) \<and> inv t'' \<and> contents t'' = (contents t)(k \<mapsto> v)"
  using del [OF assms(1)] fits_key [OF assms(2)] put [OF _ assms(4)] assms(3) by fastforce

end

definition ht_get :: "table \<Rightarrow> bytes \<Rightarrow> bytes option result" where
  "ht_get tbl k = hash_table_get_by_cstr tbl (k @ [0]) (of_nat (length k))"

definition ht_put :: "heap \<Rightarrow> table \<Rightarrow> bytes \<Rightarrow> bytes \<Rightarrow> (table \<times> bool) result" where
  "ht_put h tbl k v = hash_table_set_by_cstr h tbl (k @ [0]) (of_nat (length k)) v"

definition ht_del :: "table \<Rightarrow> bytes \<Rightarrow> table result" where
  "ht_del tbl k = hash_table_remove_by_cstr tbl (k @ [0]) (of_nat (length k))"

definition ht_fits :: "heap \<Rightarrow> table \<Rightarrow> bytes \<Rightarrow> bytes \<Rightarrow> bool" where
  "ht_fits h tbl k v \<longleftrightarrow> 0 \<notin> set k \<and> alloc_ok h k \<and> grow_ok h tbl \<and> length v = unat (ht_elemSize tbl)"

interpretation ht: string_map table_inv ht_contents "ht_fits h" ht_get "ht_put h" ht_del for h
proof
  fix t k v
  assume inv: "table_inv t" and "ht_fits h t k v"
  then have k: "0 \<notin> set k" "alloc_ok h k" and g: "grow_ok h t" and v: "length v = unat (ht_elemSize t)"
    by (auto simp: ht_fits_def)
  have v': "unat (ht_elemSize t) \<le> length v" using v by simp
  obtain t' b where "hash_table_set_by_cstr h t (k @ [0]) (of_nat (length k)) v = Inr (t', b)"
    "set_done t k (take (unat (ht_elemSize t)) v) t' b"
    by (rule set_spec [OF inv k v' g])
  then show "\<exists>t' b. ht_put h t k v = Inr (t', b) \<and> table_inv t' \<and> b = (ht_contents t k = None) \<and>
      ht_contents t' = (if b then (ht_contents t)(k \<mapsto> v) else ht_contents t)"
    using v by (auto simp: ht_put_def set_done_def)
next
  fix t k assume a: "table_inv t" "(0::u8) \<notin> set k" "length k < 2 ^ 32"
  show "ht_get t k = Inr (ht_contents t k)" unfolding ht_get_def by (rule get_spec [OF a])
  show "\<exists>t'. ht_del t k = Inr t' \<and> table_inv t' \<and> ht_contents t' = (ht_contents t)(k := None)"
    by (rule remove_spec [OF a, of "[]"]) (auto simp: ht_del_def remove_done_def)
next
  fix t k v assume "ht_fits h t k v"
  then show "0 \<notin> set k \<and> length k < 2 ^ 32" by (simp add: ht_fits_def alloc_ok_def)
qed

end
