(* ===== verification/Foundation_Properties.thy ===== *)
theory Foundation_Properties
  imports Dyn_Array Crc Hash_Table_Correct
begin

text \<open>
  The properties of the foundation: hash table, dynamic array, byte cursor, checksum, strings and
  powers of two. Each is followed by an instance on concrete data where it has hypotheses.
\<close>

definition demo_heap :: heap where
  "demo_heap = \<lparr>can_alloc = (\<lambda>n. n \<le> 4096), junk = (\<lambda>n. 0xcd)\<rparr>"

definition demo_table :: table where
  "demo_table = \<lparr>ht_capacity = 2, ht_elemSize = 2, ht_freeIndex = 0, ht_entSize = 24,
     ht_entries = [fresh_entry 2, fresh_entry 2]\<rparr>"

lemma demo_create: "hash_table_create demo_heap 2 = Inr demo_table"
  by code_simp

lemma demo_inv: "table_inv demo_table" "ht_contents demo_table = Map.empty"
  using create_spec [OF demo_create] by simp_all

lemma demo_fits: "alloc_ok demo_heap [97, 98]" "grow_ok demo_heap demo_table"
  by (simp_all add: alloc_ok_def grow_ok_def demo_heap_def demo_table_def sizeof_HashTable_def
      sizeof_String_def bit_pow2_greater_than_def bit_next_pow2_u32_def bit_is_pow2_def)

section \<open>The hash table\<close>



text \<open>C2. \<open>hash_table_get_by_cstr\<close> returns the value of the key, or nothing when the key
  is absent; it never fails.\<close>

theorem hash_table_get_correct:
  assumes "table_inv tbl" "0 \<notin> set k" "length k < 2 ^ 32"
  shows "hash_table_get_by_cstr tbl (k @ 0 # rest) (of_nat (length k)) = Inr (ht_contents tbl k)"
  by (rule get_spec [OF assms])

theorem hash_table_get_correct_witness:
  "hash_table_get_by_cstr demo_table [97, 98, 0] 2 = Inr None"
  using hash_table_get_correct [of demo_table "[97, 98]" "[]"] demo_inv by simp

text \<open>C3. \<open>hash_table_remove_by_cstr\<close> removes exactly the given key, whether its entry
  is the head of its chain, inside it, alone in it, or absent, and keeps the invariant.\<close>

theorem hash_table_remove_correct:
  assumes "table_inv tbl" "0 \<notin> set k" "length k < 2 ^ 32"
  shows "\<exists>tbl'. hash_table_remove_by_cstr tbl (k @ 0 # rest) (of_nat (length k)) = Inr tbl' \<and>
    table_inv tbl' \<and> ht_capacity tbl' = ht_capacity tbl \<and> ht_contents tbl' = (ht_contents tbl)(k := None)"
  by (rule remove_spec [OF assms, of rest]) (auto simp: remove_done_def)

theorem hash_table_remove_correct_witness:
  "\<exists>tbl'. hash_table_remove_by_cstr demo_table [97, 98, 0] 2 = Inr tbl' \<and>
    table_inv tbl' \<and> ht_capacity tbl' = 2 \<and> ht_contents tbl' = Map.empty"
  using hash_table_remove_correct [of demo_table "[97, 98]" "[]"] demo_inv
  by (auto simp: demo_table_def)


text \<open>A table whose slots were both filled and then vacated by removals.\<close>

definition holey_table :: table where
  "holey_table = \<lparr>ht_capacity = 2, ht_elemSize = 2, ht_freeIndex = FREE_INDEX_INVALID, ht_entSize = 24,
     ht_entries = [fresh_entry 2, (fresh_entry 2)\<lparr>ent_hash := 1\<rparr>]\<rparr>"

lemma holey_inv: "table_inv holey_table" "ht_contents holey_table = Map.empty"
proof -
  let ?es = "[fresh_entry 2, (fresh_entry 2)\<lparr>ent_hash := 1\<rparr>]"
  have nth: "?es ! i = (if i = 0 then fresh_entry 2 else (fresh_entry 2)\<lparr>ent_hash := 1\<rparr>)" if "i < 2" for i
    using that by (cases i) (auto simp: less_Suc_eq)
  have "cap_ok 1 ?es" unfolding cap_ok_def by (intro exI [of _ 1]) (simp add: mask_eq_exp_minus_1)
  moreover have "chains 1 ?es"
    unfolding chains_def chain_def bucket_def occ_def
    by (auto simp: fresh_entry_def less_Suc_eq intro!: exI [of _ "[]"])
  moreover have "ended ?es" "holes_ok 1 ?es FREE_INDEX_INVALID"
    by (auto simp: ended_def holes_ok_def fresh_entry_def home_def less_Suc_eq)
  moreover have "pairs ?es = []" by (simp add: pairs_def List.map_filter_def fresh_entry_def kv_def ekey_def)
  ultimately show "table_inv holey_table" "ht_contents holey_table = Map.empty"
    by (auto simp: table_inv_def es_inv_def holey_table_def free_ok_def ht_contents_def entry_ok_def
        fresh_entry_def)
qed


section \<open>The dynamic array\<close>

definition demo_array :: array where
  "demo_array = \<lparr>ar_count = 2, ar_capacity = 2, ar_elementSize = 1, ar_data = [10, 20]\<rparr>"

lemma demo_array_inv: "array_inv demo_array" "elems demo_array = [[10], [20]]" "array_room demo_heap demo_array"
  by (simp_all add: array_inv_def demo_array_def elems_def slice_def array_room_def demo_heap_def
      sizeof_Array_def upt_rec)

text \<open>C5. Pushing to the array and shifting it left, as the outgoing packet and acknowledgement
  queues do, is a first-in first-out queue: pushing appends, growing the block when it is full,
  and shifting drops from the front.\<close>

theorem array_fifo:
  assumes "array_inv a" "array_room h a" "length v = unat (ar_elementSize a)"
  shows "\<exists>a1 p a2. array_push_back h a (Some v) = (a1, Inr p) \<and> array_shift_left a1 n = Inr a2 \<and>
    array_inv a1 \<and> array_inv a2 \<and> elems a1 = elems a @ [v] \<and> elems a2 = drop (unat n) (elems a @ [v])"
  using array_push_back_spec [OF assms] array_shift_left_spec [of _ n] by metis

theorem array_fifo_witness:
  "\<exists>a1 p a2. array_push_back demo_heap demo_array (Some [30]) = (a1, Inr p) \<and>
    array_shift_left a1 1 = Inr a2 \<and> elems a1 = [[10], [20], [30]] \<and> elems a2 = [[20], [30]]"
  using array_fifo [of demo_array demo_heap "[30]" 1] demo_array_inv by (auto simp: demo_array_def)

text \<open>\<open>array_swap_and_pop\<close> removes exactly the element at the index, keeps the
  others in place except the last, which takes the index, and reports whether it moved one.\<close>

lemma array_swap_and_pop_correct:
  assumes "array_inv a" "unat i < length (elems a)"
  shows "\<exists>a'. array_swap_and_pop a i = Inr (a', Suc (unat i) \<noteq> length (elems a)) \<and> array_inv a' \<and>
    elems a' = butlast ((elems a)[unat i := last (elems a)]) \<and>
    add_mset (elems a ! unat i) (mset (elems a')) = mset (elems a)"
  using array_swap_and_pop_spec [OF assms] arr.swap_pop_mset [OF assms] by blast

section \<open>The byte cursor\<close>

text \<open>A 32-bit field written at the cursor is read back from there unchanged, the cursor ends
  behind it, and no byte outside the four is touched; without room the write throws the bounds
  error and nothing else can go wrong.\<close>

lemma aligned_uint32_roundtrip:
  assumes "aligned_ok a" "unat (al_cursor a) + 4 < 2 ^ 32"
  shows "case aligned_write_uint32 a v of
      Inl e \<Rightarrow> e = ErrorOutOfBounds \<and> unat (al_length a) < unat (al_cursor a) + 4
    | Inr a' \<Rightarrow> aligned_ok a' \<and> aligned_read_uint32 (aligned_reset_to a' (al_cursor a)) = Inr (a', v) \<and>
        unat (al_cursor a') = unat (al_cursor a) + 4 \<and>
        (\<forall>i < length (al_buffer a). i < unat (al_cursor a) \<or> unat (al_cursor a) + 4 \<le> i \<longrightarrow>
           al_buffer a' ! i = al_buffer a ! i)"
proof -
  have nw: "no_wrap a 4" using assms(2) by (simp add: no_wrap_def)
  show ?thesis
  proof (cases "aligned_write_uint32 a v")
    case (Inl e)
    then show ?thesis using u32c.wr_spec [OF assms(1) nw, of v] by (auto split: if_splits)
  next
    case (Inr a')
    have "unat (al_cursor a') = unat (al_cursor a) + 4"
      using Inr u32c.wr_spec [OF assms(1) nw, of v] assms(2) unat_add_u32 [of "al_cursor a" 4]
      by (auto split: if_splits)
    then show ?thesis
      using Inr u32c.wr_ok [OF assms(1) nw Inr] u32c.wr_rd [OF assms(1) nw Inr]
        u32c.wr_frame [OF assms(1) nw Inr] by simp
  qed
qed

text \<open>C6. Reading \<open>len\<close> bytes through the cursor returns exactly the bytes at the cursor
  or throws the bounds error, as long as cursor and length together stay below 2 to the 32.\<close>

theorem aligned_read_buffer_exact:
  assumes "aligned_ok a" "unat (al_cursor a) + unat len < 2 ^ 32"
  shows "aligned_read_buffer a len =
    (if unat (al_cursor a) + unat len \<le> unat (al_length a)
     then Inr (a\<lparr>al_cursor := al_cursor a + len\<rparr>, take (unat len) (drop (unat (al_cursor a)) (al_buffer a)))
     else Inl ErrorOutOfBounds)"
  unfolding aligned_read_buffer_def
  by (subst read_bytes_spec) (use assms in \<open>simp_all add: no_wrap_def slice_def\<close>)

theorem aligned_read_buffer_exact_witness:
  "aligned_read_buffer \<lparr>al_cursor = 1, al_length = 3, al_buffer = [9, 8, 7]\<rparr> 2 =
     Inr (\<lparr>al_cursor = 3, al_length = 3, al_buffer = [9, 8, 7]\<rparr>, [8, 7])"
  using aligned_read_buffer_exact [of "\<lparr>al_cursor = 1, al_length = 3, al_buffer = [9, 8, 7]\<rparr>" 2]
  by (simp add: aligned_ok_def)

text \<open>C7. Where the 32-bit sum of cursor and length wraps, the bounds check of
  \<open>aligned_advance\<close> passes and the read runs outside the buffer.\<close>

theorem aligned_advance_wraps:
  assumes "aligned_ok a" "length (al_buffer a) < 2 ^ 32" "2 ^ 32 \<le> unat (al_cursor a) + unat len"
  shows "aligned_advance a len = Inr (a\<lparr>al_cursor := al_cursor a + len\<rparr>, al_cursor a) \<and>
    aligned_read_buffer a len = Inl UndefinedBehaviour"
proof -
  have c: "unat (al_cursor a) \<le> unat (al_length a)" using assms(1) by (simp add: aligned_ok_def word_le_nat_alt)
  have "unat (al_cursor a) + unat len < unat (al_cursor a) + 2 ^ 32" by simp
  then have "unat (al_cursor a + len) \<le> unat (al_length a)"
    using unat_add_wrap_u32 [OF assms(3)] c by linarith
  then have "aligned_advance a len = Inr (a\<lparr>al_cursor := al_cursor a + len\<rparr>, al_cursor a)"
    by (simp add: aligned_advance_def word_less_nat_alt)
  then show ?thesis using assms(2,3) by (simp add: aligned_read_buffer_def mem_read_def)
qed

theorem aligned_advance_wraps_witness:
  "aligned_read_buffer \<lparr>al_cursor = 2, al_length = 3, al_buffer = [9, 8, 7]\<rparr> 0xffffffff =
     Inl UndefinedBehaviour"
  using aligned_advance_wraps [of "\<lparr>al_cursor = 2, al_length = 3, al_buffer = [9, 8, 7]\<rparr>" "0xffffffff"]
  by (simp add: aligned_ok_def)

section \<open>The checksum\<close>

text \<open>C8. The table-driven CRC of the packets is the bit-by-bit division by the CRC-32
  polynomial, for every packet and, for the 16-bit form, every session key.\<close>

theorem crc_calc_is_polynomial_division:
  "crc_calc32 data = NOT (crc_ref data 0xffffffff) \<and>
   crc_calc16 data key =
     (if key = 0 then 0 else ucast (NOT (crc_ref (uint32_bytes key @ data) 0xffffffff) AND 0xffff))"
  by (simp add: crc_calc32_def crc_calc16_def Let_def crc_update_append flip: crc_update_eq_ref)

text \<open>The 32-bit checksum of a packet, also in network order, differs from that of any packet
  that differs from it in one byte, and appending data determines it from the prefix's register.\<close>

lemma crc_calc32_detects_byte_change:
  assumes "b \<noteq> b'"
  shows "crc_calc32 (xs @ b # ys) \<noteq> crc_calc32 (xs @ b' # ys) \<and>
    crc_calc32_network (xs @ b # ys) \<noteq> crc_calc32_network (xs @ b' # ys)"
  using crc_calc32_byte_change [OF assms] by simp

section \<open>Powers of two and strings\<close>

text \<open>\<open>bit_pow2_greater_than\<close>, which sizes every string and array block, returns
  the least power of two above its argument.\<close>

lemma bit_pow2_greater_than_least:
  assumes "0 < unat n" "unat n < 2 ^ 31"
  shows "\<exists>k. unat (bit_pow2_greater_than n) = 2 ^ k \<and> unat n < 2 ^ k \<and> (\<forall>j. unat n < 2 ^ j \<longrightarrow> k \<le> j)"
proof -
  obtain k where k: "unat (bit_pow2_greater_than n) = 2 ^ k" "unat n < 2 ^ k" "2 ^ k \<le> 2 * unat n"
    using pow2_greater_than_spec [OF assms] by blast
  have "k \<le> j" if j: "unat n < 2 ^ j" for j
  proof (rule ccontr)
    assume "\<not> k \<le> j"
    then have "(2::nat) ^ Suc j \<le> 2 ^ k" by (intro power_increasing) auto
    then show False using j k(3) by simp
  qed
  with k show ?thesis by blast
qed

text \<open>C9. \<open>string_add_cstr\<close> either appends exactly the given characters, keeping the
  string terminated and inside its block, or throws; it never writes outside the block.\<close>

theorem string_add_cstr_appends:
  assumes "string_inv b" "unat (str_length b) + length cs < 2 ^ 31"
  shows "case string_add_cstr h b cs (of_nat (length cs)) of
      Inl e \<Rightarrow> e \<noteq> UndefinedBehaviour
    | Inr s \<Rightarrow> string_inv s \<and> str_chars s = str_chars b @ cs"
proof -
  have u: "unat (of_nat (length cs) :: u32) = length cs" using assms(2) by (intro unat_of_nat_u32) simp
  show ?thesis
    using string_add_cstr_spec [OF assms(1), of "of_nat (length cs)" cs h]
      string_add_cstr_safe [OF assms(1), of "of_nat (length cs)" cs h] assms(2) u
    by (auto split: sum.split)
qed

theorem string_add_cstr_appends_witness:
  "case string_add_cstr demo_heap \<lparr>str_length = 1, str_capacity = 2, str_refCount = 1, str_data = [97, 0]\<rparr> [98, 99] 2 of
      Inl e \<Rightarrow> e \<noteq> UndefinedBehaviour
    | Inr s \<Rightarrow> string_inv s \<and> str_chars s = [97, 98, 99]"
  using string_add_cstr_appends [of "\<lparr>str_length = 1, str_capacity = 2, str_refCount = 1, str_data = [97, 0]\<rparr>" "[98, 99]" demo_heap]
    str_chars_def [of "\<lparr>str_length = 1, str_capacity = 2, str_refCount = 1, str_data = [97, 0]\<rparr>"]
  by (auto simp: string_inv_def split: sum.splits)

end
