(* ===== verification/Vec.thy ===== *)
theory Vec
  imports Dyn_Array
begin

text \<open>
  The array of \<^verbatim>\<open>eqp_array.c\<close> as its clients use it, through the typed macros: the
  items as a list, with the capacity and the allocation behaviour of the block. \<open>vec_rel\<close>
  relates a typed view to a byte-level array for any encoding of the items, and the lemmas at the
  end say that every operation below does on the items what the code does on the bytes. Packet
  queues, the client table and the timer pool are modelled with it.
\<close>

section \<open>The typed view\<close>

record 'a vec =
  vec_capacity :: u32
  vec_items :: "'a list"

definition vec_create :: "heap \<Rightarrow> u32 \<Rightarrow> 'a vec result" where
  "vec_create h esz =
     (if can_alloc h (sizeof_Array + unat esz * unat MIN_CAPACITY)
      then Inr \<lparr>vec_capacity = MIN_CAPACITY, vec_items = []\<rparr> else Inl ErrorOutOfMemory)"

definition vec_count :: "'a vec \<Rightarrow> u32" where
  "vec_count v = of_nat (length (vec_items v))"

text \<open>A doubled block whose size does not fit 32 bits would be too small for its items.\<close>

definition vec_push :: "heap \<Rightarrow> u32 \<Rightarrow> 'a vec \<Rightarrow> 'a \<Rightarrow> 'a vec result" where
  "vec_push h esz v x =
     (if vec_count v \<ge> vec_capacity v
      then (let cap = vec_capacity v * 2 in
            if unat (vec_capacity v) * 2 * unat esz \<ge> 2 ^ 32 \<or> unat (vec_capacity v) * 2 \<ge> 2 ^ 32
            then Inl UndefinedBehaviour
            else if can_alloc h (sizeof_Array + unat (cap * esz))
            then Inr (v\<lparr>vec_capacity := cap, vec_items := vec_items v @ [x]\<rparr>)
            else Inl ErrorOutOfMemory)
      else Inr (v\<lparr>vec_items := vec_items v @ [x]\<rparr>))"

definition vec_get :: "'a vec \<Rightarrow> u32 \<Rightarrow> 'a option" where
  "vec_get v i = (if unat i < length (vec_items v) then Some (vec_items v ! unat i) else None)"

definition vec_set :: "'a vec \<Rightarrow> u32 \<Rightarrow> 'a \<Rightarrow> 'a vec result" where
  "vec_set v i x =
     (if unat i < length (vec_items v) then Inr (v\<lparr>vec_items := (vec_items v)[unat i := x]\<rparr>)
      else Inl UndefinedBehaviour)"

definition vec_pop :: "'a vec \<Rightarrow> 'a vec" where
  "vec_pop v = v\<lparr>vec_items := butlast (vec_items v)\<rparr>"

definition vec_swap_and_pop :: "'a vec \<Rightarrow> u32 \<Rightarrow> 'a vec \<times> bool" where
  "vec_swap_and_pop v i =
     (let xs = vec_items v in
      if unat i < length xs
      then (v\<lparr>vec_items := butlast (xs[unat i := last xs])\<rparr>, Suc (unat i) \<noteq> length xs)
      else (v, False))"

definition vec_shift_left :: "'a vec \<Rightarrow> u32 \<Rightarrow> 'a vec" where
  "vec_shift_left v n = v\<lparr>vec_items := drop (unat n) (vec_items v)\<rparr>"

section \<open>Room\<close>

definition vec_ok :: "u32 \<Rightarrow> 'a vec \<Rightarrow> bool" where
  "vec_ok esz v \<longleftrightarrow> length (vec_items v) \<le> unat (vec_capacity v) \<and> 2 \<le> unat (vec_capacity v) \<and>
     unat (vec_capacity v) * unat esz < 2 ^ 32"

definition vec_room :: "heap \<Rightarrow> u32 \<Rightarrow> 'a vec \<Rightarrow> bool" where
  "vec_room h esz v \<longleftrightarrow> length (vec_items v) < unat (vec_capacity v) \<or>
     (2 * unat (vec_capacity v) < 2 ^ 32 \<and> 2 * unat (vec_capacity v) * unat esz < 2 ^ 32 \<and>
      can_alloc h (sizeof_Array + 2 * unat (vec_capacity v) * unat esz))"

lemma vec_count_unat: "vec_ok esz v \<Longrightarrow> unat (vec_count v) = length (vec_items v)"
proof -
  assume "vec_ok esz v"
  then have "length (vec_items v) < 4294967296"
    using unat_lt_u32 [of "vec_capacity v"] unfolding vec_ok_def by linarith
  then show ?thesis unfolding vec_count_def by (intro unat_of_nat_u32) simp
qed

lemma vec_push_spec:
  assumes "vec_ok esz v" "vec_room h esz v"
  shows "\<exists>v'. vec_push h esz v x = Inr v' \<and> vec_ok esz v' \<and> vec_items v' = vec_items v @ [x]"
proof -
  have c: "unat (vec_count v) = length (vec_items v)" by (rule vec_count_unat [OF assms(1)])
  show ?thesis
  proof (cases "vec_count v \<ge> vec_capacity v")
    case False
    then have "length (vec_items v) < unat (vec_capacity v)" using c by (simp add: word_le_nat_alt)
    then show ?thesis using False assms(1) by (simp add: vec_push_def vec_ok_def)
  next
    case True
    then have full: "\<not> length (vec_items v) < unat (vec_capacity v)" using c by (simp add: word_le_nat_alt)
    then have r: "2 * unat (vec_capacity v) < 2 ^ 32" "2 * unat (vec_capacity v) * unat esz < 2 ^ 32"
      "can_alloc h (sizeof_Array + 2 * unat (vec_capacity v) * unat esz)"
      using assms(2) by (auto simp: vec_room_def)
    have u: "unat (vec_capacity v * 2) = 2 * unat (vec_capacity v)"
      using r(1) unat_mult_u32 [of "vec_capacity v" 2] by simp
    have us: "unat (vec_capacity v * 2 * esz) = 2 * unat (vec_capacity v) * unat esz"
      using r(2) u unat_mult_u32 [of "vec_capacity v * 2" esz] by simp
    show ?thesis
      using True r u us assms(1) full by (simp add: vec_push_def Let_def vec_ok_def mult.commute)
  qed
qed

text \<open>A heap that grants every request: what the functional statements assume of memory.\<close>

definition ample :: "heap \<Rightarrow> bool" where
  "ample h \<longleftrightarrow> (\<forall>n. can_alloc h n)"

lemma vec_push_ample:
  assumes "vec_ok esz v" "ample h" "2 * length (vec_items v) * unat esz < 2 ^ 32" "0 < unat esz"
  shows "\<exists>v'. vec_push h esz v x = Inr v' \<and> vec_ok esz v' \<and> vec_items v' = vec_items v @ [x]"
proof (rule vec_push_spec)
  show "vec_room h esz v"
  proof (cases "length (vec_items v) < unat (vec_capacity v)")
    case False
    then have eq: "unat (vec_capacity v) = length (vec_items v)" using assms(1) by (simp add: vec_ok_def)
    have "2 * unat (vec_capacity v) \<le> 2 * unat (vec_capacity v) * unat esz" using assms(4) by simp
    then have "2 * unat (vec_capacity v) < 2 ^ 32" using assms(3) unfolding eq by (rule le_less_trans)
    then show ?thesis using assms(2,3) by (simp add: vec_room_def ample_def eq)
  qed (simp add: vec_room_def)
qed (rule assms)

lemma vec_push_ok:
  assumes "vec_ok esz v" "vec_push h esz v x = Inr v'"
  shows "vec_ok esz v' \<and> length (vec_items v') = Suc (length (vec_items v))"
proof -
  note c = vec_count_unat [OF assms(1)]
  show ?thesis
  proof (cases "vec_count v \<ge> vec_capacity v")
    case True
    then have r: "unat (vec_capacity v) * 2 * unat esz < 2 ^ 32" "unat (vec_capacity v) * 2 < 2 ^ 32"
      "v' = v\<lparr>vec_capacity := vec_capacity v * 2, vec_items := vec_items v @ [x]\<rparr>"
      using assms(2) by (auto simp: vec_push_def Let_def split: if_splits)
    have "unat (vec_capacity v * 2) = unat (vec_capacity v) * 2"
      using r(2) unat_mult_u32 [of "vec_capacity v" 2] by simp
    then show ?thesis using r assms(1) by (auto simp: vec_ok_def)
  next
    case False
    then show ?thesis using assms c by (auto simp: vec_push_def vec_ok_def word_le_nat_alt)
  qed
qed

lemma vec_create_spec: "vec_create h esz = Inr v \<Longrightarrow> 2 * unat esz < 2 ^ 32 \<Longrightarrow> vec_ok esz v \<and> vec_items v = []"
  by (auto simp: vec_create_def vec_ok_def MIN_CAPACITY_def split: if_splits)

lemma vec_ok_shrink:
  "vec_ok esz v \<Longrightarrow> length xs \<le> length (vec_items v) \<Longrightarrow> vec_ok esz (v\<lparr>vec_items := xs\<rparr>)"
  by (auto simp: vec_ok_def)

text \<open>The typed view meets the contract of the byte-level array.\<close>

interpretation typed: dyn_vec "vec_ok esz" vec_items "\<lambda>v x. True" "\<lambda>h. vec_room h esz"
  "\<lambda>h v x. (case vec_push h esz v x of Inl e \<Rightarrow> (v, Inl e) | Inr v' \<Rightarrow> (v', Inr ()))"
  vec_pop "\<lambda>v i. Inr (vec_swap_and_pop v i)" "\<lambda>v n. Inr (vec_shift_left v n)" "\<lambda>v i. Inr (vec_get v i)"
  for esz
proof
  fix v :: "'a vec" and h x assume "vec_ok esz v" "vec_room h esz v"
  from vec_push_spec [OF this, of x]
  show "\<exists>s' p. (case vec_push h esz v x of Inl e \<Rightarrow> (v, Inl e) | Inr v' \<Rightarrow> (v', Inr ())) = (s', Inr p) \<and>
      vec_ok esz s' \<and> vec_items s' = vec_items v @ [x]" by auto
qed (auto simp: vec_pop_def vec_swap_and_pop_def vec_shift_left_def vec_get_def Let_def intro: vec_ok_shrink)

section \<open>The typed view and the bytes\<close>

definition vec_rel :: "('a \<Rightarrow> bytes) \<Rightarrow> array \<Rightarrow> 'a vec \<Rightarrow> bool" where
  "vec_rel enc a v \<longleftrightarrow> array_inv a \<and> ar_capacity a = vec_capacity v \<and> elems a = map enc (vec_items v)"

lemma vec_rel_length: "vec_rel enc a v \<Longrightarrow> unat (ar_count a) = length (vec_items v)"
  using length_elems [of a] by (simp add: vec_rel_def del: length_elems)

lemma vec_rel_ok: "vec_rel enc a v \<Longrightarrow> vec_ok (ar_elementSize a) v"
  using array_inv_count [of a] vec_rel_length [of enc a v]
  by (auto simp: vec_rel_def vec_ok_def array_inv_def)

lemma vec_rel_count: "vec_rel enc a v \<Longrightarrow> vec_count v = ar_count a"
  unfolding vec_count_def by (metis vec_rel_length of_nat_unat ucast_id)

lemma push_store_capacity: "array_push_store a i x = (a', r) \<Longrightarrow> ar_capacity a' = ar_capacity a"
  by (auto simp: array_push_store_def Let_def split: option.splits sum.splits)

lemma push_back_capacity:
  "array_push_back h a x = (a', Inr p) \<Longrightarrow>
   ar_capacity a' = (if ar_count a \<ge> ar_capacity a then ar_capacity a * 2 else ar_capacity a)"
  by (auto simp: array_push_back_def Let_def split: if_splits sum.splits dest!: push_store_capacity)

text \<open>One lemma per operation: related arrays stay related, and the code answers the same.\<close>

lemma vec_push_sim:
  assumes rel: "vec_rel enc a v" and room: "array_room h a" and x: "length (enc x) = unat (ar_elementSize a)"
  shows "\<exists>a' p v'. array_push_back h a (Some (enc x)) = (a', Inr p) \<and>
    vec_push h (ar_elementSize a) v x = Inr v' \<and> vec_rel enc a' v'"
proof -
  have inv: "array_inv a" and cap: "ar_capacity a = vec_capacity v" using rel by (auto simp: vec_rel_def)
  have ok: "vec_ok (ar_elementSize a) v" by (rule vec_rel_ok [OF rel])
  have vr: "vec_room h (ar_elementSize a) v"
    using room vec_rel_length [OF rel] cap by (auto simp: vec_room_def array_room_def word_less_nat_alt)
  obtain a' p where a': "array_push_back h a (Some (enc x)) = (a', Inr p)" "array_inv a'"
      "elems a' = elems a @ [enc x]"
    using array_push_back_spec [OF inv room x] by blast
  obtain v' where v': "vec_push h (ar_elementSize a) v x = Inr v'" "vec_items v' = vec_items v @ [x]"
    using vec_push_spec [OF ok vr] by blast
  have "vec_capacity v' = (if ar_count a \<ge> ar_capacity a then ar_capacity a * 2 else ar_capacity a)"
    using v'(1) vec_rel_count [OF rel] cap by (auto simp: vec_push_def Let_def split: if_splits)
  then have "vec_rel enc a' v'"
    using a' v'(2) rel push_back_capacity [OF a'(1)] by (simp add: vec_rel_def)
  with a' v' show ?thesis by blast
qed

lemma vec_shift_sim:
  assumes rel: "vec_rel enc a v"
  shows "\<exists>a'. array_shift_left a n = Inr a' \<and> vec_rel enc a' (vec_shift_left v n)"
proof -
  obtain a' where a': "array_shift_left a n = Inr a'" "array_inv a'" "elems a' = drop (unat n) (elems a)"
    using array_shift_left_spec [of a n] rel by (auto simp: vec_rel_def)
  have "ar_capacity a' = ar_capacity a"
    using a'(1) by (auto simp: array_shift_left_def array_clear_def Let_def result_simps split: if_splits)
  then show ?thesis using a' rel by (simp add: vec_rel_def vec_shift_left_def drop_map)
qed

lemma vec_swap_and_pop_sim:
  assumes rel: "vec_rel enc a v" and i: "unat i < length (vec_items v)"
  shows "\<exists>a'. array_swap_and_pop a i = Inr (a', snd (vec_swap_and_pop v i)) \<and>
    vec_rel enc a' (fst (vec_swap_and_pop v i))"
proof -
  have inv: "array_inv a" and el: "elems a = map enc (vec_items v)" using rel by (auto simp: vec_rel_def)
  have i': "unat i < length (elems a)" unfolding el using i by simp
  obtain a' where a': "array_swap_and_pop a i = Inr (a', Suc (unat i) \<noteq> length (elems a))" "array_inv a'"
      "elems a' = butlast ((elems a)[unat i := last (elems a)])"
    using array_swap_and_pop_spec [OF inv i'] by blast
  have "ar_capacity a' = ar_capacity a"
    using a'(1) by (auto simp: array_swap_and_pop_def Let_def result_simps split: if_splits)
  moreover have ne: "vec_items v \<noteq> []" using i by auto
  then have "elems a' = map enc (butlast ((vec_items v)[unat i := last (vec_items v)]))"
    using a'(3) by (simp add: el last_map map_butlast map_update del: butlast_list_update)
  moreover have "length (elems a) = length (vec_items v)" unfolding el by simp
  ultimately show ?thesis using a' i rel by (simp add: vec_rel_def vec_swap_and_pop_def Let_def del: length_elems)
qed

lemma vec_get_sim:
  assumes rel: "vec_rel enc a v"
  shows "array_get_copy a i = Inr (map_option enc (vec_get v i))"
proof -
  have inv: "array_inv a" and el: "elems a = map enc (vec_items v)" using rel by (auto simp: vec_rel_def)
  show ?thesis unfolding array_get_copy_spec [OF inv] el by (simp add: vec_get_def)
qed

end
