(* ===== verification/Timer_Pool.thy ===== *)
theory Timer_Pool
  imports Vec "HOL-Library.Multiset"
begin

text \<open>
  \<^verbatim>\<open>common/time/timer.c\<close> and \<^verbatim>\<open>timer_pool.c\<close>: periodic callbacks. A
  pool keeps the trigger times and the timers they belong to in two parallel arrays; a timer knows
  its index in them. Stopping a timer only sets the top bit of its trigger time, and the next
  cycle removes it.

  The timers are kept in a store by address, \<open>None\<close> being memory that was freed. Cells of the
  two arrays that were never written are \<open>None\<close>, and a deinitialised pool has empty arrays.
  The callbacks are a parameter: state transformers, indexed by the function pointer the timer
  holds. The clock is a parameter: the time each successive read returns.
\<close>

section \<open>State\<close>

record timer =
  tm_poolIndex :: u32
  tm_periodMilliseconds :: u32
  tm_callback :: "nat option"
  tm_userdata :: nat

record timer_pool =
  tp_capacity :: u32
  tp_count :: u32
  tp_triggerTimes :: "u64 option list"
  tp_timerObjects :: "nat option list"
  tp_triggered :: "u32 vec option"
  tp_store :: "nat \<Rightarrow> timer option"
  tp_reads :: nat

type_synonym callbacks = "nat \<Rightarrow> nat \<Rightarrow> timer_pool \<Rightarrow> timer_pool result"

definition INVALID_INDEX :: u32 where "INVALID_INDEX = 0xffffffff"
definition DEFAULT_CAPACITY :: u32 where "DEFAULT_CAPACITY = 32"
definition sizeof_Timer :: nat where "sizeof_Timer = 32"

text \<open>The dead flag.\<close>

definition dead_bit :: u64 where "dead_bit = push_bit 63 1"

definition is_dead :: "u64 \<Rightarrow> bool" where
  "is_dead t = (t AND dead_bit \<noteq> 0)"

definition pool_read :: "'a option list \<Rightarrow> u32 \<Rightarrow> 'a result" where
  "pool_read xs i =
     (if unat i < length xs
      then (case xs ! unat i of None \<Rightarrow> Inl UndefinedBehaviour | Some a \<Rightarrow> Inr a)
      else Inl UndefinedBehaviour)"

definition pool_write :: "'a option list \<Rightarrow> u32 \<Rightarrow> 'a \<Rightarrow> 'a option list result" where
  "pool_write xs i a = (if unat i < length xs then Inr (xs[unat i := Some a]) else Inl UndefinedBehaviour)"

definition deref_timer :: "timer_pool \<Rightarrow> nat \<Rightarrow> timer result" where
  "deref_timer p t = (case tp_store p t of None \<Rightarrow> Inl UndefinedBehaviour | Some x \<Rightarrow> Inr x)"

definition put_timer :: "timer_pool \<Rightarrow> nat \<Rightarrow> timer \<Rightarrow> timer_pool" where
  "put_timer p t x = p\<lparr>tp_store := (tp_store p)(t \<mapsto> x)\<rparr>"

definition pool_clock :: "(nat \<Rightarrow> u64) \<Rightarrow> timer_pool \<Rightarrow> u64 \<times> timer_pool" where
  "pool_clock clk p = (clk (tp_reads p), p\<lparr>tp_reads := Suc (tp_reads p)\<rparr>)"

definition set_time :: "timer_pool \<Rightarrow> u32 \<Rightarrow> u64 \<Rightarrow> timer_pool result" where
  "set_time p i time = bindE (pool_write (tp_triggerTimes p) i time) (\<lambda>ts. Inr (p\<lparr>tp_triggerTimes := ts\<rparr>))"

definition set_object :: "timer_pool \<Rightarrow> u32 \<Rightarrow> nat \<Rightarrow> timer_pool result" where
  "set_object p i t = bindE (pool_write (tp_timerObjects p) i t) (\<lambda>xs. Inr (p\<lparr>tp_timerObjects := xs\<rparr>))"

section \<open>The pool\<close>

definition timer_pool_init :: "heap \<Rightarrow> (nat \<Rightarrow> timer option) \<Rightarrow> nat \<Rightarrow> timer_pool result" where
  "timer_pool_init h store reads =
     (let cap = unat DEFAULT_CAPACITY in
      if can_alloc h (8 * cap)
      then bindE (vec_create h 4) (\<lambda>v.
           Inr \<lparr>tp_capacity = DEFAULT_CAPACITY, tp_count = 0, tp_triggerTimes = replicate cap None,
                tp_timerObjects = replicate cap None, tp_triggered = Some v, tp_store = store, tp_reads = reads\<rparr>)
      else Inl ErrorOutOfMemory)"

definition timer_pool_deinit :: "timer_pool \<Rightarrow> timer_pool" where
  "timer_pool_deinit p = p\<lparr>tp_triggerTimes := [], tp_timerObjects := [], tp_triggered := None\<rparr>"

definition timer_pool_swap_and_pop :: "timer_pool \<Rightarrow> u32 \<Rightarrow> timer_pool result" where
  "timer_pool_swap_and_pop p index =
     (let back = tp_count p - 1; p = p\<lparr>tp_count := back\<rparr> in
      if back \<noteq> index
      then bindE (pool_read (tp_timerObjects p) back) (\<lambda>t.
           bindE (set_object p index t) (\<lambda>p.
           bindE (pool_read (tp_triggerTimes p) back) (\<lambda>time.
           bindE (set_time p index time) (\<lambda>p.
           bindE (deref_timer p t) (\<lambda>x.
           Inr (put_timer p t (x\<lparr>tm_poolIndex := index\<rparr>)))))))
      else Inr p)"

definition timer_execute_callback :: "callbacks \<Rightarrow> nat \<Rightarrow> timer_pool \<Rightarrow> timer_pool result" where
  "timer_execute_callback cb t p =
     bindE (deref_timer p t) (\<lambda>x. case tm_callback x of None \<Rightarrow> Inr p | Some f \<Rightarrow> cb f t p)"

definition timer_pool_trigger :: "callbacks \<Rightarrow> timer_pool \<Rightarrow> u32 \<Rightarrow> timer_pool result" where
  "timer_pool_trigger cb p index =
     bindE (pool_read (tp_timerObjects p) index) (\<lambda>t.
     bindE (pool_read (tp_triggerTimes p) index) (\<lambda>time.
     bindE (deref_timer p t) (\<lambda>x.
     bindE (set_time p index (time + ucast (tm_periodMilliseconds x))) (\<lambda>p.
     timer_execute_callback cb t p))))"

text \<open>The scan: \<open>i\<close> is the index, \<open>k\<close> the entries left, the code's \<open>n - i\<close>.\<close>

fun pool_scan :: "nat \<Rightarrow> heap \<Rightarrow> u64 \<Rightarrow> u32 \<Rightarrow> u32 vec \<Rightarrow> timer_pool \<Rightarrow> (u32 vec \<times> timer_pool) result" where
  "pool_scan 0 h curTime i v p = Inr (v, p)"
| "pool_scan (Suc k) h curTime i v p =
     bindE (pool_read (tp_triggerTimes p) i) (\<lambda>triggerTime.
     if is_dead triggerTime
     then bindE (timer_pool_swap_and_pop p i) (\<lambda>p. pool_scan k h curTime i v p)
     else bindE (if curTime \<ge> triggerTime AND mask 63 then vec_push h 4 v i else Inr v) (\<lambda>v.
          pool_scan k h curTime (i + 1) v p))"

fun trigger_all :: "callbacks \<Rightarrow> u32 list \<Rightarrow> timer_pool \<Rightarrow> timer_pool result" where
  "trigger_all cb [] p = Inr p"
| "trigger_all cb (i # is) p = bindE (timer_pool_trigger cb p i) (trigger_all cb is)"

definition timer_pool_execute_callbacks :: "heap \<Rightarrow> (nat \<Rightarrow> u64) \<Rightarrow> callbacks \<Rightarrow> timer_pool \<Rightarrow> timer_pool result" where
  "timer_pool_execute_callbacks h clk cb p =
     (let (curTime, p) = pool_clock clk p in
      case tp_triggered p of
        None \<Rightarrow> Inl UndefinedBehaviour
      | Some v \<Rightarrow>
          bindE (pool_scan (unat (tp_count p)) h curTime 0 v p) (\<lambda>(v, p).
          let p = p\<lparr>tp_triggered := Some v\<rparr> in
          if vec_count v > 0
          then bindE (trigger_all cb (vec_items v) p) (\<lambda>p.
               Inr (p\<lparr>tp_triggered := map_option (\<lambda>v. v\<lparr>vec_items := []\<rparr>) (tp_triggered p)\<rparr>))
          else Inr p))"

definition grow_cells :: "nat \<Rightarrow> 'a option list \<Rightarrow> 'a option list" where
  "grow_cells c xs = take c xs @ replicate (c - length xs) None"

definition timer_pool_realloc :: "heap \<Rightarrow> timer_pool \<Rightarrow> timer_pool result" where
  "timer_pool_realloc h p =
     (let c = tp_capacity p * 2 in
      if can_alloc h (8 * unat c)
      then Inr (p\<lparr>tp_triggerTimes := grow_cells (unat c) (tp_triggerTimes p),
                  tp_timerObjects := grow_cells (unat c) (tp_timerObjects p), tp_capacity := c\<rparr>)
      else Inl ErrorOutOfMemory)"

definition timer_pool_internal_start_timer :: "heap \<Rightarrow> (nat \<Rightarrow> u64) \<Rightarrow> timer_pool \<Rightarrow> nat \<Rightarrow> timer_pool result" where
  "timer_pool_internal_start_timer h clk p t =
     (let (curTime, p) = pool_clock clk p; index = tp_count p; p = p\<lparr>tp_count := index + 1\<rparr> in
      bindE (if index \<ge> tp_capacity p then timer_pool_realloc h p else Inr p) (\<lambda>p.
      bindE (deref_timer p t) (\<lambda>x.
      bindE (set_time p index (curTime + ucast (tm_periodMilliseconds x))) (\<lambda>p.
      bindE (set_object p index t) (\<lambda>p.
      Inr (put_timer p t (x\<lparr>tm_poolIndex := index\<rparr>)))))))"

definition timer_pool_internal_restart_timer :: "(nat \<Rightarrow> u64) \<Rightarrow> timer_pool \<Rightarrow> nat \<Rightarrow> timer_pool result" where
  "timer_pool_internal_restart_timer clk p t =
     bindE (deref_timer p t) (\<lambda>x.
     let (now, p) = pool_clock clk p in
     set_time p (tm_poolIndex x) (now + ucast (tm_periodMilliseconds x)))"

definition timer_pool_internal_delay_timer :: "timer_pool \<Rightarrow> nat \<Rightarrow> u32 \<Rightarrow> timer_pool result" where
  "timer_pool_internal_delay_timer p t milliseconds =
     bindE (deref_timer p t) (\<lambda>x.
     bindE (pool_read (tp_triggerTimes p) (tm_poolIndex x)) (\<lambda>time.
     set_time p (tm_poolIndex x) (time + ucast milliseconds)))"

definition timer_pool_internal_force_timer_trigger_next_cycle ::
  "(nat \<Rightarrow> u64) \<Rightarrow> timer_pool \<Rightarrow> nat \<Rightarrow> timer_pool result" where
  "timer_pool_internal_force_timer_trigger_next_cycle clk p t =
     bindE (deref_timer p t) (\<lambda>x.
     let (now, p) = pool_clock clk p in set_time p (tm_poolIndex x) now)"

definition timer_pool_internal_mark_timer_as_dead :: "timer_pool \<Rightarrow> u32 \<Rightarrow> timer_pool result" where
  "timer_pool_internal_mark_timer_as_dead p index =
     bindE (pool_read (tp_triggerTimes p) index) (\<lambda>time. set_time p index (time OR dead_bit))"

section \<open>Timers\<close>

definition timer_init ::
  "heap \<Rightarrow> (nat \<Rightarrow> u64) \<Rightarrow> nat \<Rightarrow> timer_pool \<Rightarrow> u32 \<Rightarrow> nat option \<Rightarrow> nat \<Rightarrow> bool \<Rightarrow> timer_pool result" where
  "timer_init h clk t p periodMilliseconds callback userdata start =
     (let p = put_timer p t \<lparr>tm_poolIndex = INVALID_INDEX, tm_periodMilliseconds = periodMilliseconds,
                tm_callback = callback, tm_userdata = userdata\<rparr> in
      if start then timer_pool_internal_start_timer h clk p t else Inr p)"

definition timer_stop :: "timer_pool \<Rightarrow> nat \<Rightarrow> timer_pool result" where
  "timer_stop p t =
     bindE (deref_timer p t) (\<lambda>x.
     let index = tm_poolIndex x in
     if index = INVALID_INDEX then Inr p
     else timer_pool_internal_mark_timer_as_dead (put_timer p t (x\<lparr>tm_poolIndex := INVALID_INDEX\<rparr>)) index)"

definition timer_deinit :: "timer_pool \<Rightarrow> nat \<Rightarrow> timer_pool result" where
  "timer_deinit p t = timer_stop p t"

definition eqp_timer_create ::
  "heap \<Rightarrow> (nat \<Rightarrow> u64) \<Rightarrow> nat \<Rightarrow> timer_pool \<Rightarrow> u32 \<Rightarrow> nat option \<Rightarrow> nat \<Rightarrow> bool \<Rightarrow> timer_pool result" where
  "eqp_timer_create h clk t p periodMilliseconds callback userdata start =
     (if can_alloc h sizeof_Timer then timer_init h clk t p periodMilliseconds callback userdata start
      else Inl ErrorOutOfMemory)"

definition timer_destroy :: "timer_pool \<Rightarrow> nat \<Rightarrow> timer_pool result" where
  "timer_destroy p t =
     bindE (timer_deinit p t) (\<lambda>p. Inr (p\<lparr>tp_store := (tp_store p)(t := None)\<rparr>))"

definition timer_restart :: "heap \<Rightarrow> (nat \<Rightarrow> u64) \<Rightarrow> timer_pool \<Rightarrow> nat \<Rightarrow> timer_pool result" where
  "timer_restart h clk p t =
     bindE (deref_timer p t) (\<lambda>x.
     if tm_poolIndex x = INVALID_INDEX then timer_pool_internal_start_timer h clk p t
     else timer_pool_internal_restart_timer clk p t)"

definition timer_delay :: "timer_pool \<Rightarrow> nat \<Rightarrow> u32 \<Rightarrow> timer_pool result" where
  "timer_delay p t milliseconds =
     bindE (deref_timer p t) (\<lambda>x.
     if tm_poolIndex x \<noteq> INVALID_INDEX then timer_pool_internal_delay_timer p t milliseconds else Inr p)"

definition timer_force_trigger_on_next_cycle :: "heap \<Rightarrow> (nat \<Rightarrow> u64) \<Rightarrow> timer_pool \<Rightarrow> nat \<Rightarrow> timer_pool result" where
  "timer_force_trigger_on_next_cycle h clk p t =
     bindE (deref_timer p t) (\<lambda>x.
     bindE (if tm_poolIndex x = INVALID_INDEX then timer_pool_internal_start_timer h clk p t else Inr p) (\<lambda>p.
     timer_pool_internal_force_timer_trigger_next_cycle clk p t))"

section \<open>The entries of a pool\<close>

definition entries :: "timer_pool \<Rightarrow> (u64 \<times> nat) list" where
  "entries p = map (\<lambda>i. (the (tp_triggerTimes p ! i), the (tp_timerObjects p ! i))) [0..<unat (tp_count p)]"

definition pool_ok :: "timer_pool \<Rightarrow> bool" where
  "pool_ok p \<longleftrightarrow> length (tp_triggerTimes p) = unat (tp_capacity p) \<and>
     length (tp_timerObjects p) = unat (tp_capacity p) \<and> unat (tp_count p) \<le> unat (tp_capacity p) \<and>
     (\<forall>i < unat (tp_count p). tp_triggerTimes p ! i \<noteq> None \<and> tp_timerObjects p ! i \<noteq> None)"

definition live :: "u64 \<times> nat \<Rightarrow> bool" where
  "live e \<longleftrightarrow> \<not> is_dead (fst e)"

text \<open>Every running timer knows where it is.\<close>

definition indexed :: "timer_pool \<Rightarrow> bool" where
  "indexed p \<longleftrightarrow> (\<forall>i < length (entries p). live (entries p ! i) \<longrightarrow>
     (\<exists>x. tp_store p (snd (entries p ! i)) = Some x \<and> tm_poolIndex x = of_nat i))"

text \<open>The timers of the entries to be removed are still allocated, and were not started again.\<close>

definition dead_stopped :: "timer_pool \<Rightarrow> bool" where
  "dead_stopped p \<longleftrightarrow> (\<forall>e \<in> set (entries p). \<not> live e \<longrightarrow> tp_store p (snd e) \<noteq> None \<and>
     snd e \<notin> snd ` {e \<in> set (entries p). live e})"

lemma length_entries [simp]: "length (entries p) = unat (tp_count p)"
  by (simp add: entries_def)

lemma entries_nth:
  "pool_ok p \<Longrightarrow> i < unat (tp_count p) \<Longrightarrow>
   tp_triggerTimes p ! i = Some (fst (entries p ! i)) \<and> tp_timerObjects p ! i = Some (snd (entries p ! i)) \<and>
   i < length (tp_triggerTimes p) \<and> i < length (tp_timerObjects p)"
  by (auto simp: pool_ok_def entries_def)

lemma pool_reads:
  "pool_ok p \<Longrightarrow> unat i < unat (tp_count p) \<Longrightarrow>
   pool_read (tp_triggerTimes p) i = Inr (fst (entries p ! unat i)) \<and>
   pool_read (tp_timerObjects p) i = Inr (snd (entries p ! unat i))"
  using entries_nth [of p "unat i"] by (simp add: pool_read_def)

lemma swap_and_pop_spec:
  assumes ok: "pool_ok p" and i: "unat i < unat (tp_count p)"
    and alloc: "Suc (unat i) < unat (tp_count p) \<Longrightarrow> tp_store p (snd (last (entries p))) = Some x"
  shows "\<exists>p'. timer_pool_swap_and_pop p i = Inr p' \<and> pool_ok p' \<and> tp_count p' = tp_count p - 1 \<and>
    entries p' = butlast ((entries p)[unat i := last (entries p)]) \<and>
    tp_store p' = (if Suc (unat i) < unat (tp_count p)
      then (tp_store p)(snd (last (entries p)) \<mapsto> x\<lparr>tm_poolIndex := i\<rparr>) else tp_store p) \<and>
    tp_triggered p' = tp_triggered p"
proof -
  let ?b = "tp_count p - 1"
  have b: "unat ?b = unat (tp_count p) - 1" using i by (intro unat_pred) simp
  have ne: "entries p \<noteq> []" using i by (metis length_entries list.size(3) not_less_zero)
  then have la: "last (entries p) = entries p ! unat ?b" using b by (subst last_conv_nth) auto
  have lens: "length (tp_triggerTimes p) = unat (tp_capacity p)" "length (tp_timerObjects p) = unat (tp_capacity p)"
    "unat (tp_count p) \<le> unat (tp_capacity p)" using ok by (auto simp: pool_ok_def)
  have bl: "unat ?b < unat (tp_count p)" using i b by simp
  note rb = pool_reads [OF ok bl]
  have same: "?b = i \<longleftrightarrow> Suc (unat i) = unat (tp_count p)" using b i by (auto simp: word_unat_eq_iff)
  show ?thesis
  proof (cases "?b = i")
    case True
    then have "Suc (unat i) = unat (tp_count p)" using same by simp
    moreover have "entries (p\<lparr>tp_count := ?b\<rparr>) = butlast ((entries p)[unat i := last (entries p)])"
      using True la b i by (intro nth_equalityI) (auto simp: entries_def nth_butlast nth_list_update)
    ultimately show ?thesis using True ok b
      by (auto simp: timer_pool_swap_and_pop_def pool_ok_def)
  next
    case False
    then have lt: "Suc (unat i) < unat (tp_count p)" using same i by auto
    let ?e = "last (entries p)"
    let ?p = "p\<lparr>tp_count := ?b, tp_triggerTimes := (tp_triggerTimes p)[unat i := Some (fst ?e)],
      tp_timerObjects := (tp_timerObjects p)[unat i := Some (snd ?e)],
      tp_store := (tp_store p)(snd ?e \<mapsto> x\<lparr>tm_poolIndex := i\<rparr>)\<rparr>"
    have il: "unat i < length (tp_triggerTimes p)" "unat i < length (tp_timerObjects p)" using i lens by auto
    have run: "timer_pool_swap_and_pop p i = Inr ?p"
      using False rb alloc [OF lt] il la
      by (simp add: timer_pool_swap_and_pop_def Let_def set_object_def set_time_def pool_write_def deref_timer_def put_timer_def)
    have en: "entries ?p = butlast ((entries p)[unat i := ?e])"
      using b il i by (intro nth_equalityI) (auto simp: entries_def nth_butlast nth_list_update)
    have "pool_ok ?p" using ok b lt il i by (auto simp: pool_ok_def nth_list_update)
    then show ?thesis using run en lt by (intro exI [of _ ?p]) simp
  qed
qed

section \<open>The scan\<close>

lemma mset_drop_swap_pop:
  assumes "i < length xs"
  shows "mset (drop i (butlast (xs[i := last xs]))) = mset (drop (Suc i) xs)"
proof (cases "Suc i = length xs")
  case True
  then show ?thesis by (simp add: butlast_conv_take)
next
  case False
  then have ne: "drop (Suc i) xs \<noteq> []" using assms by simp
  have l: "last xs = last (drop (Suc i) xs)" using ne by (simp add: last_drop)
  have "drop i (butlast (xs[i := last xs])) = butlast (last xs # drop (Suc i) xs)"
    using assms False by (simp add: drop_butlast drop_update_cancel Cons_nth_drop_Suc [symmetric])
  also have "\<dots> = last xs # butlast (drop (Suc i) xs)" using ne by simp
  finally have "mset (drop i (butlast (xs[i := last xs]))) = mset (butlast (drop (Suc i) xs) @ [last (drop (Suc i) xs)])"
    using l by simp
  then show ?thesis unfolding append_butlast_last_id [OF ne] .
qed

definition due :: "u64 \<Rightarrow> u64 \<times> nat \<Rightarrow> bool" where
  "due curTime e \<longleftrightarrow> fst e AND mask 63 \<le> curTime"

definition period :: "timer_pool \<Rightarrow> nat \<Rightarrow> u64 option" where
  "period p t = map_option (\<lambda>x. ucast (tm_periodMilliseconds x)) (tp_store p t)"

lemma indexedD:
  "indexed p \<Longrightarrow> i < unat (tp_count p) \<Longrightarrow> live (entries p ! i) \<Longrightarrow>
   \<exists>x. tp_store p (snd (entries p ! i)) = Some x \<and> tm_poolIndex x = of_nat i"
  by (simp add: indexed_def)

lemma live_inj:
  assumes "indexed p" "i < unat (tp_count p)" "j < unat (tp_count p)" "live (entries p ! i)" "live (entries p ! j)"
    "snd (entries p ! i) = snd (entries p ! j)"
  shows "i = j"
proof -
  have "(of_nat i :: u32) = of_nat j"
    using indexedD [OF assms(1,2,4)] indexedD [OF assms(1,3,5)] assms(6) by auto
  moreover have "i < 4294967296" "j < 4294967296" using assms(2,3) unat_lt_u32 [of "tp_count p"] by linarith+
  then have "unat (of_nat i :: u32) = i" "unat (of_nat j :: u32) = j" by (simp_all add: unat_of_nat_u32)
  ultimately show ?thesis by metis
qed

text \<open>Removing a dead entry keeps the running timers indexed.\<close>

lemma swap_and_pop_indexed:
  assumes ok: "pool_ok p" and ix: "indexed p" and ds: "dead_stopped p"
    and i: "unat i < unat (tp_count p)" and dead: "\<not> live (entries p ! unat i)"
  shows "\<exists>p'. timer_pool_swap_and_pop p i = Inr p' \<and> pool_ok p' \<and> indexed p' \<and> dead_stopped p' \<and>
    tp_count p' = tp_count p - 1 \<and> entries p' = butlast ((entries p)[unat i := last (entries p)]) \<and>
    tp_triggered p' = tp_triggered p \<and> (\<forall>t. period p' t = period p t)"
proof -
  let ?n = "unat (tp_count p)" and ?e = "last (entries p)"
  have ne: "entries p \<noteq> []" using i by (metis length_entries list.size(3) not_less_zero)
  then have la: "?e = entries p ! (?n - 1)" by (simp add: last_conv_nth)
  have ein: "?e \<in> set (entries p)" using ne by simp
  have "\<exists>x. tp_store p (snd ?e) = Some x"
  proof (cases "live ?e")
    case True
    then show ?thesis using ix ne la unfolding indexed_def by (metis diff_less length_entries length_greater_0_conv zero_less_one)
  next
    case False
    then show ?thesis using ds ein unfolding dead_stopped_def by auto
  qed
  then obtain x where x: "tp_store p (snd ?e) = Some x" by blast
  from swap_and_pop_spec [OF ok i, of x] x obtain p' where p': "timer_pool_swap_and_pop p i = Inr p'" "pool_ok p'"
    "tp_count p' = tp_count p - 1" "entries p' = butlast ((entries p)[unat i := ?e])"
    "tp_store p' = (if Suc (unat i) < ?n then (tp_store p)(snd ?e \<mapsto> x\<lparr>tm_poolIndex := i\<rparr>) else tp_store p)"
    "tp_triggered p' = tp_triggered p" by blast
  have n': "unat (tp_count p') = ?n - 1" using p'(3) i by (simp add: unat_pred)
  have nth': "entries p' ! j = (if j = unat i then ?e else entries p ! j)" if "j < ?n - 1" for j
    using that i unfolding p'(4) by (simp add: nth_butlast nth_list_update)
  have sub: "set (entries p') \<subseteq> set (entries p)"
    using set_update_subset_insert [of "entries p" "unat i" ?e] ein unfolding p'(4)
    by (auto dest: in_set_butlastD)
  have "indexed p'"
    unfolding indexed_def
  proof (intro allI impI)
    fix j assume j: "j < length (entries p')" and lv: "live (entries p' ! j)"
    then have j1: "j < ?n - 1" using n' by simp
    show "\<exists>x. tp_store p' (snd (entries p' ! j)) = Some x \<and> tm_poolIndex x = of_nat j"
    proof (cases "j = unat i")
      case True
      then show ?thesis using nth' [OF j1] p'(5) j1 by (auto simp: n')
    next
      case False
      then have lj: "live (entries p ! j)" "entries p' ! j = entries p ! j" using lv nth' [OF j1] by auto
      have "j < ?n" using j1 by simp
      from indexedD [OF ix this lj(1)]
      obtain y where y: "tp_store p (snd (entries p ! j)) = Some y" "tm_poolIndex y = of_nat j" by blast
      have "snd (entries p ! j) \<noteq> snd ?e"
      proof (cases "live ?e")
        case True
        have "j = ?n - 1" if "snd (entries p ! j) = snd (entries p ! (?n - 1))"
          using live_inj [OF ix _ _ lj(1) _ that] True j1 la by simp
        then show ?thesis using j1 la by fastforce
      next
        case False
        have "entries p ! j \<in> set (entries p)" using j1 by simp
        then have "snd (entries p ! j) \<in> snd ` {e \<in> set (entries p). live e}" using lj(1) by blast
        moreover have "snd ?e \<notin> snd ` {e \<in> set (entries p). live e}"
          using ds ein False unfolding dead_stopped_def by blast
        ultimately show ?thesis by metis
      qed
      then show ?thesis using y lj(2) p'(5) by auto
    qed
  qed
  moreover have "dead_stopped p'"
  proof -
    have img: "snd ` {e \<in> set (entries p'). live e} \<subseteq> snd ` {e \<in> set (entries p). live e}"
      using sub by blast
    have "tp_store p' (snd e) \<noteq> None \<and> snd e \<notin> snd ` {e \<in> set (entries p'). live e}"
      if "e \<in> set (entries p')" "\<not> live e" for e
    proof -
      have "tp_store p (snd e) \<noteq> None" "snd e \<notin> snd ` {e \<in> set (entries p). live e}"
        using ds that sub unfolding dead_stopped_def by blast+
      then have "snd e \<notin> snd ` {e \<in> set (entries p'). live e}" "tp_store p' (snd e) \<noteq> None"
        using img p'(5) by (blast, simp)
      then show ?thesis by blast
    qed
    then show ?thesis unfolding dead_stopped_def by blast
  qed
  moreover have "\<forall>t. period p' t = period p t" using p'(5) x by (auto simp: period_def)
  ultimately show ?thesis using p' by blast
qed

text \<open>What is left after the scan, and which indices it collects.\<close>

lemma pool_scan_spec:
  assumes "pool_ok p" "indexed p" "dead_stopped p" "vec_ok 4 v" "ample h"
    "8 * (length (vec_items v) + k) < 2 ^ 32" "unat i + k = unat (tp_count p)"
  shows "\<exists>p' v'. pool_scan k h curTime i v p = Inr (v', p') \<and> pool_ok p' \<and> indexed p' \<and> vec_ok 4 v' \<and>
    tp_triggered p' = tp_triggered p \<and> take (unat i) (entries p') = take (unat i) (entries p) \<and>
    unat i \<le> unat (tp_count p') \<and> (\<forall>t. period p' t = period p t) \<and>
    mset (drop (unat i) (entries p')) = filter_mset live (mset (drop (unat i) (entries p))) \<and>
    vec_items v' = vec_items v @ map of_nat (filter (\<lambda>j. due curTime (entries p' ! j)) [unat i..<unat (tp_count p')])"
  using assms
proof (induction k arbitrary: i v p)
  case 0
  then show ?case by auto
next
  case (Suc k)
  let ?n = "unat (tp_count p)" and ?es = "entries p"
  have i: "unat i < ?n" using Suc.prems by simp
  note rd = pool_reads [OF Suc.prems(1) i, THEN conjunct1]
  have hd: "drop (unat i) ?es = ?es ! unat i # drop (Suc (unat i)) ?es" using i by (simp add: Cons_nth_drop_Suc)
  show ?case
  proof (cases "is_dead (fst (?es ! unat i))")
    case True
    obtain p1 where p1: "timer_pool_swap_and_pop p i = Inr p1" "pool_ok p1" "indexed p1" "dead_stopped p1"
      "tp_count p1 = tp_count p - 1" "entries p1 = butlast (?es[unat i := last ?es])" "tp_triggered p1 = tp_triggered p"
      "\<forall>t. period p1 t = period p t"
      using swap_and_pop_indexed [OF Suc.prems(1-3) i] True by (auto simp: live_def)
    have n1: "unat (tp_count p1) = ?n - 1" using p1(5) i by (simp add: unat_pred)
    have "unat i + k = unat (tp_count p1)" using n1 Suc.prems(7) by simp
    from Suc.IH [OF p1(2-4) Suc.prems(4,5) _ this] Suc.prems(6)
    obtain p' v' where p': "pool_scan k h curTime i v p1 = Inr (v', p')" "pool_ok p'" "indexed p'" "vec_ok 4 v'"
      "tp_triggered p' = tp_triggered p1" "take (unat i) (entries p') = take (unat i) (entries p1)"
      "unat i \<le> unat (tp_count p')" "\<forall>t. period p' t = period p1 t"
      "mset (drop (unat i) (entries p')) = filter_mset live (mset (drop (unat i) (entries p1)))"
      "vec_items v' = vec_items v @ map of_nat (filter (\<lambda>j. due curTime (entries p' ! j)) [unat i..<unat (tp_count p')])"
      by auto
    have tk: "take (unat i) (entries p1) = take (unat i) ?es"
      unfolding p1(6) using i by (simp add: take_butlast)
    have "mset (drop (unat i) (entries p1)) = mset (drop (Suc (unat i)) ?es)"
      unfolding p1(6) using i by (intro mset_drop_swap_pop) simp
    then have "mset (drop (unat i) (entries p')) = filter_mset live (mset (drop (unat i) ?es))"
      using p'(9) hd True by (simp add: live_def)
    then show ?thesis using p' p1(1,7,8) rd True tk by auto
  next
    case False
    let ?due = "fst (?es ! unat i) AND mask 63 \<le> curTime"
    have "\<exists>v1. (if ?due then vec_push h 4 v i else Inr v) = Inr v1 \<and> vec_ok 4 v1 \<and>
        vec_items v1 = vec_items v @ (if ?due then [i] else [])"
      using vec_push_ample [OF Suc.prems(4,5), of i] Suc.prems(4,6) by auto
    then obtain v1 where v1: "(if ?due then vec_push h 4 v i else Inr v) = Inr v1" "vec_ok 4 v1"
      "vec_items v1 = vec_items v @ (if ?due then [i] else [])" by blast
    have ui: "unat (i + 1) = Suc (unat i)" using i unat_lt_u32 [of "tp_count p"] by (intro unat_Suc_u32) linarith
    have "8 * (length (vec_items v1) + k) < 2 ^ 32" using v1(3) Suc.prems(6) by auto
    from Suc.IH [OF Suc.prems(1-3) v1(2) Suc.prems(5) this, of "i + 1"] Suc.prems(7) ui
    obtain p' v' where p': "pool_scan k h curTime (i + 1) v1 p = Inr (v', p')" "pool_ok p'" "indexed p'" "vec_ok 4 v'"
      "tp_triggered p' = tp_triggered p" "take (Suc (unat i)) (entries p') = take (Suc (unat i)) ?es"
      "Suc (unat i) \<le> unat (tp_count p')" "\<forall>t. period p' t = period p t"
      "mset (drop (Suc (unat i)) (entries p')) = filter_mset live (mset (drop (Suc (unat i)) ?es))"
      "vec_items v' = vec_items v1 @ map of_nat (filter (\<lambda>j. due curTime (entries p' ! j)) [Suc (unat i)..<unat (tp_count p')])"
      by auto
    have same: "entries p' ! unat i = ?es ! unat i" using p'(6) by (metis lessI nth_take)
    have tk: "take (unat i) (entries p') = take (unat i) ?es"
      using arg_cong [OF p'(6), of "take (unat i)"] by (simp add: min_def)
    have hd': "drop (unat i) (entries p') = ?es ! unat i # drop (Suc (unat i)) (entries p')"
      using p'(7) same by (simp add: Cons_nth_drop_Suc [symmetric])
    have up: "[unat i..<unat (tp_count p')] = unat i # [Suc (unat i)..<unat (tp_count p')]"
      using p'(7) by (simp add: upt_conv_Cons)
    have "vec_items v' = vec_items v @ map of_nat (filter (\<lambda>j. due curTime (entries p' ! j)) [unat i..<unat (tp_count p')])"
      using p'(10) v1(3) up same by (auto simp: due_def)
    moreover have "mset (drop (unat i) (entries p')) = filter_mset live (mset (drop (unat i) ?es))"
      using p'(9) hd hd' False by (simp add: live_def)
    moreover have "pool_scan (Suc k) h curTime i v p = Inr (v', p')" using rd False v1(1) p'(1) by simp
    ultimately show ?thesis using p' tk by (metis Suc_leD)
  qed
qed

section \<open>A cycle\<close>

definition advance_entry :: "timer_pool \<Rightarrow> u64 \<times> nat \<Rightarrow> u64 \<times> nat" where
  "advance_entry p e = (fst e + the (period p (snd e)), snd e)"

text \<open>Callbacks that leave the timers alone.\<close>

definition quiet :: "callbacks \<Rightarrow> bool" where
  "quiet cb \<longleftrightarrow> (\<forall>f t p. cb f t p = Inr p)"

lemma trigger_spec:
  assumes ok: "pool_ok p" and i: "unat i < unat (tp_count p)" and al: "tp_store p (snd (entries p ! unat i)) \<noteq> None"
    and q: "quiet cb"
  shows "\<exists>p'. timer_pool_trigger cb p i = Inr p' \<and> pool_ok p' \<and> tp_count p' = tp_count p \<and> tp_store p' = tp_store p \<and>
    tp_triggered p' = tp_triggered p \<and>
    entries p' = (entries p)[unat i := advance_entry p (entries p ! unat i)]"
proof -
  let ?e = "entries p ! unat i"
  obtain x where x: "tp_store p (snd ?e) = Some x" using al by blast
  let ?p = "p\<lparr>tp_triggerTimes := (tp_triggerTimes p)[unat i := Some (fst ?e + ucast (tm_periodMilliseconds x))]\<rparr>"
  have il: "unat i < length (tp_triggerTimes p)" using ok i by (simp add: pool_ok_def)
  have run: "timer_pool_trigger cb p i = Inr ?p"
    using pool_reads [OF ok i] x il q
    by (simp add: timer_pool_trigger_def deref_timer_def set_time_def pool_write_def timer_execute_callback_def quiet_def
        split: option.split)
  have "entries ?p = (entries p)[unat i := advance_entry p ?e]"
    using i il x by (intro nth_equalityI) (auto simp: entries_def nth_list_update advance_entry_def period_def)
  moreover have "pool_ok ?p" using ok il by (auto simp: pool_ok_def nth_list_update)
  ultimately show ?thesis using run by (intro exI [of _ ?p]) simp
qed

lemma trigger_all_spec:
  assumes "pool_ok p" "quiet cb" "distinct is" "\<forall>i \<in> set is. unat i < unat (tp_count p) \<and>
    tp_store p (snd (entries p ! unat i)) \<noteq> None"
  shows "\<exists>p'. trigger_all cb is p = Inr p' \<and> pool_ok p' \<and> tp_count p' = tp_count p \<and> tp_store p' = tp_store p \<and>
    tp_triggered p' = tp_triggered p \<and>
    (\<forall>j < unat (tp_count p). entries p' ! j = (if j \<in> unat ` set is then advance_entry p (entries p ! j) else entries p ! j))"
  using assms
proof (induction "is" arbitrary: p)
  case (Cons i "is")
  obtain p1 where p1: "timer_pool_trigger cb p i = Inr p1" "pool_ok p1" "tp_count p1 = tp_count p" "tp_store p1 = tp_store p"
    "tp_triggered p1 = tp_triggered p" "entries p1 = (entries p)[unat i := advance_entry p (entries p ! unat i)]"
    using trigger_spec [OF Cons.prems(1) _ _ Cons.prems(2), of i] Cons.prems(4) by auto
  have n1: "entries p1 ! j = (if j = unat i then advance_entry p (entries p ! j) else entries p ! j)"
    if "j < unat (tp_count p)" for j using that by (simp add: p1(6) nth_list_update)
  have ae: "advance_entry p1 e = advance_entry p e" for e using p1(4) by (simp add: advance_entry_def period_def)
  have dist: "distinct is" "i \<notin> set is" using Cons.prems(3) by auto
  have "\<forall>i \<in> set is. unat i < unat (tp_count p1) \<and> tp_store p1 (snd (entries p1 ! unat i)) \<noteq> None"
    using Cons.prems(4) n1 p1(3,4) by (auto simp: advance_entry_def)
  from Cons.IH [OF p1(2) Cons.prems(2) dist(1) this] obtain p' where
    p': "trigger_all cb is p1 = Inr p'" "pool_ok p'" "tp_count p' = tp_count p1" "tp_store p' = tp_store p1"
    "tp_triggered p' = tp_triggered p1"
    "\<forall>j < unat (tp_count p1). entries p' ! j = (if j \<in> unat ` set is then advance_entry p1 (entries p1 ! j) else entries p1 ! j)"
    by blast
  have notin: "unat i \<notin> unat ` set is" using dist(2) by (auto simp: word_unat_eq_iff [symmetric])
  have "entries p' ! j = (if j \<in> unat ` set (i # is) then advance_entry p (entries p ! j) else entries p ! j)"
    if j: "j < unat (tp_count p)" for j
    using p'(6) p1(3) n1 [OF j] j notin ae by (cases "j = unat i") auto
  then show ?case using p1 p' by auto
qed auto

lemma pool_cycle_spec:
  assumes ok: "pool_ok p" and ix: "indexed p" and ds: "dead_stopped p" and v: "tp_triggered p = Some v" "vec_items v = []"
    "vec_ok 4 v" and am: "ample h" and n: "8 * unat (tp_count p) < 2 ^ 32" and q: "quiet cb"
  shows "\<exists>p'. timer_pool_execute_callbacks h clk cb p = Inr p' \<and> pool_ok p' \<and> indexed p' \<and>
    mset (entries p') = image_mset (\<lambda>e. if due (clk (tp_reads p)) e then advance_entry p e else e)
                          (filter_mset live (mset (entries p)))"
proof -
  define cur where "cur = clk (tp_reads p)"
  let ?p = "p\<lparr>tp_reads := Suc (tp_reads p)\<rparr>"
  have e0: "entries ?p = entries p" by (simp add: entries_def)
  have per0: "period ?p = period p" by (simp add: period_def fun_eq_iff)
  have "pool_ok ?p" "indexed ?p" "dead_stopped ?p" using ok ix ds by (simp_all add: pool_ok_def indexed_def dead_stopped_def e0)
  from pool_scan_spec [OF this v(3) am, where k = "unat (tp_count p)" and i = 0 and curTime = cur] n
  obtain p1 v1 where p1: "pool_scan (unat (tp_count p)) h cur 0 v ?p = Inr (v1, p1)" "pool_ok p1" "indexed p1"
    "tp_triggered p1 = Some v" "\<forall>t. period p1 t = period p t"
    "mset (entries p1) = filter_mset live (mset (entries p))"
    "vec_items v1 = map of_nat (filter (\<lambda>j. due cur (entries p1 ! j)) [0..<unat (tp_count p1)])" "vec_ok 4 v1"
    using v e0 per0 by auto
  define p2 where "p2 = p1\<lparr>tp_triggered := Some v1\<rparr>"
  have e2: "entries p2 = entries p1" by (simp add: p2_def entries_def)
  have lv: "live e" if "e \<in> set (entries p1)" for e
  proof -
    have "e \<in># filter_mset live (mset (entries p))" using that p1(6) by (metis set_mset_mset)
    then show ?thesis by simp
  qed
  let ?js = "filter (\<lambda>j. due cur (entries p1 ! j)) [0..<unat (tp_count p1)]"
  have small: "j < 4294967296" if "j \<in> set ?js" for j
    using that unat_lt_u32 [of "tp_count p1"] by (auto intro: less_trans)
  have un: "unat (of_nat j :: u32) = j" if "j \<in> set ?js" for j
    using small [OF that] by (simp add: unat_of_nat_u32)
  have dist: "distinct (vec_items v1)"
    unfolding p1(7) distinct_map using inj_on_inverseI [of "set ?js" unat "of_nat :: nat \<Rightarrow> u32", OF un] by simp
  have st: "\<forall>i \<in> set (vec_items v1). unat i < unat (tp_count p2) \<and> tp_store p2 (snd (entries p2 ! unat i)) \<noteq> None"
  proof
    fix i assume "i \<in> set (vec_items v1)"
    then obtain j where j: "j \<in> set ?js" "i = of_nat j" by (auto simp: p1(7))
    then have "j < unat (tp_count p1)" "unat i = j" using un by auto
    moreover from this have "live (entries p1 ! j)" using lv by simp
    ultimately show "unat i < unat (tp_count p2) \<and> tp_store p2 (snd (entries p2 ! unat i)) \<noteq> None"
      using indexedD [OF p1(3), of j] e2 by (auto simp: p2_def)
  qed
  have ok2: "pool_ok p2" using p1(2) by (simp add: p2_def pool_ok_def)
  from trigger_all_spec [OF ok2 q dist st] obtain p3 where p3: "trigger_all cb (vec_items v1) p2 = Inr p3" "pool_ok p3"
    "tp_count p3 = tp_count p2" "tp_store p3 = tp_store p2"
    "\<forall>j < unat (tp_count p2). entries p3 ! j = (if j \<in> unat ` set (vec_items v1) then advance_entry p2 (entries p2 ! j) else entries p2 ! j)"
    by blast
  have mem: "j \<in> unat ` set (vec_items v1) \<longleftrightarrow> due cur (entries p1 ! j)" if "j < unat (tp_count p1)" for j
  proof -
    have "unat ` set (vec_items v1) = set ?js" unfolding p1(7) using un by (force simp: image_image)
    then show ?thesis using that by simp
  qed
  have ae: "advance_entry p2 e = advance_entry p e" for e using p1(5) by (simp add: advance_entry_def p2_def period_def)
  have en3: "entries p3 = map (\<lambda>e. if due cur e then advance_entry p e else e) (entries p1)"
    using p3(3,5) mem ae e2 by (intro nth_equalityI) (auto simp: p2_def)
  have fin: "indexed p'" if "entries p' = entries p3" "tp_store p' = tp_store p3" "tp_count p' = tp_count p3" for p' :: timer_pool
    unfolding indexed_def
  proof (intro allI impI)
    fix j assume "j < length (entries p')" "live (entries p' ! j)"
    then have j: "j < unat (tp_count p1)" using that(3) p3(3) by (simp add: p2_def)
    then have "snd (entries p' ! j) = snd (entries p1 ! j)" using that(1) en3 by (simp add: advance_entry_def)
    moreover have "live (entries p1 ! j)" using lv j by simp
    ultimately show "\<exists>x. tp_store p' (snd (entries p' ! j)) = Some x \<and> tm_poolIndex x = of_nat j"
      using indexedD [OF p1(3) j] that(2) p3(4) by (simp add: p2_def)
  qed
  let ?r = "if vec_count v1 > 0 then p3\<lparr>tp_triggered := map_option (\<lambda>v. v\<lparr>vec_items := []\<rparr>) (tp_triggered p3)\<rparr> else p2"
  have emp: "p3 = p2" if "\<not> vec_count v1 > 0"
  proof -
    have "vec_items v1 = []" using that vec_count_unat [OF p1(8)] by (simp add: word_less_nat_alt)
    then show ?thesis using p3(1) by simp
  qed
  have run: "timer_pool_execute_callbacks h clk cb p = Inr ?r"
    using v(1) p1(1) p3(1) by (simp add: timer_pool_execute_callbacks_def pool_clock_def cur_def p2_def Let_def)
  have er: "entries ?r = entries p3" "tp_store ?r = tp_store p3" "tp_count ?r = tp_count p3" "pool_ok ?r"
    using emp p3(2) ok2 by (auto simp: entries_def pool_ok_def)
  then have "indexed ?r" by (intro fin)
  moreover have "mset (entries ?r) = image_mset (\<lambda>e. if due cur e then advance_entry p e else e) (filter_mset live (mset (entries p)))"
    unfolding er(1) en3 using p1(6) by simp
  ultimately show ?thesis using run er(4) unfolding cur_def by blast
qed

end
