(* ===== verification/Ipc_Buffer.thy ===== *)
theory Ipc_Buffer
  imports Vec
begin

text \<open>
  \<^verbatim>\<open>common/sync/ipc_buffer.c\<close>, \<^verbatim>\<open>eqp_semaphore.c\<close>,
  \<^verbatim>\<open>atomic_mutex.c\<close> and \<^verbatim>\<open>non_master/ipc_set.c\<close>: the rings in shared
  memory through which the processes talk. A ring has 512 blocks of 4096 bytes; four indices mark
  what writers have claimed and finished, and what readers have claimed and finished.

  The operations are modelled as the calls of one process at a time. \<open>ipc_ring\<close> is the
  invariant between calls, \<open>ipc_queue\<close> the packets a ring holds, and the locale
  \<open>bounded_queue\<close> states the contract the clients of a ring rely on.
\<close>

section \<open>State\<close>

datatype ServerOp =
    ServerOp_None
  | ServerOp_Shutdown
  | ServerOp_KeepAlive
  | ServerOp_LogOpen
  | ServerOp_LogClose
  | ServerOp_LogMessage
  | ServerOp_ConsoleCommand
  | ServerOp_ConsoleMessage
  | ServerOp_ConsoleFinish
  | ServerOp_ClientZoning
  | ServerOp_ClientZoningReject
  | ServerOp_ZoneAddress
  | ServerOp_StartZone
  | ServerOp_ItemSharedMemoryOpen
  | ServerOp_COUNT

record ipc_packet =
  ipp_opcode :: ServerOp
  ipp_sourceId :: int
  ipp_length :: u32
  ipp_data :: "bytes option"

record ipc_block =
  ib_nextIndex :: u32
  ib_hasBeenRead :: bool
  ib_hasBeenWritten :: bool
  ib_opcode :: ServerOp
  ib_sourceId :: int
  ib_length :: u32
  ib_data :: bytes

record ipc_buffer =
  ipc_blocks :: "ipc_block list"
  ipc_readStart :: u32
  ipc_readEnd :: u32
  ipc_writeStart :: u32
  ipc_writeEnd :: u32
  ipc_semaphore :: nat

definition EQP_IPC_PACKET_MAX_SIZE :: u32 where "EQP_IPC_PACKET_MAX_SIZE = 4096"
definition EQP_IPC_BUFFER_NUM_PACKETS :: u32 where "EQP_IPC_BUFFER_NUM_PACKETS = 512"

definition get_block :: "ipc_buffer \<Rightarrow> u32 \<Rightarrow> ipc_block result" where
  "get_block b i = (if unat i < length (ipc_blocks b) then Inr (ipc_blocks b ! unat i) else Inl UndefinedBehaviour)"

definition put_block :: "ipc_buffer \<Rightarrow> u32 \<Rightarrow> ipc_block \<Rightarrow> ipc_buffer" where
  "put_block b i x = b\<lparr>ipc_blocks := (ipc_blocks b)[unat i := x]\<rparr>"

section \<open>Semaphores and locks\<close>

text \<open>A semaphore as the number of posts not yet waited for; waiting for a post that has not come
  is \<open>None\<close>.\<close>

definition semaphore_init :: nat where "semaphore_init = 0"

definition semaphore_wait :: "nat \<Rightarrow> nat option" where
  "semaphore_wait sem = (if sem > 0 then Some (sem - 1) else None)"

definition semaphore_try_wait :: "nat \<Rightarrow> bool \<times> nat" where
  "semaphore_try_wait sem = (if sem > 0 then (True, sem - 1) else (False, sem))"

definition semaphore_trigger :: "nat \<Rightarrow> nat" where
  "semaphore_trigger sem = sem + 1"

text \<open>The lock as its flag.\<close>

definition atomic_mutex_init :: bool where "atomic_mutex_init = False"

definition atomic_mutex_try_lock :: "bool \<Rightarrow> bool \<times> bool" where
  "atomic_mutex_try_lock flag = (flag = False, True)"

definition atomic_mutex_unlock :: "bool \<Rightarrow> bool" where
  "atomic_mutex_unlock flag = False"

section \<open>Packets\<close>

definition ipc_packet_init :: "heap \<Rightarrow> ServerOp \<Rightarrow> int \<Rightarrow> u32 \<Rightarrow> bytes option \<Rightarrow> ipc_packet result" where
  "ipc_packet_init h opcode sourceId len vdata =
     (case vdata of
        Some d \<Rightarrow>
          if len \<noteq> 0
          then if can_alloc h (unat len)
               then bindE (mem_read d 0 (unat len)) (\<lambda>d.
                    Inr \<lparr>ipp_opcode = opcode, ipp_sourceId = sourceId, ipp_length = len, ipp_data = Some d\<rparr>)
               else Inl ErrorOutOfMemory
          else Inr \<lparr>ipp_opcode = opcode, ipp_sourceId = sourceId, ipp_length = len, ipp_data = None\<rparr>
      | None \<Rightarrow> Inr \<lparr>ipp_opcode = opcode, ipp_sourceId = sourceId, ipp_length = len, ipp_data = None\<rparr>)"

definition ipc_packet_deinit :: "ipc_packet \<Rightarrow> ipc_packet" where
  "ipc_packet_deinit p = p\<lparr>ipp_data := None\<rparr>"

section \<open>The ring\<close>

text \<open>The data of the blocks and their other fields are what the shared memory holds.\<close>

definition ipc_buffer_init :: "ipc_buffer \<Rightarrow> ipc_buffer" where
  "ipc_buffer_init b =
     (let n = EQP_IPC_BUFFER_NUM_PACKETS - 1 in
      b\<lparr>ipc_blocks := map (\<lambda>i. (ipc_blocks b ! i)\<lparr>ib_nextIndex := (if i = unat n then 0 else of_nat i + 1),
            ib_hasBeenRead := False, ib_hasBeenWritten := False\<rparr>) [0..<Suc (unat n)],
        ipc_readStart := 0, ipc_readEnd := 0, ipc_writeStart := 0, ipc_writeEnd := 0,
        ipc_semaphore := semaphore_init\<rparr>)"

text \<open>Advancing over the completed blocks. A round clears a flag, so as many rounds as there are
  blocks and one more are enough.\<close>

primrec advance_written :: "nat \<Rightarrow> ipc_buffer \<Rightarrow> ipc_buffer result" where
  "advance_written 0 b = Inl Diverges"
| "advance_written (Suc k) b =
     (let index = ipc_writeStart b in
      bindE (get_block b index) (\<lambda>block.
      if \<not> ib_hasBeenWritten block then Inr b
      else advance_written k
             ((put_block b index (block\<lparr>ib_hasBeenWritten := False\<rparr>))\<lparr>ipc_writeStart := ib_nextIndex block\<rparr>)))"

primrec advance_read :: "nat \<Rightarrow> ipc_buffer \<Rightarrow> ipc_buffer result" where
  "advance_read 0 b = Inl Diverges"
| "advance_read (Suc k) b =
     (let index = ipc_readStart b in
      bindE (get_block b index) (\<lambda>block.
      if \<not> ib_hasBeenRead block then Inr b
      else advance_read k
             ((put_block b index (block\<lparr>ib_hasBeenRead := False\<rparr>))\<lparr>ipc_readStart := ib_nextIndex block\<rparr>)))"

definition copy_data :: "bytes \<Rightarrow> u32 \<Rightarrow> bytes option \<Rightarrow> bytes result" where
  "copy_data old len data =
     (case data of
        Some d \<Rightarrow> if len \<noteq> 0 then bindE (mem_read d 0 (unat len)) (\<lambda>d. mem_write old 0 d) else Inr old
      | None \<Rightarrow> Inr old)"

definition ipc_buffer_do_write ::
  "ipc_buffer \<Rightarrow> u32 \<Rightarrow> ServerOp \<Rightarrow> int \<Rightarrow> u32 \<Rightarrow> bytes option \<Rightarrow> ipc_buffer result" where
  "ipc_buffer_do_write b index opcode sourceId len data =
     (let len = (if len > EQP_IPC_PACKET_MAX_SIZE then EQP_IPC_PACKET_MAX_SIZE else len) in
      bindE (get_block b index) (\<lambda>block.
      let block = block\<lparr>ib_opcode := opcode, ib_sourceId := sourceId, ib_length := len\<rparr> in
      bindE (copy_data (ib_data block) len data) (\<lambda>bytes.
      let b = put_block b index (block\<lparr>ib_data := bytes, ib_hasBeenWritten := True\<rparr>) in
      bindE (advance_written (Suc (length (ipc_blocks b))) b) (\<lambda>b.
      Inr (b\<lparr>ipc_semaphore := semaphore_trigger (ipc_semaphore b)\<rparr>)))))"

text \<open>The writing loop: \<open>clk\<close> gives the successive reads of the clock after the one that
  took \<open>timestamp\<close>. It gives up on a full ring after ten milliseconds. The weak
  compare-and-exchange of the code may fail without cause, and then the round is repeated.\<close>

primrec ipc_write_loop ::
  "nat \<Rightarrow> (nat \<Rightarrow> u64) \<Rightarrow> u64 \<Rightarrow> ipc_buffer \<Rightarrow> ServerOp \<Rightarrow> int \<Rightarrow> u32 \<Rightarrow> bytes option \<Rightarrow> (bool \<times> ipc_buffer) result" where
  "ipc_write_loop 0 clk timestamp b opcode sourceId len data = Inl Diverges"
| "ipc_write_loop (Suc k) clk timestamp b opcode sourceId len data =
     (let index = ipc_writeEnd b in
      bindE (get_block b index) (\<lambda>block.
      if ib_nextIndex block = ipc_readStart b
      then if clk 0 - timestamp \<ge> 10 then Inr (False, b)
           else ipc_write_loop k (\<lambda>i. clk (Suc i)) timestamp b opcode sourceId len data
      else bindE (ipc_buffer_do_write (b\<lparr>ipc_writeEnd := ib_nextIndex block\<rparr>) index opcode sourceId len data) (\<lambda>b.
           Inr (True, b))))"

definition ipc_buffer_write ::
  "nat \<Rightarrow> (nat \<Rightarrow> u64) \<Rightarrow> ipc_buffer \<Rightarrow> ServerOp \<Rightarrow> int \<Rightarrow> u32 \<Rightarrow> bytes option \<Rightarrow> (bool \<times> ipc_buffer) result" where
  "ipc_buffer_write fuel clk b opcode sourceId len data =
     ipc_write_loop fuel (\<lambda>i. clk (Suc i)) (clk 0) b opcode sourceId len data"

definition ipc_buffer_do_read :: "heap \<Rightarrow> ipc_buffer \<Rightarrow> u32 \<Rightarrow> (ipc_packet \<times> ipc_buffer) result" where
  "ipc_buffer_do_read h b index =
     bindE (get_block b index) (\<lambda>block.
     bindE (ipc_packet_init h (ib_opcode block) (ib_sourceId block) (ib_length block) (Some (ib_data block))) (\<lambda>packet.
     let b = put_block b index (block\<lparr>ib_hasBeenRead := True\<rparr>) in
     bindE (advance_read (Suc (length (ipc_blocks b))) b) (\<lambda>b. Inr (packet, b))))"

definition ipc_buffer_read :: "heap \<Rightarrow> ipc_buffer \<Rightarrow> (ipc_packet option \<times> ipc_buffer) result" where
  "ipc_buffer_read h b =
     (let index = ipc_readEnd b in
      bindE (get_block b index) (\<lambda>block.
      if index = ipc_writeStart b then Inr (None, b)
      else bindE (ipc_buffer_do_read h (b\<lparr>ipc_readEnd := ib_nextIndex block\<rparr>) index) (\<lambda>(packet, b).
           Inr (Some packet, b))))"

section \<open>The set of rings of a process\<close>

record ipc_set =
  is_ipc :: ipc_buffer
  is_ipcMaster :: ipc_buffer
  is_logWriter :: ipc_buffer
  is_keepAliveTimestamp :: u64

definition EQP_IPC_KEEP_ALIVE_DELAY_MILLISECONDS :: u64 where "EQP_IPC_KEEP_ALIVE_DELAY_MILLISECONDS = 5000"

text \<open>\<open>handle\<close> is \<^verbatim>\<open>ipc_set_handle_packet\<close>, which every executable defines
  for itself, over a state of its own.\<close>

primrec ipc_receive_loop ::
  "nat \<Rightarrow> heap \<Rightarrow> (ipc_packet \<Rightarrow> 's \<Rightarrow> 's result) \<Rightarrow> ipc_buffer \<Rightarrow> 's \<Rightarrow> (bool \<times> ipc_buffer \<times> 's) result" where
  "ipc_receive_loop 0 h handle b s = Inl Diverges"
| "ipc_receive_loop (Suc k) h handle b s =
     bindE (ipc_buffer_read h b) (\<lambda>(packet, b).
     case packet of
       None \<Rightarrow> Inr (False, b, s)
     | Some p \<Rightarrow>
         if ipp_opcode p = ServerOp_Shutdown then Inr (True, b, s)
         else bindE (handle p s) (\<lambda>s. ipc_receive_loop k h handle b s))"

definition ipc_set_receive ::
  "heap \<Rightarrow> (ipc_packet \<Rightarrow> 's \<Rightarrow> 's result) \<Rightarrow> ipc_set \<Rightarrow> 's \<Rightarrow> (bool \<times> ipc_set \<times> 's) result" where
  "ipc_set_receive h handle ips s =
     (let b = is_ipc ips; (ok, sem) = semaphore_try_wait (ipc_semaphore b); b = b\<lparr>ipc_semaphore := sem\<rparr> in
      if ok
      then bindE (ipc_receive_loop (Suc (length (ipc_blocks b))) h handle b s) (\<lambda>(stop, b, s).
           Inr (stop, ips\<lparr>is_ipc := b\<rparr>, s))
      else Inr (False, ips\<lparr>is_ipc := b\<rparr>, s))"

definition ipc_set_send ::
  "nat \<Rightarrow> (nat \<Rightarrow> u64) \<Rightarrow> ipc_set \<Rightarrow> ServerOp \<Rightarrow> int \<Rightarrow> u32 \<Rightarrow> bytes option \<Rightarrow> (bool \<times> ipc_set) result" where
  "ipc_set_send fuel clk ips opcode sourceId len data =
     bindE (ipc_buffer_write fuel clk (is_ipcMaster ips) opcode sourceId len data) (\<lambda>(ok, b).
     Inr (ok, ips\<lparr>is_ipcMaster := b\<rparr>))"

definition ipc_set_keep_alive :: "nat \<Rightarrow> (nat \<Rightarrow> u64) \<Rightarrow> ipc_set \<Rightarrow> int \<Rightarrow> ipc_set result" where
  "ipc_set_keep_alive fuel clk ips sourceId =
     (let curTime = clk 0 in
      if curTime - is_keepAliveTimestamp ips \<ge> EQP_IPC_KEEP_ALIVE_DELAY_MILLISECONDS
      then bindE (ipc_set_send fuel (\<lambda>i. clk (Suc i)) ips ServerOp_KeepAlive sourceId 0 None) (\<lambda>(ok, ips).
           Inr (ips\<lparr>is_keepAliveTimestamp := curTime\<rparr>))
      else Inr ips)"

definition ipc_set_log_file_control :: "nat \<Rightarrow> (nat \<Rightarrow> u64) \<Rightarrow> ipc_set \<Rightarrow> int \<Rightarrow> bool \<Rightarrow> ipc_set result" where
  "ipc_set_log_file_control fuel clk ips sourceId open' =
     bindE (ipc_buffer_write fuel clk (is_logWriter ips) (if open' then ServerOp_LogOpen else ServerOp_LogClose) sourceId 0 None)
       (\<lambda>(ok, b). Inr (ips\<lparr>is_logWriter := b\<rparr>))"

section \<open>The contract\<close>

locale bounded_queue =
  fixes inv :: "'b \<Rightarrow> bool" and contents :: "'b \<Rightarrow> 'm list" and cap :: nat and fits :: "'m \<Rightarrow> bool"
    and send :: "'b \<Rightarrow> 'm \<Rightarrow> (bool \<times> 'b) result" and recv :: "'b \<Rightarrow> ('m option \<times> 'b) result"
  assumes send_room: "inv b \<Longrightarrow> length (contents b) < cap \<Longrightarrow> fits m \<Longrightarrow>
      \<exists>b'. send b m = Inr (True, b') \<and> inv b' \<and> contents b' = contents b @ [m]"
    and recv_next: "inv b \<Longrightarrow> contents b = m # ms \<Longrightarrow> \<exists>b'. recv b = Inr (Some m, b') \<and> inv b' \<and> contents b' = ms"
    and recv_empty: "inv b \<Longrightarrow> contents b = [] \<Longrightarrow> recv b = Inr (None, b)"
    and bounded: "inv b \<Longrightarrow> length (contents b) \<le> cap"
begin

primrec send_all :: "'m list \<Rightarrow> 'b \<Rightarrow> 'b result" where
  "send_all [] b = Inr b"
| "send_all (m # ms) b = bindE (send b m) (\<lambda>(ok, b). send_all ms b)"

primrec drain :: "nat \<Rightarrow> 'b \<Rightarrow> ('m list \<times> 'b) result" where
  "drain 0 b = Inl Diverges"
| "drain (Suc k) b = bindE (recv b) (\<lambda>(m, b). case m of None \<Rightarrow> Inr ([], b)
     | Some m \<Rightarrow> bindE (drain k b) (\<lambda>(ms, b). Inr (m # ms, b)))"

text \<open>What was sent arrives in order.\<close>

lemma send_all_contents:
  "inv b \<Longrightarrow> \<forall>m \<in> set ms. fits m \<Longrightarrow> length (contents b) + length ms \<le> cap \<Longrightarrow>
   \<exists>b'. send_all ms b = Inr b' \<and> inv b' \<and> contents b' = contents b @ ms"
proof (induction ms arbitrary: b)
  case (Cons m ms)
  then obtain b1 where b1: "send b m = Inr (True, b1)" "inv b1" "contents b1 = contents b @ [m]"
    using send_room [of b m] by auto
  then obtain b2 where "send_all ms b1 = Inr b2" "inv b2" "contents b2 = contents b1 @ ms"
    using Cons.IH [of b1] Cons.prems by auto
  then show ?case using b1 by simp
qed simp

lemma drain_contents:
  "inv b \<Longrightarrow> length (contents b) < k \<Longrightarrow> \<exists>b'. drain k b = Inr (contents b, b') \<and> inv b' \<and> contents b' = []"
proof (induction k arbitrary: b)
  case (Suc k)
  show ?case
  proof (cases "contents b")
    case Nil
    then show ?thesis using recv_empty Suc.prems by simp
  next
    case (Cons m ms)
    with recv_next [OF Suc.prems(1) Cons] Suc.IH Suc.prems show ?thesis by fastforce
  qed
qed simp

end

section \<open>The ring meets it\<close>

definition block_ok :: "nat \<Rightarrow> ipc_block \<Rightarrow> bool" where
  "block_ok i x \<longleftrightarrow> unat (ib_nextIndex x) = Suc i mod 512 \<and> \<not> ib_hasBeenRead x \<and> \<not> ib_hasBeenWritten x \<and>
     length (ib_data x) = 4096 \<and> unat (ib_length x) \<le> 4096"

definition ipc_ring :: "ipc_buffer \<Rightarrow> bool" where
  "ipc_ring b \<longleftrightarrow> length (ipc_blocks b) = 512 \<and> (\<forall>i < 512. block_ok i (ipc_blocks b ! i)) \<and>
     ipc_readStart b = ipc_readEnd b \<and> ipc_writeStart b = ipc_writeEnd b \<and>
     unat (ipc_readStart b) < 512 \<and> unat (ipc_writeStart b) < 512"

definition block_packet :: "ipc_block \<Rightarrow> ipc_packet" where
  "block_packet x = \<lparr>ipp_opcode = ib_opcode x, ipp_sourceId = ib_sourceId x, ipp_length = ib_length x,
     ipp_data = (if ib_length x = 0 then None else Some (take (unat (ib_length x)) (ib_data x)))\<rparr>"

definition ipc_fill :: "ipc_buffer \<Rightarrow> nat" where
  "ipc_fill b = (unat (ipc_writeStart b) + 512 - unat (ipc_readStart b)) mod 512"

definition ipc_queue :: "ipc_buffer \<Rightarrow> ipc_packet list" where
  "ipc_queue b = map (\<lambda>k. block_packet (ipc_blocks b ! ((unat (ipc_readStart b) + k) mod 512))) [0..<ipc_fill b]"

definition ipc_fits :: "ipc_packet \<Rightarrow> bool" where
  "ipc_fits m \<longleftrightarrow> unat (ipp_length m) \<le> 4096 \<and>
     (case ipp_data m of None \<Rightarrow> ipp_length m = 0 | Some d \<Rightarrow> ipp_length m \<noteq> 0 \<and> length d = unat (ipp_length m))"

definition ipc_send :: "nat \<Rightarrow> (nat \<Rightarrow> u64) \<Rightarrow> ipc_buffer \<Rightarrow> ipc_packet \<Rightarrow> (bool \<times> ipc_buffer) result" where
  "ipc_send fuel clk b m = ipc_buffer_write fuel clk b (ipp_opcode m) (ipp_sourceId m) (ipp_length m) (ipp_data m)"

lemma ring_get:
  "ipc_ring b \<Longrightarrow> unat i < 512 \<Longrightarrow> get_block b i = Inr (ipc_blocks b ! unat i) \<and> block_ok (unat i) (ipc_blocks b ! unat i)"
  by (simp add: ipc_ring_def get_block_def)

lemma ring_fill: "ipc_fill b < 512"
  by (simp add: ipc_fill_def)

lemma ring_succ: "i < 512 \<Longrightarrow> Suc i mod 512 = (if i = 511 then 0 else Suc i)"
  by (cases "i = 511") auto

lemma ring_diff:
  fixes w r :: nat
  assumes "w < 512" "r < 512"
  shows "(w + 512 - r) mod 512 = (if r \<le> w then w - r else w + 512 - r)"
proof (cases "r \<le> w")
  case True
  then have "w + 512 - r = (w - r) + 512" by simp
  then show ?thesis using True assms by (metis less_imp_diff_less mod_add_self2 mod_less)
qed (use assms in auto)

lemma ring_fill_Suc:
  fixes w r :: nat
  assumes "w < 512" "r < 512" "(w + 512 - r) mod 512 < 511"
  shows "(Suc w mod 512 + 512 - r) mod 512 = Suc ((w + 512 - r) mod 512)"
proof -
  have d: "(w + 512 - r) mod 512 = (if r \<le> w then w - r else w + 512 - r)" by (rule ring_diff [OF assms(1,2)])
  show ?thesis
  proof (cases "w = 511")
    case True
    have r0: "r \<noteq> 0" using assms(3) True by (intro notI) simp
    have "(0 + 512 - r) mod 512 = (if r \<le> 0 then 0 - r else 0 + 512 - r)" by (rule ring_diff) (use assms(2) in simp_all)
    then have "(0 + 512 - r) mod 512 = 512 - r" using r0 by simp
    then show ?thesis unfolding d using True assms(2) by simp
  next
    case False
    then have s: "Suc w mod 512 = Suc w" "Suc w < 512" using assms(1) by auto
    show ?thesis using assms unfolding d s(1) ring_diff [OF s(2) assms(2)] by (auto split: if_splits)
  qed
qed

lemma ring_full_iff:
  assumes "ipc_ring b"
  shows "ib_nextIndex (ipc_blocks b ! unat (ipc_writeEnd b)) = ipc_readStart b \<longleftrightarrow> ipc_fill b = 511"
proof -
  let ?w = "unat (ipc_writeStart b)" and ?r = "unat (ipc_readStart b)"
  have b: "?w < 512" "?r < 512" "ipc_writeEnd b = ipc_writeStart b" using assms by (auto simp: ipc_ring_def)
  have "unat (ib_nextIndex (ipc_blocks b ! ?w)) = Suc ?w mod 512" using assms b by (auto simp: ipc_ring_def block_ok_def)
  then have "ib_nextIndex (ipc_blocks b ! ?w) = ipc_readStart b \<longleftrightarrow> Suc ?w mod 512 = ?r"
    by (simp add: word_unat_eq_iff)
  then show ?thesis using b unfolding ipc_fill_def b(3) ring_succ [OF b(1)] ring_diff [OF b(1,2)] by auto
qed

lemma ring_empty_iff: "ipc_ring b \<Longrightarrow> ipc_readEnd b = ipc_writeStart b \<longleftrightarrow> ipc_fill b = 0"
proof -
  assume "ipc_ring b"
  then have b: "unat (ipc_writeStart b) < 512" "unat (ipc_readStart b) < 512" "ipc_readEnd b = ipc_readStart b"
    by (auto simp: ipc_ring_def)
  obtain w r where wr: "unat (ipc_writeStart b) = w" "unat (ipc_readStart b) = r" by simp
  have "ipc_readStart b = ipc_writeStart b \<longleftrightarrow> r = w" by (simp add: word_unat_eq_iff wr)
  then show ?thesis using b ring_diff [of w r] unfolding ipc_fill_def b(3) wr by auto
qed

text \<open>After one block was flagged, the advance moves over it and stops at the next, whose flag is
  clear.\<close>

lemma advance_written_one:
  assumes "length (ipc_blocks b) = 512" "unat (ipc_writeStart b) = i" "i < 512" "ib_hasBeenWritten (ipc_blocks b ! i)"
    "unat (ib_nextIndex (ipc_blocks b ! i)) = Suc i mod 512" "\<not> ib_hasBeenWritten (ipc_blocks b ! (Suc i mod 512))"
  shows "advance_written (Suc (Suc k)) b =
    Inr (b\<lparr>ipc_blocks := (ipc_blocks b)[i := (ipc_blocks b ! i)\<lparr>ib_hasBeenWritten := False\<rparr>],
           ipc_writeStart := ib_nextIndex (ipc_blocks b ! i)\<rparr>)"
proof -
  have "Suc i mod 512 \<noteq> i" using assms(3) by (simp add: ring_succ)
  then show ?thesis using assms by (simp add: get_block_def put_block_def Let_def)
qed

lemma advance_read_one:
  assumes "length (ipc_blocks b) = 512" "unat (ipc_readStart b) = i" "i < 512" "ib_hasBeenRead (ipc_blocks b ! i)"
    "unat (ib_nextIndex (ipc_blocks b ! i)) = Suc i mod 512" "\<not> ib_hasBeenRead (ipc_blocks b ! (Suc i mod 512))"
  shows "advance_read (Suc (Suc k)) b =
    Inr (b\<lparr>ipc_blocks := (ipc_blocks b)[i := (ipc_blocks b ! i)\<lparr>ib_hasBeenRead := False\<rparr>],
           ipc_readStart := ib_nextIndex (ipc_blocks b ! i)\<rparr>)"
proof -
  have "Suc i mod 512 \<noteq> i" using assms(3) by (simp add: ring_succ)
  then show ?thesis using assms by (simp add: get_block_def put_block_def Let_def)
qed

text \<open>The blocks of the queue, and what a change of one block does to them.\<close>

lemma ring_slot_neq:
  assumes "r < 512" "k < 512" "j < 512" "k \<noteq> j"
  shows "(r + k) mod 512 \<noteq> (r + j) mod (512 :: nat)"
  using assms ring_diff [of "k" 0] by (auto simp: mod_if [of "r + k"] mod_if [of "r + j"])

lemma ring_write_slot:
  "ipc_ring b \<Longrightarrow> (unat (ipc_readStart b) + ipc_fill b) mod 512 = unat (ipc_writeStart b)"
  by (auto simp: ipc_ring_def ipc_fill_def ring_diff)

lemma ipc_write_room:
  assumes b: "ipc_ring b" and room: "ipc_fill b < 511" and m: "ipc_fits m"
  shows "\<exists>b'. ipc_send (Suc fuel) clk b m = Inr (True, b') \<and> ipc_ring b' \<and> ipc_queue b' = ipc_queue b @ [m] \<and>
    ipc_semaphore b' = Suc (ipc_semaphore b)"
proof -
  let ?w = "ipc_writeEnd b"
  let ?i = "unat ?w"
  let ?x = "ipc_blocks b ! ?i"
  have bi: "length (ipc_blocks b) = 512" "ipc_writeStart b = ?w" "?i < 512" "unat (ipc_readStart b) < 512"
    "ipc_readEnd b = ipc_readStart b" "\<forall>i < 512. block_ok i (ipc_blocks b ! i)" using b by (auto simp: ipc_ring_def)
  have x: "unat (ib_nextIndex ?x) = Suc ?i mod 512" "length (ib_data ?x) = 4096" "\<not> ib_hasBeenRead ?x"
    using bi by (auto simp: block_ok_def)
  have nf: "ib_nextIndex ?x \<noteq> ipc_readStart b" using ring_full_iff [OF b] room by simp
  have ne: "Suc ?i mod 512 \<noteq> ?i" "Suc ?i mod 512 < 512" using bi(3) by (auto simp: ring_succ)
  have lenle: "\<not> ipp_length m > EQP_IPC_PACKET_MAX_SIZE" "unat (ipp_length m) \<le> 4096"
    using m by (auto simp: ipc_fits_def EQP_IPC_PACKET_MAX_SIZE_def word_less_nat_alt)
  define bytes where "bytes = (case ipp_data m of None \<Rightarrow> ib_data ?x | Some d \<Rightarrow> overwrite (ib_data ?x) 0 d)"
  have lb: "length bytes = 4096" using m x(2) lenle by (auto simp: bytes_def ipc_fits_def split: option.splits)
  define y where "y = ?x\<lparr>ib_opcode := ipp_opcode m, ib_sourceId := ipp_sourceId m, ib_length := ipp_length m, ib_data := bytes\<rparr>"
  have copy: "copy_data (ib_data ?x) (ipp_length m) (ipp_data m) = Inr bytes"
    using m x(2) lenle
    by (auto simp: copy_data_def bytes_def ipc_fits_def mem_read_def mem_write_def slice_def split: option.splits)
  let ?b1 = "b\<lparr>ipc_writeEnd := ib_nextIndex ?x, ipc_blocks := (ipc_blocks b)[?i := y\<lparr>ib_hasBeenWritten := True\<rparr>]\<rparr>"
  let ?b' = "b\<lparr>ipc_writeEnd := ib_nextIndex ?x, ipc_blocks := (ipc_blocks b)[?i := y\<lparr>ib_hasBeenWritten := False\<rparr>],
      ipc_writeStart := ib_nextIndex ?x, ipc_semaphore := Suc (ipc_semaphore b)\<rparr>"
  have ny: "ib_nextIndex y = ib_nextIndex ?x" "\<not> ib_hasBeenRead y" using x(3) by (simp_all add: y_def)
  have adv: "advance_written (Suc (Suc 511)) ?b1 = Inr (?b1\<lparr>ipc_blocks := (ipc_blocks b)[?i := y\<lparr>ib_hasBeenWritten := False\<rparr>],
      ipc_writeStart := ib_nextIndex ?x\<rparr>)"
    using bi ne x(1) ny by (subst advance_written_one [where i = ?i]) (auto simp: block_ok_def)
  have "ipc_send (Suc fuel) clk b m = Inr (True, ?b')"
    using bi nf lenle(1) copy adv
    by (simp add: ipc_send_def ipc_buffer_write_def ipc_buffer_do_write_def Let_def get_block_def put_block_def
        y_def semaphore_trigger_def del: advance_written.simps)
  moreover have "ipc_ring ?b'"
    using bi ne x lb lenle ny by (auto simp: ipc_ring_def block_ok_def nth_list_update y_def)
  moreover have "ipc_queue ?b' = ipc_queue b @ [m]"
  proof -
    have "ipc_fill ?b' = (Suc ?i mod 512 + 512 - unat (ipc_readStart b)) mod 512" using x(1) by (simp add: ipc_fill_def)
    also have "\<dots> = Suc ((?i + 512 - unat (ipc_readStart b)) mod 512)"
      using room bi(2) by (intro ring_fill_Suc [OF bi(3,4)]) (simp add: ipc_fill_def)
    also have "\<dots> = Suc (ipc_fill b)" using bi(2) by (simp add: ipc_fill_def)
    finally have "ipc_fill ?b' = Suc (ipc_fill b)" .
    moreover have "?i \<noteq> (unat (ipc_readStart b) + k) mod 512" if "k < ipc_fill b" for k
      using ring_slot_neq [OF bi(4), of k "ipc_fill b"] that room ring_write_slot [OF b] bi(2) by simp
    moreover have "block_packet (y\<lparr>ib_hasBeenWritten := False\<rparr>) = m"
      using m x(2) by (cases m) (auto simp: block_packet_def y_def bytes_def ipc_fits_def overwrite_def split: option.splits)
    ultimately show ?thesis using ring_write_slot [OF b] bi by (simp add: ipc_queue_def)
  qed
  ultimately show ?thesis by auto
qed

lemma ipc_write_full:
  assumes "ipc_ring b" "ipc_fill b = 511" "j < fuel" "clk (Suc j) - clk 0 \<ge> 10"
  shows "ipc_buffer_write fuel clk b opcode sourceId len data = Inr (False, b)"
proof -
  have "unat (ipc_writeEnd b) < 512" using assms(1) by (metis ipc_ring_def)
  note g = ring_get [OF assms(1) this, THEN conjunct1]
  have "ipc_write_loop fuel c t b opcode sourceId len data = Inr (False, b)" if "j < fuel" "c j - t \<ge> 10" for c t
    using that
  proof (induction fuel arbitrary: c j)
    case (Suc fuel)
    then show ?case using g ring_full_iff [OF assms(1)] assms(2) Suc.IH [of "j - 1" "\<lambda>i. c (Suc i)"]
      by (cases j) (auto simp: Let_def)
  qed simp
  then show ?thesis using assms(3,4) by (simp add: ipc_buffer_write_def)
qed

lemma ipc_read_next:
  assumes b: "ipc_ring b" and q: "ipc_queue b = m # ms" and h: "ample h"
  shows "\<exists>b'. ipc_buffer_read h b = Inr (Some m, b') \<and> ipc_ring b' \<and> ipc_queue b' = ms \<and>
    ipc_semaphore b' = ipc_semaphore b"
proof -
  let ?i = "unat (ipc_readStart b)"
  let ?x = "ipc_blocks b ! ?i"
  have bi: "length (ipc_blocks b) = 512" "ipc_readEnd b = ipc_readStart b" "?i < 512" "unat (ipc_writeStart b) < 512"
    "ipc_writeEnd b = ipc_writeStart b" "\<forall>i < 512. block_ok i (ipc_blocks b ! i)" using b by (auto simp: ipc_ring_def)
  have x: "unat (ib_nextIndex ?x) = Suc ?i mod 512" "length (ib_data ?x) = 4096" "\<not> ib_hasBeenWritten ?x" "unat (ib_length ?x) \<le> 4096"
    using bi by (auto simp: block_ok_def)
  have fill: "ipc_fill b = Suc (length ms)" using arg_cong [OF q, of length] by (simp add: ipc_queue_def)
  have ne: "Suc ?i mod 512 \<noteq> ?i" "Suc ?i mod 512 < 512" using bi(3) by (auto simp: ring_succ)
  have nonempty: "ipc_readStart b \<noteq> ipc_writeStart b" using ring_empty_iff [OF b] fill bi(2) by simp
  have m: "m = block_packet ?x" using q bi(3) by (simp add: ipc_queue_def fill upt_conv_Cons del: upt_Suc)
  have init: "ipc_packet_init h (ib_opcode ?x) (ib_sourceId ?x) (ib_length ?x) (Some (ib_data ?x)) = Inr m"
    using h x by (simp add: m ipc_packet_init_def block_packet_def mem_read_def slice_def ample_def)
  let ?b1 = "b\<lparr>ipc_readEnd := ib_nextIndex ?x, ipc_blocks := (ipc_blocks b)[?i := ?x\<lparr>ib_hasBeenRead := True\<rparr>]\<rparr>"
  let ?b' = "b\<lparr>ipc_readEnd := ib_nextIndex ?x, ipc_blocks := (ipc_blocks b)[?i := ?x\<lparr>ib_hasBeenRead := False\<rparr>],
      ipc_readStart := ib_nextIndex ?x\<rparr>"
  have adv: "advance_read (Suc (Suc 511)) ?b1 = Inr ?b'"
    using bi ne x(1) by (subst advance_read_one [where i = ?i]) (auto simp: block_ok_def)
  have "ipc_buffer_read h b = Inr (Some m, ?b')"
    using bi nonempty init adv
    by (simp add: ipc_buffer_read_def ipc_buffer_do_read_def Let_def get_block_def put_block_def
        del: advance_read.simps)
  moreover have "ipc_ring ?b'" using bi ne x by (auto simp: ipc_ring_def block_ok_def nth_list_update)
  moreover have "ipc_queue ?b' = ms"
  proof -
    have f: "ipc_fill ?b' = length ms"
      using fill bi x(1) ring_diff [of "unat (ipc_writeStart b)" ?i] ring_diff [of "unat (ipc_writeStart b)" "Suc ?i mod 512"]
      by (auto simp: ipc_fill_def ring_succ split: if_splits)
    have k: "block_packet ((ipc_blocks b)[?i := ?x\<lparr>ib_hasBeenRead := False\<rparr>] ! j) = block_packet (ipc_blocks b ! j)" for j
      using bi by (cases "j = ?i") (auto simp: block_packet_def)
    have "ms = tl (ipc_queue b)" using q by simp
    also have "\<dots> = map (\<lambda>k. block_packet (ipc_blocks b ! ((?i + Suc k) mod 512))) [0..<length ms]"
      by (simp add: ipc_queue_def fill map_tl [symmetric] map_Suc_upt [symmetric] o_def del: upt_Suc)
    finally show ?thesis using f x(1) by (simp add: ipc_queue_def k mod_add_left_eq)
  qed
  ultimately show ?thesis by auto
qed

lemma ipc_read_empty: "ipc_ring b \<Longrightarrow> ipc_queue b = [] \<Longrightarrow> ipc_buffer_read h b = Inr (None, b)"
proof -
  assume b: "ipc_ring b" and q: "ipc_queue b = []"
  have "ipc_readEnd b = ipc_writeStart b" using q ring_empty_iff [OF b] by (simp add: ipc_queue_def)
  moreover have "unat (ipc_readEnd b) < 512" using b by (metis ipc_ring_def)
  ultimately show ?thesis using ring_get [OF b, of "ipc_readEnd b"] by (simp add: ipc_buffer_read_def)
qed

interpretation ring: bounded_queue ipc_ring ipc_queue 511 ipc_fits "ipc_send (Suc fuel) clk"
  "ipc_buffer_read (h\<lparr>can_alloc := \<lambda>_. True\<rparr>)" for fuel clk and h :: heap
proof
  have ample: "ample (h\<lparr>can_alloc := \<lambda>_. True\<rparr>)" by (simp add: ample_def)
  show "\<exists>b'. ipc_send (Suc fuel) clk b m = Inr (True, b') \<and> ipc_ring b' \<and> ipc_queue b' = ipc_queue b @ [m]"
    if "ipc_ring b" "length (ipc_queue b) < 511" "ipc_fits m" for b m
    using ipc_write_room [OF that(1) _ that(3)] that(2) by (fastforce simp: ipc_queue_def)
  show "\<exists>b'. ipc_buffer_read (h\<lparr>can_alloc := \<lambda>_. True\<rparr>) b = Inr (Some m, b') \<and> ipc_ring b' \<and> ipc_queue b' = ms"
    if "ipc_ring b" "ipc_queue b = m # ms" for b m ms
    using ipc_read_next [OF that ample] by blast
  show "length (ipc_queue b) \<le> 511" for b using ring_fill [of b] by (simp add: ipc_queue_def)
qed (rule ipc_read_empty)

text \<open>Receiving hands the packets to the handler in order, up to a shutdown.\<close>

lemma ipc_receive_loop_spec:
  assumes "ipc_ring b" "ample h" "\<And>p s. handle p s = Inr (f p s)" "length (ipc_queue b) < k"
  shows "\<exists>b'. ipc_receive_loop k h handle b s =
      Inr (ServerOp_Shutdown \<in> ipp_opcode ` set (ipc_queue b), b',
           fold f (takeWhile (\<lambda>p. ipp_opcode p \<noteq> ServerOp_Shutdown) (ipc_queue b)) s) \<and>
    ipc_ring b' \<and> ipc_queue b' = tl (dropWhile (\<lambda>p. ipp_opcode p \<noteq> ServerOp_Shutdown) (ipc_queue b))"
  using assms(1,4)
proof (induction k arbitrary: b s)
  case (Suc k)
  show ?case
  proof (cases "ipc_queue b")
    case Nil
    then show ?thesis using ipc_read_empty [OF Suc.prems(1) Nil, of h] Suc.prems(1) by simp
  next
    case (Cons p ps)
    from ipc_read_next [OF Suc.prems(1) Cons assms(2)] obtain b1 where
      b1: "ipc_buffer_read h b = Inr (Some p, b1)" "ipc_ring b1" "ipc_queue b1 = ps" by blast
    then show ?thesis using Suc.IH [of b1 "f p s"] Suc.prems(2) Cons assms(3) by (auto intro: rev_image_eqI)
  qed
qed simp

text \<open>Initialising zeroed shared memory gives an empty ring.\<close>

lemma ipc_buffer_init_ring:
  assumes "\<forall>i < 512. length (ib_data (ipc_blocks b ! i)) = 4096 \<and> ib_length (ipc_blocks b ! i) = 0"
  shows "ipc_ring (ipc_buffer_init b) \<and> ipc_queue (ipc_buffer_init b) = []"
proof -
  have nx: "unat (if i = 511 then 0 else of_nat i + 1 :: u32) = Suc i mod 512" if "i < 512" for i
  proof (cases "i = 511")
    case False
    then have "unat (of_nat i + 1 :: u32) = Suc i" using that by (subst unat_Suc_u32) (simp_all add: unat_of_nat_u32)
    then show ?thesis using that False by simp
  qed simp
  have "block_ok i (ipc_blocks (ipc_buffer_init b) ! i)" if "i < 512" for i
    using nx [OF that] assms that
    by (auto simp: ipc_buffer_init_def EQP_IPC_BUFFER_NUM_PACKETS_def block_ok_def Let_def nth_append)
  then show ?thesis
    by (simp add: ipc_ring_def ipc_queue_def ipc_fill_def ipc_buffer_init_def EQP_IPC_BUFFER_NUM_PACKETS_def Let_def)
qed

end
