(* ===== verification/Runtime_Properties.thy ===== *)
theory Runtime_Properties
  imports Timer_Pool Ipc_Buffer
begin

text \<open>
  What is promised of the parts every executable runs on: its timers, and the rings in shared memory through
  which the processes talk to each other.
\<close>

section \<open>Timers\<close>

definition roomy :: heap where
  "roomy = \<lparr>can_alloc = \<lambda>_. True, junk = \<lambda>_. 0\<rparr>"

lemma ample_roomy [simp]: "ample roomy"
  by (simp add: ample_def roomy_def)

text \<open>Two timers, started by their creation.\<close>

definition two_timers :: "timer_pool result" where
  "two_timers =
     bindE (timer_pool_init roomy Map.empty 0) (\<lambda>p.
     bindE (eqp_timer_create roomy (\<lambda>_. 1000) 0 p 50 (Some 0) 0 True) (\<lambda>p.
     eqp_timer_create roomy (\<lambda>_. 1000) 1 p 70 (Some 0) 0 True))"

definition on_both :: "(timer_pool \<Rightarrow> nat \<Rightarrow> timer_pool result) \<Rightarrow> timer_pool \<Rightarrow> timer_pool result" where
  "on_both f p = bindE (f p 0) (\<lambda>p. f p 1)"

definition demo_pool :: timer_pool where
  "demo_pool = (case bindE two_timers (\<lambda>p. timer_stop p 0) of Inr p \<Rightarrow> p)"

lemma indexed_code [code]:
  "indexed p \<longleftrightarrow> (\<forall>i < unat (tp_count p). live (entries p ! i) \<longrightarrow>
     map_option tm_poolIndex (tp_store p (snd (entries p ! i))) = Some (of_nat i))"
  by (auto simp: indexed_def)




text \<open>Two timers that are destroyed in the same cycle, as the callbacks that give up waiting for
  a client do: the next cycle writes through the pointer to the second one, which is freed.\<close>

lemma timers_destroyed_together_dangle:
  "bindE two_timers (\<lambda>p.
   bindE (on_both timer_destroy p) (\<lambda>p.
   bindE (timer_pool_execute_callbacks roomy (\<lambda>_. 1000) (\<lambda>f t p. Inr p) p) (\<lambda>p.
   Inr ()))) = Inl UndefinedBehaviour"
  by code_simp

section \<open>The rings between processes\<close>

definition zero_block :: ipc_block where
  "zero_block = \<lparr>ib_nextIndex = 0, ib_hasBeenRead = False, ib_hasBeenWritten = False, ib_opcode = ServerOp_None,
     ib_sourceId = 0, ib_length = 0, ib_data = replicate 4096 0\<rparr>"

definition demo_ring :: ipc_buffer where
  "demo_ring = ipc_buffer_init \<lparr>ipc_blocks = replicate 512 zero_block, ipc_readStart = 0, ipc_readEnd = 0,
     ipc_writeStart = 0, ipc_writeEnd = 0, ipc_semaphore = 0\<rparr>"

lemma demo_ring_ok: "ipc_ring demo_ring" "ipc_queue demo_ring = []"
  using ipc_buffer_init_ring [of "\<lparr>ipc_blocks = replicate 512 zero_block, ipc_readStart = 0, ipc_readEnd = 0,
     ipc_writeStart = 0, ipc_writeEnd = 0, ipc_semaphore = 0\<rparr>"]
  by (simp_all add: demo_ring_def zero_block_def)

definition demo_packet :: "ServerOp \<Rightarrow> bytes \<Rightarrow> ipc_packet" where
  "demo_packet op d = \<lparr>ipp_opcode = op, ipp_sourceId = 7, ipp_length = of_nat (length d),
     ipp_data = (if d = [] then None else Some d)\<rparr>"

text \<open>C12. A ring is a bounded first-in first-out queue: whatever it holds and whatever is written to
  it, up to 511 packets, is read back complete and in order, and leaves the ring empty.\<close>

theorem ipc_ring_fifo:
  assumes "ipc_ring b" "\<forall>m \<in> set ms. ipc_fits m" "length (ipc_queue b) + length ms \<le> 511" "ample h"
  shows "\<exists>b1 b2. bounded_queue.send_all (ipc_send (Suc fuel) clk) ms b = Inr b1 \<and> ipc_ring b1 \<and>
    bounded_queue.drain (ipc_buffer_read h) 512 b1 = Inr (ipc_queue b @ ms, b2) \<and> ipc_ring b2 \<and> ipc_queue b2 = []"
proof -
  have h: "h\<lparr>can_alloc := \<lambda>_. True\<rparr> = h" using assms(4) by (cases h) (auto simp: ample_def)
  from ring.send_all_contents [OF assms(1-3)] obtain b1 where
    b1: "bounded_queue.send_all (ipc_send (Suc fuel) clk) ms b = Inr b1" "ipc_ring b1" "ipc_queue b1 = ipc_queue b @ ms"
    by blast
  with ring.drain_contents [of b1 512 h] assms(3) h show ?thesis by auto
qed

theorem ipc_ring_fifo_witness:
  "\<exists>b1 b2. bounded_queue.send_all (ipc_send 1 (\<lambda>_. 0))
      [demo_packet ServerOp_KeepAlive [], demo_packet ServerOp_LogMessage [104, 105]] demo_ring = Inr b1 \<and> ipc_ring b1 \<and>
    bounded_queue.drain (ipc_buffer_read roomy) 512 b1 =
      Inr ([demo_packet ServerOp_KeepAlive [], demo_packet ServerOp_LogMessage [104, 105]], b2) \<and> ipc_ring b2 \<and> ipc_queue b2 = []"
  using ipc_ring_fifo [OF demo_ring_ok(1), of "[demo_packet ServerOp_KeepAlive [], demo_packet ServerOp_LogMessage [104, 105]]" roomy 0]
  by (simp add: demo_ring_ok(2) demo_packet_def ipc_fits_def)

text \<open>C13. Writing to a full ring gives up once ten milliseconds have passed, reports it and leaves
  the ring as it was, nothing being overwritten.\<close>

theorem ipc_ring_full:
  assumes "ipc_ring b" "length (ipc_queue b) = 511" "j < fuel" "clk (Suc j) - clk 0 \<ge> 10"
  shows "ipc_buffer_write fuel clk b opcode sourceId len data = Inr (False, b)"
  using ipc_write_full [OF assms(1) _ assms(3,4)] assms(2) by (simp add: ipc_queue_def)

theorem ipc_ring_full_witness:
  "\<exists>b. ipc_ring b \<and> length (ipc_queue b) = 511 \<and>
     ipc_buffer_write 3 (\<lambda>i. 5 * of_nat i) b ServerOp_KeepAlive 7 0 None = Inr (False, b)"
proof -
  let ?ms = "replicate 511 (demo_packet ServerOp_KeepAlive [])"
  have "\<forall>m \<in> set ?ms. ipc_fits m" by (simp add: demo_packet_def ipc_fits_def)
  from ring.send_all_contents [OF demo_ring_ok(1) this, of 0 "\<lambda>_. 0"]
  obtain b where b: "ipc_ring b" "ipc_queue b = ?ms" by (auto simp: demo_ring_ok(2))
  then have "ipc_ring b" "length (ipc_queue b) = 511" by simp_all
  from ipc_ring_full [OF this, of 1 3 "\<lambda>i. 5 * of_nat i" ServerOp_KeepAlive 7 0 None] b show ?thesis by auto
qed

text \<open>C14. When its semaphore was triggered, a process hands the packets of its ring to its handler, each
  once and in order, until a shutdown, which ends the loop and is reported; without a trigger it
  touches nothing.\<close>

theorem ipc_set_receive_dispatches:
  assumes "ipc_ring (is_ipc ips)" "ample h" "\<And>p s. handle p s = Inr (f p s)"
  shows "\<exists>ips'. ipc_set_receive h handle ips s =
      (if ipc_semaphore (is_ipc ips) > 0
       then Inr (ServerOp_Shutdown \<in> ipp_opcode ` set (ipc_queue (is_ipc ips)), ips',
              fold f (takeWhile (\<lambda>p. ipp_opcode p \<noteq> ServerOp_Shutdown) (ipc_queue (is_ipc ips))) s)
       else Inr (False, ips, s)) \<and>
    ipc_ring (is_ipc ips')"
proof (cases "ipc_semaphore (is_ipc ips) > 0")
  case True
  let ?b = "(is_ipc ips)\<lparr>ipc_semaphore := ipc_semaphore (is_ipc ips) - 1\<rparr>"
  have b: "ipc_ring ?b" "ipc_queue ?b = ipc_queue (is_ipc ips)" "length (ipc_blocks ?b) = 512"
    using assms(1) by (auto simp: ipc_ring_def ipc_queue_def ipc_fill_def)
  have "length (ipc_queue ?b) < Suc (length (ipc_blocks ?b))"
    using ring_fill [of ?b] b(3) by (simp add: ipc_queue_def)
  from ipc_receive_loop_spec [where handle = handle and f = f and s = s, OF b(1) assms(2,3) this] obtain b' where
    "ipc_receive_loop (Suc (length (ipc_blocks ?b))) h handle ?b s =
      Inr (ServerOp_Shutdown \<in> ipp_opcode ` set (ipc_queue ?b), b',
           fold f (takeWhile (\<lambda>p. ipp_opcode p \<noteq> ServerOp_Shutdown) (ipc_queue ?b)) s)" "ipc_ring b'"
    by blast
  then show ?thesis using True b(2)
    by (intro exI [of _ "ips\<lparr>is_ipc := b'\<rparr>"])
      (simp add: ipc_set_receive_def semaphore_try_wait_def Let_def del: ipc_receive_loop.simps)
next
  case False
  then show ?thesis using assms(1)
    by (intro exI [of _ ips]) (simp add: ipc_set_receive_def semaphore_try_wait_def Let_def)
qed

theorem ipc_set_receive_dispatches_witness:
  "\<exists>ips ips'. ipc_queue (is_ipc ips) = [demo_packet ServerOp_KeepAlive [1]] \<and>
     ipc_set_receive roomy (\<lambda>p s. Inr (ipp_opcode p # s)) ips [] = Inr (False, ips', [ServerOp_KeepAlive]) \<and>
     ipc_ring (is_ipc ips')"
proof -
  have "ipc_fits (demo_packet ServerOp_KeepAlive [1])" by (simp add: demo_packet_def ipc_fits_def)
  moreover have "ipc_fill demo_ring < 511" using arg_cong [OF demo_ring_ok(2), of length] by (simp add: ipc_queue_def)
  ultimately obtain b where b: "ipc_ring b" "ipc_queue b = [demo_packet ServerOp_KeepAlive [1]]" "ipc_semaphore b > 0"
    using ipc_write_room [OF demo_ring_ok(1)] demo_ring_ok(2) by fastforce
  let ?s = "\<lparr>is_ipc = b, is_ipcMaster = b, is_logWriter = b, is_keepAliveTimestamp = 0\<rparr>"
  have "\<exists>ips'. ipc_set_receive roomy (\<lambda>p s. Inr (ipp_opcode p # s)) ?s [] = Inr (False, ips', [ServerOp_KeepAlive]) \<and>
      ipc_ring (is_ipc ips')"
    using ipc_set_receive_dispatches [of ?s roomy "\<lambda>p s. Inr (ipp_opcode p # s)" "\<lambda>p s. ipp_opcode p # s" "[]"]
      b by (simp add: demo_packet_def)
  then show ?thesis using b(2) by (metis ipc_set.select_convs(1))
qed

end
