(* ===== verification/Packet_Trilogy.thy ===== *)
theory Packet_Trilogy
  imports Aligned
begin

text \<open>
  \<^verbatim>\<open>non_master/net/packet_trilogy.c\<close> and \<^verbatim>\<open>ack_common.c\<close>: the
  outgoing packet with its header space, its division into fragments, and the comparison of
  acknowledgement numbers. The main result is where \<open>packet_trilogy_fragmentize\<close> puts
  every payload byte.
\<close>

section \<open>Header bits\<close>

definition PacketTrilogyHasAckRequest :: u16 where "PacketTrilogyHasAckRequest = 0x0002"
definition PacketTrilogyIsClosing :: u16 where "PacketTrilogyIsClosing = 0x0004"
definition PacketTrilogyIsFragment :: u16 where "PacketTrilogyIsFragment = 0x0008"
definition PacketTrilogyHasAckCounter :: u16 where "PacketTrilogyHasAckCounter = 0x0010"
definition PacketTrilogyIsFirstPacket :: u16 where "PacketTrilogyIsFirstPacket = 0x0020"
definition PacketTrilogyIsClosing2 :: u16 where "PacketTrilogyIsClosing2 = 0x0040"
definition PacketTrilogyIsSequenceEnd :: u16 where "PacketTrilogyIsSequenceEnd = 0x0080"
definition PacketTrilogyHasAckResponse :: u16 where "PacketTrilogyHasAckResponse = 0x0400"
definition PacketTrilogyUnknownBit11 :: u16 where "PacketTrilogyUnknownBit11 = 0x0800"
definition PacketTrilogyUnknownBit12 :: u16 where "PacketTrilogyUnknownBit12 = 0x1000"
definition PacketTrilogyUnknownBit13 :: u16 where "PacketTrilogyUnknownBit13 = 0x2000"
definition PacketTrilogyUnknownBit14 :: u16 where "PacketTrilogyUnknownBit14 = 0x4000"
definition PacketTrilogyUnknownBit15 :: u16 where "PacketTrilogyUnknownBit15 = 0x8000"

lemmas header_bits = PacketTrilogyHasAckRequest_def PacketTrilogyIsClosing_def PacketTrilogyIsFragment_def
  PacketTrilogyHasAckCounter_def PacketTrilogyIsFirstPacket_def PacketTrilogyIsClosing2_def
  PacketTrilogyIsSequenceEnd_def PacketTrilogyHasAckResponse_def PacketTrilogyUnknownBit11_def
  PacketTrilogyUnknownBit12_def PacketTrilogyUnknownBit13_def PacketTrilogyUnknownBit14_def
  PacketTrilogyUnknownBit15_def

abbreviation has_bit :: "u16 \<Rightarrow> u16 \<Rightarrow> bool" where
  "has_bit header b \<equiv> header AND b \<noteq> 0"

section \<open>Packets\<close>

definition DATA_OFFSET :: u32 where "DATA_OFFSET = 18"
definition DATA_SPACE :: u32 where "DATA_SPACE = 512"
definition CRC_SIZE :: u32 where "CRC_SIZE = 4"
definition sizeof_PacketTrilogy :: u32 where "sizeof_PacketTrilogy = 12"

record packet =
  pt_opcode :: u16
  pt_fragCount :: u16
  pt_dataLength :: u32
  pt_refCount :: int
  pt_data :: bytes

definition packet_trilogy_calc_length_and_frag_count :: "u32 \<Rightarrow> u32 \<times> u16" where
  "packet_trilogy_calc_length_and_frag_count len =
     (if len \<le> DATA_SPACE
      then (sizeof_PacketTrilogy + DATA_OFFSET + len + CRC_SIZE, 0)
      else (let fcount = len div DATA_SPACE; rem = len mod DATA_SPACE;
                fcount = (if rem \<noteq> 0 then fcount + 1 else fcount)
            in (sizeof_PacketTrilogy + DATA_OFFSET * fcount + len + CRC_SIZE * fcount, ucast (fcount - 1))))"

definition packet_trilogy_create :: "heap \<Rightarrow> u16 \<Rightarrow> u32 \<Rightarrow> packet result" where
  "packet_trilogy_create h opcode len =
     (let (allocLength, fragCount) = packet_trilogy_calc_length_and_frag_count len in
      bindE (eqp_realloc h (unat sizeof_PacketTrilogy) [] (unat allocLength)) (\<lambda>d.
      Inr \<lparr>pt_opcode = opcode, pt_fragCount = fragCount, pt_dataLength = len, pt_refCount = 0,
           pt_data = d\<rparr>))"

definition packet_trilogy_grab :: "packet \<Rightarrow> packet" where
  "packet_trilogy_grab p = p\<lparr>pt_refCount := pt_refCount p + 1\<rparr>"

text \<open>\<open>None\<close>: the packet was freed.\<close>

definition packet_trilogy_drop :: "packet \<Rightarrow> packet option" where
  "packet_trilogy_drop p =
     (if pt_refCount p \<le> 1 then None else Some (p\<lparr>pt_refCount := pt_refCount p - 1\<rparr>))"

definition packet_trilogy_length_raw :: "packet \<Rightarrow> u32" where
  "packet_trilogy_length_raw p =
     pt_dataLength p + (DATA_OFFSET + CRC_SIZE) * (ucast (pt_fragCount p) + 1)"

text \<open>The inner loop of \<open>packet_trilogy_fragmentize\<close> moves bytes from the end, one by
  one, inside the same block; the outer one repeats it per fragment.\<close>

fun copy_back :: "nat \<Rightarrow> bytes \<Rightarrow> u32 \<Rightarrow> u32 \<Rightarrow> (bytes \<times> u32 \<times> u32) result" where
  "copy_back 0 d dst src = Inr (d, dst, src)"
| "copy_back (Suc j) d dst src =
     bindE (mem_read d (unat src) 1) (\<lambda>b.
     bindE (mem_write d (unat dst) b) (\<lambda>d.
     copy_back j d (dst - 1) (src - 1)))"

fun frag_loop :: "nat \<Rightarrow> bytes \<Rightarrow> u32 \<Rightarrow> u32 \<Rightarrow> u32 \<Rightarrow> bytes result" where
  "frag_loop 0 d dst src dataLength = Inr d"
| "frag_loop (Suc n) d dst src dataLength =
     bindE (copy_back (unat dataLength) d dst src) (\<lambda>(d, dst, src).
     frag_loop n d (dst - (DATA_OFFSET + CRC_SIZE)) src DATA_SPACE)"

definition packet_trilogy_fragmentize :: "packet \<Rightarrow> packet result" where
  "packet_trilogy_fragmentize p =
     (let n = pt_fragCount p in
      if n = 0 then Inr p
      else (let dataLength = pt_dataLength p;
                src = dataLength + DATA_OFFSET - 1;
                dst = packet_trilogy_length_raw p - CRC_SIZE - 1;
                dataLength = (dataLength + 2) mod DATA_SPACE;
                dataLength = (if dataLength = 0 then DATA_SPACE else dataLength)
            in bindE (frag_loop (unat n) (pt_data p) dst src dataLength) (\<lambda>d.
               Inr (p\<lparr>pt_data := d\<rparr>))))"

section \<open>Acknowledgement numbers\<close>

definition EQP_ACK_WINDOW_HALF_SIZE :: int where "EQP_ACK_WINDOW_HALF_SIZE = 1024"

datatype AckRelativity = AckPresent | AckFuture | AckPast

text \<open>The operands are promoted to \<^verbatim>\<open>int\<close>.\<close>

definition ack_compare :: "u16 \<Rightarrow> u16 \<Rightarrow> AckRelativity" where
  "ack_compare got expected =
     (if got = expected then AckPresent
      else if uint got > uint expected \<and> uint got < uint expected + EQP_ACK_WINDOW_HALF_SIZE \<or>
              uint got < uint expected - EQP_ACK_WINDOW_HALF_SIZE
      then AckFuture
      else AckPast)"

lemma ack_compare_nat:
  "ack_compare got expected =
     (if unat got = unat expected then AckPresent
      else if unat got > unat expected \<and> unat got < unat expected + 1024 \<or> unat got + 1024 < unat expected
      then AckFuture else AckPast)"
proof -
  have "uint got < uint expected - 1024 \<longleftrightarrow> unat got + 1024 < unat expected"
    by (simp only: uint_nat) linarith
  moreover have "uint got > uint expected \<longleftrightarrow> unat got > unat expected"
    "uint got < uint expected + 1024 \<longleftrightarrow> unat got < unat expected + 1024"
    "got = expected \<longleftrightarrow> unat got = unat expected"
    by (simp only: uint_nat, linarith)+ (simp add: word_unat_eq_iff)
  ultimately show ?thesis unfolding ack_compare_def EQP_ACK_WINDOW_HALF_SIZE_def by simp
qed

lemma unat_add_u16_cases:
  assumes "d < 65536"
  shows "unat ((e :: u16) + of_nat d) = (if unat e + d < 65536 then unat e + d else unat e + d - 65536)"
proof -
  have u: "unat (of_nat d :: u16) = d" using assms by (intro unat_of_nat_u16) simp
  have s: "unat (e + of_nat d) = (unat e + d) mod 65536" by (simp add: unat_word_ariths u)
  show ?thesis
  proof (cases "unat e + d < 65536")
    case False
    have "unat e + d < 131072" using assms unat_lt_u16 [of e] by linarith
    then have "(unat e + d) mod 65536 = unat e + d - 65536" using False by (subst le_mod_geq) auto
    then show ?thesis using s False by simp
  qed (use s in simp)
qed

text \<open>Numbers less than half a window ahead are future, those up to half a window behind past,
  across the wrap of the 16-bit counter.\<close>

lemma ack_compare_ahead:
  assumes "0 < d" "d < 1024"
  shows "ack_compare (expected + of_nat d) expected = AckFuture"
proof -
  have "d < 65536" using assms by simp
  note u = unat_add_u16_cases [OF this, of expected]
  obtain n where n: "unat expected = n" "n < 65536" using unat_lt_u16 [of expected] by simp
  show ?thesis unfolding ack_compare_nat u n(1) using assms n(2) by (cases "n + d < 65536"; simp; presburger)
qed

lemma ack_compare_behind:
  assumes "0 < d" "d \<le> 1024"
  shows "ack_compare expected (expected + of_nat d) = AckPast"
proof -
  have "d < 65536" using assms by simp
  note u = unat_add_u16_cases [OF this, of expected]
  obtain n where n: "unat expected = n" "n < 65536" using unat_lt_u16 [of expected] by simp
  show ?thesis unfolding ack_compare_nat u n(1) using assms n(2) by (cases "n + d < 65536"; simp; presburger)
qed

section \<open>Where the fragments go\<close>

text \<open>Moving \<open>m\<close> bytes back to front to a higher or equal position.\<close>

lemma copy_back_spec:
  "A + m \<le> length d \<Longrightarrow> length d < 2 ^ 32 \<Longrightarrow> B \<le> A \<Longrightarrow>
   copy_back m d (of_nat (A + m) - 1) (of_nat (B + m) - 1) =
     Inr (overwrite d A (slice d B m), of_nat A - 1, of_nat B - 1)"
proof (induction m arbitrary: d)
  case 0
  then show ?case by (simp add: overwrite_def slice_def)
next
  case (Suc m)
  have ua: "of_nat (A + Suc m) - 1 = (of_nat (A + m) :: u32)" "of_nat (B + Suc m) - 1 = (of_nat (B + m) :: u32)"
    by (simp_all add: algebra_simps)
  have u: "unat (of_nat (A + m) :: u32) = A + m" "unat (of_nat (B + m) :: u32) = B + m"
    using Suc.prems by (intro unat_of_nat_u32; simp)+
  let ?d = "d[A + m := d ! (B + m)]"
  have rd: "mem_read d (B + m) 1 = Inr [d ! (B + m)]"
    using Suc.prems by (simp add: mem_read_def slice_def take_Suc_conv_app_nth hd_drop_conv_nth)
  have wr: "mem_write d (A + m) [d ! (B + m)] = Inr ?d"
    using Suc.prems by (simp add: mem_write_def list_update_overwrite)
  have "copy_back m ?d (of_nat (A + m) - 1) (of_nat (B + m) - 1) =
      Inr (overwrite ?d A (slice ?d B m), of_nat A - 1, of_nat B - 1)"
    using Suc.prems by (intro Suc.IH) auto
  moreover have "overwrite ?d A (slice ?d B m) = overwrite d A (slice d B (Suc m))"
  proof (rule nth_equalityI)
    fix i assume "i < length (overwrite ?d A (slice ?d B m))"
    then have i: "i < length d" using Suc.prems by simp
    have sl: "slice ?d B m = slice d B m"
      using Suc.prems by (intro nth_equalityI) (auto simp: slice_def)
    show "overwrite ?d A (slice ?d B m) ! i = overwrite d A (slice d B (Suc m)) ! i"
      using Suc.prems i unfolding sl by (auto simp: overwrite_nth slice_def nth_list_update)
  qed (use Suc.prems in simp)
  ultimately show ?case unfolding ua by (simp add: u rd [unfolded One_nat_def] wr del: of_nat_add)
qed

text \<open>Fragment \<open>i\<close> carries the payload from \<open>pay i\<close> on, in the block from
  \<open>frag_start i\<close> on: the first fragment has two bytes less, for the opcode.\<close>

definition frag_start :: "nat \<Rightarrow> nat" where
  "frag_start i = (if i = 0 then 18 else 16 + 534 * i)"

definition pay :: "nat \<Rightarrow> nat" where
  "pay i = (if i = 0 then 0 else 512 * i - 2)"

lemma frag_loop_spec:
  "1 \<le> i \<Longrightarrow> 1 \<le> s \<Longrightarrow> s \<le> 512 \<Longrightarrow> frag_start i + s \<le> length d \<Longrightarrow> length d < 2 ^ 32 \<Longrightarrow>
   \<exists>d'. frag_loop i d (of_nat (frag_start i + s) - 1) (of_nat (18 + pay i + s) - 1) (of_nat s) = Inr d' \<and>
     length d' = length d \<and> (\<forall>q < 528. d' ! q = d ! q) \<and>
     (\<forall>q < length d. frag_start i + s \<le> q \<longrightarrow> d' ! q = d ! q) \<and>
     (\<forall>f k. 1 \<le> f \<and> f \<le> i \<and> k < (if f = i then s else 512) \<longrightarrow> d' ! (frag_start f + k) = d ! (18 + pay f + k))"
proof (induction i arbitrary: d s)
  case (Suc i)
  let ?A = "frag_start (Suc i)" and ?B = "18 + pay (Suc i)"
  have AB: "?B \<le> ?A" "?A = 550 + 534 * i" "?B = 528 + 512 * i" by (auto simp: frag_start_def pay_def)
  define d1 where "d1 = overwrite d ?A (slice d ?B s)"
  have us: "unat (of_nat s :: u32) = s" using Suc.prems by (intro unat_of_nat_u32) simp
  have cb: "copy_back s d (of_nat (?A + s) - 1) (of_nat (?B + s) - 1) = Inr (d1, of_nat ?A - 1, of_nat ?B - 1)"
    unfolding d1_def by (rule copy_back_spec) (use Suc.prems AB in auto)
  have lsl: "length (slice d ?B s) = s" using Suc.prems AB by (intro length_slice) linarith
  have l1: "length d1 = length d" unfolding d1_def using Suc.prems lsl by (intro length_overwrite) simp
  have n1: "d1 ! q = (if ?A \<le> q \<and> q < ?A + s then d ! (?B + (q - ?A)) else d ! q)" if "q < length d" for q
    unfolding d1_def using that Suc.prems lsl AB by (subst overwrite_nth) (auto simp: slice_def)
  have run: "frag_loop (Suc i) d (of_nat (?A + s) - 1) (of_nat (?B + s) - 1) (of_nat s) =
      frag_loop i d1 (of_nat ?A - 1 - 22) (of_nat ?B - 1) 512"
    using cb us by (simp add: DATA_OFFSET_def CRC_SIZE_def DATA_SPACE_def)
  show ?case
  proof (cases "i = 0")
    case True
    then show ?thesis
      unfolding run using l1 n1 Suc.prems AB by (intro exI [of _ d1]) (auto simp: frag_start_def pay_def le_Suc_eq)
  next
    case False
    have w: "(of_nat ?A :: u32) - 1 - 22 = of_nat (frag_start i + 512) - 1"
      "(of_nat ?B :: u32) - 1 = of_nat (18 + pay i + 512) - 1" "(512 :: u32) = of_nat 512"
    proof -
      have "?A = (frag_start i + 512) + 22" "?B = 18 + pay i + 512" using False by (auto simp: frag_start_def pay_def)
      then have "(of_nat ?A :: u32) = of_nat (frag_start i + 512) + 22" "(of_nat ?B :: u32) = of_nat (18 + pay i + 512)"
        by (simp_all only: of_nat_add of_nat_numeral)
      then show "(of_nat ?A :: u32) - 1 - 22 = of_nat (frag_start i + 512) - 1"
        "(of_nat ?B :: u32) - 1 = of_nat (18 + pay i + 512) - 1" by simp_all
    qed simp
    have fi: "frag_start i + 512 + 22 = ?A" using False by (simp add: frag_start_def)
    have "frag_start i + 512 \<le> length d1" "length d1 < 2 ^ 32" using fi Suc.prems l1 by linarith+
    then obtain d' where d': "frag_loop i d1 (of_nat (frag_start i + 512) - 1) (of_nat (18 + pay i + 512) - 1) (of_nat 512) = Inr d'"
        "length d' = length d1" "\<forall>q < 528. d' ! q = d1 ! q"
        "\<forall>q < length d1. frag_start i + 512 \<le> q \<longrightarrow> d' ! q = d1 ! q"
        "\<forall>f k. 1 \<le> f \<and> f \<le> i \<and> k < (if f = i then 512 else 512) \<longrightarrow> d' ! (frag_start f + k) = d1 ! (18 + pay f + k)"
      using Suc.IH [of 512 d1] False by auto
    show ?thesis
    proof (intro exI [of _ d'] conjI allI impI)
      show "frag_loop (Suc i) d (of_nat (?A + s) - 1) (of_nat (?B + s) - 1) (of_nat s) = Inr d'"
        unfolding run w by (rule d'(1))
      show "length d' = length d" using d'(2) l1 by simp
      show "d' ! q = d ! q" if "q < 528" for q using d'(3) n1 [of q] that AB Suc.prems by simp
      show "d' ! q = d ! q" if "q < length d" "?A + s \<le> q" for q
        using d'(4) n1 [of q] that fi l1 by simp
      show "d' ! (frag_start f + k) = d ! (18 + pay f + k)"
        if f: "1 \<le> f \<and> f \<le> Suc i \<and> k < (if f = Suc i then s else 512)" for f k
      proof (cases "f = Suc i")
        case True
        then have "?A + k < length d" "frag_start i + 512 \<le> ?A + k" "k < s" using f Suc.prems fi by auto
        then show ?thesis using True d'(4) n1 [of "?A + k"] l1 by simp
      next
        case fs: False
        then have fi': "f \<le> i" "k < 512" "1 \<le> f" using f by auto
        then have "18 + pay f + k < ?B" by (auto simp: pay_def) 
        then have "d1 ! (18 + pay f + k) = d ! (18 + pay f + k)"
          using n1 [of "18 + pay f + k"] AB Suc.prems by simp
        then show ?thesis using d'(5) fi' by auto
      qed
    qed
  qed
qed simp

definition frag_size :: "nat \<Rightarrow> nat \<Rightarrow> nat \<Rightarrow> nat" where
  "frag_size n len f = (if f = n then len - pay n else if f = 0 then 510 else 512)"

text \<open>The fragment count a packet needs: with the opcode, \<open>len + 2\<close> bytes in blocks of
  512.\<close>

definition frags_fit :: "packet \<Rightarrow> bool" where
  "frags_fit p \<longleftrightarrow>
     (let n = unat (pt_fragCount p); len = unat (pt_dataLength p) in
      512 * n < len + 2 \<and> len + 2 \<le> 512 * (n + 1) \<and> len + 22 * (n + 1) \<le> length (pt_data p) \<and>
      length (pt_data p) < 2 ^ 32)"

lemma fragmentize_spec:
  assumes fit: "frags_fit p" and n: "n = unat (pt_fragCount p)" "1 \<le> n" and len: "len = unat (pt_dataLength p)"
  shows "\<exists>d. packet_trilogy_fragmentize p = Inr (p\<lparr>pt_data := d\<rparr>) \<and> length d = length (pt_data p) \<and>
    (\<forall>f k. f \<le> n \<and> k < frag_size n len f \<longrightarrow> d ! (frag_start f + k) = pt_data p ! (18 + pay f + k))"
proof -
  let ?d = "pt_data p" and ?s = "len - pay n"
  have b: "512 * n < len + 2" "len + 2 \<le> 512 * (n + 1)" "len + 22 * (n + 1) \<le> length ?d" "length ?d < 2 ^ 32"
    using fit by (auto simp: frags_fit_def Let_def n len)
  have pn: "pay n = 512 * n - 2" "frag_start n = 16 + 534 * n" using n by (auto simp: pay_def frag_start_def)
  have s: "1 \<le> ?s" "?s \<le> 512" "?s + 512 * n = len + 2" using b n pn by auto
  have fs: "frag_start n + ?s = len + 22 * n + 18" "18 + pay n + ?s = len + 18" using s pn n by auto
  have dl: "pt_dataLength p = of_nat len" by (simp add: len)
  have fcu: "(ucast (pt_fragCount p) :: u32) = of_nat n" unfolding n(1) by (simp add: word_unat_eq_iff unat_ucast_up)
  have dst: "packet_trilogy_length_raw p - CRC_SIZE - 1 = of_nat (frag_start n + ?s) - 1"
    unfolding fs packet_trilogy_length_raw_def dl fcu by (simp add: DATA_OFFSET_def CRC_SIZE_def algebra_simps)
  have src: "pt_dataLength p + DATA_OFFSET - 1 = of_nat (18 + pay n + ?s) - 1"
    unfolding fs dl by (simp add: DATA_OFFSET_def)
  have um: "unat ((pt_dataLength p + 2) mod DATA_SPACE) = (len + 2) mod 512"
  proof -
    have "unat (pt_dataLength p + 2) = len + unat (2 :: u32)"
      unfolding len by (rule unat_add_u32) (use b in \<open>simp add: len\<close>)
    then show ?thesis by (simp add: DATA_SPACE_def unat_mod)
  qed
  have sm: "(len + 2) mod 512 = ?s mod 512"
    using s(3) by (metis mod_mult_self2)
  have chunk: "(let m = (pt_dataLength p + 2) mod DATA_SPACE in if m = 0 then DATA_SPACE else m) = of_nat ?s"
  proof (cases "?s = 512")
    case True
    then have "(len + 2) mod 512 = 0" using sm by simp
    then have "(pt_dataLength p + 2) mod DATA_SPACE = 0" using um by (simp add: unat_eq_0)
    then show ?thesis using True by (simp add: DATA_SPACE_def)
  next
    case False
    then have "(len + 2) mod 512 = ?s" using sm s(2) by simp
    then have u: "unat ((pt_dataLength p + 2) mod DATA_SPACE) = ?s" using um by simp
    then have "(pt_dataLength p + 2) mod DATA_SPACE = of_nat ?s" by (metis of_nat_unat ucast_id)
    moreover have "(pt_dataLength p + 2) mod DATA_SPACE \<noteq> 0" using u s(1) by (metis unat_0 not_one_le_zero)
    ultimately show ?thesis by simp
  qed
  obtain d where d: "frag_loop n ?d (of_nat (frag_start n + ?s) - 1) (of_nat (18 + pay n + ?s) - 1) (of_nat ?s) = Inr d"
      "length d = length ?d" "\<forall>q < 528. d ! q = ?d ! q"
      "\<forall>f k. 1 \<le> f \<and> f \<le> n \<and> k < (if f = n then ?s else 512) \<longrightarrow> d ! (frag_start f + k) = ?d ! (18 + pay f + k)"
  proof -
    have "frag_start n + ?s \<le> length ?d" using fs b by simp
    from frag_loop_spec [OF n(2) s(1,2) this b(4)] show thesis using that by blast
  qed
  have "pt_fragCount p \<noteq> 0" using n by auto
  then have "packet_trilogy_fragmentize p = Inr (p\<lparr>pt_data := d\<rparr>)"
    using d(1) chunk dst src by (simp add: packet_trilogy_fragmentize_def Let_def n)
  moreover have "d ! (frag_start f + k) = ?d ! (18 + pay f + k)" if "f \<le> n" "k < frag_size n len f" for f k
  proof (cases "f = 0")
    case True
    then have "18 + k < 528" using that n by (simp add: frag_size_def)
    then show ?thesis using d(3) True by (simp add: frag_start_def pay_def)
  next
    case False
    then have "1 \<le> f \<and> f \<le> n \<and> k < (if f = n then ?s else 512)"
      using that by (auto simp: frag_size_def split: if_splits)
    then show ?thesis using d(4) by blast
  qed
  ultimately show ?thesis using d(2) by blast
qed

text \<open>The counts \<open>packet_trilogy_create\<close> chooses fit unless the length is 511 modulo 512,
  or a multiple of 512, above one block.\<close>

lemma create_frag_count:
  assumes "512 < unat len" "unat len \<le> 2 ^ 24" "n = unat (snd (packet_trilogy_calc_length_and_frag_count len))"
  shows "512 * n < unat len \<and> unat len \<le> 512 * (n + 1)"
proof -
  define L where "L = unat len"
  have L: "512 < L" "L \<le> 2 ^ 24" using assms by (auto simp: L_def)
  have q: "unat (len div DATA_SPACE) = L div 512" "unat (len mod DATA_SPACE) = L mod 512"
    by (simp_all add: DATA_SPACE_def unat_div unat_mod L_def)
  have nle: "\<not> len \<le> DATA_SPACE" using L(1) by (simp add: DATA_SPACE_def word_le_nat_alt L_def)
  let ?c = "if len mod DATA_SPACE \<noteq> 0 then len div DATA_SPACE + 1 else len div DATA_SPACE"
  have z: "len mod DATA_SPACE = 0 \<longleftrightarrow> L mod 512 = 0" using q(2) by (metis unat_eq_0)
  have bd: "L div 512 \<le> 32768" using L(2) by simp
  have c: "unat ?c = (if L mod 512 \<noteq> 0 then L div 512 + 1 else L div 512)"
    using z q(1) bd by (auto simp: unat_Suc_u32)
  then have c1: "1 \<le> unat ?c" "unat ?c \<le> 32769" using L(1) bd by (auto simp: div_greater_zero_iff)
  have "unat (?c - 1) = unat ?c - 1" using c1 by (intro unat_pred) auto
  then have "unat (ucast (?c - 1) :: u16) = unat ?c - 1" using c1 by (simp add: unat_ucast_down_u16)
  then have n: "n = unat ?c - 1"
    using assms(3) nle by (simp add: packet_trilogy_calc_length_and_frag_count_def Let_def)
  have dm: "512 * (L div 512) + L mod 512 = L" "L mod 512 < 512" by simp_all
  obtain q where q: "L div 512 = Suc q" using L(1) by (cases "L div 512") auto
  show ?thesis
    unfolding n L_def [symmetric] c using dm unfolding q by auto
qed

end
