(* ===== verification/Network_Client.thy ===== *)
theory Network_Client
  imports Packet_Trilogy Crc Vec
begin

text \<open>
  \<^verbatim>\<open>network_client.c\<close> and \<^verbatim>\<open>network_client_trilogy.c\<close>: sending. The
  queue of outgoing packets of one client, acknowledgements in both directions, and the bytes
  each fragment goes out with.

  The state around the clients is \<open>world\<close>: the table of UDP clients, the packets (shared
  between clients by reference count, so kept in a store by address), what was handed to
  \<^verbatim>\<open>sendto\<close>, and what was handed to the application. Log output is left out.
  \<^verbatim>\<open>clock_milliseconds\<close> is a parameter: the time each successive read returns.
\<close>

section \<open>State\<close>

record udp_client =
  uc_ip :: u32
  uc_port :: u16
  uc_isDead :: bool
  uc_ignoreAllPackets :: bool
  uc_handler :: "nat option"
  uc_lastRecvTime :: u64

text \<open>
  The functions of \<^verbatim>\<open>network_interface.h\<close>, which every executable defines for
  itself: what they are called with, in order. Apart from the reference counts of handlers, which
  here count the references the network code takes, none of the code below reads what they may
  change.
\<close>

datatype event =
    client_recv_packet_trilogy "nat option" u16 bytes
  | client_on_disconnect "nat option" bool
  | client_create_from_new_connection_trilogy nat

record world =
  w_clients :: "udp_client vec"
  w_packets :: "nat \<Rightarrow> packet option"
  w_sent :: "(u32 \<times> u16 \<times> bytes) list"
  w_reads :: nat
  w_events :: "event list"

type_synonym clock = "nat \<Rightarrow> u64"

definition clock_milliseconds :: "clock \<Rightarrow> world \<Rightarrow> u64 \<times> world" where
  "clock_milliseconds clk w = (clk (w_reads w), w\<lparr>w_reads := Suc (w_reads w)\<rparr>)"

definition emit :: "event \<Rightarrow> world \<Rightarrow> world" where
  "emit e w = w\<lparr>w_events := w_events w @ [e]\<rparr>"

definition deref_packet :: "world \<Rightarrow> nat option \<Rightarrow> packet result" where
  "deref_packet w ptr =
     (case ptr of None \<Rightarrow> Inl UndefinedBehaviour
      | Some i \<Rightarrow> (case w_packets w i of None \<Rightarrow> Inl UndefinedBehaviour | Some p \<Rightarrow> Inr p))"

definition store_packet :: "world \<Rightarrow> nat option \<Rightarrow> packet option \<Rightarrow> world" where
  "store_packet w ptr p = (case ptr of None \<Rightarrow> w | Some i \<Rightarrow> w\<lparr>w_packets := (w_packets w)(i := p)\<rparr>)"

record network_client =
  nc_socketFd :: int
  nc_ip :: u32
  nc_port :: u16
  nc_udpClientIndex :: u32
  nc_packetsSent :: u64
  nc_packetsReceived :: u64
  nc_accountId :: u32

record output_packet =
  op_header :: u16
  op_ackRequest :: u16
  op_fragGroup :: u16
  op_fragCount :: u16
  op_ackCounterAlwaysOne :: u8
  op_ackCounterRequest :: u8
  op_ackTimestamp :: u64
  op_packet :: "nat option"

record network_client_trilogy =
  nct_base :: network_client
  nct_outputPackets :: "output_packet vec option"
  nct_nextAckResponse :: u16
  nct_nextAckRequestExpected :: u16
  nct_nextAckRequestCheck :: u16
  nct_nextSeqToSend :: u16
  nct_lastAckReceived :: u16
  nct_sendFromIndex :: u32

definition sizeof_OutputPacketTrilogy :: u32 where "sizeof_OutputPacketTrilogy = 32"
definition EQP_TRILOGY_RESEND_MILLISECONDS :: u64 where "EQP_TRILOGY_RESEND_MILLISECONDS = 250"

section \<open>The base client\<close>

definition network_client_init :: "int \<Rightarrow> udp_client \<Rightarrow> u32 \<Rightarrow> network_client" where
  "network_client_init fd udpClient index =
     \<lparr>nc_socketFd = fd, nc_ip = uc_ip udpClient, nc_port = uc_port udpClient, nc_udpClientIndex = index,
      nc_packetsSent = 0, nc_packetsReceived = 0, nc_accountId = 0\<rparr>"

definition network_client_send_no_increment :: "network_client \<Rightarrow> bytes \<Rightarrow> world \<Rightarrow> world" where
  "network_client_send_no_increment c data w = w\<lparr>w_sent := w_sent w @ [(nc_ip c, nc_port c, data)]\<rparr>"

definition network_client_send :: "network_client \<Rightarrow> bytes \<Rightarrow> world \<Rightarrow> network_client \<times> world" where
  "network_client_send c data w =
     (let c = c\<lparr>nc_packetsSent := nc_packetsSent c + 1\<rparr> in (c, network_client_send_no_increment c data w))"

definition udp_socket_flag_client_as_dead_by_index :: "world \<Rightarrow> u32 \<Rightarrow> world" where
  "udp_socket_flag_client_as_dead_by_index w index =
     (case vec_get (w_clients w) index of
        None \<Rightarrow> w
      | Some cli \<Rightarrow> w\<lparr>w_clients := (w_clients w)\<lparr>vec_items :=
          (vec_items (w_clients w))[unat index := cli\<lparr>uc_isDead := True\<rparr>]\<rparr>\<rparr>)"

definition udp_socket_flag_client_to_ignore_all_packets :: "world \<Rightarrow> u32 \<Rightarrow> world" where
  "udp_socket_flag_client_to_ignore_all_packets w index =
     (case vec_get (w_clients w) index of
        None \<Rightarrow> w
      | Some cli \<Rightarrow> w\<lparr>w_clients := (w_clients w)\<lparr>vec_items :=
          (vec_items (w_clients w))[unat index := cli\<lparr>uc_ignoreAllPackets := True\<rparr>]\<rparr>\<rparr>)"

definition network_client_flag_connection_as_dead :: "network_client \<Rightarrow> world \<Rightarrow> world" where
  "network_client_flag_connection_as_dead c w =
     udp_socket_flag_client_as_dead_by_index w (nc_udpClientIndex c)"

section \<open>The trilogy client\<close>

definition network_client_trilogy_init ::
  "heap \<Rightarrow> int \<Rightarrow> udp_client \<Rightarrow> u32 \<Rightarrow> network_client_trilogy result" where
  "network_client_trilogy_init h fd udpClient index =
     bindE (vec_create h sizeof_OutputPacketTrilogy) (\<lambda>v.
     Inr \<lparr>nct_base = network_client_init fd udpClient index, nct_outputPackets = Some v,
          nct_nextAckResponse = 0, nct_nextAckRequestExpected = 0, nct_nextAckRequestCheck = 0,
          nct_nextSeqToSend = 0, nct_lastAckReceived = 0, nct_sendFromIndex = 0\<rparr>)"

definition drop_packet :: "nat option \<Rightarrow> world \<Rightarrow> world result" where
  "drop_packet ptr w =
     (case ptr of
        None \<Rightarrow> Inr w
      | Some i \<Rightarrow> bindE (deref_packet w ptr) (\<lambda>p. Inr (store_packet w ptr (packet_trilogy_drop p))))"

fun drop_packets :: "output_packet list \<Rightarrow> world \<Rightarrow> world result" where
  "drop_packets [] w = Inr w"
| "drop_packets (o' # os) w = bindE (drop_packet (op_packet o') w) (drop_packets os)"

definition network_client_trilogy_deinit ::
  "network_client_trilogy \<Rightarrow> world \<Rightarrow> (network_client_trilogy \<times> world) result" where
  "network_client_trilogy_deinit c w =
     (case nct_outputPackets c of
        None \<Rightarrow> Inr (c, w)
      | Some v \<Rightarrow> bindE (drop_packets (vec_items v) w) (\<lambda>w. Inr (c\<lparr>nct_outputPackets := None\<rparr>, w)))"

text \<open>The loop of \<open>recv_ack_response\<close> over the packets that were sent: how many from the
  front are covered by the acknowledgement, with their packets dropped. An index past the array
  is undefined.\<close>

fun drop_acked :: "nat \<Rightarrow> u16 \<Rightarrow> output_packet list \<Rightarrow> world \<Rightarrow> (nat \<times> world) result" where
  "drop_acked 0 ack os w = Inr (0, w)"
| "drop_acked (Suc n) ack [] w = Inl UndefinedBehaviour"
| "drop_acked (Suc n) ack (o' # os) w =
     (let ackRequest = op_ackRequest o' + (op_fragCount o' - 1) in
      if ackRequest > ack then Inr (0, w)
      else bindE (drop_packet (op_packet o') w) (\<lambda>w.
           bindE (drop_acked n ack os w) (\<lambda>(i, w). Inr (Suc i, w))))"

definition network_client_trilogy_recv_ack_response ::
  "network_client_trilogy \<Rightarrow> u16 \<Rightarrow> world \<Rightarrow> (network_client_trilogy \<times> world) result" where
  "network_client_trilogy_recv_ack_response c ack w =
     (case nct_outputPackets c of
        None \<Rightarrow> Inl UndefinedBehaviour
      | Some v \<Rightarrow>
          (let ack = toHostUint16 ack; c = c\<lparr>nct_lastAckReceived := ack\<rparr> in
           bindE (drop_acked (unat (nct_sendFromIndex c)) ack (vec_items v) w) (\<lambda>(i, w).
           Inr (if i > 0
                then c\<lparr>nct_outputPackets := Some (vec_shift_left v (of_nat i)), nct_sendFromIndex := 0\<rparr>
                else c, w))))"

text \<open>The comparison is on \<^verbatim>\<open>int\<close>: the successor of the last number is not 0.\<close>

definition network_client_trilogy_recv_ack_request ::
  "network_client_trilogy \<Rightarrow> u16 \<Rightarrow> bool \<Rightarrow> network_client_trilogy" where
  "network_client_trilogy_recv_ack_request c ack isFirstPacket =
     (if isFirstPacket
      then c\<lparr>nct_nextAckResponse := ack, nct_nextAckRequestExpected := ack, nct_nextAckRequestCheck := ack\<rparr>
      else if uint ack = uint (nct_nextAckRequestCheck c) + 1
      then c\<lparr>nct_nextAckResponse := ack, nct_nextAckRequestCheck := ack\<rparr>
      else c)"

definition network_client_trilogy_schedule_packet ::
  "heap \<Rightarrow> network_client_trilogy \<Rightarrow> output_packet \<Rightarrow> world \<Rightarrow> (network_client_trilogy \<times> world) result" where
  "network_client_trilogy_schedule_packet h c o' w =
     bindE (deref_packet w (op_packet o')) (\<lambda>p.
     let w = store_packet w (op_packet o') (Some (packet_trilogy_grab p)) in
     case nct_outputPackets c of
       None \<Rightarrow> Inl UndefinedBehaviour
     | Some v \<Rightarrow> bindE (vec_push h sizeof_OutputPacketTrilogy v o') (\<lambda>v.
                 Inr (c\<lparr>nct_outputPackets := Some v\<rparr>, w)))"

definition network_client_trilogy_send_pure_ack ::
  "network_client_trilogy \<Rightarrow> u16 \<Rightarrow> world \<Rightarrow> network_client_trilogy \<times> world" where
  "network_client_trilogy_send_pure_ack c ackResponse w =
     (let seq = nct_nextSeqToSend c;
          buf = uint16_bytes PacketTrilogyHasAckResponse @ uint16_bytes (toNetworkUint16 seq) @
                uint16_bytes ackResponse;
          buf = buf @ uint32_bytes (crc_calc32_network buf);
          (base, w) = network_client_send (nct_base c) buf w
      in (c\<lparr>nct_nextSeqToSend := seq + 1, nct_base := base\<rparr>, w))"

definition network_client_trilogy_send_disconnect ::
  "network_client_trilogy \<Rightarrow> world \<Rightarrow> network_client_trilogy \<times> world" where
  "network_client_trilogy_send_disconnect c w =
     (let seq = nct_nextSeqToSend c;
          buf = uint16_bytes (PacketTrilogyIsClosing OR PacketTrilogyIsClosing2) @
                uint16_bytes (toNetworkUint16 seq);
          buf = buf @ uint32_bytes (crc_calc32_network buf);
          (base, w) = network_client_send (nct_base c) buf w;
          w = udp_socket_flag_client_to_ignore_all_packets w (nc_udpClientIndex base)
      in (c\<lparr>nct_nextSeqToSend := seq + 1, nct_base := base\<rparr>, w))"

section \<open>Sending a fragment\<close>

text \<open>The header fields are written backwards from the start of the fragment's data; the cursor
  ends up before the header, and the checksum goes behind the data.\<close>

definition write_header ::
  "network_client_trilogy \<Rightarrow> output_packet \<Rightarrow> aligned \<Rightarrow> u16 \<Rightarrow> u16 \<Rightarrow> u32 \<Rightarrow> aligned result" where
  "write_header c o' a opcode ackResponse fragIndex =
     (let header = op_header o' in
      bindE (if fragIndex = 0 \<and> opcode \<noteq> 0 then aligned_write_reverse_uint16 a opcode else Inr a) (\<lambda>a.
      bindE (if has_bit header PacketTrilogyHasAckRequest
             then bindE (aligned_write_reverse_uint8 a (op_ackCounterRequest o' + ucast fragIndex)) (\<lambda>a.
                  aligned_write_reverse_uint8 a (op_ackCounterAlwaysOne o'))
             else Inr a) (\<lambda>a.
      bindE (if has_bit header PacketTrilogyIsFragment
             then bindE (aligned_write_reverse_uint16 a (toNetworkUint16 (op_fragCount o'))) (\<lambda>a.
                  bindE (aligned_write_reverse_uint16 a (toNetworkUint16 (ucast fragIndex))) (\<lambda>a.
                  aligned_write_reverse_uint16 a (toNetworkUint16 (op_fragGroup o'))))
             else Inr a) (\<lambda>a.
      bindE (if has_bit header PacketTrilogyHasAckRequest
             then aligned_write_reverse_uint16 a (toNetworkUint16 (op_ackRequest o' + ucast fragIndex))
             else Inr a) (\<lambda>a.
      bindE (if ackResponse \<noteq> 0 then aligned_write_reverse_uint16 a ackResponse else Inr a) (\<lambda>a.
      bindE (aligned_write_reverse_uint16 a (toNetworkUint16 (nct_nextSeqToSend c))) (\<lambda>a.
      aligned_write_reverse_uint16 a
        (if ackResponse \<noteq> 0 then header OR PacketTrilogyHasAckResponse else header))))))))"

definition network_client_trilogy_send_fragment ::
  "network_client_trilogy \<Rightarrow> output_packet \<Rightarrow> aligned \<Rightarrow> u32 \<Rightarrow> u16 \<Rightarrow> u16 \<Rightarrow> u32 \<Rightarrow> world \<Rightarrow>
   (network_client_trilogy \<times> aligned \<times> world) result" where
  "network_client_trilogy_send_fragment c o' a dataLength opcode ackResponse fragIndex w =
     (let orig = al_cursor a in
      bindE (write_header c o' a opcode ackResponse fragIndex) (\<lambda>a.
      let pos = al_cursor a; dataLength = dataLength + (orig - pos) in
      bindE (aligned_advance a dataLength) (\<lambda>(a, _).
      bindE (mem_read (al_buffer a) (unat pos) (unat dataLength)) (\<lambda>data.
      bindE (aligned_write_uint32 a (crc_calc32_network data)) (\<lambda>a.
      bindE (mem_read (al_buffer a) (unat pos) (unat (dataLength + 4))) (\<lambda>data.
      let (base, w) = network_client_send (nct_base c) data w in
      Inr (c\<lparr>nct_nextSeqToSend := nct_nextSeqToSend c + 1, nct_base := base\<rparr>, a, w)))))))"

section \<open>Sending the queue\<close>

text \<open>Where to resume a fragmented packet that was acknowledged in part.\<close>

fun skip_acked :: "nat \<Rightarrow> u16 \<Rightarrow> u16 \<Rightarrow> u16 \<Rightarrow> u16 \<Rightarrow> aligned \<Rightarrow> (u16 \<times> aligned) result" where
  "skip_acked 0 ackReceived ack fragIndex fragCount a = Inr (fragIndex, a)"
| "skip_acked (Suc k) ackReceived ack fragIndex fragCount a =
     (if ack_compare ackReceived ack \<noteq> AckPast \<and> fragIndex < fragCount
      then bindE (aligned_advance a (DATA_OFFSET + DATA_SPACE - 2 + CRC_SIZE)) (\<lambda>(a, _).
           bindE (if fragIndex > 0 then bindE (aligned_advance a 2) (\<lambda>(a, _). Inr a) else Inr a) (\<lambda>a.
           skip_acked k ackReceived (ack + 1) (fragIndex + 1) fragCount a))
      else Inr (fragIndex, a))"

fun send_fragments ::
  "nat \<Rightarrow> clock \<Rightarrow> network_client_trilogy \<Rightarrow> output_packet \<Rightarrow> aligned \<Rightarrow> u32 \<Rightarrow> u16 \<Rightarrow> u16 \<Rightarrow> u16 \<Rightarrow> world \<Rightarrow>
   (network_client_trilogy \<times> output_packet \<times> aligned \<times> u16 \<times> world) result" where
  "send_fragments 0 clk c o' a dataLength opcode ackResponse fragIndex w = Inr (c, o', a, ackResponse, w)"
| "send_fragments (Suc k) clk c o' a dataLength opcode ackResponse fragIndex w =
     (let space = (if fragIndex = 0 then DATA_SPACE - 2 else DATA_SPACE) in
      bindE (aligned_advance a DATA_OFFSET) (\<lambda>(a, _).
      bindE (network_client_trilogy_send_fragment c o' a (if dataLength > space then space else dataLength)
               opcode ackResponse (ucast fragIndex) w) (\<lambda>(c, a, w).
      let (now, w) = clock_milliseconds clk w in
      send_fragments k clk c (o'\<lparr>op_ackTimestamp := now\<rparr>) a (dataLength - space) opcode 0 (fragIndex + 1) w)))"

text \<open>One packet of the queue. The block written to is the packet's own: its bytes go back to
  the store.\<close>

definition send_one ::
  "clock \<Rightarrow> u64 \<Rightarrow> u32 \<Rightarrow> u16 \<Rightarrow> u32 \<Rightarrow> network_client_trilogy \<Rightarrow> output_packet \<Rightarrow> u16 \<Rightarrow> world \<Rightarrow>
   (network_client_trilogy \<times> output_packet \<times> u16 \<times> world) result" where
  "send_one clk time sendFromIndex ackReceived i c o' ackResponse w =
     bindE (deref_packet w (op_packet o')) (\<lambda>p.
     let fragCount = op_fragCount o';
         a = aligned_init (pt_data p) (packet_trilogy_length_raw p) in
     if i < sendFromIndex \<and> time - op_ackTimestamp o' < EQP_TRILOGY_RESEND_MILLISECONDS
     then Inr (c, o', ackResponse, w)
     else bindE (if i < sendFromIndex \<and> fragCount > 1
                 then skip_acked (unat fragCount) ackReceived (op_ackRequest o') 0 fragCount a
                 else Inr (0, a)) (\<lambda>(fragIndex, a).
          bindE (send_fragments (unat fragCount - unat fragIndex) clk c o' a (pt_dataLength p) (pt_opcode p)
                   ackResponse fragIndex w) (\<lambda>(c, o', a, ackResponse, w).
          Inr (c, o', ackResponse, store_packet w (op_packet o') (Some (p\<lparr>pt_data := al_buffer a\<rparr>))))))"

fun send_all ::
  "clock \<Rightarrow> u64 \<Rightarrow> u32 \<Rightarrow> u16 \<Rightarrow> u32 \<Rightarrow> network_client_trilogy \<Rightarrow> output_packet list \<Rightarrow> u16 \<Rightarrow> world \<Rightarrow>
   (network_client_trilogy \<times> output_packet list \<times> u16 \<times> world) result" where
  "send_all clk time sendFromIndex ackReceived i c [] ackResponse w = Inr (c, [], ackResponse, w)"
| "send_all clk time sendFromIndex ackReceived i c (o' # os) ackResponse w =
     bindE (send_one clk time sendFromIndex ackReceived i c o' ackResponse w) (\<lambda>(c, o', ackResponse, w).
     bindE (send_all clk time sendFromIndex ackReceived (i + 1) c os ackResponse w) (\<lambda>(c, os, ackResponse, w).
     Inr (c, o' # os, ackResponse, w)))"

definition network_client_trilogy_send_queued ::
  "clock \<Rightarrow> network_client_trilogy \<Rightarrow> world \<Rightarrow> (network_client_trilogy \<times> world) result" where
  "network_client_trilogy_send_queued clk c w =
     (case nct_outputPackets c of
        None \<Rightarrow> Inl UndefinedBehaviour
      | Some v \<Rightarrow>
          (let n = vec_count v;
               ackResponse = toNetworkUint16 (nct_nextAckResponse c);
               (time, w) = clock_milliseconds clk w
           in bindE (send_all clk time (nct_sendFromIndex c) (nct_lastAckReceived c) 0 c (vec_items v) ackResponse w)
                (\<lambda>(c, os, ackResponse, w).
              let (c, w) = (if ackResponse \<noteq> 0 then network_client_trilogy_send_pure_ack c ackResponse w else (c, w)) in
              Inr (c\<lparr>nct_outputPackets := Some (v\<lparr>vec_items := os\<rparr>), nct_nextAckResponse := 0,
                     nct_sendFromIndex := n\<rparr>, w))))"

end
