(* ===== verification/Ack_Mgr.thy ===== *)
theory Ack_Mgr
  imports Network_Client
begin

text \<open>
  \<^verbatim>\<open>ack_mgr_trilogy.c\<close>: numbering the outgoing packets, and putting the incoming
  ones back in order. A packet ahead of the expected number waits in \<open>inputPackets\<close>, at
  the distance of its number from the expected one; fragments wait there for the rest of their
  group.
\<close>

section \<open>State\<close>

text \<open>The data pointer of a waiting packet. A freed pointer is not cleared, so using it again is
  a branch of its own.\<close>

datatype input_data = Null | Data bytes | Freed

record input_packet =
  ip_ackRequest :: u16
  ip_fragCount :: u16
  ip_opcode :: u16
  ip_length :: u32
  ip_data :: input_data

record ack_mgr =
  am_client :: network_client_trilogy
  am_nextAckToRequest :: u16
  am_nextFragGroup :: u16
  am_ackCounterAlwaysOne :: u8
  am_ackCounterRequest :: u8
  am_inputPackets :: "input_packet vec option"

definition sizeof_InputPacketTrilogy :: u32 where "sizeof_InputPacketTrilogy = 24"

definition zero_input :: input_packet where
  "zero_input = \<lparr>ip_ackRequest = 0, ip_fragCount = 0, ip_opcode = 0, ip_length = 0, ip_data = Null\<rparr>"

definition ack_mgr_trilogy_init :: "heap \<Rightarrow> int \<Rightarrow> udp_client \<Rightarrow> u32 \<Rightarrow> ack_mgr result" where
  "ack_mgr_trilogy_init h fd udpClient index =
     bindE (network_client_trilogy_init h fd udpClient index) (\<lambda>c.
     bindE (vec_create h sizeof_InputPacketTrilogy) (\<lambda>v.
     Inr \<lparr>am_client = c, am_nextAckToRequest = 0, am_nextFragGroup = 0, am_ackCounterAlwaysOne = 1,
          am_ackCounterRequest = 0, am_inputPackets = Some v\<rparr>))"

definition free_input :: "input_data \<Rightarrow> unit result" where
  "free_input d = (if d = Freed then Inl UndefinedBehaviour else Inr ())"

fun free_inputs :: "input_packet list \<Rightarrow> unit result" where
  "free_inputs [] = Inr ()"
| "free_inputs (p # ps) = bindE (free_input (ip_data p)) (\<lambda>_. free_inputs ps)"

definition ack_mgr_trilogy_deinit :: "ack_mgr \<Rightarrow> world \<Rightarrow> (ack_mgr \<times> world) result" where
  "ack_mgr_trilogy_deinit m w =
     bindE (network_client_trilogy_deinit (am_client m) w) (\<lambda>(c, w).
     case am_inputPackets m of
       None \<Rightarrow> Inr (m\<lparr>am_client := c\<rparr>, w)
     | Some v \<Rightarrow> bindE (free_inputs (vec_items v)) (\<lambda>_.
                 Inr (m\<lparr>am_client := c, am_inputPackets := None\<rparr>, w)))"

section \<open>Receiving\<close>

text \<open>The bytes an application callback can read through the cursor it gets.\<close>

definition rest :: "aligned \<Rightarrow> bytes" where
  "rest a = drop (unat (al_cursor a)) (take (unat (al_length a)) (al_buffer a))"

definition input_bytes :: "input_packet \<Rightarrow> bytes result" where
  "input_bytes p =
     (case ip_data p of
        Null \<Rightarrow> if ip_length p = 0 then Inr [] else Inl UndefinedBehaviour
      | Data d \<Rightarrow> mem_read d 0 (unat (ip_length p))
      | Freed \<Rightarrow> Inl UndefinedBehaviour)"

definition ack_mgr_trilogy_complete_input_packet ::
  "nat option \<Rightarrow> input_packet \<Rightarrow> world \<Rightarrow> (u16 \<times> world) result" where
  "ack_mgr_trilogy_complete_input_packet obj p w =
     bindE (input_bytes p) (\<lambda>d.
     bindE (free_input (ip_data p)) (\<lambda>_.
     Inr (ip_ackRequest p + 1, emit (client_recv_packet_trilogy obj (ip_opcode p) d) w)))"

fun gather :: "input_packet list \<Rightarrow> aligned \<Rightarrow> aligned result" where
  "gather [] a = Inr a"
| "gather (p # ps) a =
     bindE (input_bytes p) (\<lambda>d.
     bindE (aligned_write_buffer a d (ip_length p)) (\<lambda>a.
     bindE (free_input (ip_data p)) (\<lambda>_. gather ps a)))"

definition ack_mgr_trilogy_complete_input_fragments ::
  "heap \<Rightarrow> nat option \<Rightarrow> input_packet list \<Rightarrow> u32 \<Rightarrow> world \<Rightarrow> (u16 \<times> world) result" where
  "ack_mgr_trilogy_complete_input_fragments h obj ps len w =
     bindE (eqp_realloc h 0 [] (unat len)) (\<lambda>data.
     bindE (gather ps (aligned_init data len)) (\<lambda>a.
     Inr (ip_ackRequest (last ps) + 1,
          emit (client_recv_packet_trilogy obj (ip_opcode (hd ps)) (rest (aligned_reset a))) w)))"

text \<open>Expanding the array by empty slots up to the distance of the new packet.\<close>

fun expand :: "nat \<Rightarrow> heap \<Rightarrow> input_packet vec \<Rightarrow> input_packet vec result" where
  "expand 0 h v = Inr v"
| "expand (Suc k) h v = bindE (vec_push h sizeof_InputPacketTrilogy v zero_input) (expand k h)"

text \<open>The completion loop over the waiting packets: \<open>i\<close> is the index, \<open>frags\<close> and
  \<open>len\<close> count the fragments of the current group, \<open>diff\<close> the packets to drop. The
  data of completed packets is freed in place.\<close>

definition mark_freed :: "input_packet list \<Rightarrow> nat \<Rightarrow> nat \<Rightarrow> input_packet list" where
  "mark_freed ps i n = take i ps @ map (\<lambda>p. if ip_data p = Null then p else p\<lparr>ip_data := Freed\<rparr>) (take n (drop i ps)) @
     drop (i + n) ps"

fun complete_loop ::
  "nat \<Rightarrow> heap \<Rightarrow> nat option \<Rightarrow> input_packet list \<Rightarrow> nat \<Rightarrow> u32 \<Rightarrow> u32 \<Rightarrow> u32 \<Rightarrow> u16 \<Rightarrow> world \<Rightarrow>
   (input_packet list \<times> u32 \<times> u16 \<times> world) result" where
  "complete_loop 0 h obj ps i diff frags len nextAck w = Inr (ps, diff, nextAck, w)"
| "complete_loop (Suc k) h obj ps i diff frags len nextAck w =
     (let p = ps ! i; fragCount = ip_fragCount p in
      if ip_ackRequest p = 0 then Inr (ps, diff, nextAck, w)
      else if fragCount = 0
      then bindE (ack_mgr_trilogy_complete_input_packet obj p w) (\<lambda>(nextAck, w).
           complete_loop k h obj (mark_freed ps i 1) (i + 1) (diff + 1) frags len nextAck w)
      else if unat fragCount > length ps then Inr (ps, diff, nextAck, w)
      else (let len = len + ip_length p; frags = frags + 1 in
            if frags = ucast fragCount
            then (let start = i - (unat frags - 1) in
                  bindE (ack_mgr_trilogy_complete_input_fragments h obj (take (unat frags) (drop start ps)) len w)
                    (\<lambda>(nextAck, w).
                  complete_loop k h obj (mark_freed ps start (unat frags)) (i + 1) (diff + frags) 0 0 nextAck w))
            else complete_loop k h obj ps (i + 1) diff frags len nextAck w))"

text \<open>A packet goes to its place, if there is none yet, and the loop runs.\<close>

definition place_packet ::
  "heap \<Rightarrow> ack_mgr \<Rightarrow> input_packet vec \<Rightarrow> u32 \<Rightarrow> aligned \<Rightarrow> nat option \<Rightarrow> u16 \<Rightarrow> u16 \<Rightarrow> u16 \<Rightarrow> world \<Rightarrow>
   (ack_mgr \<times> world) result" where
  "place_packet h m v diff a obj opcode ackRequest fragCount w =
     (case vec_get v diff of
        None \<Rightarrow> Inl UndefinedBehaviour
      | Some ptr \<Rightarrow>
          if ip_ackRequest ptr \<noteq> 0 then Inr (m\<lparr>am_inputPackets := Some v\<rparr>, w)
          else (let len = aligned_remaining a in
            bindE (if len > 0
                   then bindE (eqp_realloc h 0 [] (unat len)) (\<lambda>_.
                        bindE (mem_read (al_buffer a) (unat (al_cursor a)) (unat len)) (\<lambda>d. Inr (Data d)))
                   else Inr Null) (\<lambda>d.
            let ptr = \<lparr>ip_ackRequest = ackRequest, ip_fragCount = fragCount, ip_opcode = opcode,
                       ip_length = len, ip_data = d\<rparr>;
                ps = (vec_items v)[unat diff := ptr]
            in bindE (complete_loop (length ps) h obj ps 0 0 0 0 (nct_nextAckRequestExpected (am_client m)) w)
                 (\<lambda>(ps, diff, nextAck, w).
               let v = v\<lparr>vec_items := ps\<rparr> in
               if diff > 0
               then Inr (m\<lparr>am_inputPackets := Some (vec_shift_left v diff),
                           am_client := (am_client m)\<lparr>nct_nextAckRequestExpected := nextAck\<rparr>\<rparr>, w)
               else Inr (m\<lparr>am_inputPackets := Some v\<rparr>, w)))))"

definition ack_mgr_trilogy_recv_packet ::
  "heap \<Rightarrow> ack_mgr \<Rightarrow> aligned \<Rightarrow> nat option \<Rightarrow> u16 \<Rightarrow> u16 \<Rightarrow> u16 \<Rightarrow> world \<Rightarrow> (ack_mgr \<times> world) result" where
  "ack_mgr_trilogy_recv_packet h m a obj opcode ackRequest fragCount w =
     (let nextAck = nct_nextAckRequestExpected (am_client m) in
      if ackRequest = nextAck \<and> fragCount = 0
      then Inr (m\<lparr>am_client := (am_client m)\<lparr>nct_nextAckRequestExpected := nextAck + 1\<rparr>\<rparr>,
                emit (client_recv_packet_trilogy obj opcode (rest a)) w)
      else if ack_compare ackRequest nextAck = AckPast then Inr (m, w)
      else case am_inputPackets m of
             None \<Rightarrow> Inl UndefinedBehaviour
           | Some v \<Rightarrow>
               (let n = vec_count v;
                    diff = word_of_int (uint ackRequest - uint nextAck) :: u32
                in bindE (if diff \<ge> n then expand (Suc (unat diff) - unat n) h v else Inr v) (\<lambda>v.
                   place_packet h m v diff a obj opcode ackRequest fragCount w)))"

section \<open>Scheduling\<close>

definition ack_mgr_trilogy_schedule_packet ::
  "heap \<Rightarrow> ack_mgr \<Rightarrow> nat \<Rightarrow> bool \<Rightarrow> world \<Rightarrow> (ack_mgr \<times> world) result" where
  "ack_mgr_trilogy_schedule_packet h m ptr noAckRequest w =
     bindE (deref_packet w (Some ptr)) (\<lambda>p.
     let fragCount = pt_fragCount p;
         noAckRequest = (noAckRequest \<and> fragCount = 0);
         fragCount = fragCount + 1;
         ack = (if am_nextAckToRequest m = 0 then 1 else am_nextAckToRequest m);
         o' = \<lparr>op_header = 0, op_ackRequest = 0, op_fragGroup = 0, op_fragCount = fragCount,
               op_ackCounterAlwaysOne = 0, op_ackCounterRequest = 0, op_ackTimestamp = 0,
               op_packet = Some ptr\<rparr>;
         (o', m) =
           (if \<not> noAckRequest
            then (o'\<lparr>op_ackRequest := ack, op_ackCounterAlwaysOne := am_ackCounterAlwaysOne m,
                     op_ackCounterRequest := am_ackCounterRequest m,
                     op_header := op_header o' OR PacketTrilogyHasAckRequest OR PacketTrilogyHasAckCounter\<rparr>,
                  m\<lparr>am_nextAckToRequest := ack + fragCount,
                    am_ackCounterRequest := am_ackCounterRequest m + 1\<rparr>)
            else (o', m));
         (o', m) =
           (if fragCount > 1
            then (o'\<lparr>op_header := op_header o' OR PacketTrilogyIsFragment, op_fragGroup := am_nextFragGroup m\<rparr>,
                  m\<lparr>am_nextFragGroup := am_nextFragGroup m + 1\<rparr>)
            else (o', m))
     in bindE (network_client_trilogy_schedule_packet h (am_client m) o' w) (\<lambda>(c, w).
        Inr (m\<lparr>am_client := c\<rparr>, w)))"

end
