(* ===== verification/Ack_Mgr_Correct.thy ===== *)
theory Ack_Mgr_Correct
  imports Ack_Mgr
begin

text \<open>
  Reassembly: the fragments of a packet, arriving in any order and any number of times, are
  delivered once, complete and in order. \<open>frag_group\<close> fixes a group: its first number, the
  payload and opcode of every fragment. \<open>pending S\<close> describes the manager while the
  fragments in \<open>S\<close> have arrived.
\<close>

section \<open>A group of fragments\<close>

record frag_group =
  fg_first :: u16
  fg_payload :: "bytes list"
  fg_opcode :: "nat \<Rightarrow> u16"

abbreviation fg_count :: "frag_group \<Rightarrow> nat" where
  "fg_count g \<equiv> length (fg_payload g)"

definition group_ok :: "frag_group \<Rightarrow> bool" where
  "group_ok g \<longleftrightarrow> fg_first g \<noteq> 0 \<and> 0 < fg_count g \<and> fg_count g \<le> 1024 \<and> unat (fg_first g) + fg_count g < 65536 \<and>
     (\<forall>d \<in> set (fg_payload g). length d < 65536)"

definition frag_number :: "frag_group \<Rightarrow> nat \<Rightarrow> u16" where
  "frag_number g i = fg_first g + of_nat i"

text \<open>What waits in the array for a fragment that has arrived.\<close>

definition stored :: "frag_group \<Rightarrow> nat \<Rightarrow> input_packet" where
  "stored g i = \<lparr>ip_ackRequest = frag_number g i, ip_fragCount = of_nat (fg_count g), ip_opcode = fg_opcode g i,
     ip_length = of_nat (length (fg_payload g ! i)),
     ip_data = (if fg_payload g ! i = [] then Null else Data (fg_payload g ! i))\<rparr>"

text \<open>A cursor with these bytes left.\<close>

definition carries :: "aligned \<Rightarrow> bytes \<Rightarrow> bool" where
  "carries a d \<longleftrightarrow> aligned_remaining a = of_nat (length d) \<and>
     mem_read (al_buffer a) (unat (al_cursor a)) (length d) = Inr d"

definition pending :: "frag_group \<Rightarrow> nat set \<Rightarrow> ack_mgr \<Rightarrow> bool" where
  "pending g S m \<longleftrightarrow> nct_nextAckRequestExpected (am_client m) = fg_first g \<and>
     (\<exists>v. am_inputPackets m = Some v \<and> vec_ok sizeof_InputPacketTrilogy v \<and> length (vec_items v) \<le> fg_count g \<and>
       S \<subseteq> {..<length (vec_items v)} \<and>
       (\<forall>i < length (vec_items v). vec_items v ! i = (if i \<in> S then stored g i else zero_input)))"

definition completed :: "frag_group \<Rightarrow> ack_mgr \<Rightarrow> bool" where
  "completed g m \<longleftrightarrow> nct_nextAckRequestExpected (am_client m) = fg_first g + of_nat (fg_count g) \<and>
     (\<exists>v. am_inputPackets m = Some v \<and> vec_items v = [])"

lemma frag_number_unat: "group_ok g \<Longrightarrow> i \<le> fg_count g \<Longrightarrow> unat (frag_number g i) = unat (fg_first g) + i"
  by (subst frag_number_def, subst unat_add_u16_cases) (auto simp: group_ok_def)

lemma frag_number_nonzero: "group_ok g \<Longrightarrow> i \<le> fg_count g \<Longrightarrow> frag_number g i \<noteq> 0"
  using frag_number_unat [of g i] unsigned_eq_0_iff [of "fg_first g"] by (auto simp: group_ok_def)

lemma unat_fg_count: "group_ok g \<Longrightarrow> unat (of_nat (fg_count g) :: u16) = fg_count g"
  by (intro unat_of_nat_u16) (simp add: group_ok_def)

lemma fg_count_nonzero: "group_ok g \<Longrightarrow> (of_nat (fg_count g) :: u16) \<noteq> 0"
  using unat_fg_count [of g] by (auto simp: group_ok_def)

section \<open>Gathering\<close>

lemma input_bytes_stored: "group_ok g \<Longrightarrow> i < fg_count g \<Longrightarrow> input_bytes (stored g i) = Inr (fg_payload g ! i)"
proof -
  assume g: "group_ok g" and i: "i < fg_count g"
  have "fg_payload g ! i \<in> set (fg_payload g)" using i by simp
  then have "length (fg_payload g ! i) < 65536" using g unfolding group_ok_def by blast
  then have "unat (of_nat (length (fg_payload g ! i)) :: u32) = length (fg_payload g ! i)" by (intro unat_of_nat_u32) simp
  then show ?thesis by (simp add: input_bytes_def stored_def mem_read_def slice_def)
qed

definition total :: "bytes list \<Rightarrow> nat" where
  "total ds = length (concat ds)"

lemma total_simps [simp]: "total [] = 0" "total (d # ds) = length d + total ds" "total (ds @ es) = total ds + total es"
  by (simp_all add: total_def)

lemma total_bound: "\<forall>d \<in> set ds. length d < 65536 \<Longrightarrow> total ds \<le> 65535 * length ds"
  by (induction ds) auto

lemma gather_spec:
  assumes "\<forall>p \<in> set ps. \<exists>d. input_bytes p = Inr d \<and> ip_length p = of_nat (length d) \<and> ip_data p \<noteq> Freed"
    "unat (al_cursor a) + total (map (\<lambda>p. projr (input_bytes p)) ps) \<le> length (al_buffer a)"
    "unat (al_length a) = length (al_buffer a)"
  shows "\<exists>a'. gather ps a = Inr a' \<and> al_length a' = al_length a \<and>
    al_buffer a' = overwrite (al_buffer a) (unat (al_cursor a)) (concat (map (\<lambda>p. projr (input_bytes p)) ps))"
  using assms
proof (induction ps arbitrary: a)
  case Nil
  then show ?case by (simp add: overwrite_def)
next
  case (Cons p ps)
  obtain d where d: "input_bytes p = Inr d" "ip_length p = of_nat (length d)" "ip_data p \<noteq> Freed"
    using Cons.prems(1) by auto
  let ?c = "unat (al_cursor a)" and ?b = "al_buffer a" and ?t = "total (map (\<lambda>p. projr (input_bytes p)) ps)"
  have fit: "?c + length d + ?t \<le> length ?b" using Cons.prems(2) d(1) by simp
  have lb: "length ?b < 4294967296" using Cons.prems(3) unat_lt_u32 [of "al_length a"] by linarith
  then have ul: "unat (of_nat (length d) :: u32) = length d" using fit by (intro unat_of_nat_u32) simp
  have uc: "unat (al_cursor a + of_nat (length d)) = ?c + length d"
    using fit lb ul by (subst unat_add_u32) simp_all
  let ?a = "a\<lparr>al_cursor := al_cursor a + of_nat (length d), al_buffer := overwrite ?b ?c d\<rparr>"
  have adv: "\<not> al_length a < al_cursor a + of_nat (length d)"
    using uc fit Cons.prems(3) by (simp add: word_less_nat_alt)
  have wr: "aligned_write_buffer a d (ip_length p) = Inr ?a"
    using adv fit ul d(2) by (simp add: aligned_write_buffer_def aligned_advance_def Let_def mem_read_def slice_def
        aligned_store_def mem_write_def)
  have lo: "length (overwrite ?b ?c d) = length ?b" using fit by simp
  have "\<exists>a'. gather ps ?a = Inr a' \<and> al_length a' = al_length ?a \<and>
      al_buffer a' = overwrite (al_buffer ?a) (unat (al_cursor ?a)) (concat (map (\<lambda>p. projr (input_bytes p)) ps))"
    using Cons.prems fit lo uc by (intro Cons.IH) auto
  then obtain a' where a': "gather ps ?a = Inr a'" "al_length a' = al_length a"
      "al_buffer a' = overwrite (overwrite ?b ?c d) (?c + length d) (concat (map (\<lambda>p. projr (input_bytes p)) ps))"
    using uc by auto
  moreover have "overwrite (overwrite ?b ?c d) (?c + length d) (concat (map (\<lambda>p. projr (input_bytes p)) ps)) =
      overwrite ?b ?c (d @ concat (map (\<lambda>p. projr (input_bytes p)) ps))"
    using fit by (simp add: overwrite_def ac_simps)
  ultimately show ?case using d wr by (simp add: free_input_def)
qed

section \<open>The completion loop\<close>

lemma stored_simps [simp]:
  "ip_ackRequest (stored g i) = frag_number g i" "ip_fragCount (stored g i) = of_nat (fg_count g)"
  "ip_length (stored g i) = of_nat (length (fg_payload g ! i))" "ip_opcode (stored g i) = fg_opcode g i"
  "ip_data (stored g i) \<noteq> Freed"
  by (simp_all add: stored_def)

lemma zero_input_ack [simp]: "ip_ackRequest zero_input = 0"
  by (simp add: zero_input_def)

text \<open>While the array is too short, or up to the first gap, nothing happens.\<close>

lemma loop_short:
  assumes "group_ok g" "length ps < fg_count g" "\<forall>i < length ps. ps ! i = stored g i \<or> ps ! i = zero_input"
  shows "complete_loop (length ps) h obj ps 0 0 0 0 e w = Inr (ps, 0, e, w)"
proof (cases "length ps")
  case (Suc k)
  then have "ps ! 0 = stored g 0 \<or> ps ! 0 = zero_input" using assms(3) by simp
  then show ?thesis using assms(1,2) unat_fg_count [OF assms(1)] fg_count_nonzero [OF assms(1)]
    by (auto simp: Suc Let_def)
qed simp

lemma loop_gap:
  assumes g: "group_ok g" and len: "length ps = fg_count g" and gap: "j < fg_count g" "ps ! j = zero_input"
    and pre: "\<forall>i < j. ps ! i = stored g i"
  shows "i \<le> j \<Longrightarrow> complete_loop (fg_count g - i) h obj ps i 0 (of_nat i) l e w = Inr (ps, 0, e, w)"
proof (induction "j - i" arbitrary: i l)
  case 0
  then have "i = j" by simp
  moreover obtain k where "fg_count g - j = Suc k" using gap(1) by (metis Suc_diff_Suc)
  ultimately show ?case using gap(2) by (simp add: Let_def)
next
  case (Suc n)
  then have i: "i < j" by simp
  then obtain k where k: "fg_count g - i = Suc k" "fg_count g - Suc i = k" using gap(1) by (metis Suc_diff_Suc less_trans)
  have p: "ps ! i = stored g i" using pre i by simp
  have nz: "frag_number g i \<noteq> 0" using frag_number_nonzero [OF g, of i] i gap(1) by simp
  have ui: "unat (of_nat i + 1 :: u32) = Suc i"
    using i gap(1) g by (subst unat_Suc_u32) (auto simp: unat_of_nat_u32 group_ok_def)
  have "unat (ucast (of_nat (fg_count g) :: u16) :: u32) = fg_count g" using unat_fg_count [OF g] by (simp add: unat_ucast_up)
  then have ne: "of_nat i + 1 \<noteq> (ucast (of_nat (fg_count g) :: u16) :: u32)" using ui i gap(1) by (metis Suc_lessI less_irrefl less_trans_Suc)
  have "(of_nat i + 1 :: u32) = of_nat (Suc i)" by simp
  then show ?case
    using Suc.hyps(1) [of "Suc i" "l + of_nat (length (fg_payload g ! i))"] Suc.hyps(2) i k p nz ne len
      unat_fg_count [OF g] fg_count_nonzero [OF g]
    by (simp add: Let_def add.commute)
qed

definition delivery :: "frag_group \<Rightarrow> nat option \<Rightarrow> event" where
  "delivery g obj = client_recv_packet_trilogy obj (fg_opcode g 0) (concat (fg_payload g))"

lemma total_group: "group_ok g \<Longrightarrow> unat (of_nat (total (fg_payload g)) :: u32) = total (fg_payload g)"
proof -
  assume g: "group_ok g"
  then have "total (fg_payload g) \<le> 65535 * fg_count g" by (intro total_bound) (simp add: group_ok_def)
  also have "\<dots> \<le> 65535 * 1024" using g by (simp add: group_ok_def)
  finally show ?thesis by (intro unat_of_nat_u32) simp
qed

lemma complete_fragments_spec:
  assumes g: "group_ok g" and h: "ample h" and ps: "ps = map (stored g) [0..<fg_count g]"
  shows "ack_mgr_trilogy_complete_input_fragments h obj ps (of_nat (total (fg_payload g))) w =
    Inr (fg_first g + of_nat (fg_count g), emit (delivery g obj) w)"
proof -
  let ?t = "total (fg_payload g)"
  note ut = total_group [OF g]
  obtain data where data: "eqp_realloc h 0 [] ?t = Inr data" "length data = ?t"
    using h by (auto simp: eqp_realloc_def ample_def)
  have pl: "map (\<lambda>p. projr (input_bytes p)) ps = fg_payload g"
    unfolding ps by (rule nth_equalityI) (simp_all add: input_bytes_stored [OF g])
  let ?a = "aligned_init data (of_nat ?t)"
  have "\<exists>a'. gather ps ?a = Inr a' \<and> al_length a' = al_length ?a \<and>
      al_buffer a' = overwrite (al_buffer ?a) (unat (al_cursor ?a)) (concat (map (\<lambda>p. projr (input_bytes p)) ps))"
  proof (rule gather_spec)
    show "\<forall>p \<in> set ps. \<exists>d. input_bytes p = Inr d \<and> ip_length p = of_nat (length d) \<and> ip_data p \<noteq> Freed"
      unfolding ps using input_bytes_stored [OF g] by auto
  qed (use data(2) pl ut in \<open>simp_all add: aligned_init_def aligned_init_cursor_def\<close>)
  then obtain a' where a': "gather ps ?a = Inr a'" "al_length a' = of_nat ?t" "al_buffer a' = overwrite data 0 (concat (fg_payload g))"
    unfolding pl by (auto simp: aligned_init_def aligned_init_cursor_def)
  have "al_buffer a' = concat (fg_payload g)" unfolding a'(3) using data(2) by (simp add: overwrite_def total_def)
  then have rest: "rest (aligned_reset a') = concat (fg_payload g)"
    using a'(2) ut by (simp add: rest_def aligned_reset_def total_def)
  obtain k where k: "fg_count g = Suc k" using g by (cases "fg_count g") (auto simp: group_ok_def)
  have "last ps = stored g k" "hd ps = stored g 0"
    unfolding ps k by (simp, simp only: upt_conv_Cons [OF zero_less_Suc] list.map list.sel)
  then have "ip_ackRequest (last ps) + 1 = fg_first g + of_nat (fg_count g)" "ip_opcode (hd ps) = fg_opcode g 0"
    unfolding k by (simp_all add: frag_number_def)
  then show ?thesis using data(1) a'(1) rest ut
    by (simp add: ack_mgr_trilogy_complete_input_fragments_def delivery_def)
qed

lemma loop_full:
  assumes g: "group_ok g" and h: "ample h" and ps: "ps = map (stored g) [0..<fg_count g]"
  shows "i < fg_count g \<Longrightarrow>
    complete_loop (fg_count g - i) h obj ps i 0 (of_nat i) (of_nat (total (take i (fg_payload g)))) e w =
      Inr (mark_freed ps 0 (fg_count g), of_nat (fg_count g), fg_first g + of_nat (fg_count g), emit (delivery g obj) w)"
proof (induction "fg_count g - i" arbitrary: i)
  case (Suc n)
  have k: "fg_count g - i = Suc n" "fg_count g - Suc i = n" using Suc.hyps(2) by simp_all
  have len: "length ps = fg_count g" and p: "ps ! i = stored g i" using ps Suc.prems by simp_all
  have nz: "frag_number g i \<noteq> 0" using frag_number_nonzero [OF g, of i] Suc.prems by simp
  have ui: "unat (of_nat (Suc i) :: u32) = Suc i"
    using Suc.prems g by (intro unat_of_nat_u32) (auto simp: group_ok_def)
  have uc: "unat (ucast (of_nat (fg_count g) :: u16) :: u32) = fg_count g" using unat_fg_count [OF g] by (simp add: unat_ucast_up)
  have tk: "of_nat (total (take i (fg_payload g))) + of_nat (length (fg_payload g ! i)) = (of_nat (total (take (Suc i) (fg_payload g))) :: u32)"
    using Suc.prems by (simp add: take_Suc_conv_app_nth)
  have fr: "of_nat i + 1 = (of_nat (Suc i) :: u32)" by simp
  show ?case
  proof (cases "Suc i = fg_count g")
    case True
    then have "n = 0" "take (Suc i) (fg_payload g) = fg_payload g" using k by simp_all
    moreover have "(of_nat (Suc i) :: u32) = ucast (of_nat (fg_count g) :: u16)" using ui uc True by (simp add: word_unat_eq_iff)
    ultimately show ?thesis
      using k p nz len unat_fg_count [OF g] fg_count_nonzero [OF g] tk True uc complete_fragments_spec [OF g h ps]
      by (simp add: Let_def fr del: of_nat_Suc)
  next
    case False
    have "(of_nat (Suc i) :: u32) \<noteq> ucast (of_nat (fg_count g) :: u16)" using ui uc False by metis
    then have "complete_loop (fg_count g - i) h obj ps i 0 (of_nat i) (of_nat (total (take i (fg_payload g)))) e w =
        complete_loop n h obj ps (Suc i) 0 (of_nat (Suc i)) (of_nat (total (take (Suc i) (fg_payload g)))) e w"
      using k p nz len unat_fg_count [OF g] fg_count_nonzero [OF g] tk False
      by (simp add: Let_def fr del: of_nat_Suc)
    then show ?thesis using Suc.hyps(1) [of "Suc i"] Suc.prems k False by simp
  qed
qed simp

section \<open>Receiving a fragment\<close>

lemma expand_spec:
  "vec_ok sizeof_InputPacketTrilogy v \<Longrightarrow> ample h \<Longrightarrow> 48 * (length (vec_items v) + k) < 2 ^ 32 \<Longrightarrow>
   \<exists>v'. expand k h v = Inr v' \<and> vec_ok sizeof_InputPacketTrilogy v' \<and> vec_items v' = vec_items v @ replicate k zero_input"
proof (induction k arbitrary: v)
  case (Suc k)
  have sz: "unat sizeof_InputPacketTrilogy = 24" by (simp add: sizeof_InputPacketTrilogy_def)
  obtain v1 where v1: "vec_push h sizeof_InputPacketTrilogy v zero_input = Inr v1" "vec_ok sizeof_InputPacketTrilogy v1"
    "vec_items v1 = vec_items v @ [zero_input]"
    using vec_push_ample [OF Suc.prems(1,2), of zero_input] Suc.prems(3) sz by auto
  then show ?case using Suc.IH [of v1] Suc.prems by (auto simp: replicate_append_same)
qed simp

lemma make_room:
  assumes ok: "vec_ok sizeof_InputPacketTrilogy v" and h: "ample h" and j: "j < 1024" and n: "length (vec_items v) \<le> 1024"
    and S: "S \<subseteq> {..<length (vec_items v)}" and it: "\<forall>i < length (vec_items v). vec_items v ! i = (if i \<in> S then f i else zero_input)"
  shows "\<exists>v1. (if of_nat j \<ge> vec_count v then expand (Suc (unat (of_nat j :: u32)) - unat (vec_count v)) h v else Inr v) = Inr v1 \<and>
    vec_ok sizeof_InputPacketTrilogy v1 \<and> length (vec_items v1) = max (length (vec_items v)) (Suc j) \<and>
    (\<forall>i < length (vec_items v1). vec_items v1 ! i = (if i \<in> S then f i else zero_input))"
proof -
  let ?n = "length (vec_items v)"
  have uj: "unat (of_nat j :: u32) = j" using j by (intro unat_of_nat_u32) simp
  note cnt = vec_count_unat [OF ok]
  show ?thesis
  proof (cases "?n \<le> j")
    case True
    then obtain v1 where v1: "expand (Suc j - ?n) h v = Inr v1" "vec_ok sizeof_InputPacketTrilogy v1"
      "vec_items v1 = vec_items v @ replicate (Suc j - ?n) zero_input"
      using expand_spec [OF ok h, of "Suc j - ?n"] j n by auto
    have "vec_items v1 ! i = (if i \<in> S then f i else zero_input)" if "i < length (vec_items v1)" for i
      using v1(3) it S that by (cases "i < ?n") (auto simp: nth_append)
    then show ?thesis using v1 True cnt uj by (auto simp: word_le_nat_alt)
  next
    case False
    then show ?thesis using ok it cnt uj by (auto simp: word_le_nat_alt max_def)
  qed
qed

lemma recv_diff: "group_ok g \<Longrightarrow> j < fg_count g \<Longrightarrow>
   (word_of_int (uint (frag_number g j) - uint (fg_first g)) :: u32) = of_nat j"
  by (simp only: uint_nat) (simp add: frag_number_unat)

lemma recv_not_past: "group_ok g \<Longrightarrow> j < fg_count g \<Longrightarrow> ack_compare (frag_number g j) (fg_first g) \<noteq> AckPast"
  using ack_compare_ahead [of j "fg_first g"] by (cases "j = 0") (auto simp: frag_number_def group_ok_def ack_compare_def)

text \<open>The array with the new fragment in it goes through the loop: it completes the group, or
  nothing happens.\<close>

lemma loop_group:
  assumes g: "group_ok g" and h: "ample h" and len: "length ps \<le> fg_count g" and S: "S \<subseteq> {..<length ps}"
    and it: "\<forall>i < length ps. ps ! i = (if i \<in> S then stored g i else zero_input)"
  shows "complete_loop (length ps) h obj ps 0 0 0 0 e w =
    (if S = {..<fg_count g}
     then Inr (mark_freed ps 0 (fg_count g), of_nat (fg_count g), fg_first g + of_nat (fg_count g), emit (delivery g obj) w)
     else Inr (ps, 0, e, w))"
proof (cases "length ps = fg_count g")
  case False
  then have "S \<noteq> {..<fg_count g}" using S len by auto
  then show ?thesis using loop_short [OF g, of ps] False len it by auto
next
  case eq: True
  show ?thesis
  proof (cases "S = {..<fg_count g}")
    case True
    then have "ps = map (stored g) [0..<fg_count g]" using it eq by (intro nth_equalityI) auto
    from loop_full [OF g h this, of 0 obj e w] show ?thesis using True eq g by (simp add: group_ok_def)
  next
    case False
    then obtain i where "i < fg_count g" "i \<notin> S" using S eq by auto
    then obtain j where j: "j < fg_count g" "j \<notin> S" "\<forall>i < j. i \<in> S"
      using exists_least_iff [of "\<lambda>i. i < fg_count g \<and> i \<notin> S"] by (metis less_trans)
    then have "ps ! j = zero_input" "\<forall>i < j. ps ! i = stored g i" using it eq by auto
    from loop_gap [OF g eq j(1) this, of 0 h obj 0 e w] show ?thesis using False eq by simp
  qed
qed

lemma recv_pending:
  assumes g: "group_ok g" and h: "ample h" and m: "pending g S m" and j: "j < fg_count g" and S: "S \<noteq> {..<fg_count g}"
    and a: "carries a (fg_payload g ! j)"
  shows "\<exists>m'. ack_mgr_trilogy_recv_packet h m a obj (fg_opcode g j) (frag_number g j) (of_nat (fg_count g)) w =
      Inr (m', if insert j S = {..<fg_count g} then emit (delivery g obj) w else w) \<and>
    (if insert j S = {..<fg_count g} then completed g m' else pending g (insert j S) m')"
proof -
  obtain v where v: "nct_nextAckRequestExpected (am_client m) = fg_first g" "am_inputPackets m = Some v"
    "vec_ok sizeof_InputPacketTrilogy v" "length (vec_items v) \<le> fg_count g" "S \<subseteq> {..<length (vec_items v)}"
    "\<forall>i < length (vec_items v). vec_items v ! i = (if i \<in> S then stored g i else zero_input)"
    using m unfolding pending_def by blast
  have small: "j < 1024" "length (vec_items v) \<le> 1024" "fg_count g \<le> 1024" using j v(4) g by (auto simp: group_ok_def)
  from make_room [OF v(3) h small(1,2) v(5,6)] obtain v1 where
    v1: "(if of_nat j \<ge> vec_count v then expand (Suc (unat (of_nat j :: u32)) - unat (vec_count v)) h v else Inr v) = Inr v1"
      "vec_ok sizeof_InputPacketTrilogy v1" "length (vec_items v1) = max (length (vec_items v)) (Suc j)"
      "\<forall>i < length (vec_items v1). vec_items v1 ! i = (if i \<in> S then stored g i else zero_input)" by blast
  let ?ps = "vec_items v1"
  have uj: "unat (of_nat j :: u32) = j" using small by (intro unat_of_nat_u32) simp
  have jl: "j < length ?ps" "length ?ps \<le> fg_count g" "S \<subseteq> {..<length ?ps}" using v1(3) v(4,5) j by auto
  have get: "vec_get v1 (of_nat j) = Some (?ps ! j)" using jl uj by (simp add: vec_get_def)
  have place: "ack_mgr_trilogy_recv_packet h m a obj (fg_opcode g j) (frag_number g j) (of_nat (fg_count g)) w =
      place_packet h m v1 (of_nat j) a obj (fg_opcode g j) (frag_number g j) (of_nat (fg_count g)) w"
    unfolding ack_mgr_trilogy_recv_packet_def v(1,2) Let_def recv_diff [OF g j] option.case
    by (simp only: recv_not_past [OF g j] fg_count_nonzero [OF g] v1(1) if_False simp_thms bindE.simps)
  note hd = place place_packet_def v(1) Let_def
  show ?thesis
  proof (cases "j \<in> S")
    case True
    then have ins: "insert j S = S" by blast
    have "ip_ackRequest (?ps ! j) \<noteq> 0" using True v1(4) jl frag_number_nonzero [OF g, of j] j by simp
    then have "ack_mgr_trilogy_recv_packet h m a obj (fg_opcode g j) (frag_number g j) (of_nat (fg_count g)) w =
        Inr (m\<lparr>am_inputPackets := Some v1\<rparr>, w)" using get by (simp add: hd)
    moreover have "pending g S (m\<lparr>am_inputPackets := Some v1\<rparr>)" using v(1) v1 jl by (auto simp: pending_def)
    ultimately show ?thesis using S ins by auto
  next
    case False
    let ?d = "fg_payload g ! j"
    let ?qs = "?ps[j := stored g j]"
    have "ip_ackRequest (?ps ! j) = 0" using False v1(4) jl by simp
    have "?d \<in> set (fg_payload g)" using j by simp
    then have ld: "length ?d < 65536" using g unfolding group_ok_def by blast
    have ud: "unat (of_nat (length ?d) :: u32) = length ?d" using ld by (intro unat_of_nat_u32) simp
    have store: "(if aligned_remaining a > 0
        then bindE (eqp_realloc h 0 [] (unat (aligned_remaining a))) (\<lambda>_.
             bindE (mem_read (al_buffer a) (unat (al_cursor a)) (unat (aligned_remaining a))) (\<lambda>d. Inr (Data d)))
        else Inr Null) = Inr (ip_data (stored g j))"
      using a ud h by (auto simp: carries_def eqp_realloc_def ample_def stored_def word_less_nat_alt)
    have ptr: "\<lparr>ip_ackRequest = frag_number g j, ip_fragCount = of_nat (fg_count g), ip_opcode = fg_opcode g j,
        ip_length = aligned_remaining a, ip_data = ip_data (stored g j)\<rparr> = stored g j"
      using a by (simp add: stored_def carries_def)
    have it: "\<forall>i < length ?qs. ?qs ! i = (if i \<in> insert j S then stored g i else zero_input)"
      using v1(4) jl(1) by (auto simp: nth_list_update)
    have "length ?qs \<le> fg_count g" "insert j S \<subseteq> {..<length ?qs}" using jl by auto
    note lg = loop_group [OF g h this it, of obj "fg_first g" w]
    show ?thesis
    proof (cases "insert j S = {..<fg_count g}")
      case True
      have lq: "length ?ps = fg_count g" using jl True by (metis insert_subset lessThan_iff lessThan_subset_iff le_antisym)
      let ?m = "m\<lparr>am_inputPackets := Some (vec_shift_left (v1\<lparr>vec_items := mark_freed ?qs 0 (fg_count g)\<rparr>) (of_nat (fg_count g))),
          am_client := (am_client m)\<lparr>nct_nextAckRequestExpected := fg_first g + of_nat (fg_count g)\<rparr>\<rparr>"
      have uk: "unat (of_nat (fg_count g) :: u32) = fg_count g" using small by (intro unat_of_nat_u32) simp
      then have pos: "(of_nat (fg_count g) :: u32) > 0" using j by (auto simp: word_less_nat_alt)
      have "ack_mgr_trilogy_recv_packet h m a obj (fg_opcode g j) (frag_number g j) (of_nat (fg_count g)) w =
          Inr (?m, emit (delivery g obj) w)"
        using get \<open>ip_ackRequest (?ps ! j) = 0\<close> store ptr lg True jl pos uj by (simp add: hd)
      moreover have "completed g ?m"
        using uk lq by (simp add: completed_def vec_shift_left_def mark_freed_def)
      ultimately show ?thesis using True by auto
    next
      case ne: False
      have "ack_mgr_trilogy_recv_packet h m a obj (fg_opcode g j) (frag_number g j) (of_nat (fg_count g)) w =
          Inr (m\<lparr>am_inputPackets := Some (v1\<lparr>vec_items := ?qs\<rparr>)\<rparr>, w)"
        using get \<open>ip_ackRequest (?ps ! j) = 0\<close> store ptr lg ne jl uj by (simp add: hd)
      moreover have "pending g (insert j S) (m\<lparr>am_inputPackets := Some (v1\<lparr>vec_items := ?qs\<rparr>)\<rparr>)"
        using v(1) v1(2) jl it by (auto simp: pending_def vec_ok_def)
      ultimately show ?thesis using ne by auto
    qed
  qed
qed

lemma recv_completed:
  assumes g: "group_ok g" and m: "completed g m" and j: "j < fg_count g"
  shows "ack_mgr_trilogy_recv_packet h m a obj opc (frag_number g j) (of_nat (fg_count g)) w = Inr (m, w)"
proof -
  have "fg_first g + of_nat (fg_count g) = frag_number g j + of_nat (fg_count g - j)"
    using j by (simp add: frag_number_def of_nat_diff)
  moreover have "0 < fg_count g - j" "fg_count g - j \<le> 1024" using j g by (auto simp: group_ok_def)
  ultimately have "ack_compare (frag_number g j) (fg_first g + of_nat (fg_count g)) = AckPast"
    using ack_compare_behind by metis
  then show ?thesis using m fg_count_nonzero [OF g] by (simp add: ack_mgr_trilogy_recv_packet_def completed_def Let_def)
qed

section \<open>A stream of fragments\<close>

primrec recv_fragments ::
  "heap \<Rightarrow> frag_group \<Rightarrow> nat option \<Rightarrow> (nat \<times> aligned) list \<Rightarrow> ack_mgr \<Rightarrow> world \<Rightarrow> (ack_mgr \<times> world) result" where
  "recv_fragments h g obj [] m w = Inr (m, w)"
| "recv_fragments h g obj (x # xs) m w =
     bindE (ack_mgr_trilogy_recv_packet h m (snd x) obj (fg_opcode g (fst x)) (frag_number g (fst x)) (of_nat (fg_count g)) w)
       (\<lambda>(m, w). recv_fragments h g obj xs m w)"

lemma recv_fragments_completed:
  "group_ok g \<Longrightarrow> completed g m \<Longrightarrow> \<forall>x \<in> set xs. fst x < fg_count g \<Longrightarrow> recv_fragments h g obj xs m w = Inr (m, w)"
  by (induction xs) (simp_all add: recv_completed)

lemma recv_fragments_spec:
  assumes "group_ok g" "ample h" "pending g S m" "S \<subset> {..<fg_count g}"
    "\<forall>x \<in> set xs. fst x < fg_count g \<and> carries (snd x) (fg_payload g ! fst x)"
  shows "\<exists>m'. recv_fragments h g obj xs m w =
      Inr (m', if S \<union> fst ` set xs = {..<fg_count g} then emit (delivery g obj) w else w) \<and>
    (if S \<union> fst ` set xs = {..<fg_count g} then completed g m' else pending g (S \<union> fst ` set xs) m')"
  using assms(3-)
proof (induction xs arbitrary: S m w)
  case Nil
  then show ?case by auto
next
  case (Cons x xs)
  have x: "fst x < fg_count g" "carries (snd x) (fg_payload g ! fst x)" "S \<noteq> {..<fg_count g}"
    using Cons.prems by auto
  from recv_pending [OF assms(1,2) Cons.prems(1) x(1,3,2), of obj w] obtain m1 where
    m1: "ack_mgr_trilogy_recv_packet h m (snd x) obj (fg_opcode g (fst x)) (frag_number g (fst x)) (of_nat (fg_count g)) w =
        Inr (m1, if insert (fst x) S = {..<fg_count g} then emit (delivery g obj) w else w)"
      "if insert (fst x) S = {..<fg_count g} then completed g m1 else pending g (insert (fst x) S) m1" by blast
  have un: "S \<union> fst ` set (x # xs) = insert (fst x) S \<union> fst ` set xs" by auto
  show ?case
  proof (cases "insert (fst x) S = {..<fg_count g}")
    case True
    then have "S \<union> fst ` set (x # xs) = {..<fg_count g}" unfolding un using Cons.prems(3) by auto
    then show ?thesis using m1 True recv_fragments_completed [OF assms(1), of m1 xs h obj] Cons.prems(3) by auto
  next
    case False
    then have "insert (fst x) S \<subset> {..<fg_count g}" using x(1) Cons.prems(2) by auto
    with Cons.IH [of "insert (fst x) S" m1 w] m1 False Cons.prems(3) show ?thesis unfolding un by auto
  qed
qed

lemma pending_empty:
  "nct_nextAckRequestExpected (am_client m) = fg_first g \<Longrightarrow> am_inputPackets m = Some v \<Longrightarrow>
   vec_ok sizeof_InputPacketTrilogy v \<Longrightarrow> vec_items v = [] \<Longrightarrow> pending g {} m"
  by (simp add: pending_def)

section \<open>Numbers from before the window\<close>

lemma expand_bound:
  "vec_ok sizeof_InputPacketTrilogy v \<Longrightarrow> expand k h v = Inr v' \<Longrightarrow>
   vec_ok sizeof_InputPacketTrilogy v' \<and> length (vec_items v') = length (vec_items v) + k"
proof (induction k arbitrary: v)
  case (Suc k)
  then obtain v1 where v1: "vec_push h sizeof_InputPacketTrilogy v zero_input = Inr v1" "expand k h v1 = Inr v'"
    by (auto simp: result_simps)
  moreover have "vec_ok sizeof_InputPacketTrilogy v1 \<and> length (vec_items v1) = Suc (length (vec_items v))"
    by (rule vec_push_ok [OF Suc.prems(1) v1(1)])
  ultimately show ?case using Suc.IH [of v1] by simp
qed simp

text \<open>A number more than half a window behind counts as one ahead, and its distance wraps: the array
  would have to grow to four thousand million slots, and no heap has them.\<close>

lemma recv_ancient:
  assumes "vec_ok sizeof_InputPacketTrilogy v" "am_inputPackets m = Some v"
    "unat ackRequest + 1024 < unat (nct_nextAckRequestExpected (am_client m))"
  shows "\<exists>e. ack_mgr_trilogy_recv_packet h m a obj opcode ackRequest fragCount w = Inl e"
proof -
  let ?e = "nct_nextAckRequestExpected (am_client m)"
  let ?diff = "word_of_int (uint ackRequest - uint ?e) :: u32"
  have future: "ack_compare ackRequest ?e = AckFuture" "ackRequest \<noteq> ?e" using assms(3) by (auto simp: ack_compare_nat)
  have "uint ?diff = (uint ackRequest - uint ?e) mod 4294967296" by (simp only: uint_word_of_int) simp
  also have "\<dots> = uint ackRequest - uint ?e + 4294967296"
  proof -
    have "uint ackRequest < uint ?e" "uint ?e < 65536" "0 \<le> uint ackRequest"
      using assms(3) uint_lt2p [of ?e] by (simp_all only: uint_nat) simp_all
    then have "(uint ackRequest - uint ?e + 4294967296) mod 4294967296 = uint ackRequest - uint ?e + 4294967296"
      by (intro mod_pos_pos_trivial) linarith+
    then show ?thesis by simp
  qed
  finally have diff: "uint ?diff = uint ackRequest - uint ?e + 4294967296" .
  have "uint ?e < 65536" using uint_lt2p [of ?e] by simp
  then have "uint ?diff \<ge> 4294901760" using diff uint_nonnegative [of ackRequest] by linarith
  then have big: "unat ?diff \<ge> 4294901760" by (simp only: uint_nat)
  have cap: "length (vec_items v') * 24 < 4294967296" if "vec_ok sizeof_InputPacketTrilogy v'" for v' :: "input_packet vec"
  proof -
    have "length (vec_items v') * 24 \<le> unat (vec_capacity v') * 24" using that by (simp add: vec_ok_def)
    then show ?thesis using that by (simp add: vec_ok_def sizeof_InputPacketTrilogy_def)
  qed
  note cnt = vec_count_unat [OF assms(1)]
  have "expand (Suc (unat ?diff) - unat (vec_count v)) h v \<noteq> Inr v'" for v'
  proof
    assume "expand (Suc (unat ?diff) - unat (vec_count v)) h v = Inr v'"
    note eb = expand_bound [OF assms(1) this]
    have "length (vec_items v') \<ge> Suc (unat ?diff)" unfolding conjunct2 [OF eb] cnt by linarith
    moreover have "length (vec_items v') * 24 < 4294967296" using eb cap by blast
    ultimately show False using big by linarith
  qed
  then obtain e where "expand (Suc (unat ?diff) - unat (vec_count v)) h v = Inl e" by (metis sum.exhaust)
  moreover have "?diff \<ge> vec_count v" using big cap [OF assms(1)] cnt unfolding word_le_nat_alt by linarith
  ultimately show ?thesis
    unfolding ack_mgr_trilogy_recv_packet_def Let_def assms(2) option.case future(1) by (simp only: future(2) simp_thms if_False if_True bindE.simps AckRelativity.distinct) blast
qed

end
