(* ===== verification/Protocol_Handler.thy ===== *)
theory Protocol_Handler
  imports Ack_Mgr
begin

text \<open>
  \<^verbatim>\<open>protocol_handler.c\<close> with its two variants: what a received datagram does to a
  connection. The first datagram decides the variant by its checksum. The two variants are
  members of one \<^verbatim>\<open>union\<close>; using the member that was not initialised is
  \<open>UndefinedBehaviour\<close> here. A zeroed handler is a trilogy one whose arrays are
  \<^verbatim>\<open>NULL\<close>.
\<close>

section \<open>State\<close>

record handler_trilogy =
  pht_ackMgr :: ack_mgr
  pht_clientObject :: "nat option"

record handler_standard =
  phs_base :: network_client
  phs_clientObject :: "nat option"
  phs_crcKey :: u32
  phs_sessionId :: u32
  phs_startTimeMilliseconds :: u64
  phs_protocolValidation :: u8
  phs_protocolFormat :: u8

datatype handler_body = Standard handler_standard | Trilogy handler_trilogy

record protocol_handler =
  ph_isTrilogy :: int
  ph_refCount :: int
  ph_body :: handler_body

definition sizeof_ProtocolHandler :: nat where "sizeof_ProtocolHandler = 128"

definition zero_client :: network_client where
  "zero_client = \<lparr>nc_socketFd = 0, nc_ip = 0, nc_port = 0, nc_udpClientIndex = 0, nc_packetsSent = 0,
     nc_packetsReceived = 0, nc_accountId = 0\<rparr>"

definition zero_trilogy :: handler_trilogy where
  "zero_trilogy =
     \<lparr>pht_ackMgr = \<lparr>am_client = \<lparr>nct_base = zero_client, nct_outputPackets = None, nct_nextAckResponse = 0,
          nct_nextAckRequestExpected = 0, nct_nextAckRequestCheck = 0, nct_nextSeqToSend = 0,
          nct_lastAckReceived = 0, nct_sendFromIndex = 0\<rparr>,
        am_nextAckToRequest = 0, am_nextFragGroup = 0, am_ackCounterAlwaysOne = 0, am_ackCounterRequest = 0,
        am_inputPackets = None\<rparr>,
      pht_clientObject = None\<rparr>"

definition protocol_handler_create :: "heap \<Rightarrow> protocol_handler result" where
  "protocol_handler_create h =
     (if can_alloc h sizeof_ProtocolHandler
      then Inr \<lparr>ph_isTrilogy = -1, ph_refCount = 1, ph_body = Trilogy zero_trilogy\<rparr>
      else Inl ErrorOutOfMemory)"

section \<open>The trilogy variant\<close>

definition MIN_PACKET_LENGTH :: nat where "MIN_PACKET_LENGTH = 10"

definition protocol_handler_trilogy_init ::
  "heap \<Rightarrow> int \<Rightarrow> udp_client \<Rightarrow> nat \<Rightarrow> (nat \<Rightarrow> nat option) \<Rightarrow> u32 \<Rightarrow> world \<Rightarrow> (handler_trilogy \<times> world) result" where
  "protocol_handler_trilogy_init h fd client handler newObject index w =
     bindE (ack_mgr_trilogy_init h fd client index) (\<lambda>m.
     Inr (\<lparr>pht_ackMgr = m, pht_clientObject = newObject handler\<rparr>,
          emit (client_create_from_new_connection_trilogy handler) w))"

definition protocol_handler_trilogy_deinit :: "handler_trilogy \<Rightarrow> world \<Rightarrow> (handler_trilogy \<times> world) result" where
  "protocol_handler_trilogy_deinit t w =
     bindE (ack_mgr_trilogy_deinit (pht_ackMgr t) w) (\<lambda>(m, w). Inr (t\<lparr>pht_ackMgr := m\<rparr>, w))"

text \<open>The optional fields nobody reads.\<close>

definition skip_unknown :: "u16 \<Rightarrow> aligned \<Rightarrow> aligned result" where
  "skip_unknown header a =
     (let skip = \<lambda>b len a. if has_bit header b then bindE (aligned_advance a len) (\<lambda>(a, _). Inr a) else Inr a in
      bindE (skip PacketTrilogyUnknownBit11 2 a) (\<lambda>a.
      bindE (skip PacketTrilogyUnknownBit12 1 a) (\<lambda>a.
      bindE (skip PacketTrilogyUnknownBit13 2 a) (\<lambda>a.
      bindE (skip PacketTrilogyUnknownBit14 4 a) (\<lambda>a.
      skip PacketTrilogyUnknownBit15 8 a)))))"

text \<open>From the acknowledgement number on.\<close>

definition recv_body ::
  "heap \<Rightarrow> handler_trilogy \<Rightarrow> u16 \<Rightarrow> aligned \<Rightarrow> world \<Rightarrow> (handler_trilogy \<times> world) result" where
  "recv_body h t header a w =
     (let m = pht_ackMgr t; obj = pht_clientObject t in
      bindE (skip_unknown header a) (\<lambda>a.
      bindE (if has_bit header PacketTrilogyHasAckRequest
             then bindE (aligned_read_uint16 a) (\<lambda>(a, v).
                  let ackRequest = toHostUint16 v in
                  Inr (a, ackRequest, m\<lparr>am_client := network_client_trilogy_recv_ack_request (am_client m) ackRequest
                                          (has_bit header PacketTrilogyIsFirstPacket)\<rparr>))
             else Inr (a, 0, m)) (\<lambda>(a, ackRequest, m).
      let t = t\<lparr>pht_ackMgr := m\<rparr> in
      if has_bit header PacketTrilogyIsFragment \<and> aligned_remaining a < 6 then Inr (t, w)
      else bindE (if has_bit header PacketTrilogyIsFragment
                  then bindE (aligned_advance a 2) (\<lambda>(a, _).
                       bindE (aligned_read_uint16 a) (\<lambda>(a, fragIndex).
                       bindE (aligned_read_uint16 a) (\<lambda>(a, fragCount).
                       Inr (a, toHostUint16 fragIndex, toHostUint16 fragCount))))
                  else Inr (a, 0, 0)) (\<lambda>(a, fragIndex, fragCount).
           bindE (if has_bit header PacketTrilogyHasAckCounter
                  then bindE (aligned_advance a (if has_bit header PacketTrilogyHasAckRequest then 2 else 1))
                         (\<lambda>(a, _). Inr a)
                  else Inr a) (\<lambda>a.
           bindE (if fragIndex = 0 \<and> aligned_remaining a \<ge> 2 then aligned_read_uint16 a else Inr (a, 0))
             (\<lambda>(a, opcode).
           if has_bit header (PacketTrilogyIsClosing OR PacketTrilogyIsClosing2)
           then (let (c, w) = network_client_trilogy_send_pure_ack (am_client m) (toNetworkUint16 ackRequest) w;
                     w = network_client_flag_connection_as_dead (nct_base c) w;
                     w = emit (client_on_disconnect obj False) w
                 in Inr (t\<lparr>pht_ackMgr := m\<lparr>am_client := c\<rparr>\<rparr>, w))
           else if ackRequest \<noteq> 0
           then bindE (ack_mgr_trilogy_recv_packet h m a obj opcode ackRequest fragCount w) (\<lambda>(m, w).
                Inr (t\<lparr>pht_ackMgr := m\<rparr>, w))
           else if opcode \<noteq> 0
           then Inr (t, emit (client_recv_packet_trilogy obj opcode (rest a)) w)
           else Inr (t, w)))))))"

text \<open>A datagram with a good checksum, the cursor at its start and the checksum cut off.\<close>

definition recv_accepted :: "heap \<Rightarrow> handler_trilogy \<Rightarrow> aligned \<Rightarrow> world \<Rightarrow> (handler_trilogy \<times> world) result" where
  "recv_accepted h t a w =
     (let m = pht_ackMgr t; c = am_client m; b = nct_base c;
          b = b\<lparr>nc_packetsReceived := nc_packetsReceived b + 1\<rparr>;
          m = m\<lparr>am_client := c\<lparr>nct_base := b\<rparr>\<rparr>;
          t = t\<lparr>pht_ackMgr := m\<rparr>
      in bindE (aligned_read_uint16 a) (\<lambda>(a, header).
         bindE (aligned_read_uint16 a) (\<lambda>(a, seq).
         if has_bit header PacketTrilogyHasAckResponse
         then bindE (aligned_read_uint16 a) (\<lambda>(a, ackResponse).
              bindE (network_client_trilogy_recv_ack_response (am_client m) ackResponse w) (\<lambda>(c, w).
              let t = t\<lparr>pht_ackMgr := m\<lparr>am_client := c\<rparr>\<rparr> in
              if aligned_remaining a = 0 then Inr (t, w) else recv_body h t header a w))
         else recv_body h t header a w)))"

definition protocol_handler_trilogy_recv ::
  "heap \<Rightarrow> handler_trilogy \<Rightarrow> bytes \<Rightarrow> world \<Rightarrow> (handler_trilogy \<times> world) result" where
  "protocol_handler_trilogy_recv h t data w =
     (if length data < MIN_PACKET_LENGTH then Inr (t, w)
      else (let len = of_nat (length data) - 4 :: u32 in
        bindE (aligned_advance (aligned_init data (of_nat (length data))) len) (\<lambda>(a, _).
        bindE (aligned_read_uint32 a) (\<lambda>(a, crc).
        if crc_calc32_network (take (unat len) data) \<noteq> crc then Inr (t, w)
        else recv_accepted h t (aligned_reduce_size (aligned_reset a) 4) w))))"

section \<open>The standard variant\<close>

definition ProtocolOp_SessionRequest :: u16 where "ProtocolOp_SessionRequest = 0x0001"
definition ProtocolOp_SessionResponse :: u16 where "ProtocolOp_SessionResponse = 0x0002"
definition ProtocolOp_Combined :: u16 where "ProtocolOp_Combined = 0x0003"
definition ProtocolOp_SessionDisconnect :: u16 where "ProtocolOp_SessionDisconnect = 0x0005"
definition ProtocolValidation_None :: u8 where "ProtocolValidation_None = 0"
definition ProtocolValidation_Crc :: u8 where "ProtocolValidation_Crc = 2"
definition ProtocolFormat_None :: u8 where "ProtocolFormat_None = 0"
definition ProtocolFormat_Compressed :: u8 where "ProtocolFormat_Compressed = 1"
definition MAX_LENGTH :: u32 where "MAX_LENGTH = 512"

definition protocol_handler_standard_init :: "int \<Rightarrow> udp_client \<Rightarrow> u32 \<Rightarrow> handler_standard" where
  "protocol_handler_standard_init fd client index =
     \<lparr>phs_base = network_client_init fd client index, phs_clientObject = None, phs_crcKey = 0, phs_sessionId = 0,
      phs_startTimeMilliseconds = 0, phs_protocolValidation = ProtocolValidation_None,
      phs_protocolFormat = ProtocolFormat_None\<rparr>"

definition standard_send_immediate :: "handler_standard \<Rightarrow> bytes \<Rightarrow> world \<Rightarrow> handler_standard \<times> world" where
  "standard_send_immediate s data w =
     (let (b, w) = network_client_send (phs_base s) data w in (s\<lparr>phs_base := b\<rparr>, w))"

text \<open>\<open>rnd\<close> is \<^verbatim>\<open>random_uint32\<close>, a parameter like the clock.\<close>

definition protocol_handler_standard_handle_session_request ::
  "clock \<Rightarrow> (nat \<Rightarrow> u32) \<Rightarrow> handler_standard \<Rightarrow> aligned \<Rightarrow> world \<Rightarrow> (handler_standard \<times> world) result" where
  "protocol_handler_standard_handle_session_request clk rnd s a w =
     (if aligned_remaining a < 12 then Inr (s, w)
      else bindE (aligned_advance a 4) (\<lambda>(a, _).
           bindE (aligned_read_uint32 a) (\<lambda>(a, sessionId).
           let key = rnd (w_reads w) OR 1;
               (now, w) = clock_milliseconds clk w;
               s = s\<lparr>phs_crcKey := key, phs_sessionId := sessionId, phs_startTimeMilliseconds := now\<rparr>;
               response = uint16_bytes (toNetworkUint16 ProtocolOp_SessionResponse) @ uint32_bytes sessionId @
                 uint32_bytes (toNetworkUint32 key) @ [phs_protocolValidation s, phs_protocolFormat s, 0] @
                 uint32_bytes (toNetworkUint32 MAX_LENGTH) @ uint32_bytes 0
           in Inr (standard_send_immediate s response w))))"

definition protocol_handler_standard_validate_crc :: "aligned \<Rightarrow> u32 \<Rightarrow> bool result" where
  "protocol_handler_standard_validate_crc a crcKey =
     (if crcKey = 0 then Inr True
      else (let r = aligned_init_copy a; len = aligned_remaining r - 2 in
        bindE (aligned_advance r len) (\<lambda>(r, _).
        bindE (aligned_read_uint16 r) (\<lambda>(r, v).
        let check = toHostUint16 v in
        if check = 0 then Inr True
        else bindE (mem_read (al_buffer a) (unat (al_cursor a)) (unat len)) (\<lambda>d.
             Inr (check = crc_calc16 d crcKey))))))"

definition protocol_handler_standard_validate_and_decompress_packet ::
  "handler_standard \<Rightarrow> aligned \<Rightarrow> bool \<Rightarrow> (bool \<times> aligned) result" where
  "protocol_handler_standard_validate_and_decompress_packet s a isFromCombined =
     bindE (if \<not> isFromCombined \<and> phs_protocolValidation s = ProtocolValidation_Crc
            then bindE (protocol_handler_standard_validate_crc a (phs_crcKey s)) (\<lambda>ok.
                 Inr (ok, if ok then aligned_reduce_size a 2 else a))
            else Inr (True, a)) (\<lambda>(ok, a).
     if \<not> ok then Inr (False, a)
     else if phs_protocolFormat s = ProtocolFormat_Compressed
     then bindE (aligned_peek_uint8 a) (\<lambda>flag.
          if flag = 0xa5 then bindE (aligned_advance a 1) (\<lambda>(a, _). Inr (True, a)) else Inr (True, a))
     else Inr (True, a))"

definition protocol_handler_standard_disconnect :: "handler_standard \<Rightarrow> world \<Rightarrow> handler_standard \<times> world" where
  "protocol_handler_standard_disconnect s w =
     (let (s, w) = standard_send_immediate s
            (uint16_bytes (toNetworkUint16 ProtocolOp_SessionDisconnect) @ uint32_bytes (phs_sessionId s)) w;
          w = network_client_flag_connection_as_dead (phs_base s) w
      in (s, emit (client_on_disconnect (phs_clientObject s) False) w))"

text \<open>
  A combined packet holds packets of its own, each with a length byte. \<open>recv\<close> is the call of
  \<open>handle_recv\<close> on one of them. The fuel of the loop bounds its rounds and that of
  \<open>handle_recv\<close> the nesting; a round consumes its length byte and a nested packet is shorter
  than the one around it, so one more than the number of bytes is enough for both.
\<close>

primrec protocol_handler_standard_handle_combined ::
    "nat \<Rightarrow> (handler_standard \<Rightarrow> aligned \<Rightarrow> world \<Rightarrow> (handler_standard \<times> world) result) \<Rightarrow>
     handler_standard \<Rightarrow> aligned \<Rightarrow> world \<Rightarrow> (handler_standard \<times> world) result" where
  "protocol_handler_standard_handle_combined 0 recv s a w = Inl Diverges"
| "protocol_handler_standard_handle_combined (Suc k) recv s a w =
     (if aligned_remaining a = 0 then Inr (s, w)
      else bindE (aligned_read_uint8 a) (\<lambda>(a, b).
           let size' = ucast b :: u32 in
           if size' > aligned_remaining a then Inr (s, w)
           else bindE (recv s (aligned_init (drop (unat (al_cursor a)) (al_buffer a)) size') w) (\<lambda>(s, w).
                bindE (aligned_advance a size') (\<lambda>(a, _).
                protocol_handler_standard_handle_combined k recv s a w))))"

primrec protocol_handler_standard_handle_recv ::
    "nat \<Rightarrow> clock \<Rightarrow> (nat \<Rightarrow> u32) \<Rightarrow> bool \<Rightarrow> handler_standard \<Rightarrow> aligned \<Rightarrow> world \<Rightarrow>
     (handler_standard \<times> world) result" where
  "protocol_handler_standard_handle_recv 0 clk rnd isFromCombined s a w = Inl Diverges"
| "protocol_handler_standard_handle_recv (Suc fuel) clk rnd isFromCombined s a w =
     bindE (aligned_read_uint16 a) (\<lambda>(a, v).
     let protocolOpcode = toHostUint16 v in
     if protocolOpcode > 0xff then Inr (s, w)
     else if protocolOpcode = ProtocolOp_SessionRequest
     then protocol_handler_standard_handle_session_request clk rnd s a w
     else if protocolOpcode = ProtocolOp_SessionDisconnect
     then Inr (protocol_handler_standard_disconnect s w)
     else bindE (protocol_handler_standard_validate_and_decompress_packet s a isFromCombined) (\<lambda>(ok, a).
          if ok \<and> protocolOpcode = ProtocolOp_Combined
          then protocol_handler_standard_handle_combined (Suc (unat (aligned_remaining a)))
                 (protocol_handler_standard_handle_recv fuel clk rnd True) s a w
          else Inr (s, w)))"

definition protocol_handler_standard_recv ::
  "clock \<Rightarrow> (nat \<Rightarrow> u32) \<Rightarrow> handler_standard \<Rightarrow> bytes \<Rightarrow> world \<Rightarrow> (handler_standard \<times> world) result" where
  "protocol_handler_standard_recv clk rnd s data w =
     (let b = phs_base s; s = s\<lparr>phs_base := b\<lparr>nc_packetsReceived := nc_packetsReceived b + 1\<rparr>\<rparr> in
      protocol_handler_standard_handle_recv (length data + 1) clk rnd False s
        (aligned_init data (of_nat (length data))) w)"

section \<open>The common handler\<close>

text \<open>Dropping the last reference frees the handler: \<open>None\<close>.\<close>

definition protocol_handler_drop :: "protocol_handler \<Rightarrow> world \<Rightarrow> (protocol_handler option \<times> world) result" where
  "protocol_handler_drop ph w =
     (if ph_refCount ph > 1 then Inr (Some (ph\<lparr>ph_refCount := ph_refCount ph - 1\<rparr>), w)
      else if ph_isTrilogy ph = 1
      then (case ph_body ph of
              Trilogy t \<Rightarrow> bindE (protocol_handler_trilogy_deinit t w) (\<lambda>(t, w). Inr (None, w))
            | Standard s \<Rightarrow> Inl UndefinedBehaviour)
      else Inr (None, w))"

definition protocol_handler_update_index :: "protocol_handler \<Rightarrow> u32 \<Rightarrow> protocol_handler" where
  "protocol_handler_update_index ph index =
     (case ph_body ph of
        Standard s \<Rightarrow> ph\<lparr>ph_body := Standard (s\<lparr>phs_base := (phs_base s)\<lparr>nc_udpClientIndex := index\<rparr>\<rparr>)\<rparr>
      | Trilogy t \<Rightarrow>
          (let m = pht_ackMgr t; c = am_client m; b = (nct_base c)\<lparr>nc_udpClientIndex := index\<rparr> in
           ph\<lparr>ph_body := Trilogy (t\<lparr>pht_ackMgr := m\<lparr>am_client := c\<lparr>nct_base := b\<rparr>\<rparr>\<rparr>)\<rparr>))"

definition protocol_handler_client_object :: "protocol_handler \<Rightarrow> nat option" where
  "protocol_handler_client_object ph =
     (case ph_body ph of Standard s \<Rightarrow> phs_clientObject s | Trilogy t \<Rightarrow> pht_clientObject t)"

definition protocol_handler_recv ::
  "heap \<Rightarrow> clock \<Rightarrow> (nat \<Rightarrow> u32) \<Rightarrow> protocol_handler \<Rightarrow> bytes \<Rightarrow> world \<Rightarrow> (protocol_handler \<times> world) result" where
  "protocol_handler_recv h clk rnd ph data w =
     (case ph_body ph of
        Standard s \<Rightarrow> bindE (protocol_handler_standard_recv clk rnd s data w) (\<lambda>(s, w). Inr (ph\<lparr>ph_body := Standard s\<rparr>, w))
      | Trilogy t \<Rightarrow> bindE (protocol_handler_trilogy_recv h t data w) (\<lambda>(t, w). Inr (ph\<lparr>ph_body := Trilogy t\<rparr>, w)))"

text \<open>The sums with the length are 32-bit ones, as in the code: a datagram of four or five bytes
  moves the cursor back.\<close>

definition protocol_handler_check_first_packet ::
  "heap \<Rightarrow> int \<Rightarrow> udp_client \<Rightarrow> nat \<Rightarrow> (nat \<Rightarrow> nat option) \<Rightarrow> protocol_handler \<Rightarrow> bytes \<Rightarrow> u32 \<Rightarrow> world \<Rightarrow>
   (protocol_handler \<times> world) result" where
  "protocol_handler_check_first_packet h fd client handler newObject ph data index w =
     bindE (aligned_read_uint16 (aligned_init data (of_nat (length data)))) (\<lambda>(a, header).
     let len = of_nat (length data) - 4 :: u32 in
     bindE (aligned_advance a (len - 2)) (\<lambda>(a, _).
     bindE (aligned_read_uint32 a) (\<lambda>(a, crc).
     if crc_calc32_network (take (unat len) data) = crc
     then bindE (protocol_handler_trilogy_init h fd client handler newObject index w) (\<lambda>(t, w).
          Inr (ph\<lparr>ph_isTrilogy := 1, ph_body := Trilogy t\<rparr>, w))
     else Inr (ph\<lparr>ph_isTrilogy := 0, ph_body := Standard (protocol_handler_standard_init fd client index)\<rparr>, w))))"

text \<open>The three operations below take the trilogy member whatever the variant is.\<close>

definition protocol_handler_send_queued ::
  "clock \<Rightarrow> protocol_handler \<Rightarrow> world \<Rightarrow> (protocol_handler \<times> world) result" where
  "protocol_handler_send_queued clk ph w =
     (case ph_body ph of
        Standard s \<Rightarrow> Inl UndefinedBehaviour
      | Trilogy t \<Rightarrow>
          (let m = pht_ackMgr t in
           bindE (network_client_trilogy_send_queued clk (am_client m) w) (\<lambda>(c, w).
           Inr (ph\<lparr>ph_body := Trilogy (t\<lparr>pht_ackMgr := m\<lparr>am_client := c\<rparr>\<rparr>)\<rparr>, w))))"

definition protocol_handler_schedule_packet_opt ::
  "heap \<Rightarrow> protocol_handler \<Rightarrow> nat \<Rightarrow> bool \<Rightarrow> world \<Rightarrow> (protocol_handler \<times> world) result" where
  "protocol_handler_schedule_packet_opt h ph ptr noAckRequest w =
     (case ph_body ph of
        Standard s \<Rightarrow> Inl UndefinedBehaviour
      | Trilogy t \<Rightarrow>
          bindE (ack_mgr_trilogy_schedule_packet h (pht_ackMgr t) ptr noAckRequest w) (\<lambda>(m, w).
          Inr (ph\<lparr>ph_body := Trilogy (t\<lparr>pht_ackMgr := m\<rparr>)\<rparr>, w)))"

definition protocol_handler_send_disconnect :: "protocol_handler \<Rightarrow> world \<Rightarrow> (protocol_handler \<times> world) result" where
  "protocol_handler_send_disconnect ph w =
     (case ph_body ph of
        Standard s \<Rightarrow> Inl UndefinedBehaviour
      | Trilogy t \<Rightarrow>
          (let m = pht_ackMgr t; (c, w) = network_client_trilogy_send_disconnect (am_client m) w in
           Inr (ph\<lparr>ph_body := Trilogy (t\<lparr>pht_ackMgr := m\<lparr>am_client := c\<rparr>\<rparr>)\<rparr>, w)))"

end
