(* ===== verification/Udp_Socket.thy ===== *)
theory Udp_Socket
  imports Protocol_Handler
begin

text \<open>
  \<^verbatim>\<open>udp_client.c\<close> and \<^verbatim>\<open>udp_socket.c\<close>: the table of connections. A
  handler knows the index of its client in the table, which moves when another client is removed;
  the invariant says that the two always agree. Datagrams come from the environment: the list
  \<open>recvfrom\<close> returns until it would block.
\<close>

section \<open>State\<close>

record udp_socket =
  us_fd :: int
  us_world :: world
  us_handlers :: "nat \<Rightarrow> protocol_handler option"
  us_nextHandler :: nat

definition sizeof_UdpClient :: u32 where "sizeof_UdpClient = 24"
definition EQP_UDP_SOCKET_BUFFER_SIZE :: nat where "EQP_UDP_SOCKET_BUFFER_SIZE = 1024"
definition LINKDEAD_TIMEOUT_MILLISECONDS :: u64 where "LINKDEAD_TIMEOUT_MILLISECONDS = 15000"

definition udp_socket_create :: "heap \<Rightarrow> udp_socket result" where
  "udp_socket_create h =
     bindE (vec_create h sizeof_UdpClient) (\<lambda>v.
     Inr \<lparr>us_fd = -1, us_world = \<lparr>w_clients = v, w_packets = Map.empty, w_sent = [], w_reads = 0, w_events = []\<rparr>,
          us_handlers = Map.empty, us_nextHandler = 0\<rparr>)"

definition deref_handler :: "udp_socket \<Rightarrow> nat option \<Rightarrow> (nat \<times> protocol_handler) result" where
  "deref_handler sock ptr =
     (case ptr of None \<Rightarrow> Inl UndefinedBehaviour
      | Some i \<Rightarrow> (case us_handlers sock i of None \<Rightarrow> Inl UndefinedBehaviour | Some ph \<Rightarrow> Inr (i, ph)))"

definition set_client :: "world \<Rightarrow> nat \<Rightarrow> udp_client \<Rightarrow> world" where
  "set_client w i cli = w\<lparr>w_clients := (w_clients w)\<lparr>vec_items := (vec_items (w_clients w))[i := cli]\<rparr>\<rparr>"

section \<open>Clients\<close>

text \<open>A new client gets a new handler.\<close>

definition udp_client_init :: "heap \<Rightarrow> udp_socket \<Rightarrow> u32 \<Rightarrow> u16 \<Rightarrow> (udp_client \<times> udp_socket) result" where
  "udp_client_init h sock ip port =
     bindE (protocol_handler_create h) (\<lambda>ph.
     let i = us_nextHandler sock in
     Inr (\<lparr>uc_ip = ip, uc_port = port, uc_isDead = False, uc_ignoreAllPackets = False,
           uc_handler = Some i, uc_lastRecvTime = 0\<rparr>,
          sock\<lparr>us_handlers := (us_handlers sock)(i \<mapsto> ph), us_nextHandler := Suc i\<rparr>))"

definition udp_client_deinit :: "udp_socket \<Rightarrow> udp_client \<Rightarrow> udp_socket result" where
  "udp_client_deinit sock cli =
     (case uc_handler cli of
        None \<Rightarrow> Inr sock
      | Some i \<Rightarrow>
          bindE (deref_handler sock (Some i)) (\<lambda>(i, ph).
          bindE (protocol_handler_drop ph (us_world sock)) (\<lambda>(ph, w).
          Inr (sock\<lparr>us_handlers := (us_handlers sock)(i := ph), us_world := w\<rparr>))))"

definition udp_client_update_index :: "udp_socket \<Rightarrow> udp_client \<Rightarrow> u32 \<Rightarrow> udp_socket result" where
  "udp_client_update_index sock cli index =
     bindE (deref_handler sock (uc_handler cli)) (\<lambda>(i, ph).
     Inr (sock\<lparr>us_handlers := (us_handlers sock)(i \<mapsto> protocol_handler_update_index ph index)\<rparr>))"

section \<open>Receiving\<close>

text \<open>The index of the live client with this address.\<close>

fun find_client :: "u32 \<Rightarrow> u16 \<Rightarrow> nat \<Rightarrow> udp_client list \<Rightarrow> nat option" where
  "find_client ip port i [] = None"
| "find_client ip port i (cli # cs) =
     (if \<not> uc_isDead cli \<and> uc_ip cli = ip \<and> uc_port cli = port then Some i
      else find_client ip port (Suc i) cs)"

definition accept_client ::
  "heap \<Rightarrow> (nat \<Rightarrow> nat option) \<Rightarrow> udp_socket \<Rightarrow> u32 \<Rightarrow> u16 \<Rightarrow> bytes \<Rightarrow> (nat \<times> udp_socket) result" where
  "accept_client h newObject sock ip port data =
     (let w = us_world sock; n = vec_count (w_clients w) in
      bindE (udp_client_init h sock ip port) (\<lambda>(cli, sock).
      bindE (vec_push h sizeof_UdpClient (w_clients w) cli) (\<lambda>v.
      let w = w\<lparr>w_clients := v\<rparr> in
      bindE (deref_handler sock (uc_handler cli)) (\<lambda>(i, ph).
      bindE (protocol_handler_check_first_packet h (us_fd sock) cli i newObject ph data n w) (\<lambda>(ph, w).
      Inr (unat n, sock\<lparr>us_handlers := (us_handlers sock)(i \<mapsto> ph), us_world := w\<rparr>))))))"

definition udp_recv_one ::
  "heap \<Rightarrow> clock \<Rightarrow> (nat \<Rightarrow> u32) \<Rightarrow> (nat \<Rightarrow> nat option) \<Rightarrow> udp_socket \<Rightarrow> u32 \<Rightarrow> u16 \<Rightarrow> bytes \<Rightarrow> udp_socket result" where
  "udp_recv_one h clk rnd newObject sock ip port data =
     bindE (case find_client ip port 0 (vec_items (w_clients (us_world sock))) of
              Some i \<Rightarrow> Inr (i, sock)
            | None \<Rightarrow> accept_client h newObject sock ip port data) (\<lambda>(i, sock).
     let (now, w) = clock_milliseconds clk (us_world sock);
         cli = (vec_items (w_clients w) ! i)\<lparr>uc_lastRecvTime := now\<rparr>;
         w = set_client w i cli;
         sock = sock\<lparr>us_world := w\<rparr>
     in if uc_ignoreAllPackets cli then Inr sock
        else bindE (deref_handler sock (uc_handler cli)) (\<lambda>(j, ph).
             bindE (protocol_handler_recv h clk rnd ph data w) (\<lambda>(ph, w).
             Inr (sock\<lparr>us_handlers := (us_handlers sock)(j \<mapsto> ph), us_world := w\<rparr>))))"

text \<open>An empty datagram ends the loop like an error does; the rest waits for the next call.\<close>

fun udp_socket_recv ::
  "heap \<Rightarrow> clock \<Rightarrow> (nat \<Rightarrow> u32) \<Rightarrow> (nat \<Rightarrow> nat option) \<Rightarrow> (u32 \<times> u16 \<times> bytes) list \<Rightarrow> udp_socket \<Rightarrow> udp_socket result" where
  "udp_socket_recv h clk rnd newObject [] sock = Inr sock"
| "udp_socket_recv h clk rnd newObject ((ip, port, data) # ds) sock =
     (if data = [] then Inr sock
      else bindE (udp_recv_one h clk rnd newObject sock ip port (take EQP_UDP_SOCKET_BUFFER_SIZE data))
             (udp_socket_recv h clk rnd newObject ds))"

section \<open>Timeouts and sending\<close>

definition udp_socket_handle_dead_client :: "udp_socket \<Rightarrow> udp_client \<Rightarrow> nat \<Rightarrow> udp_socket result" where
  "udp_socket_handle_dead_client sock cli index =
     bindE (udp_client_deinit sock cli) (\<lambda>sock.
     let w = us_world sock; (v, moved) = vec_swap_and_pop (w_clients w) (of_nat index);
         sock = sock\<lparr>us_world := w\<lparr>w_clients := v\<rparr>\<rparr>
     in if moved then udp_client_update_index sock (vec_items v ! index) (of_nat index) else Inr sock)"

fun check_timeouts_loop :: "nat \<Rightarrow> u64 \<Rightarrow> nat \<Rightarrow> udp_socket \<Rightarrow> udp_socket result" where
  "check_timeouts_loop 0 time i sock = Inr sock"
| "check_timeouts_loop (Suc k) time i sock =
     (let cli = vec_items (w_clients (us_world sock)) ! i in
      if uc_isDead cli
      then bindE (udp_socket_handle_dead_client sock cli i) (check_timeouts_loop k time i)
      else if uc_lastRecvTime cli + LINKDEAD_TIMEOUT_MILLISECONDS < time
      then bindE (deref_handler sock (uc_handler cli)) (\<lambda>(j, ph).
           let obj = protocol_handler_client_object ph;
               sock = (if obj \<noteq> None
                       then sock\<lparr>us_world := emit (client_on_disconnect obj True) (us_world sock)\<rparr> else sock)
           in bindE (udp_socket_handle_dead_client sock cli i) (check_timeouts_loop k time i))
      else check_timeouts_loop k time (Suc i) sock)"

definition udp_socket_check_timeouts :: "clock \<Rightarrow> udp_socket \<Rightarrow> udp_socket result" where
  "udp_socket_check_timeouts clk sock =
     (let (time, w) = clock_milliseconds clk (us_world sock) in
      check_timeouts_loop (length (vec_items (w_clients w))) time 0 (sock\<lparr>us_world := w\<rparr>))"

fun send_clients :: "clock \<Rightarrow> udp_client list \<Rightarrow> udp_socket \<Rightarrow> udp_socket result" where
  "send_clients clk [] sock = Inr sock"
| "send_clients clk (cli # cs) sock =
     (if uc_isDead cli then send_clients clk cs sock
      else bindE (deref_handler sock (uc_handler cli)) (\<lambda>(i, ph).
           bindE (protocol_handler_send_queued clk ph (us_world sock)) (\<lambda>(ph, w).
           send_clients clk cs (sock\<lparr>us_handlers := (us_handlers sock)(i \<mapsto> ph), us_world := w\<rparr>))))"

definition udp_socket_send :: "clock \<Rightarrow> udp_socket \<Rightarrow> udp_socket result" where
  "udp_socket_send clk sock = send_clients clk (vec_items (w_clients (us_world sock))) sock"

end
