(* ===== verification/Wire_Format.thy ===== *)
theory Wire_Format
  imports Protocol_Handler
begin

text \<open>
  The datagrams of the trilogy protocol: the bytes \<open>send_fragment\<close> hands to the system, and
  what \<open>protocol_handler_trilogy_recv\<close> makes of them. \<open>frame\<close> is the format both sides
  are related to.
\<close>

section \<open>Reading and writing as lists\<close>

lemma sum_within: "unat a + unat b \<le> unat (c :: u32) \<Longrightarrow> unat a + unat b < 2 ^ 32"
proof -
  assume "unat a + unat b \<le> unat c"
  then have "unat a + unat b < 4294967296" using unat_lt_u32 [of c] by linarith
  then show ?thesis by simp
qed

lemma unat_add_within: "unat (a :: u32) + unat b \<le> unat (c :: u32) \<Longrightarrow> unat (a + b) = unat a + unat b"
  by (rule unat_add_u32) (rule sum_within)

lemma no_wrap_within: "unat (al_cursor a) + unat n \<le> unat (c :: u32) \<Longrightarrow> no_wrap a n"
  unfolding no_wrap_def by (rule sum_within)

lemma advance_within:
  "unat (al_cursor a) + unat n \<le> unat (al_length a) \<Longrightarrow>
   aligned_advance a n = Inr (a\<lparr>al_cursor := al_cursor a + n\<rparr>, al_cursor a)"
  using aligned_advance_Inr [OF sum_within] by blast

context field_codec
begin

text \<open>Reading a field takes its bytes off the rest of the buffer.\<close>

lemma rd_rest:
  assumes "aligned_ok a" "rest a = enc v @ bs"
  shows "\<exists>a'. rd a = Inr (a', v) \<and> aligned_ok a' \<and> rest a' = bs \<and> al_length a' = al_length a \<and>
    al_buffer a' = al_buffer a \<and> unat (al_cursor a') = unat (al_cursor a) + unat width"
proof -
  let ?c = "unat (al_cursor a)" and ?l = "unat (al_length a)"
  have ok: "?c \<le> ?l" "?l \<le> length (al_buffer a)" using assms(1) by (auto simp: aligned_ok_def word_le_nat_alt)
  have "length (rest a) = ?l - ?c" using ok by (simp add: rest_def)
  then have fit: "?c + unat width \<le> ?l" using arg_cong [OF assms(2), of length] enc_length [of v] ok by simp
  have "?c + unat width < 4294967296" using fit unat_lt_u32 [of "al_length a"] by linarith
  then have nw: "no_wrap a width" by (simp add: no_wrap_def)
  have uc: "unat (al_cursor a + width) = ?c + unat width"
    using nw by (intro unat_add_u32) (simp add: no_wrap_def)
  have "slice (al_buffer a) ?c (unat width) = take (unat width) (rest a)"
    using fit by (simp add: slice_def rest_def drop_take min_def)
  then have sl: "slice (al_buffer a) ?c (unat width) = enc v" using assms(2) enc_length [of v] by simp
  have "rest (a\<lparr>al_cursor := al_cursor a + width\<rparr>) = drop (unat width) (rest a)"
    using uc by (simp add: rest_def add.commute)
  then have "rest (a\<lparr>al_cursor := al_cursor a + width\<rparr>) = bs" using assms(2) enc_length [of v] by simp
  then show ?thesis using fit sl uc assms(1)
    by (simp add: rd_spec [OF assms(1) nw] dec_enc aligned_ok_def word_le_nat_alt)
qed

end

lemma advance_rest:
  assumes "aligned_ok a" "rest a = xs @ bs" "length xs = unat len"
  shows "\<exists>a'. aligned_advance a len = Inr (a', al_cursor a) \<and> aligned_ok a' \<and> rest a' = bs \<and> al_length a' = al_length a \<and>
    al_buffer a' = al_buffer a \<and> unat (al_cursor a') = unat (al_cursor a) + unat len"
proof -
  let ?c = "unat (al_cursor a)" and ?l = "unat (al_length a)"
  have ok: "?c \<le> ?l" "?l \<le> length (al_buffer a)" using assms(1) by (auto simp: aligned_ok_def word_le_nat_alt)
  have "length (rest a) = ?l - ?c" using ok by (simp add: rest_def)
  then have fit: "?c + unat len \<le> ?l" using arg_cong [OF assms(2), of length] assms(3) ok by simp
  have "?c + unat len < 4294967296" using fit unat_lt_u32 [of "al_length a"] by linarith
  then have uc: "unat (al_cursor a + len) = ?c + unat len" by (intro unat_add_u32) simp
  have "rest (a\<lparr>al_cursor := al_cursor a + len\<rparr>) = drop (unat len) (rest a)"
    using uc by (simp add: rest_def add.commute)
  then show ?thesis using assms uc fit
    by (simp add: aligned_advance_def aligned_ok_def word_le_nat_alt word_less_nat_alt Let_def)
qed

lemma rest_init: "length d < 2 ^ 32 \<Longrightarrow> rest (aligned_init d (of_nat (length d))) = d \<and> aligned_ok (aligned_init d (of_nat (length d)))"
  by (simp add: rest_def aligned_init_def aligned_init_cursor_def aligned_ok_def unat_of_nat_u32)

text \<open>Writing backwards puts bytes in front of what follows the cursor.\<close>

definition behind :: "aligned \<Rightarrow> bytes" where
  "behind a = drop (unat (al_cursor a)) (al_buffer a)"

lemma sint_small: "unat (x :: u32) < 2147483648 \<Longrightarrow> sint x = int (unat x)"
proof -
  assume "unat x < 2147483648"
  then have lt: "int (unat x) < 2147483648" by linarith
  have "signed_take_bit 31 (int (unat x)) = int (unat x)"
  proof (rule signed_take_bit_int_eq_self)
    show "- (2 ^ 31) \<le> int (unat x)" by (rule order_trans [of _ 0]) simp_all
    have "(2 :: int) ^ 31 = 2147483648" by simp
    then show "int (unat x) < 2 ^ 31" using lt by linarith
  qed
  then show ?thesis by (simp add: sint_uint)
qed

lemma reverse_store:
  assumes "length bs = n" "n \<le> unat (al_cursor a)" "unat (al_cursor a) \<le> length (al_buffer a)" "unat (al_cursor a) < 2147483648"
    "n < 2147483648"
  shows "\<exists>a'. bindE (aligned_reverse a (of_nat n)) (\<lambda>(a, c). aligned_store a (c - of_nat n) bs) = Inr a' \<and>
    behind a' = bs @ behind a \<and> length (al_buffer a') = length (al_buffer a) \<and> al_length a' = al_length a \<and>
    unat (al_cursor a') = unat (al_cursor a) - n"
proof -
  let ?c = "unat (al_cursor a)"
  have un: "unat (of_nat n :: u32) = n" using assms(5) by (intro unat_of_nat_u32) simp
  have si: "sint (al_cursor a) = int ?c" "sint (of_nat n :: u32) = int n"
    using sint_small [of "al_cursor a"] sint_small [of "of_nat n"] assms(4,5) un by simp_all
  have le: "of_nat n \<le> al_cursor a" using un assms(2) by (simp add: word_le_nat_alt)
  have sub: "unat (al_cursor a - of_nat n) = ?c - n" using unat_sub_word [OF le] un by simp
  have w: "word_of_int (int ?c - int n) = al_cursor a - of_nat n" by (simp add: of_int_diff [symmetric])
  have "bindE (aligned_reverse a (of_nat n)) (\<lambda>(a, c). aligned_store a (c - of_nat n) bs) =
      Inr (a\<lparr>al_cursor := al_cursor a - of_nat n, al_buffer := overwrite (al_buffer a) (?c - n) bs\<rparr>)"
  proof -
    have "\<not> sint (al_cursor a) - sint (of_nat n :: u32) < 0" unfolding si using assms(2) by linarith
    moreover have "word_of_int (sint (al_cursor a) - sint (of_nat n :: u32)) = al_cursor a - of_nat n" unfolding si by (rule w)
    ultimately have "aligned_reverse a (of_nat n) = Inr (a\<lparr>al_cursor := al_cursor a - of_nat n\<rparr>, al_cursor a)"
      by (simp only: aligned_reverse_def Let_def if_False)
    then show ?thesis using assms(1-3) sub by (simp add: aligned_store_def mem_write_def)
  qed
  moreover have "drop (?c - n) (overwrite (al_buffer a) (?c - n) bs) = bs @ drop ?c (al_buffer a)"
    using assms(1-3) by (simp add: overwrite_def)
  ultimately show ?thesis using assms(1-3) sub by (simp add: behind_def)
qed


definition prepends :: "aligned \<Rightarrow> bytes \<Rightarrow> aligned \<Rightarrow> bool" where
  "prepends a bs a' \<longleftrightarrow> behind a' = bs @ behind a \<and> length (al_buffer a') = length (al_buffer a) \<and>
     al_length a' = al_length a \<and> unat (al_cursor a') + length bs = unat (al_cursor a)"

definition writable :: "aligned \<Rightarrow> nat \<Rightarrow> bool" where
  "writable a n \<longleftrightarrow> n \<le> unat (al_cursor a) \<and> unat (al_cursor a) \<le> length (al_buffer a) \<and> unat (al_cursor a) < 2147483648"

lemma prepends_refl [simp]: "prepends a [] a"
  by (simp add: prepends_def)

lemma prepends_trans: "prepends a xs a' \<Longrightarrow> prepends a' ys a'' \<Longrightarrow> prepends a (ys @ xs) a''"
  by (simp add: prepends_def)

lemma writable_prepends: "writable a (n + m) \<Longrightarrow> prepends a xs a' \<Longrightarrow> length xs \<le> m \<Longrightarrow> writable a' n"
  by (auto simp: writable_def prepends_def)

lemma reverse_prepends:
  assumes "writable a n" "length bs = n"
  shows "\<exists>a'. bindE (aligned_reverse a (of_nat n)) (\<lambda>(a, c). aligned_store a (c - of_nat n) bs) = Inr a' \<and> prepends a bs a'"
  using reverse_store [of bs n a] assms by (fastforce simp: writable_def prepends_def)

lemma write_reverse_uint16: "writable a 2 \<Longrightarrow> \<exists>a'. aligned_write_reverse_uint16 a v = Inr a' \<and> prepends a (uint16_bytes v) a'"
  using reverse_prepends [of a 2 "uint16_bytes v"] by (simp add: aligned_write_reverse_uint16_def u16c.enc_length)

lemma write_reverse_uint8: "writable a 1 \<Longrightarrow> \<exists>a'. aligned_write_reverse_uint8 a v = Inr a' \<and> prepends a [v] a'"
  using reverse_prepends [of a 1 "[v]"] by (simp add: aligned_write_reverse_uint8_def)

text \<open>A sequence of such steps, the last written first in memory.\<close>

definition writes :: "(aligned \<Rightarrow> aligned result) \<Rightarrow> bytes \<Rightarrow> bool" where
  "writes f bs \<longleftrightarrow> (\<forall>a. writable a (length bs) \<longrightarrow> (\<exists>a'. f a = Inr a' \<and> prepends a bs a'))"

lemma writes_none: "writes Inr []"
  by (simp add: writes_def)

lemma writes_seq: "writes f xs \<Longrightarrow> writes g ys \<Longrightarrow> writes (\<lambda>a. bindE (f a) g) (ys @ xs)"
  unfolding writes_def
proof (intro allI impI)
  fix a assume f: "\<forall>a. writable a (length xs) \<longrightarrow> (\<exists>a'. f a = Inr a' \<and> prepends a xs a')"
    and g: "\<forall>a. writable a (length ys) \<longrightarrow> (\<exists>a'. g a = Inr a' \<and> prepends a ys a')"
    and a: "writable a (length (ys @ xs))"
  have "writable a (length xs)" using a by (simp add: writable_def)
  then obtain b where b: "f a = Inr b" "prepends a xs b" using f by blast
  then have "writable b (length ys)" using a by (auto intro: writable_prepends)
  then obtain c where "g b = Inr c" "prepends b ys c" using g by blast
  then show "\<exists>a'. bindE (f a) g = Inr a' \<and> prepends a (ys @ xs) a'" using b by (auto intro: prepends_trans)
qed

lemma writes_if: "writes f xs \<Longrightarrow> writes (\<lambda>a. if b then f a else Inr a) (if b then xs else [])"
  by (simp add: writes_def)

lemma writes_uint16: "writes (\<lambda>a. aligned_write_reverse_uint16 a v) (uint16_bytes v)"
  using write_reverse_uint16 by (simp add: writes_def u16c.enc_length)

lemma writes_uint8: "writes (\<lambda>a. aligned_write_reverse_uint8 a v) [v]"
  using write_reverse_uint8 by (simp add: writes_def)

lemma slice_overwrite_end:
  assumes "i + n = off" "off + length ys \<le> length xs"
  shows "slice (overwrite xs off ys) i (n + length ys) = slice xs i n @ ys"
  using assms by (auto simp: slice_def overwrite_def drop_take)

lemma drop_overwrite: "off + length ys \<le> length xs \<Longrightarrow> drop (off + length ys) (overwrite xs off ys) = drop (off + length ys) xs"
  by (simp add: overwrite_def)

section \<open>The header\<close>

definition header_bytes :: "network_client_trilogy \<Rightarrow> output_packet \<Rightarrow> u16 \<Rightarrow> u16 \<Rightarrow> u32 \<Rightarrow> bytes" where
  "header_bytes c o' opcode ackResponse fragIndex =
     uint16_bytes (if ackResponse \<noteq> 0 then op_header o' OR PacketTrilogyHasAckResponse else op_header o') @
     uint16_bytes (toNetworkUint16 (nct_nextSeqToSend c)) @
     (if ackResponse \<noteq> 0 then uint16_bytes ackResponse else []) @
     (if has_bit (op_header o') PacketTrilogyHasAckRequest
      then uint16_bytes (toNetworkUint16 (op_ackRequest o' + ucast fragIndex)) else []) @
     (if has_bit (op_header o') PacketTrilogyIsFragment
      then uint16_bytes (toNetworkUint16 (op_fragGroup o')) @ uint16_bytes (toNetworkUint16 (ucast fragIndex)) @
           uint16_bytes (toNetworkUint16 (op_fragCount o')) else []) @
     (if has_bit (op_header o') PacketTrilogyHasAckRequest
      then [op_ackCounterAlwaysOne o', op_ackCounterRequest o' + ucast fragIndex] else []) @
     (if fragIndex = 0 \<and> opcode \<noteq> 0 then uint16_bytes opcode else [])"

lemma length_header_bytes: "length (header_bytes c o' opcode ackResponse fragIndex) \<le> 18"
  by (simp add: header_bytes_def u16c.enc_length)

lemma writes_header: "writes (\<lambda>a. write_header c o' a opcode ackResponse fragIndex) (header_bytes c o' opcode ackResponse fragIndex)"
proof -
  have "writes (\<lambda>a. write_header c o' a opcode ackResponse fragIndex)
    ((((((uint16_bytes (if ackResponse \<noteq> 0 then op_header o' OR PacketTrilogyHasAckResponse else op_header o') @
     uint16_bytes (toNetworkUint16 (nct_nextSeqToSend c))) @
     (if ackResponse \<noteq> 0 then uint16_bytes ackResponse else [])) @
     (if has_bit (op_header o') PacketTrilogyHasAckRequest
      then uint16_bytes (toNetworkUint16 (op_ackRequest o' + ucast fragIndex)) else [])) @
     (if has_bit (op_header o') PacketTrilogyIsFragment
      then (uint16_bytes (toNetworkUint16 (op_fragGroup o')) @ uint16_bytes (toNetworkUint16 (ucast fragIndex))) @
           uint16_bytes (toNetworkUint16 (op_fragCount o')) else [])) @
     (if has_bit (op_header o') PacketTrilogyHasAckRequest
      then [op_ackCounterAlwaysOne o'] @ [op_ackCounterRequest o' + ucast fragIndex] else [])) @
     (if fragIndex = 0 \<and> opcode \<noteq> 0 then uint16_bytes opcode else []))"
    unfolding write_header_def Let_def by (intro writes_seq writes_if writes_uint16 writes_uint8)
  then show ?thesis by (simp only: header_bytes_def append.assoc append_Cons append_Nil)
qed

text \<open>What leaves the process: the header in front of the fragment's data, and the checksum of both.\<close>

definition sealed :: "bytes \<Rightarrow> bytes" where
  "sealed bs = bs @ uint32_bytes (crc_calc32_network bs)"

lemma send_fragment_spec:
  assumes "aligned_ok a" "writable a 18" "unat len \<le> 65536"
    "unat (al_cursor a) + unat len + 4 \<le> unat (al_length a)"
  shows "\<exists>a'. network_client_trilogy_send_fragment c o' a len opcode ackResponse fragIndex w =
      Inr (c\<lparr>nct_nextSeqToSend := nct_nextSeqToSend c + 1,
             nct_base := (nct_base c)\<lparr>nc_packetsSent := nc_packetsSent (nct_base c) + 1\<rparr>\<rparr>, a',
           w\<lparr>w_sent := w_sent w @ [(nc_ip (nct_base c), nc_port (nct_base c),
               sealed (header_bytes c o' opcode ackResponse fragIndex @ take (unat len) (behind a)))]\<rparr>) \<and>
    aligned_ok a' \<and> al_length a' = al_length a \<and> unat (al_cursor a') = unat (al_cursor a) + unat len + 4 \<and>
    behind a' = drop (unat len + 4) (behind a) \<and> length (al_buffer a') = length (al_buffer a)"
proof -
  let ?h = "header_bytes c o' opcode ackResponse fragIndex" and ?c = "unat (al_cursor a)"
  have "writable a (length ?h)" using assms(2) length_header_bytes [of c o' opcode ackResponse fragIndex]
    by (simp add: writable_def)
  then obtain b where b: "write_header c o' a opcode ackResponse fragIndex = Inr b" "prepends a ?h b"
    using writes_header [of c o' opcode ackResponse fragIndex] by (auto simp: writes_def)
  let ?n = "unat len + length ?h"
  have cb: "unat (al_cursor b) + length ?h = ?c" and lb: "al_length b = al_length a"
    "length (al_buffer b) = length (al_buffer a)" and bb: "behind b = ?h @ behind a"
    using b(2) by (simp_all add: prepends_def)
  have le: "al_cursor b \<le> al_cursor a" using cb by (simp add: word_le_nat_alt)
  have "unat (al_cursor a - al_cursor b) = length ?h" using unat_sub_word [OF le] cb by simp
  then have un: "unat (len + (al_cursor a - al_cursor b)) = ?n"
    using assms(3) length_header_bytes [of c o' opcode ackResponse fragIndex]
    by (subst unat_add_u32) simp_all
  have L: "unat (al_length a) \<le> length (al_buffer a)" "unat (al_length a) < 4294967296" "?c \<le> unat (al_length a)"
    using assms(1) by (simp_all add: aligned_ok_def word_le_nat_alt)
  have adv: "aligned_advance b (len + (al_cursor a - al_cursor b)) =
      Inr (b\<lparr>al_cursor := al_cursor b + (len + (al_cursor a - al_cursor b))\<rparr>, al_cursor b)"
    using un cb assms(4) lb by (intro advance_within) simp
  have cur: "al_cursor b + (len + (al_cursor a - al_cursor b)) = al_cursor a + len" by simp
  have ucur: "unat (al_cursor a + len) = ?c + unat len" using assms(4) by (intro unat_add_within [of _ _ "al_length a"]) simp
  have rd: "mem_read (al_buffer b) (unat (al_cursor b)) ?n = Inr (?h @ take (unat len) (behind a))"
    using cb assms(4) L lb bb by (simp add: mem_read_def slice_def behind_def)
  let ?b = "b\<lparr>al_cursor := al_cursor a + len\<rparr>" and ?v = "crc_calc32_network (?h @ take (unat len) (behind a))"
  let ?buf = "overwrite (al_buffer b) (?c + unat len) (uint32_bytes ?v)"
  have okb: "aligned_ok ?b" using L lb assms(4) ucur by (simp add: aligned_ok_def word_le_nat_alt)
  have "no_wrap ?b 4" using assms(4) ucur by (intro no_wrap_within [of _ _ "al_length a"]) simp
  then have wr: "aligned_write_uint32 ?b ?v = Inr (?b\<lparr>al_cursor := al_cursor a + len + 4, al_buffer := ?buf\<rparr>)"
    using u32c.wr_spec [OF okb] assms(4) ucur lb by simp
  have un4: "unat (len + (al_cursor a - al_cursor b) + 4) = ?n + 4"
    using un assms(3) length_header_bytes [of c o' opcode ackResponse fragIndex] by (subst unat_add_u32) simp_all
  have len4: "length (uint32_bytes ?v) = 4" using u32c.enc_length [of ?v] by simp
  have rd2: "mem_read ?buf (unat (al_cursor b)) (?n + 4) = Inr (sealed (?h @ take (unat len) (behind a)))"
    using slice_overwrite_end [of "unat (al_cursor b)" ?n "?c + unat len" "uint32_bytes ?v" "al_buffer b"] rd cb assms(4) L lb len4
    by (simp add: mem_read_def sealed_def split: if_splits)
  have ucur4: "unat (al_cursor a + len + 4) = ?c + unat len + 4"
    using assms(4) ucur unat_add_within [of "al_cursor a + len" 4 "al_length a"] by simp
  have "drop (?c + unat len + 4) ?buf = drop (unat len + 4) (behind a)"
  proof -
    have "drop (?c + unat len + 4) ?buf = drop (?c + unat len + 4) (al_buffer b)"
      using drop_overwrite [of "?c + unat len" "uint32_bytes ?v" "al_buffer b"] assms(4) L lb len4 by simp
    also have "\<dots> = drop (length ?h + (unat len + 4)) (behind b)"
      by (simp add: behind_def cb [symmetric] ac_simps)
    also have "\<dots> = drop (unat len + 4) (behind a)" by (simp add: bb)
    finally show ?thesis .
  qed
  then show ?thesis
    using b(1) adv rd wr un un4 rd2 ucur4 lb L assms(4) len4
    by (simp add: network_client_trilogy_send_fragment_def Let_def cur network_client_send_def network_client_send_no_increment_def
          aligned_ok_def word_le_nat_alt behind_def)
qed

section \<open>Receiving\<close>

lemma uint16_bytes_surj:
  assumes "length bs = 2"
  shows "\<exists>v. bs = uint16_bytes v"
proof -
  obtain a b where bs: "bs = [a, b]" using assms by (auto simp: numeral_eq_Suc length_Suc_conv)
  let ?v = "ucast a OR push_bit 8 (ucast b) :: u16"
  have sel: "bit (ucast (v AND mask 8) :: u8) n = (n < 8 \<and> bit v n)"
    "bit (ucast (drop_bit 8 (v AND push_bit 8 (mask 8))) :: u8) n = (n < 8 \<and> bit v (8 + n))" for v :: u16 and n
    by (auto simp: bit_codec)
  have "a = ucast (?v AND mask 8)" by (rule bit_word_eqI, simp only: sel) (auto simp: bit_codec)
  moreover have "b = ucast (drop_bit 8 (?v AND push_bit 8 (mask 8)))"
    by (rule bit_word_eqI, simp only: sel) (auto simp: bit_codec)
  ultimately have "bs = uint16_bytes ?v" unfolding bs uint16_bytes_def byte_masks by simp
  then show ?thesis ..
qed

text \<open>Every four bytes are the little-endian bytes of some word.\<close>

lemma uint32_bytes_surj:
  assumes "length bs = 4"
  shows "\<exists>v. bs = uint32_bytes v"
proof -
  obtain a b c d where bs: "bs = [a, b, c, d]"
    using assms by (auto simp: numeral_eq_Suc length_Suc_conv)
  let ?v = "ucast a OR push_bit 8 (ucast b) OR push_bit 16 (ucast c) OR push_bit 24 (ucast d) :: u32"
  have sel: "bit (ucast (v AND mask 8) :: u8) n = (n < 8 \<and> bit v n)"
    "bit (ucast (drop_bit 8 (v AND push_bit 8 (mask 8))) :: u8) n = (n < 8 \<and> bit v (8 + n))"
    "bit (ucast (drop_bit 16 (v AND push_bit 16 (mask 8))) :: u8) n = (n < 8 \<and> bit v (16 + n))"
    "bit (ucast (drop_bit 24 (v AND push_bit 24 (mask 8))) :: u8) n = (n < 8 \<and> bit v (24 + n))" for v :: u32 and n
    by (auto simp: bit_codec)
  have "a = ucast (?v AND mask 8)" by (rule bit_word_eqI, simp only: sel) (auto simp: bit_codec)
  moreover have "b = ucast (drop_bit 8 (?v AND push_bit 8 (mask 8)))"
    by (rule bit_word_eqI, simp only: sel) (auto simp: bit_codec)
  moreover have "c = ucast (drop_bit 16 (?v AND push_bit 16 (mask 8)))"
    by (rule bit_word_eqI, simp only: sel) (auto simp: bit_codec)
  moreover have "d = ucast (drop_bit 24 (?v AND push_bit 24 (mask 8)))"
    by (rule bit_word_eqI, simp only: sel) (auto simp: bit_codec)
  ultimately have "bs = uint32_bytes ?v" unfolding bs uint32_bytes_def byte_masks by simp
  then show ?thesis ..
qed

lemma rest_length: "aligned_ok a \<Longrightarrow> unat (aligned_remaining a) = length (rest a)"
  by (auto simp: aligned_ok_def aligned_remaining_def rest_def unat_sub_word word_le_nat_alt)

text \<open>What comes before the acknowledgement manager for a datagram with an acknowledgement
  number, as \<open>send_fragment\<close> writes it.\<close>

definition frame_header :: "bool \<Rightarrow> u16" where
  "frame_header fragment = PacketTrilogyHasAckRequest OR PacketTrilogyHasAckCounter OR
     (if fragment then PacketTrilogyIsFragment else 0)"

lemma frame_header_bits:
  assumes "x = frame_header fragment \<or> x = frame_header fragment OR PacketTrilogyHasAckResponse"
  shows "has_bit x PacketTrilogyHasAckRequest" "has_bit x PacketTrilogyHasAckCounter"
    "has_bit x PacketTrilogyIsFragment = fragment" "skip_unknown x a = Inr a"
    "\<not> has_bit x PacketTrilogyIsFirstPacket"
    "\<not> has_bit x (PacketTrilogyIsClosing OR PacketTrilogyIsClosing2)"
proof -
  have "fragment \<and> x = 0x1a \<or> fragment \<and> x = 0x41a \<or> \<not> fragment \<and> x = 0x12 \<or> \<not> fragment \<and> x = 0x412"
    using assms by (cases fragment) (auto simp: frame_header_def header_bits)
  then show "has_bit x PacketTrilogyHasAckRequest" "has_bit x PacketTrilogyHasAckCounter"
    "has_bit x PacketTrilogyIsFragment = fragment" "skip_unknown x a = Inr a"
    "\<not> has_bit x PacketTrilogyIsFirstPacket"
    "\<not> has_bit x (PacketTrilogyIsClosing OR PacketTrilogyIsClosing2)"
    by (auto simp: header_bits skip_unknown_def)
qed

text \<open>The number is noted and the payload goes to the acknowledgement manager.\<close>

definition deliver ::
  "heap \<Rightarrow> handler_trilogy \<Rightarrow> aligned \<Rightarrow> u16 \<Rightarrow> u16 \<Rightarrow> u16 \<Rightarrow> world \<Rightarrow> (handler_trilogy \<times> world) result" where
  "deliver h t b opcode ackRequest fragCount w =
     (let m = pht_ackMgr t in
      bindE (ack_mgr_trilogy_recv_packet h
               (m\<lparr>am_client := network_client_trilogy_recv_ack_request (am_client m) ackRequest False\<rparr>)
               b (pht_clientObject t) opcode ackRequest fragCount w) (\<lambda>(m, w).
      Inr (t\<lparr>pht_ackMgr := m\<rparr>, w)))"

lemma recv_body_frame:
  assumes ok: "aligned_ok a"
    and r: "rest a = uint16_bytes (toNetworkUint16 ack) @
      (if fragment then uint16_bytes (toNetworkUint16 grp) @ uint16_bytes (toNetworkUint16 fragIndex) @
         uint16_bytes (toNetworkUint16 fragCount) else []) @
      [one, counter] @ (if fragIndex = 0 then uint16_bytes opcode else []) @ payload"
    and x: "x = frame_header fragment \<or> x = frame_header fragment OR PacketTrilogyHasAckResponse"
    and ack: "ack \<noteq> 0" and fi: "\<not> fragment \<Longrightarrow> fragIndex = 0"
  shows "\<exists>b. aligned_ok b \<and> rest b = payload \<and> (\<forall>t w. recv_body h t x a w =
    deliver h t b (if fragIndex = 0 then opcode else 0) ack (if fragment then fragCount else 0) w)"
proof -
  note bits = frame_header_bits [OF x]
  obtain a1 where a1: "aligned_read_uint16 a = Inr (a1, toNetworkUint16 ack)" "aligned_ok a1"
    "rest a1 = (if fragment then uint16_bytes (toNetworkUint16 grp) @ uint16_bytes (toNetworkUint16 fragIndex) @
         uint16_bytes (toNetworkUint16 fragCount) else []) @
      [one, counter] @ (if fragIndex = 0 then uint16_bytes opcode else []) @ payload"
    using u16c.rd_rest [OF ok r] by blast
  let ?fields = "\<lambda>a. if fragment then bindE (aligned_advance a 2) (\<lambda>(a, _).
      bindE (aligned_read_uint16 a) (\<lambda>(a, fragIndex). bindE (aligned_read_uint16 a) (\<lambda>(a, fragCount).
      Inr (a, toHostUint16 fragIndex, toHostUint16 fragCount)))) else Inr (a, 0, 0)"
  obtain a2 where a2: "?fields a1 = Inr (a2, if fragment then fragIndex else 0, if fragment then fragCount else 0)" "aligned_ok a2"
    "rest a2 = [one, counter] @ (if fragIndex = 0 then uint16_bytes opcode else []) @ payload"
  proof (cases fragment)
    case True
    then have "rest a1 = uint16_bytes (toNetworkUint16 grp) @ uint16_bytes (toNetworkUint16 fragIndex) @
        uint16_bytes (toNetworkUint16 fragCount) @ [one, counter] @ (if fragIndex = 0 then uint16_bytes opcode else []) @ payload"
      using a1(3) by simp
    from advance_rest [OF a1(2) this, of 2] obtain c where c: "aligned_advance a1 2 = Inr (c, al_cursor a1)" "aligned_ok c"
      "rest c = uint16_bytes (toNetworkUint16 fragIndex) @
        uint16_bytes (toNetworkUint16 fragCount) @ [one, counter] @ (if fragIndex = 0 then uint16_bytes opcode else []) @ payload"
      by (auto simp: u16c.enc_length)
    from u16c.rd_rest [OF c(2,3)] obtain d where d: "aligned_read_uint16 c = Inr (d, toNetworkUint16 fragIndex)" "aligned_ok d"
      "rest d = uint16_bytes (toNetworkUint16 fragCount) @ [one, counter] @ (if fragIndex = 0 then uint16_bytes opcode else []) @ payload"
      by blast
    from u16c.rd_rest [OF d(2,3)] show ?thesis using that c(1) d(1) True by auto
  qed (use that a1 in simp)
  have ge: "fragment \<Longrightarrow> \<not> aligned_remaining a1 < 6"
    using rest_length [OF a1(2)] a1(3) by (simp add: word_less_nat_alt u16c.enc_length)
  obtain a3 where a3: "aligned_advance a2 2 = Inr (a3, al_cursor a2)" "aligned_ok a3"
    "rest a3 = (if fragIndex = 0 then uint16_bytes opcode else []) @ payload"
    using advance_rest [OF a2(2,3), of 2] by auto
  obtain b where b: "(if fragIndex = 0 \<and> aligned_remaining a3 \<ge> 2 then aligned_read_uint16 a3 else Inr (a3, 0)) =
      Inr (b, if fragIndex = 0 then opcode else 0)" "aligned_ok b" "rest b = payload"
  proof (cases "fragIndex = 0")
    case True
    then have "rest a3 = uint16_bytes opcode @ payload" using a3(3) by simp
    moreover from this have "aligned_remaining a3 \<ge> 2" using rest_length [OF a3(2)] by (simp add: word_le_nat_alt u16c.enc_length)
    ultimately show ?thesis using that u16c.rd_rest [OF a3(2)] True by auto
  qed (use that a3 in simp)
  show ?thesis
    using a1(1) a2(1) a3(1) b ge ack fi 
    by (intro exI [of _ b], cases fragment; cases "fragIndex = 0"; cases "2 \<le> aligned_remaining a3")
      (simp_all add: recv_body_def deliver_def bits Let_def)
qed

lemma sealed_length: "length (sealed bs) = length bs + 4"
  by (simp add: sealed_def u32c.enc_length)

lemma recv_sealed:
  assumes "6 \<le> length bs" "length bs < 2147483648"
  shows "\<exists>a. aligned_ok a \<and> rest a = bs \<and> protocol_handler_trilogy_recv h t (sealed bs) w = recv_accepted h t a w"
proof -
  let ?d = "sealed bs" and ?n = "of_nat (length bs) :: u32"
  have n: "unat ?n = length bs" using assms(2) by (intro unat_of_nat_u32) simp
  have len: "of_nat (length ?d) - 4 = ?n" by (simp add: sealed_length)
  have ul: "unat (of_nat (length ?d) :: u32) = length bs + 4" using assms(2) by (subst unat_of_nat_u32) (simp_all add: sealed_length)
  let ?a = "aligned_init ?d (of_nat (length ?d))"
  have a: "rest ?a = bs @ uint32_bytes (crc_calc32_network bs)" "aligned_ok ?a"
    using rest_init [of ?d] assms(2) sealed_length [of bs] by (simp_all add: sealed_def [symmetric])
  obtain b where b: "aligned_advance ?a ?n = Inr (b, al_cursor ?a)" "aligned_ok b" "rest b = uint32_bytes (crc_calc32_network bs) @ []"
    "al_length b = al_length ?a" "al_buffer b = al_buffer ?a"
    using advance_rest [OF a(2,1), of ?n] n by auto
  obtain c where c: "aligned_read_uint32 b = Inr (c, crc_calc32_network bs)" "al_length c = al_length b" "al_buffer c = al_buffer b"
    using u32c.rd_rest [OF b(2,3)] by blast
  let ?c = "aligned_reduce_size (aligned_reset c) 4"
  have cc: "al_length ?c = ?n" "al_buffer ?c = ?d" "al_cursor ?c = 0"
    using c b len by (simp_all add: aligned_reduce_size_def aligned_reset_def aligned_init_def aligned_init_cursor_def)
  have "protocol_handler_trilogy_recv h t ?d w = recv_accepted h t ?c w"
    unfolding protocol_handler_trilogy_recv_def Let_def len using b(1) c(1) assms(1) n
    by (simp add: sealed_length MIN_PACKET_LENGTH_def) (simp add: sealed_def)
  then show ?thesis using cc n by (intro exI [of _ ?c]) (simp add: aligned_ok_def rest_def word_le_nat_alt sealed_def)
qed

definition count_received :: "handler_trilogy \<Rightarrow> handler_trilogy" where
  "count_received t = (let m = pht_ackMgr t; c = am_client m; b = nct_base c in
     t\<lparr>pht_ackMgr := m\<lparr>am_client := c\<lparr>nct_base := b\<lparr>nc_packetsReceived := nc_packetsReceived b + 1\<rparr>\<rparr>\<rparr>\<rparr>)"

text \<open>What an accepted frame does: its acknowledgement, if it has one, then its number and payload.\<close>

definition frame_effect ::
  "heap \<Rightarrow> handler_trilogy \<Rightarrow> u16 \<Rightarrow> u16 \<Rightarrow> u16 \<Rightarrow> u16 \<Rightarrow> aligned \<Rightarrow> world \<Rightarrow> (handler_trilogy \<times> world) result" where
  "frame_effect h t ackResponse opcode ackRequest fragCount b w =
     (let t = count_received t; m = pht_ackMgr t in
      bindE (if ackResponse = 0 then Inr (am_client m, w)
             else network_client_trilogy_recv_ack_response (am_client m) ackResponse w) (\<lambda>(c, w).
      deliver h (t\<lparr>pht_ackMgr := m\<lparr>am_client := c\<rparr>\<rparr>) b opcode ackRequest fragCount w))"

lemma recv_accepted_frame:
  assumes ok: "aligned_ok a" and r: "rest a = header_bytes c o' opcode ackResponse k @ payload"
    and hd: "op_header o' = frame_header fragment" and op: "opcode \<noteq> 0"
    and ack: "op_ackRequest o' + ucast k \<noteq> 0" and k: "unat k < 65536" "\<not> fragment \<Longrightarrow> k = 0"
  shows "\<exists>b. aligned_ok b \<and> rest b = payload \<and> recv_accepted h t a w =
    frame_effect h t ackResponse (if k = 0 then opcode else 0) (op_ackRequest o' + ucast k)
      (if fragment then op_fragCount o' else 0) b w"
proof -
  let ?x = "if ackResponse \<noteq> 0 then frame_header fragment OR PacketTrilogyHasAckResponse else frame_header fragment"
  have x: "?x = frame_header fragment \<or> ?x = frame_header fragment OR PacketTrilogyHasAckResponse" by simp
  have has: "has_bit ?x PacketTrilogyHasAckResponse \<longleftrightarrow> ackResponse \<noteq> 0"
    by (cases fragment) (auto simp: frame_header_def header_bits)
  have k0: "(ucast k :: u16) = 0 \<longleftrightarrow> k = 0"
  proof -
    have "unat (ucast k :: u16) = unat k" using k(1) by (simp add: unsigned_ucast_eq take_bit_eq_mod)
    then show ?thesis by (metis unat_0 unat_0_iff)
  qed
  note bits = frame_header_bits [of "frame_header fragment" fragment]
  let ?tail = "uint16_bytes (toNetworkUint16 (op_ackRequest o' + ucast k)) @
      (if fragment then uint16_bytes (toNetworkUint16 (op_fragGroup o')) @ uint16_bytes (toNetworkUint16 (ucast k)) @
         uint16_bytes (toNetworkUint16 (op_fragCount o')) else []) @
      [op_ackCounterAlwaysOne o', op_ackCounterRequest o' + ucast k] @
      (if (ucast k :: u16) = 0 then uint16_bytes opcode else []) @ payload"
  have rest: "rest a = uint16_bytes ?x @ uint16_bytes (toNetworkUint16 (nct_nextSeqToSend c)) @
      (if ackResponse \<noteq> 0 then uint16_bytes ackResponse else []) @ ?tail"
    using r hd op bits k0 by (simp add: header_bytes_def)
  obtain a1 where a1: "aligned_read_uint16 a = Inr (a1, ?x)" "aligned_ok a1"
    "rest a1 = uint16_bytes (toNetworkUint16 (nct_nextSeqToSend c)) @ (if ackResponse \<noteq> 0 then uint16_bytes ackResponse else []) @ ?tail"
    using u16c.rd_rest [OF ok rest] by blast
  obtain a2 where a2: "aligned_read_uint16 a1 = Inr (a2, toNetworkUint16 (nct_nextSeqToSend c))" "aligned_ok a2"
    "rest a2 = (if ackResponse \<noteq> 0 then uint16_bytes ackResponse else []) @ ?tail"
    using u16c.rd_rest [OF a1(2,3)] by blast
  show ?thesis
  proof (cases "ackResponse = 0")
    case True
    then have "rest a2 = ?tail" using a2(3) by simp
    from recv_body_frame [OF a2(2) this x ack] k k0 obtain b where "aligned_ok b" "rest b = payload" and
      b: "\<And>t w. recv_body h t ?x a2 w = deliver h t b (if (ucast k :: u16) = 0 then opcode else 0)
        (op_ackRequest o' + ucast k) (if fragment then op_fragCount o' else 0) w" by blast
    then show ?thesis using a1(1) a2(1) True has k0
      by (intro exI [of _ b]) (simp add: recv_accepted_def frame_effect_def count_received_def Let_def)
  next
    case False
    then have "rest a2 = uint16_bytes ackResponse @ ?tail" using a2(3) by simp
    from u16c.rd_rest [OF a2(2) this] obtain a3 where a3: "aligned_read_uint16 a2 = Inr (a3, ackResponse)" "aligned_ok a3"
      "rest a3 = ?tail" by blast
    have "aligned_remaining a3 \<noteq> 0"
    proof
      assume "aligned_remaining a3 = 0"
      then have "length ?tail = 0" using rest_length [OF a3(2)] a3(3) by simp
      then show False by (simp add: uint16_bytes_def)
    qed
    moreover from recv_body_frame [OF a3(2,3) x ack] k k0 obtain b where "aligned_ok b" "rest b = payload" and
      b: "\<And>t w. recv_body h t ?x a3 w = deliver h t b (if (ucast k :: u16) = 0 then opcode else 0)
        (op_ackRequest o' + ucast k) (if fragment then op_fragCount o' else 0) w" by blast
    ultimately show ?thesis using a1(1) a2(1) a3(1) False has k0
      by (intro exI [of _ b]) (simp add: recv_accepted_def frame_effect_def count_received_def Let_def)
  qed
qed

lemma recv_frame:
  assumes "op_header o' = frame_header fragment" "opcode \<noteq> 0" "op_ackRequest o' + ucast k \<noteq> 0"
    "unat k < 65536" "\<not> fragment \<Longrightarrow> k = 0" "length payload < 65536"
  shows "\<exists>b. aligned_ok b \<and> rest b = payload \<and>
    protocol_handler_trilogy_recv h t (sealed (header_bytes c o' opcode ackResponse k @ payload)) w =
    frame_effect h t ackResponse (if k = 0 then opcode else 0) (op_ackRequest o' + ucast k)
      (if fragment then op_fragCount o' else 0) b w"
proof -
  let ?bs = "header_bytes c o' opcode ackResponse k @ payload"
  have "6 \<le> length (header_bytes c o' opcode ackResponse k)"
    using frame_header_bits(1) [of "frame_header fragment" fragment] assms(1) by (simp add: header_bytes_def u16c.enc_length)
  then obtain a where a: "aligned_ok a" "rest a = ?bs"
    "protocol_handler_trilogy_recv h t (sealed ?bs) w = recv_accepted h t a w"
    using recv_sealed [of ?bs h t w] assms(6) length_header_bytes [of c o' opcode ackResponse k] by auto
  show ?thesis unfolding a(3) by (rule recv_accepted_frame [OF a(1,2) assms(1-5)])
qed

text \<open>A datagram that is short or whose last four bytes are not the checksum of the others.\<close>

lemma recv_unsealed:
  assumes "length d < 2147483648" "length d < 10 \<or> d \<noteq> sealed (take (length d - 4) d)"
  shows "protocol_handler_trilogy_recv h t d w = Inr (t, w)"
proof (cases "length d < 10")
  case False
  let ?n = "of_nat (length d) - 4 :: u32"
  have ul: "unat (of_nat (length d) :: u32) = length d" using assms(1) by (intro unat_of_nat_u32) simp
  have n: "unat ?n = length d - 4" using False ul by (subst unat_sub_word) (simp_all add: word_le_nat_alt)
  let ?a = "aligned_init d (of_nat (length d))" and ?last = "drop (length d - 4) d"
  have a: "rest ?a = take (length d - 4) d @ ?last" "aligned_ok ?a" using rest_init [of d] assms(1) by simp_all
  obtain b where b: "aligned_advance ?a ?n = Inr (b, al_cursor ?a)" "aligned_ok b" "rest b = ?last"
    using advance_rest [OF a(2,1), of ?n] n by auto
  obtain v where v: "?last = uint32_bytes v" using uint32_bytes_surj [of ?last] False by auto
  then have "rest b = uint32_bytes v @ []" using b(3) by simp
  then obtain c where c: "aligned_read_uint32 b = Inr (c, v)" using u32c.rd_rest [OF b(2)] by blast
  have "v \<noteq> crc_calc32_network (take (length d - 4) d)"
    using assms(2) False v append_take_drop_id [of "length d - 4" d] by (auto simp: sealed_def)
  then show ?thesis using False b(1) c n by (simp add: protocol_handler_trilogy_recv_def MIN_PACKET_LENGTH_def)
qed (simp add: protocol_handler_trilogy_recv_def MIN_PACKET_LENGTH_def)

lemma sealed_damage:
  assumes "b \<noteq> b'" "xs @ b # ys = sealed bs"
  shows "xs @ b' # ys \<noteq> sealed (take (length bs) (xs @ b' # ys))"
proof -
  let ?t = "uint32_bytes (crc_calc32_network bs)"
  have eq: "xs @ b # ys = bs @ ?t" using assms(2) by (simp add: sealed_def)
  show ?thesis
  proof (cases "length bs \<le> length xs")
    case True
    then obtain us where us: "xs = bs @ us" "us @ b # ys = ?t" using eq by (auto simp: append_eq_append_conv2)
    moreover from this have "us @ b' # ys \<noteq> ?t" using assms(1) by (metis append_eq_append_conv list.inject)
    ultimately show ?thesis by (simp add: sealed_def)
  next
    case False
    then obtain vs where vs: "bs = xs @ b # vs" "ys = vs @ ?t" using eq by (auto simp: append_eq_append_conv2 Cons_eq_append_conv)
    have "crc_calc32_network bs \<noteq> crc_calc32_network (xs @ b' # vs)"
      using crc_calc32_byte_change(2) [OF assms(1)] vs(1) by simp
    then have "?t \<noteq> uint32_bytes (crc_calc32_network (xs @ b' # vs))" by (metis u32c.dec_enc)
    then show ?thesis using vs by (simp add: sealed_def)
  qed
qed

section \<open>The first datagram\<close>

text \<open>Without a good checksum the connection becomes one of the standard variant.\<close>

lemma first_packet_standard:
  assumes "6 \<le> length d" "length d < 2147483648" "d \<noteq> sealed (take (length d - 4) d)"
  shows "protocol_handler_check_first_packet h fd client handler newObject ph d index w =
    Inr (ph\<lparr>ph_isTrilogy := 0, ph_body := Standard (protocol_handler_standard_init fd client index)\<rparr>, w)"
proof -
  let ?n = "of_nat (length d) - 4 :: u32" and ?a = "aligned_init d (of_nat (length d))"
  have ul: "unat (of_nat (length d) :: u32) = length d" using assms(2) by (intro unat_of_nat_u32) simp
  have n: "unat ?n = length d - 4" using assms(1) ul by (subst unat_sub_word) (simp_all add: word_le_nat_alt)
  have n2: "unat (?n - 2) = length d - 6" using assms(1) n by (subst unat_sub_word) (simp_all add: word_le_nat_alt)
  obtain v where v: "take 2 d = uint16_bytes v" using uint16_bytes_surj [of "take 2 d"] assms(1) by auto
  let ?mid = "take (length d - 6) (drop 2 d)" and ?last = "drop (length d - 4) d"
  have "length d - 4 = length d - 6 + 2" using assms(1) by simp
  then have "?mid @ ?last = drop 2 d" using append_take_drop_id [of "length d - 6" "drop 2 d"] by simp
  then have "rest ?a = uint16_bytes v @ ?mid @ ?last" "aligned_ok ?a"
    using rest_init [of d] assms(2) v append_take_drop_id [of 2 d] by simp_all
  from u16c.rd_rest [OF this(2,1)] obtain b where b: "aligned_read_uint16 ?a = Inr (b, v)" "aligned_ok b" "rest b = ?mid @ ?last" by blast
  obtain c where c: "aligned_advance b (?n - 2) = Inr (c, al_cursor b)" "aligned_ok c" "rest c = ?last"
    using advance_rest [OF b(2,3), of "?n - 2"] n2 assms(1) by auto
  obtain x where x: "?last = uint32_bytes x" using uint32_bytes_surj [of ?last] assms(1) by auto
  then have "rest c = uint32_bytes x @ []" using c(3) by simp
  then obtain e where e: "aligned_read_uint32 c = Inr (e, x)" using u32c.rd_rest [OF c(2)] by blast
  have "x \<noteq> crc_calc32_network (take (length d - 4) d)"
    using assms(3) x append_take_drop_id [of "length d - 4" d] by (auto simp: sealed_def)
  then show ?thesis using b(1) c(1) e n by (simp add: protocol_handler_check_first_packet_def Let_def)
qed

end
