(* ===== verification/Standard_Protocol.thy ===== *)
theory Standard_Protocol
  imports Protocol_Handler
begin

text \<open>
  The standard variant returns on every datagram: the nesting of combined packets and the rounds
  of the loop over them are bounded by the number of bytes. The fuel of the model is therefore
  never used up.
\<close>

section \<open>Results that are not divergence\<close>

definition ends :: "'a result \<Rightarrow> bool" where
  "ends r \<longleftrightarrow> r \<noteq> Inl Diverges"

lemma ends_Inr [simp]: "ends (Inr x)"
  by (simp add: ends_def)

lemma ends_Inl [simp]: "ends (Inl e) \<longleftrightarrow> e \<noteq> Diverges"
  by (simp add: ends_def)

lemma ends_bindE [intro!]: "ends r \<Longrightarrow> (\<And>x. r = Inr x \<Longrightarrow> ends (f x)) \<Longrightarrow> ends (bindE r f)"
  by (cases r) auto

lemma ends_advance [simp]: "ends (aligned_advance a len)"
  by (simp add: aligned_advance_def Let_def)

lemma ends_mem_read [simp]: "ends (mem_read xs off n)"
  by (simp add: mem_read_def)

lemma ends_reads [simp]:
  "ends (aligned_read_uint8 a)" "ends (aligned_read_uint16 a)" "ends (aligned_read_uint32 a)" "ends (aligned_peek_uint8 a)"
  unfolding aligned_read_uint8_def aligned_read_uint16_def aligned_read_uint32_def aligned_peek_uint8_def aligned_check_def
  by (auto split: prod.splits)

lemma advance_Inr: "aligned_advance a len = Inr (b, c) \<longleftrightarrow> al_cursor a + len \<le> al_length a \<and>
    b = a\<lparr>al_cursor := al_cursor a + len\<rparr> \<and> c = al_cursor a"
  by (auto simp: aligned_advance_def Let_def not_less)

lemma read_uint8_Inr: "aligned_read_uint8 a = Inr (b, v) \<Longrightarrow> al_cursor a + 1 \<le> al_length a \<and> b = a\<lparr>al_cursor := al_cursor a + 1\<rparr>"
  by (auto simp: aligned_read_uint8_def advance_Inr result_simps split: prod.splits)

lemma read_uint16_Inr: "aligned_read_uint16 a = Inr (b, v) \<Longrightarrow> al_cursor a + 2 \<le> al_length a \<and> b = a\<lparr>al_cursor := al_cursor a + 2\<rparr>"
  by (auto simp: aligned_read_uint16_def advance_Inr result_simps split: prod.splits)

section \<open>The loop over a combined packet\<close>

text \<open>In a round the cursor moves on by the length byte and the nested packet.\<close>

lemma round_remaining:
  fixes size' :: u32
  assumes "al_cursor a \<le> al_length a" "aligned_remaining a \<noteq> 0" "b = a\<lparr>al_cursor := al_cursor a + 1\<rparr>"
    "size' \<le> aligned_remaining b"
  shows "unat (aligned_remaining b) < unat (aligned_remaining a)"
    "al_cursor b + size' \<le> al_length b"
    "unat (aligned_remaining (b\<lparr>al_cursor := al_cursor b + size'\<rparr>)) < unat (aligned_remaining a)"
proof -
  have r: "unat (aligned_remaining a) = unat (al_length a) - unat (al_cursor a)"
    using unat_sub_word [OF assms(1)] by (simp add: aligned_remaining_def)
  have "unat (aligned_remaining a) \<noteq> 0" using assms(2) by (simp add: unat_eq_0)
  then have lt: "unat (al_cursor a) < unat (al_length a)" using r by simp
  have c1: "unat (al_cursor a + 1) = Suc (unat (al_cursor a))"
    using lt unat_lt_u32 [of "al_length a"] by (intro unat_Suc_u32) linarith
  have "al_cursor a + 1 \<le> al_length a" using c1 lt by (simp add: word_le_nat_alt)
  then have rb: "unat (aligned_remaining b) = unat (al_length a) - Suc (unat (al_cursor a))"
    using unat_sub_word [of "al_cursor a + 1" "al_length a"] c1 assms(3) by (simp add: aligned_remaining_def)
  then show "unat (aligned_remaining b) < unat (aligned_remaining a)" using r lt by simp
  have sz: "unat size' \<le> unat (al_length a) - Suc (unat (al_cursor a))" using assms(4) rb by (simp add: word_le_nat_alt)
  have c2: "unat (al_cursor a + 1 + size') = Suc (unat (al_cursor a)) + unat size'"
  proof -
    have "Suc (unat (al_cursor a)) + unat size' < 4294967296" using sz lt unat_lt_u32 [of "al_length a"] by linarith
    then show ?thesis using unat_add_u32 [of "al_cursor a + 1" size'] c1 by simp
  qed
  then show ok: "al_cursor b + size' \<le> al_length b" using sz lt assms(3) by (simp add: word_le_nat_alt)
  show "unat (aligned_remaining (b\<lparr>al_cursor := al_cursor b + size'\<rparr>)) < unat (aligned_remaining a)"
    using unat_sub_word [OF ok] c2 assms(3) r lt by (simp add: aligned_remaining_def)
qed

lemma combined_ends:
  assumes "\<And>s a w. al_cursor a = 0 \<Longrightarrow> unat (al_length a) < n \<Longrightarrow> ends (recv s a w)"
    "al_cursor a \<le> al_length a" "unat (aligned_remaining a) < k" "unat (aligned_remaining a) \<le> n"
  shows "ends (protocol_handler_standard_handle_combined k recv s a w)"
  using assms(2-4)
proof (induction k arbitrary: s a w)
  case (Suc k)
  show ?case
  proof (cases "aligned_remaining a = 0")
    case False
    show ?thesis unfolding protocol_handler_standard_handle_combined.simps Let_def
    proof (simp only: False if_False, rule ends_bindE)
      fix x assume "aligned_read_uint8 a = Inr x"
      then obtain b v where x: "x = (b, v)" "b = a\<lparr>al_cursor := al_cursor a + 1\<rparr>"
        using read_uint8_Inr by (cases x) blast
      let ?z = "ucast v :: u32"
      have "ends (protocol_handler_standard_handle_combined k recv s' (b\<lparr>al_cursor := al_cursor b + ?z\<rparr>) w')"
        if "?z \<le> aligned_remaining b" for s' w'
        using round_remaining [OF Suc.prems(1) False x(2) that] Suc.prems(2,3) by (intro Suc.IH) simp_all
      moreover have "ends (recv s' (aligned_init d ?z) w')" if "?z \<le> aligned_remaining b" for s' w' d
        using round_remaining(1) [OF Suc.prems(1) False x(2) that] that Suc.prems(3)
        by (intro assms(1)) (simp_all add: aligned_init_def aligned_init_cursor_def word_le_nat_alt)
      ultimately show "ends (case x of (a, b) \<Rightarrow>
          if ucast b > aligned_remaining a then Inr (s, w)
          else bindE (recv s (aligned_init (drop (unat (al_cursor a)) (al_buffer a)) (ucast b)) w) (\<lambda>(s, w).
               bindE (aligned_advance a (ucast b)) (\<lambda>(a, _). protocol_handler_standard_handle_combined k recv s a w)))"
        unfolding x(1) by (auto simp: advance_Inr not_less split: prod.splits)
    qed simp
  qed simp
qed simp

text \<open>A cursor past the end makes the first read of the loop throw.\<close>

lemma combined_past_end:
  assumes "al_length a < al_cursor a" "al_cursor a \<le> 3" "0 < k"
  shows "ends (protocol_handler_standard_handle_combined k recv s a w)"
proof -
  obtain j where k: "k = Suc j" using assms(3) gr0_implies_Suc by blast
  have "al_cursor a + 1 > al_length a"
  proof -
    have "unat (al_cursor a + 1) = Suc (unat (al_cursor a))"
      using assms(2) by (intro unat_Suc_u32) (simp add: word_le_nat_alt)
    then show ?thesis using assms(1) by (simp add: word_less_nat_alt)
  qed
  then have "aligned_read_uint8 a = Inl ErrorOutOfBounds"
    by (simp add: aligned_read_uint8_def aligned_advance_def Let_def)
  then show ?thesis by (simp add: k)
qed

section \<open>A datagram\<close>

lemma validate_crc_ends: "ends (protocol_handler_standard_validate_crc a key)"
  by (auto simp: protocol_handler_standard_validate_crc_def Let_def split: prod.splits)

lemma validate_ends: "ends (protocol_handler_standard_validate_and_decompress_packet s a c)"
  using validate_crc_ends
  by (auto simp: protocol_handler_standard_validate_and_decompress_packet_def split: prod.splits)

lemma session_request_ends: "ends (protocol_handler_standard_handle_session_request clk rnd s a w)"
  by (auto simp: protocol_handler_standard_handle_session_request_def Let_def split: prod.splits)

text \<open>Validation cuts off the checksum and skips the compression flag.\<close>

lemma validate_Inr:
  assumes "protocol_handler_standard_validate_and_decompress_packet s a c = Inr (ok, b)"
  shows "(al_cursor b = al_cursor a \<or> al_cursor b = al_cursor a + 1 \<and> al_cursor b \<le> al_length b) \<and>
    (al_length b = al_length a \<or> al_length b = al_length a - 2)"
  using assms
  by (auto simp: protocol_handler_standard_validate_and_decompress_packet_def result_simps aligned_reduce_size_def advance_Inr
      split: if_splits prod.splits)

lemma after_opcode:
  assumes "al_cursor a = 2" "2 \<le> al_length a" "unat (al_length a) < Suc n"
    "protocol_handler_standard_validate_and_decompress_packet s a c = Inr (ok, b)" "al_cursor b \<le> al_length b"
  shows "unat (aligned_remaining b) \<le> n"
proof -
  have "unat (al_length a - 2) = unat (al_length a) - 2" using unat_sub_word [OF assms(2)] by simp
  then have "unat (al_length b) \<le> unat (al_length a)" using validate_Inr [OF assms(4)] by auto
  moreover have "unat (aligned_remaining b) = unat (al_length b) - unat (al_cursor b)"
    using unat_sub_word [OF assms(5)] by (simp add: aligned_remaining_def)
  ultimately show ?thesis using assms(3) by simp
qed

lemma handle_recv_ends:
  "al_cursor a = 0 \<Longrightarrow> unat (al_length a) < fuel \<Longrightarrow> ends (protocol_handler_standard_handle_recv fuel clk rnd fc s a w)"
proof (induction fuel arbitrary: fc s a w)
  case (Suc fuel)
  have comb: "ends (protocol_handler_standard_handle_combined (Suc (unat (aligned_remaining b)))
      (protocol_handler_standard_handle_recv fuel clk rnd True) s b w)"
    if a': "a' = a\<lparr>al_cursor := 2\<rparr>" "2 \<le> al_length a"
      and v: "protocol_handler_standard_validate_and_decompress_packet s a' fc = Inr (ok, b)" for a' ok b
  proof (cases "al_cursor b \<le> al_length b")
    case True
    have "unat (aligned_remaining b) \<le> fuel"
      using after_opcode [OF _ _ _ v True] a' Suc.prems by simp
    then show ?thesis using Suc.IH True by (intro combined_ends [where n = fuel]) auto
  next
    case False
    have "al_cursor b = 2" using validate_Inr [OF v] a' False by auto
    then show ?thesis using False by (intro combined_past_end) (simp_all add: not_le)
  qed
  show ?case unfolding protocol_handler_standard_handle_recv.simps Let_def
    using comb Suc.prems(1) validate_ends session_request_ends read_uint16_Inr [of a]
    by (auto split: prod.splits)
qed simp

text \<open>Without an opcode of the protocol nothing happens.\<close>

lemma standard_recv_ignores:
  assumes "aligned_read_uint16 (aligned_init d (of_nat (length d))) = Inr (a, v)" "toHostUint16 v > 0xff"
  shows "\<exists>s'. protocol_handler_standard_recv clk rnd s d w = Inr (s', w)"
  using assms by (simp add: protocol_handler_standard_recv_def Let_def)

end
