(* ===== verification/Net_Properties.thy ===== *)
theory Net_Properties
  imports Ack_Mgr_Correct Udp_Socket Wire_Format Standard_Protocol
begin

text \<open>
  What is promised of the network code: packets in fragments, numbers in the window, connections in
  the table; and the inputs from the network it does not stand up to.
\<close>

section \<open>Concrete states\<close>

definition net_heap :: heap where
  "net_heap = \<lparr>can_alloc = \<lambda>_. True, junk = \<lambda>_. 0\<rparr>"

lemma ample_net_heap [simp]: "ample net_heap"
  by (simp add: ample_def net_heap_def)

definition empty_world :: world where
  "empty_world = \<lparr>w_clients = \<lparr>vec_capacity = 2, vec_items = []\<rparr>, w_packets = Map.empty, w_sent = [], w_reads = 0,
     w_events = []\<rparr>"

definition demo_client :: udp_client where
  "demo_client = \<lparr>uc_ip = 1, uc_port = 2, uc_isDead = False, uc_ignoreAllPackets = False, uc_handler = None,
     uc_lastRecvTime = 0\<rparr>"

text \<open>A manager that waits for a number.\<close>

definition waiting_for :: "u16 \<Rightarrow> ack_mgr" where
  "waiting_for e = (case ack_mgr_trilogy_init net_heap 5 demo_client 0 of
     Inr m \<Rightarrow> m\<lparr>am_client := (am_client m)\<lparr>nct_nextAckRequestExpected := e\<rparr>\<rparr>)"

lemma waiting_for_simps:
  "nct_nextAckRequestExpected (am_client (waiting_for e)) = e"
  "am_inputPackets (waiting_for e) = Some \<lparr>vec_capacity = 2, vec_items = []\<rparr>"
  by (simp_all add: waiting_for_def ack_mgr_trilogy_init_def network_client_trilogy_init_def vec_create_def net_heap_def
      MIN_CAPACITY_def)

definition packet_of :: "bytes \<Rightarrow> aligned" where
  "packet_of d = aligned_init d (of_nat (length d))"

section \<open>Fragments\<close>

text \<open>C15. The fragments of a packet may arrive in any order and any number of times: as long as one
  is missing the application sees nothing, and once all have arrived it has got the whole packet,
  exactly once, with the payloads in order; the manager then waits for the number after the last.\<close>

theorem fragments_reassembled:
  assumes "group_ok g" "ample h" "nct_nextAckRequestExpected (am_client m) = fg_first g" "am_inputPackets m = Some v"
    "vec_ok sizeof_InputPacketTrilogy v" "vec_items v = []"
    "\<forall>x \<in> set xs. fst x < fg_count g \<and> carries (snd x) (fg_payload g ! fst x)"
  shows "\<exists>m'. recv_fragments h g obj xs m w =
      Inr (m', if {..<fg_count g} \<subseteq> fst ` set xs
               then emit (client_recv_packet_trilogy obj (fg_opcode g 0) (concat (fg_payload g))) w else w) \<and>
    ({..<fg_count g} \<subseteq> fst ` set xs \<longrightarrow>
      nct_nextAckRequestExpected (am_client m') = fg_first g + of_nat (fg_count g) \<and>
      (\<exists>v'. am_inputPackets m' = Some v' \<and> vec_items v' = []))"
proof -
  have all: "{} \<union> fst ` set xs = {..<fg_count g} \<longleftrightarrow> {..<fg_count g} \<subseteq> fst ` set xs" using assms(7) by auto
  have "{} \<subset> {..<fg_count g}" using assms(1) by (auto simp: group_ok_def)
  from recv_fragments_spec [OF assms(1,2) pending_empty [OF assms(3-6)] this assms(7), of obj w]
  show ?thesis unfolding all delivery_def completed_def by (cases "{..<fg_count g} \<subseteq> fst ` set xs") auto
qed

definition demo_group :: frag_group where
  "demo_group = \<lparr>fg_first = 7, fg_payload = [[1, 2], [3]], fg_opcode = \<lambda>i. if i = 0 then 99 else 0\<rparr>"

theorem fragments_reassembled_witness:
  "\<exists>m'. recv_fragments net_heap demo_group None [(1, packet_of [3]), (1, packet_of [3]), (0, packet_of [1, 2])]
      (waiting_for 7) empty_world =
    Inr (m', emit (client_recv_packet_trilogy None 99 [1, 2, 3]) empty_world) \<and>
    nct_nextAckRequestExpected (am_client m') = 9"
proof -
  let ?xs = "[(1, packet_of [3]), (1, packet_of [3]), (0, packet_of [1, 2])]"
  have g: "group_ok demo_group" by (simp add: group_ok_def demo_group_def)
  have v: "vec_ok sizeof_InputPacketTrilogy \<lparr>vec_capacity = 2, vec_items = []\<rparr>"
    by (simp add: vec_ok_def sizeof_InputPacketTrilogy_def)
  have xs: "\<forall>x \<in> set ?xs. fst x < fg_count demo_group \<and> carries (snd x) (fg_payload demo_group ! fst x)"
    by (simp add: demo_group_def carries_def packet_of_def aligned_init_def aligned_init_cursor_def aligned_remaining_def
        mem_read_def slice_def)
  have all: "{..<fg_count demo_group} \<subseteq> fst ` set ?xs" by (auto simp: demo_group_def)
  have e: "nct_nextAckRequestExpected (am_client (waiting_for 7)) = fg_first demo_group"
    by (simp add: waiting_for_simps demo_group_def)
  from fragments_reassembled [OF g ample_net_heap e waiting_for_simps(2) v _ xs, of None empty_world] all
  show ?thesis by (auto simp: demo_group_def)
qed



text \<open>C20. Within half a window the comparison of acknowledgement numbers is right, also across the
  wrap of the counter: what is up to 1023 ahead is future, what is up to 1024 behind is past.\<close>

theorem ack_window:
  assumes "0 < d" "d < 1024"
  shows "ack_compare (expected + of_nat d) expected = AckFuture \<and> ack_compare expected (expected + of_nat d) = AckPast \<and>
    ack_compare expected expected = AckPresent"
  using ack_compare_ahead [OF assms] ack_compare_behind [of d expected] assms by (simp add: ack_compare_def)

theorem ack_window_witness:
  "ack_compare 4 65530 = AckFuture \<and> ack_compare 65530 4 = AckPast \<and> ack_compare 65530 65530 = AckPresent"
proof -
  have e: "(65530 + of_nat 10 :: u16) = 4" by code_simp
  show ?thesis by (rule ack_window [of 10 65530, unfolded e]) simp_all
qed

definition early_packet_run :: "(ack_mgr \<times> world) result" where
  "early_packet_run =
     (let recv = ack_mgr_trilogy_recv_packet net_heap in
      bindE (recv (waiting_for 1) (packet_of [2]) None 20 2 0 empty_world) (\<lambda>(m, w).
      bindE (recv m (packet_of [1]) None 10 1 0 w) (\<lambda>(m, w).
      bindE (recv m (packet_of [2]) None 20 2 0 w) (\<lambda>(m, w).
      recv m (packet_of [3]) None 30 3 2 w))))"


definition interleaved_run :: "(ack_mgr \<times> world) result" where
  "interleaved_run =
     (let recv = ack_mgr_trilogy_recv_packet net_heap in
      bindE (recv ((waiting_for 1)\<lparr>am_inputPackets := Some \<lparr>vec_capacity = 8, vec_items = []\<rparr>\<rparr>)
               (packet_of [3]) None 0 3 2 empty_world) (\<lambda>(m, w).
      bindE (recv m (packet_of [2]) None 20 2 0 w) (\<lambda>(m, w).
      recv m (packet_of [1]) None 10 1 2 w)))"


section \<open>Splitting packets\<close>


definition demo_large :: packet where
  "demo_large = \<lparr>pt_opcode = 5, pt_fragCount = 1, pt_dataLength = 600, pt_refCount = 0, pt_data = replicate 644 9\<rparr>"


text \<open>C25. The number of fragments chosen for a packet of more than 512 bytes is enough for its
  payload, except when the length is a multiple of 512 or one less: the opcode takes two bytes
  of the first fragment, which the count leaves out.\<close>

theorem frag_count_enough_iff:
  assumes "512 < unat len" "unat len \<le> 2 ^ 24" "n = unat (snd (packet_trilogy_calc_length_and_frag_count len))"
  shows "unat len \<le> 510 + 512 * n \<longleftrightarrow> unat len mod 512 \<noteq> 0 \<and> unat len mod 512 \<noteq> 511"
proof -
  obtain L where L: "L = unat len" by simp
  have b: "512 * n < L" "L \<le> 512 * n + 512" using create_frag_count [OF assms] unfolding L by auto
  define r where "r = L - 512 * n"
  have r: "L = r + 512 * n" "0 < r" "r \<le> 512" using b by (auto simp: r_def)
  have "L mod 512 = r mod 512" unfolding r(1) by simp
  then have "L mod 512 = (if r = 512 then 0 else r)" using r(3) by auto
  then show ?thesis using r unfolding L [symmetric] by auto
qed

theorem frag_count_enough_iff_witness:
  "\<not> unat (1024 :: u32) \<le> 510 + 512 * unat (snd (packet_trilogy_calc_length_and_frag_count 1024))"
  using frag_count_enough_iff [of 1024] by simp

section \<open>Datagrams\<close>

text \<open>C16. What one side sends the other side gets: the datagram \<open>send_fragment\<close> makes of an
  unfragmented packet is accepted by a handler that waits for its number, which passes exactly its
  opcode and its payload to the application, once, and waits for the next number.\<close>

theorem datagram_delivered:
  assumes "aligned_ok a" "18 \<le> unat (al_cursor a)" "unat (al_cursor a) + unat len + 4 \<le> unat (al_length a)"
    "unat (al_length a) < 65536" "op_header o' = PacketTrilogyHasAckRequest OR PacketTrilogyHasAckCounter"
    "opcode \<noteq> 0" "op_ackRequest o' \<noteq> 0"
    "nct_nextAckRequestExpected (am_client (pht_ackMgr t)) = op_ackRequest o'"
  shows "\<exists>c' a' d t'.
    network_client_trilogy_send_fragment c o' a len opcode 0 0 w =
      Inr (c', a', w\<lparr>w_sent := w_sent w @ [(nc_ip (nct_base c), nc_port (nct_base c), d)]\<rparr>) \<and>
    protocol_handler_trilogy_recv h t d v =
      Inr (t', emit (client_recv_packet_trilogy (pht_clientObject t) opcode
                 (take (unat len) (drop (unat (al_cursor a)) (al_buffer a)))) v) \<and>
    nct_nextAckRequestExpected (am_client (pht_ackMgr t')) = op_ackRequest o' + 1"
proof -
  let ?p = "take (unat len) (behind a)"
  have L: "unat (al_length a) \<le> length (al_buffer a)" using assms(1) by (simp add: aligned_ok_def)
  then have w: "writable a 18" using assms(2-4) by (simp add: writable_def)
  have "unat len \<le> 65536" using assms(3,4) by simp
  from send_fragment_spec [OF assms(1) w this assms(3), of c o' opcode 0 0 w]
  obtain c' a' where s: "network_client_trilogy_send_fragment c o' a len opcode 0 0 w =
      Inr (c', a', w\<lparr>w_sent := w_sent w @ [(nc_ip (nct_base c), nc_port (nct_base c),
        sealed (header_bytes c o' opcode 0 0 @ ?p))]\<rparr>)" by blast
  have hd: "op_header o' = frame_header False" using assms(5) by (simp add: frame_header_def)
  have "length ?p < 65536" using assms(3,4) by simp
  from recv_frame [OF hd assms(6), of 0 ?p h t c 0 v] assms(7) this
  obtain b where b: "rest b = ?p" "protocol_handler_trilogy_recv h t (sealed (header_bytes c o' opcode 0 0 @ ?p)) v =
      frame_effect h t 0 opcode (op_ackRequest o') 0 b v" by auto
  have "nct_nextAckRequestExpected (network_client_trilogy_recv_ack_request c0 n False) = nct_nextAckRequestExpected c0" for c0 n
    by (simp add: network_client_trilogy_recv_ack_request_def)
  then have "\<exists>t'. frame_effect h t 0 opcode (op_ackRequest o') 0 b v =
      Inr (t', emit (client_recv_packet_trilogy (pht_clientObject t) opcode ?p) v) \<and>
      nct_nextAckRequestExpected (am_client (pht_ackMgr t')) = op_ackRequest o' + 1"
    using assms(8) b(1) by (simp add: frame_effect_def deliver_def count_received_def ack_mgr_trilogy_recv_packet_def Let_def)
  then show ?thesis using s b(2) by (auto simp: behind_def)
qed

definition demo_handler :: handler_trilogy where
  "demo_handler = \<lparr>pht_ackMgr = waiting_for 7, pht_clientObject = None\<rparr>"

definition demo_output :: output_packet where
  "demo_output = \<lparr>op_header = 0x12, op_ackRequest = 7, op_fragGroup = 0, op_fragCount = 1, op_ackCounterAlwaysOne = 1,
     op_ackCounterRequest = 0, op_ackTimestamp = 0, op_packet = None\<rparr>"

theorem datagram_delivered_witness:
  "\<exists>c' a' d t'.
    network_client_trilogy_send_fragment (am_client (waiting_for 1)) demo_output (aligned_init_cursor (replicate 32 9) 32 18) 10 5 0 0
      empty_world = Inr (c', a', empty_world\<lparr>w_sent := [(1, 2, d)]\<rparr>) \<and>
    protocol_handler_trilogy_recv net_heap demo_handler d empty_world =
      Inr (t', emit (client_recv_packet_trilogy None 5 (replicate 10 9)) empty_world)"
proof -
  let ?a = "aligned_init_cursor (replicate 32 9) 32 18"
  have c: "nc_ip (nct_base (am_client (waiting_for 1))) = 1" "nc_port (nct_base (am_client (waiting_for 1))) = 2"
    by (simp_all add: waiting_for_def ack_mgr_trilogy_init_def network_client_trilogy_init_def vec_create_def net_heap_def
      MIN_CAPACITY_def network_client_init_def demo_client_def)
  have "aligned_ok ?a" by (simp add: aligned_ok_def aligned_init_cursor_def)
  from datagram_delivered [OF this, of 10 demo_output 5 demo_handler "am_client (waiting_for 1)" empty_world net_heap empty_world] c
  show ?thesis
    by (simp add: aligned_init_cursor_def demo_output_def header_bits demo_handler_def waiting_for_simps empty_world_def) blast
qed

text \<open>C17. A datagram that was damaged in one byte on its way, be it in the header, the payload or the
  checksum, is ignored: nothing of the connection changes and the application sees nothing.\<close>

theorem damaged_datagram_ignored:
  assumes "b \<noteq> b'" "xs @ b # ys = bs @ uint32_bytes (crc_calc32_network bs)" "length bs < 65536"
  shows "protocol_handler_trilogy_recv h t (xs @ b' # ys) w = Inr (t, w)"
proof -
  let ?d = "xs @ b' # ys"
  have s: "xs @ b # ys = sealed bs" using assms(2) by (simp add: sealed_def)
  have l: "length ?d = length bs + 4" using arg_cong [OF s, of length] by (simp add: sealed_length)
  have "?d \<noteq> sealed (take (length ?d - 4) ?d)" using sealed_damage [OF assms(1) s] unfolding l by simp
  moreover have "length ?d < 2147483648" using l assms(3) by simp
  ultimately show ?thesis using recv_unsealed by blast
qed

theorem damaged_datagram_ignored_witness:
  "protocol_handler_trilogy_recv net_heap demo_handler
     ([0, 0, 1, 2, 3, 8] @ uint32_bytes (crc_calc32_network [0, 0, 1, 2, 3, 4])) empty_world = Inr (demo_handler, empty_world)"
  using damaged_datagram_ignored [of 4 8 "[0, 0, 1, 2, 3]" "uint32_bytes (crc_calc32_network [0, 0, 1, 2, 3, 4])"
    "[0, 0, 1, 2, 3, 4]" net_heap demo_handler empty_world] by simp

text \<open>C18. The standard variant returns on every datagram, however its combined packets are nested:
  the recursion and the loops are bounded by the number of its bytes.\<close>

theorem standard_recv_returns:
  assumes "length d < 2 ^ 32"
  shows "protocol_handler_standard_recv clk rnd s d w \<noteq> Inl Diverges"
proof -
  have "unat (of_nat (length d) :: u32) = length d" using assms by (rule unat_of_nat_u32)
  then show ?thesis
    using handle_recv_ends [of "aligned_init d (of_nat (length d))" "length d + 1" clk rnd False]
    by (simp add: protocol_handler_standard_recv_def Let_def aligned_init_def aligned_init_cursor_def ends_def)
qed

theorem standard_recv_returns_witness:
  "protocol_handler_standard_recv (\<lambda>_. 0) (\<lambda>_. 0) (protocol_handler_standard_init 5 demo_client 0) [0, 3, 3, 0, 3, 0] empty_world \<noteq> Inl Diverges"
  using standard_recv_returns [of "[0, 3, 3, 0, 3, 0]" "\<lambda>_. 0" "\<lambda>_. 0" "protocol_handler_standard_init 5 demo_client 0" empty_world] by simp

text \<open>C21. One datagram from anybody stops the server: if its last four bytes are not its checksum the
  connection is of the standard variant, and the next sending of the queues uses its trilogy member,
  which was never initialised.\<close>

theorem junk_datagram_crashes:
  assumes "ample h" "d = uint16_bytes (toNetworkUint16 opcode) @ e" "opcode > 0xff" "4 \<le> length e" "length d \<le> 1024"
    "drop (length d - 4) d \<noteq> uint32_bytes (crc_calc32_network (take (length d - 4) d))"
  shows "\<exists>sock sock'. udp_socket_create h = Inr sock \<and>
    udp_socket_recv h clk rnd newObject [(ip, port, d)] sock = Inr sock' \<and>
    udp_socket_send clk sock' = Inl UndefinedBehaviour"
proof -
  have alloc: "can_alloc h n" for n using assms(1) by (simp add: ample_def)
  have len: "6 \<le> length d" "length d < 2147483648" "take EQP_UDP_SOCKET_BUFFER_SIZE d = d" "d \<noteq> []"
    using assms(2,4,5) by (auto simp: u16c.enc_length EQP_UDP_SOCKET_BUFFER_SIZE_def)
  have junk: "d \<noteq> sealed (take (length d - 4) d)"
    using assms(6) append_take_drop_id [of "length d - 4" d] by (metis sealed_def append_same_eq same_append_eq)
  note first = first_packet_standard [OF len(1,2) junk]
  have "rest (aligned_init d (of_nat (length d))) = uint16_bytes (toNetworkUint16 opcode) @ e"
    "aligned_ok (aligned_init d (of_nat (length d)))"
    using rest_init [of d] len(2) assms(2) by simp_all
  from u16c.rd_rest [OF this(2,1)] standard_recv_ignores assms(3)
  have ign: "\<exists>s'. protocol_handler_standard_recv clk rnd s d w = Inr (s', w)" for s w by fastforce
  then obtain f where "\<And>s w. protocol_handler_standard_recv clk rnd s d w = Inr (f s w, w)" by metis
  then show ?thesis
    using alloc len(3,4) first
    by (simp add: udp_socket_create_def vec_create_def udp_recv_one_def accept_client_def udp_client_init_def
       protocol_handler_create_def vec_push_def vec_count_def MIN_CAPACITY_def deref_handler_def Let_def clock_milliseconds_def set_client_def
       protocol_handler_recv_def udp_socket_send_def protocol_handler_send_queued_def)
qed

theorem junk_datagram_crashes_witness:
  "\<exists>sock sock'. udp_socket_create net_heap = Inr sock \<and>
    udp_socket_recv net_heap (\<lambda>_. 0) (\<lambda>_. 0) (\<lambda>_. None) [(1, 2, [1, 0, 0, 0, 0, 0])] sock = Inr sock' \<and>
    udp_socket_send (\<lambda>_. 0) sock' = Inl UndefinedBehaviour"
proof -
  let ?d = "[1, 0, 0, 0, 0, 0] :: bytes"
  have crc: "drop (length ?d - 4) ?d \<noteq> uint32_bytes (crc_calc32_network (take (length ?d - 4) ?d))" by code_simp
  have d: "?d = uint16_bytes (toNetworkUint16 0x100) @ [0, 0, 0, 0]" by code_simp
  have op: "(0x100 :: u16) > 0xff" by simp
  show ?thesis by (rule junk_datagram_crashes [OF ample_net_heap d op _ _ crc]) simp_all
qed

end
