(* ===== verification/Item_Prototype.thy ===== *)
theory Item_Prototype
  imports Prelude
begin

text \<open>
  \<^verbatim>\<open>common/item/item_prototype.c\<close> and \<^verbatim>\<open>zone_cluster/mob/item.c\<close>: what
  an item is. A prototype is a flat structure, shared between processes; its three texts are
  buffers of fixed size. An item refers to a prototype, and gets a private copy of it before a
  script changes it.
\<close>

section \<open>Prototypes\<close>

record item_prototype =
  itp_itemId :: u32
  itp_modelId :: u32
  itp_isLore :: u8
  itp_isDroppable :: u8
  itp_isMagic :: u8
  itp_isPermanent :: u8
  itp_isStackable :: u8
  itp_size :: u8
  itp_weight :: u8
  itp_itemTypeId :: u8
  itp_itemSkillId :: u8
  itp_material :: u8
  itp_light :: u8
  itp_effectTypeId :: u8
  itp_maxCharges :: u8
  itp_STR :: "16 word"
  itp_DEX :: "16 word"
  itp_AGI :: "16 word"
  itp_STA :: "16 word"
  itp_INT :: "16 word"
  itp_WIS :: "16 word"
  itp_CHA :: "16 word"
  itp_svMagic :: "16 word"
  itp_svFire :: "16 word"
  itp_svCold :: "16 word"
  itp_svPoison :: "16 word"
  itp_svDisease :: "16 word"
  itp_hp :: "16 word"
  itp_mana :: "16 word"
  itp_ac :: "16 word"
  itp_damage :: u16
  itp_delay :: u16
  itp_range :: u16
  itp_slotBitfield :: u32
  itp_raceBitfield :: u32
  itp_classBitfield :: u32
  itp_spellId :: u32
  itp_castingTime :: u32
  itp_iconId :: u32
  itp_cost :: u32
  itp_tint :: u32
  itp_name :: bytes
  itp_loreText :: bytes
  itp_scriptPath :: bytes

text \<open>\<^verbatim>\<open>snprintf\<close> with \<^verbatim>\<open>"%s"\<close>: at most \<open>n - 1\<close> characters and
  a null byte.\<close>

definition snprintf_s :: "bytes \<Rightarrow> nat \<Rightarrow> bytes \<Rightarrow> bytes result" where
  "snprintf_s buf n s = bindE (strlen s) (\<lambda>len. mem_write buf 0 (take (n - 1) (take len s) @ [0]))"

definition sizeof_ItemPrototype :: nat where "sizeof_ItemPrototype = 496"

text \<open>The structure \<^verbatim>\<open>memset\<close> leaves.\<close>

definition zero_prototype :: item_prototype where
  "zero_prototype =
    \<lparr>itp_itemId = 0, itp_modelId = 0, itp_isLore = 0, itp_isDroppable = 0, itp_isMagic = 0,
      itp_isPermanent = 0, itp_isStackable = 0, itp_size = 0, itp_weight = 0, itp_itemTypeId = 0,
      itp_itemSkillId = 0, itp_material = 0, itp_light = 0, itp_effectTypeId = 0, itp_maxCharges = 0,
      itp_STR = 0, itp_DEX = 0, itp_AGI = 0, itp_STA = 0, itp_INT = 0, itp_WIS = 0, itp_CHA = 0,
      itp_svMagic = 0, itp_svFire = 0, itp_svCold = 0, itp_svPoison = 0, itp_svDisease = 0,
      itp_hp = 0, itp_mana = 0, itp_ac = 0, itp_damage = 0, itp_delay = 0, itp_range = 0,
      itp_slotBitfield = 0, itp_raceBitfield = 0, itp_classBitfield = 0, itp_spellId = 0,
      itp_castingTime = 0, itp_iconId = 0, itp_cost = 0, itp_tint = 0, itp_name = replicate 64 0,
      itp_loreText = replicate 64 0, itp_scriptPath = replicate 256 0\<rparr>"

definition item_proto_set_defaults :: "item_prototype \<Rightarrow> item_prototype" where
  "item_proto_set_defaults proto =
     zero_prototype\<lparr>itp_isDroppable := 1, itp_isPermanent := 1, itp_itemSkillId := 10, itp_raceBitfield := 0xffff,
       itp_classBitfield := 0xffff, itp_spellId := 0xffff, itp_iconId := 500\<rparr>"

definition item_proto_create :: "heap \<Rightarrow> item_prototype result" where
  "item_proto_create h =
     (if can_alloc h sizeof_ItemPrototype then Inr (item_proto_set_defaults zero_prototype) else Inl ErrorOutOfMemory)"

definition item_proto_copy :: "heap \<Rightarrow> item_prototype \<Rightarrow> item_prototype result" where
  "item_proto_copy h orig = (if can_alloc h sizeof_ItemPrototype then Inr orig else Inl ErrorOutOfMemory)"

definition item_proto_set_name :: "item_prototype \<Rightarrow> bytes \<Rightarrow> item_prototype result" where
  "item_proto_set_name proto name = bindE (snprintf_s (itp_name proto) 64 name) (\<lambda>b. Inr (proto\<lparr>itp_name := b\<rparr>))"

text \<open>The buffer written is that of the name.\<close>

definition item_proto_set_lore_text :: "item_prototype \<Rightarrow> bytes \<Rightarrow> item_prototype result" where
  "item_proto_set_lore_text proto loreText =
     bindE (snprintf_s (itp_name proto) 64 loreText) (\<lambda>b. Inr (proto\<lparr>itp_name := b\<rparr>))"

definition item_proto_set_script_path :: "item_prototype \<Rightarrow> bytes \<Rightarrow> item_prototype result" where
  "item_proto_set_script_path proto path =
     bindE (snprintf_s (itp_scriptPath proto) 256 path) (\<lambda>b. Inr (proto\<lparr>itp_scriptPath := b\<rparr>))"

definition item_proto_set_item_id :: "item_prototype \<Rightarrow> u32 \<Rightarrow> item_prototype" where
  "item_proto_set_item_id proto itemId = proto\<lparr>itp_itemId := itemId\<rparr>"

definition item_proto_set_model_id :: "item_prototype \<Rightarrow> u32 \<Rightarrow> item_prototype" where
  "item_proto_set_model_id proto modelId = proto\<lparr>itp_modelId := modelId\<rparr>"

definition item_proto_set_is_lore :: "item_prototype \<Rightarrow> i32 \<Rightarrow> item_prototype" where
  "item_proto_set_is_lore proto isLore = proto\<lparr>itp_isLore := ucast isLore\<rparr>"

definition item_proto_set_is_droppable :: "item_prototype \<Rightarrow> i32 \<Rightarrow> item_prototype" where
  "item_proto_set_is_droppable proto isDroppable = proto\<lparr>itp_isDroppable := ucast isDroppable\<rparr>"

definition item_proto_set_is_magic :: "item_prototype \<Rightarrow> i32 \<Rightarrow> item_prototype" where
  "item_proto_set_is_magic proto isMagic = proto\<lparr>itp_isMagic := ucast isMagic\<rparr>"

definition item_proto_set_is_permanent :: "item_prototype \<Rightarrow> i32 \<Rightarrow> item_prototype" where
  "item_proto_set_is_permanent proto isPermanent = proto\<lparr>itp_isPermanent := ucast isPermanent\<rparr>"

definition item_proto_set_is_stackable :: "item_prototype \<Rightarrow> i32 \<Rightarrow> item_prototype" where
  "item_proto_set_is_stackable proto isStackable = proto\<lparr>itp_isStackable := ucast isStackable\<rparr>"

definition item_proto_set_size :: "item_prototype \<Rightarrow> u8 \<Rightarrow> item_prototype" where
  "item_proto_set_size proto size' = proto\<lparr>itp_size := size'\<rparr>"

definition item_proto_set_weight :: "item_prototype \<Rightarrow> u8 \<Rightarrow> item_prototype" where
  "item_proto_set_weight proto weight' = proto\<lparr>itp_weight := weight'\<rparr>"

definition item_proto_set_item_type_id :: "item_prototype \<Rightarrow> u8 \<Rightarrow> item_prototype" where
  "item_proto_set_item_type_id proto itemTypeId = proto\<lparr>itp_itemTypeId := itemTypeId\<rparr>"

definition item_proto_set_item_skill_id :: "item_prototype \<Rightarrow> u8 \<Rightarrow> item_prototype" where
  "item_proto_set_item_skill_id proto itemSkillId = proto\<lparr>itp_itemSkillId := itemSkillId\<rparr>"

definition item_proto_set_material :: "item_prototype \<Rightarrow> u8 \<Rightarrow> item_prototype" where
  "item_proto_set_material proto material = proto\<lparr>itp_material := material\<rparr>"

definition item_proto_set_light :: "item_prototype \<Rightarrow> u8 \<Rightarrow> item_prototype" where
  "item_proto_set_light proto light' = proto\<lparr>itp_light := light'\<rparr>"

definition item_proto_set_effect_type_id :: "item_prototype \<Rightarrow> u8 \<Rightarrow> item_prototype" where
  "item_proto_set_effect_type_id proto effectTypeId = proto\<lparr>itp_effectTypeId := effectTypeId\<rparr>"

definition item_proto_set_max_charges :: "item_prototype \<Rightarrow> u8 \<Rightarrow> item_prototype" where
  "item_proto_set_max_charges proto maxCharges = proto\<lparr>itp_maxCharges := maxCharges\<rparr>"

definition item_proto_set_str :: "item_prototype \<Rightarrow> 16 word \<Rightarrow> item_prototype" where
  "item_proto_set_str proto value = proto\<lparr>itp_STR := value\<rparr>"

definition item_proto_set_dex :: "item_prototype \<Rightarrow> 16 word \<Rightarrow> item_prototype" where
  "item_proto_set_dex proto value = proto\<lparr>itp_DEX := value\<rparr>"

definition item_proto_set_agi :: "item_prototype \<Rightarrow> 16 word \<Rightarrow> item_prototype" where
  "item_proto_set_agi proto value = proto\<lparr>itp_AGI := value\<rparr>"

definition item_proto_set_sta :: "item_prototype \<Rightarrow> 16 word \<Rightarrow> item_prototype" where
  "item_proto_set_sta proto value = proto\<lparr>itp_STA := value\<rparr>"

definition item_proto_set_int :: "item_prototype \<Rightarrow> 16 word \<Rightarrow> item_prototype" where
  "item_proto_set_int proto value = proto\<lparr>itp_INT := value\<rparr>"

definition item_proto_set_wis :: "item_prototype \<Rightarrow> 16 word \<Rightarrow> item_prototype" where
  "item_proto_set_wis proto value = proto\<lparr>itp_WIS := value\<rparr>"

definition item_proto_set_cha :: "item_prototype \<Rightarrow> 16 word \<Rightarrow> item_prototype" where
  "item_proto_set_cha proto value = proto\<lparr>itp_CHA := value\<rparr>"

definition item_proto_set_sv_magic :: "item_prototype \<Rightarrow> 16 word \<Rightarrow> item_prototype" where
  "item_proto_set_sv_magic proto value = proto\<lparr>itp_svMagic := value\<rparr>"

definition item_proto_set_sv_fire :: "item_prototype \<Rightarrow> 16 word \<Rightarrow> item_prototype" where
  "item_proto_set_sv_fire proto value = proto\<lparr>itp_svFire := value\<rparr>"

definition item_proto_set_sv_cold :: "item_prototype \<Rightarrow> 16 word \<Rightarrow> item_prototype" where
  "item_proto_set_sv_cold proto value = proto\<lparr>itp_svCold := value\<rparr>"

definition item_proto_set_sv_poison :: "item_prototype \<Rightarrow> 16 word \<Rightarrow> item_prototype" where
  "item_proto_set_sv_poison proto value = proto\<lparr>itp_svPoison := value\<rparr>"

definition item_proto_set_sv_disease :: "item_prototype \<Rightarrow> 16 word \<Rightarrow> item_prototype" where
  "item_proto_set_sv_disease proto value = proto\<lparr>itp_svDisease := value\<rparr>"

definition item_proto_set_hp :: "item_prototype \<Rightarrow> 16 word \<Rightarrow> item_prototype" where
  "item_proto_set_hp proto value = proto\<lparr>itp_hp := value\<rparr>"

definition item_proto_set_mana :: "item_prototype \<Rightarrow> 16 word \<Rightarrow> item_prototype" where
  "item_proto_set_mana proto value = proto\<lparr>itp_mana := value\<rparr>"

definition item_proto_set_ac :: "item_prototype \<Rightarrow> 16 word \<Rightarrow> item_prototype" where
  "item_proto_set_ac proto value = proto\<lparr>itp_ac := value\<rparr>"

definition item_proto_set_damage :: "item_prototype \<Rightarrow> u16 \<Rightarrow> item_prototype" where
  "item_proto_set_damage proto value = proto\<lparr>itp_damage := value\<rparr>"

definition item_proto_set_delay :: "item_prototype \<Rightarrow> u16 \<Rightarrow> item_prototype" where
  "item_proto_set_delay proto value = proto\<lparr>itp_delay := value\<rparr>"

definition item_proto_set_range :: "item_prototype \<Rightarrow> u16 \<Rightarrow> item_prototype" where
  "item_proto_set_range proto value = proto\<lparr>itp_range := value\<rparr>"

definition item_proto_set_slot_bitfield :: "item_prototype \<Rightarrow> u32 \<Rightarrow> item_prototype" where
  "item_proto_set_slot_bitfield proto bits = proto\<lparr>itp_slotBitfield := bits\<rparr>"

definition item_proto_set_race_bitfield :: "item_prototype \<Rightarrow> u32 \<Rightarrow> item_prototype" where
  "item_proto_set_race_bitfield proto bits = proto\<lparr>itp_raceBitfield := bits\<rparr>"

definition item_proto_set_class_bitfield :: "item_prototype \<Rightarrow> u32 \<Rightarrow> item_prototype" where
  "item_proto_set_class_bitfield proto bits = proto\<lparr>itp_classBitfield := bits\<rparr>"

definition item_proto_set_spell_id :: "item_prototype \<Rightarrow> u32 \<Rightarrow> item_prototype" where
  "item_proto_set_spell_id proto spellId = proto\<lparr>itp_spellId := spellId\<rparr>"

definition item_proto_set_casting_time :: "item_prototype \<Rightarrow> u32 \<Rightarrow> item_prototype" where
  "item_proto_set_casting_time proto castingTime = proto\<lparr>itp_castingTime := castingTime\<rparr>"

definition item_proto_set_icon_id :: "item_prototype \<Rightarrow> u32 \<Rightarrow> item_prototype" where
  "item_proto_set_icon_id proto iconId = proto\<lparr>itp_iconId := iconId\<rparr>"

definition item_proto_set_cost :: "item_prototype \<Rightarrow> u32 \<Rightarrow> item_prototype" where
  "item_proto_set_cost proto cost' = proto\<lparr>itp_cost := cost'\<rparr>"

definition item_proto_set_tint :: "item_prototype \<Rightarrow> u32 \<Rightarrow> item_prototype" where
  "item_proto_set_tint proto tint = proto\<lparr>itp_tint := tint\<rparr>"

definition item_proto_get_item_id :: "item_prototype \<Rightarrow> u32" where
  "item_proto_get_item_id proto = itp_itemId proto"

definition item_proto_get_name :: "item_prototype \<Rightarrow> bytes" where
  "item_proto_get_name proto = itp_name proto"

definition item_proto_get_lore_text :: "item_prototype \<Rightarrow> bytes" where
  "item_proto_get_lore_text proto = itp_loreText proto"

definition item_proto_get_script_path :: "item_prototype \<Rightarrow> bytes" where
  "item_proto_get_script_path proto = itp_scriptPath proto"

definition item_proto_get_model_id :: "item_prototype \<Rightarrow> u32" where
  "item_proto_get_model_id proto = itp_modelId proto"

definition item_proto_is_lore :: "item_prototype \<Rightarrow> i32" where
  "item_proto_is_lore proto = ucast (itp_isLore proto)"

definition item_proto_is_droppable :: "item_prototype \<Rightarrow> i32" where
  "item_proto_is_droppable proto = ucast (itp_isDroppable proto)"

definition item_proto_is_magic :: "item_prototype \<Rightarrow> i32" where
  "item_proto_is_magic proto = ucast (itp_isMagic proto)"

definition item_proto_is_permanent :: "item_prototype \<Rightarrow> i32" where
  "item_proto_is_permanent proto = ucast (itp_isPermanent proto)"

definition item_proto_is_stackable :: "item_prototype \<Rightarrow> i32" where
  "item_proto_is_stackable proto = ucast (itp_isStackable proto)"

definition item_proto_get_size :: "item_prototype \<Rightarrow> u8" where
  "item_proto_get_size proto = itp_size proto"

definition item_proto_get_weight :: "item_prototype \<Rightarrow> u8" where
  "item_proto_get_weight proto = itp_weight proto"

definition item_proto_get_item_type_id :: "item_prototype \<Rightarrow> u8" where
  "item_proto_get_item_type_id proto = itp_itemTypeId proto"

definition item_proto_get_item_skill_id :: "item_prototype \<Rightarrow> u8" where
  "item_proto_get_item_skill_id proto = itp_itemSkillId proto"

definition item_proto_get_material :: "item_prototype \<Rightarrow> u8" where
  "item_proto_get_material proto = itp_material proto"

definition item_proto_get_light :: "item_prototype \<Rightarrow> u8" where
  "item_proto_get_light proto = itp_light proto"

definition item_proto_get_effect_type_id :: "item_prototype \<Rightarrow> u8" where
  "item_proto_get_effect_type_id proto = itp_effectTypeId proto"

definition item_proto_get_max_charges :: "item_prototype \<Rightarrow> u8" where
  "item_proto_get_max_charges proto = itp_maxCharges proto"

definition item_proto_get_str :: "item_prototype \<Rightarrow> 16 word" where
  "item_proto_get_str proto = itp_STR proto"

definition item_proto_get_dex :: "item_prototype \<Rightarrow> 16 word" where
  "item_proto_get_dex proto = itp_DEX proto"

definition item_proto_get_agi :: "item_prototype \<Rightarrow> 16 word" where
  "item_proto_get_agi proto = itp_AGI proto"

definition item_proto_get_sta :: "item_prototype \<Rightarrow> 16 word" where
  "item_proto_get_sta proto = itp_STA proto"

definition item_proto_get_int :: "item_prototype \<Rightarrow> 16 word" where
  "item_proto_get_int proto = itp_INT proto"

definition item_proto_get_wis :: "item_prototype \<Rightarrow> 16 word" where
  "item_proto_get_wis proto = itp_WIS proto"

definition item_proto_get_cha :: "item_prototype \<Rightarrow> 16 word" where
  "item_proto_get_cha proto = itp_CHA proto"

definition item_proto_get_sv_magic :: "item_prototype \<Rightarrow> 16 word" where
  "item_proto_get_sv_magic proto = itp_svMagic proto"

definition item_proto_get_sv_fire :: "item_prototype \<Rightarrow> 16 word" where
  "item_proto_get_sv_fire proto = itp_svFire proto"

definition item_proto_get_sv_cold :: "item_prototype \<Rightarrow> 16 word" where
  "item_proto_get_sv_cold proto = itp_svCold proto"

definition item_proto_get_sv_poison :: "item_prototype \<Rightarrow> 16 word" where
  "item_proto_get_sv_poison proto = itp_svPoison proto"

definition item_proto_get_sv_disease :: "item_prototype \<Rightarrow> 16 word" where
  "item_proto_get_sv_disease proto = itp_svDisease proto"

definition item_proto_get_hp :: "item_prototype \<Rightarrow> 16 word" where
  "item_proto_get_hp proto = itp_hp proto"

definition item_proto_get_mana :: "item_prototype \<Rightarrow> 16 word" where
  "item_proto_get_mana proto = itp_mana proto"

definition item_proto_get_ac :: "item_prototype \<Rightarrow> 16 word" where
  "item_proto_get_ac proto = itp_ac proto"

definition item_proto_get_damage :: "item_prototype \<Rightarrow> u16" where
  "item_proto_get_damage proto = itp_damage proto"

definition item_proto_get_delay :: "item_prototype \<Rightarrow> u16" where
  "item_proto_get_delay proto = itp_delay proto"

definition item_proto_get_range :: "item_prototype \<Rightarrow> u16" where
  "item_proto_get_range proto = itp_range proto"

definition item_proto_get_slot_bitfield :: "item_prototype \<Rightarrow> u32" where
  "item_proto_get_slot_bitfield proto = itp_slotBitfield proto"

definition item_proto_get_race_bitfield :: "item_prototype \<Rightarrow> u32" where
  "item_proto_get_race_bitfield proto = itp_raceBitfield proto"

definition item_proto_get_class_bitfield :: "item_prototype \<Rightarrow> u32" where
  "item_proto_get_class_bitfield proto = itp_classBitfield proto"

definition item_proto_get_spell_id :: "item_prototype \<Rightarrow> u32" where
  "item_proto_get_spell_id proto = itp_spellId proto"

definition item_proto_get_casting_time :: "item_prototype \<Rightarrow> u32" where
  "item_proto_get_casting_time proto = itp_castingTime proto"

definition item_proto_get_icon_id :: "item_prototype \<Rightarrow> u32" where
  "item_proto_get_icon_id proto = itp_iconId proto"

definition item_proto_get_cost :: "item_prototype \<Rightarrow> u32" where
  "item_proto_get_cost proto = itp_cost proto"

definition item_proto_get_tint :: "item_prototype \<Rightarrow> u32" where
  "item_proto_get_tint proto = itp_tint proto"

section \<open>Items\<close>

text \<open>Prototypes by address; \<open>None\<close> is freed. The script object of an item is outside the
  model, apart from its index.\<close>

record item =
  it_luaIndex :: int
  it_prototype :: "nat option"
  it_charges :: u16
  it_stackAmount :: u16
  it_isBag :: bool
  it_isCustomized :: bool

type_synonym prototypes = "nat \<Rightarrow> item_prototype option"

definition sizeof_Item :: nat where "sizeof_Item = 32"

definition item_create :: "heap \<Rightarrow> nat option \<Rightarrow> u16 \<Rightarrow> u16 \<Rightarrow> item result" where
  "item_create h proto charges stackAmount =
     (if can_alloc h sizeof_Item
      then Inr \<lparr>it_luaIndex = 0, it_prototype = proto, it_charges = charges, it_stackAmount = stackAmount,
                it_isBag = False, it_isCustomized = False\<rparr>
      else Inl ErrorOutOfMemory)"

definition item_destroy :: "item \<Rightarrow> prototypes \<Rightarrow> prototypes" where
  "item_destroy item ps =
     (case it_prototype item of Some a \<Rightarrow> if it_isCustomized item then ps(a := None) else ps | None \<Rightarrow> ps)"

definition item_get_prototype :: "item \<Rightarrow> nat option" where
  "item_get_prototype item = it_prototype item"

text \<open>\<open>fresh\<close> is the address the allocator returns.\<close>

definition item_get_prototype_for_editing ::
  "heap \<Rightarrow> nat \<Rightarrow> item \<Rightarrow> prototypes \<Rightarrow> (nat option \<times> item \<times> prototypes) result" where
  "item_get_prototype_for_editing h fresh item ps =
     (if it_isCustomized item then Inr (it_prototype item, item, ps)
      else case it_prototype item of
             None \<Rightarrow> Inl UndefinedBehaviour
           | Some a \<Rightarrow>
               (case ps a of
                  None \<Rightarrow> Inl UndefinedBehaviour
                | Some orig \<Rightarrow> bindE (item_proto_copy h orig) (\<lambda>proto.
                    Inr (Some fresh, item\<lparr>it_prototype := Some fresh, it_isCustomized := True\<rparr>, ps(fresh \<mapsto> proto)))))"

definition item_get_charges :: "item \<Rightarrow> u16" where
  "item_get_charges item = it_charges item"

definition item_get_stack_amount :: "item \<Rightarrow> u16" where
  "item_get_stack_amount item = it_stackAmount item"

definition item_is_bag :: "item \<Rightarrow> bool" where
  "item_is_bag item = it_isBag item"

section \<open>Texts\<close>

text \<open>Every text of a prototype ends inside its buffer.\<close>

definition texts_ok :: "item_prototype \<Rightarrow> bool" where
  "texts_ok p \<longleftrightarrow> length (itp_name p) = 64 \<and> length (itp_loreText p) = 64 \<and> length (itp_scriptPath p) = 256 \<and>
     0 \<in> set (itp_name p) \<and> 0 \<in> set (itp_loreText p) \<and> 0 \<in> set (itp_scriptPath p)"

lemma cstr_take: "take (length (cstr s)) s = cstr s"
  unfolding cstr_def by (rule takeWhile_eq_take [symmetric])

lemma snprintf_s_spec:
  assumes "length buf = n" "0 < n" "0 \<in> set s"
  shows "\<exists>b. snprintf_s buf n s = Inr b \<and> length b = n \<and> 0 \<in> set b \<and> cstr b = take (n - 1) (cstr s)"
proof -
  let ?t = "take (n - 1) (cstr s)"
  have len: "length (?t @ [0]) \<le> length buf" using assms(1,2) by simp
  have nz: "0 \<notin> set ?t" by (auto simp: cstr_def dest: in_set_takeD set_takeWhileD)
  have run: "snprintf_s buf n s = Inr (overwrite buf 0 (?t @ [0]))"
    using len unfolding snprintf_s_def strlen_terminated [OF assms(3)] bindE.simps cstr_take mem_write_def by simp
  have ov: "overwrite buf 0 (?t @ [0]) = ?t @ 0 # drop (Suc (length ?t)) buf" by (simp add: overwrite_def)
  have "length (overwrite buf 0 (?t @ [0])) = n" using len assms(1) by (subst length_overwrite) auto
  then show ?thesis using run cstr_append_null [OF nz] unfolding ov by simp
qed

lemma set_name_spec:
  assumes "texts_ok p" "0 \<in> set s"
  shows "\<exists>b. item_proto_set_name p s = Inr (p\<lparr>itp_name := b\<rparr>) \<and> texts_ok (p\<lparr>itp_name := b\<rparr>) \<and> cstr b = take 63 (cstr s)"
proof -
  have "length (itp_name p) = 64" using assms(1) by (simp add: texts_ok_def)
  from snprintf_s_spec [OF this _ assms(2)] obtain b where "snprintf_s (itp_name p) 64 s = Inr b" "length b = 64"
    "0 \<in> set b" "cstr b = take 63 (cstr s)" by auto
  then show ?thesis using assms(1) by (intro exI [of _ b]) (simp add: item_proto_set_name_def texts_ok_def)
qed

lemma set_script_path_spec:
  assumes "texts_ok p" "0 \<in> set s"
  shows "\<exists>b. item_proto_set_script_path p s = Inr (p\<lparr>itp_scriptPath := b\<rparr>) \<and> texts_ok (p\<lparr>itp_scriptPath := b\<rparr>) \<and>
    cstr b = take 255 (cstr s)"
proof -
  have "length (itp_scriptPath p) = 256" using assms(1) by (simp add: texts_ok_def)
  from snprintf_s_spec [OF this _ assms(2)] obtain b where "snprintf_s (itp_scriptPath p) 256 s = Inr b" "length b = 256"
    "0 \<in> set b" "cstr b = take 255 (cstr s)" by auto
  then show ?thesis using assms(1) by (intro exI [of _ b]) (simp add: item_proto_set_script_path_def texts_ok_def)
qed

lemma defaults_texts_ok: "texts_ok (item_proto_set_defaults p)"
  by (simp add: texts_ok_def item_proto_set_defaults_def zero_prototype_def)

end
