(* ===== verification/Player_Data.thy ===== *)
theory Player_Data
  imports Vec Item_Prototype
begin

text \<open>
  What a player's character carries around: the calendar of the world (\<^verbatim>\<open>eq_time.c\<close>),
  skills and languages (\<^verbatim>\<open>skills.c\<close>), the spell book (\<^verbatim>\<open>spellbook.c\<close>) and the
  inventory (\<^verbatim>\<open>inventory.c\<close>).
\<close>

section \<open>The calendar\<close>

record eq_time =
  et_hour :: u8
  et_minute :: u8
  et_day :: u8
  et_month :: u8
  et_year :: u16

definition SECONDS_PER_EQ_MINUTE :: u64 where "SECONDS_PER_EQ_MINUTE = 3"
definition DAYS_PER_YEAR :: u64 where "DAYS_PER_YEAR = 365"
definition MINUTES_PER_HOUR :: u64 where "MINUTES_PER_HOUR = 60"
definition MINUTES_PER_DAY :: u64 where "MINUTES_PER_DAY = MINUTES_PER_HOUR * 24"
definition MINUTES_PER_YEAR :: u64 where "MINUTES_PER_YEAR = MINUTES_PER_DAY * DAYS_PER_YEAR"

definition daysInMonth :: "u8 list" where
  "daysInMonth = [31, 28, 31, 30, 31, 30, 31, 31, 30, 31, 30, 31]"

text \<open>The loop over the months: the month that was found, if any, and the day left over.\<close>

fun find_month :: "u8 list \<Rightarrow> u32 \<Rightarrow> u32 \<Rightarrow> u8 option \<times> u32" where
  "find_month [] i day = (None, day)"
| "find_month (inMonth # ms) i day =
     (if day \<le> ucast inMonth then (Some (ucast (i + 1)), day) else find_month ms (i + 1) (day - ucast inMonth))"

text \<open>\<open>now\<close> is \<^verbatim>\<open>clock_unix_seconds\<close>. Without a month the field keeps its value.\<close>

definition eq_time_calc :: "u64 \<Rightarrow> eq_time \<Rightarrow> u64 \<Rightarrow> eq_time" where
  "eq_time_calc now eqTime baseUnixSeconds =
     (let eq = (now - baseUnixSeconds) div SECONDS_PER_EQ_MINUTE;
          year = ucast (eq div MINUTES_PER_YEAR);
          eq = eq mod MINUTES_PER_YEAR;
          day = ucast (eq div MINUTES_PER_DAY) + 1;
          (month, day) = find_month daysInMonth 0 day;
          eq = eq mod MINUTES_PER_DAY;
          hour = ucast (eq div MINUTES_PER_HOUR);
          eq = eq mod MINUTES_PER_HOUR
      in eqTime\<lparr>et_year := year, et_month := (case month of Some m \<Rightarrow> m | None \<Rightarrow> et_month eqTime),
                et_day := ucast day, et_hour := hour, et_minute := ucast eq\<rparr>)"

section \<open>Skills\<close>

text \<open>Numbers of \<^verbatim>\<open>SkillId\<close>.\<close>

definition Skill_1HBlunt :: nat where "Skill_1HBlunt = 0"
definition Skill_1HSlashing :: nat where "Skill_1HSlashing = 1"
definition Skill_2HBlunt :: nat where "Skill_2HBlunt = 2"
definition Skill_2HSlashing :: nat where "Skill_2HSlashing = 3"
definition Skill_Abjuration :: nat where "Skill_Abjuration = 4"
definition Skill_Alteration :: nat where "Skill_Alteration = 5"
definition Skill_ApplyPoison :: nat where "Skill_ApplyPoison = 6"
definition Skill_Archery :: nat where "Skill_Archery = 7"
definition Skill_Backstab :: nat where "Skill_Backstab = 8"
definition Skill_BindWound :: nat where "Skill_BindWound = 9"
definition Skill_Bash :: nat where "Skill_Bash = 10"
definition Skill_Block :: nat where "Skill_Block = 11"
definition Skill_BrassInstruments :: nat where "Skill_BrassInstruments = 12"
definition Skill_Channeling :: nat where "Skill_Channeling = 13"
definition Skill_Conjuration :: nat where "Skill_Conjuration = 14"
definition Skill_Defense :: nat where "Skill_Defense = 15"
definition Skill_Disarm :: nat where "Skill_Disarm = 16"
definition Skill_DisarmTraps :: nat where "Skill_DisarmTraps = 17"
definition Skill_Divination :: nat where "Skill_Divination = 18"
definition Skill_Dodge :: nat where "Skill_Dodge = 19"
definition Skill_DoubleAttack :: nat where "Skill_DoubleAttack = 20"
definition Skill_DragonPunch :: nat where "Skill_DragonPunch = 21"
definition Skill_DualWield :: nat where "Skill_DualWield = 22"
definition Skill_EagleStrike :: nat where "Skill_EagleStrike = 23"
definition Skill_Evocation :: nat where "Skill_Evocation = 24"
definition Skill_FeignDeath :: nat where "Skill_FeignDeath = 25"
definition Skill_FlyingKick :: nat where "Skill_FlyingKick = 26"
definition Skill_Forage :: nat where "Skill_Forage = 27"
definition Skill_HandToHand :: nat where "Skill_HandToHand = 28"
definition Skill_Hide :: nat where "Skill_Hide = 29"
definition Skill_Kick :: nat where "Skill_Kick = 30"
definition Skill_Meditate :: nat where "Skill_Meditate = 31"
definition Skill_Mend :: nat where "Skill_Mend = 32"
definition Skill_Offense :: nat where "Skill_Offense = 33"
definition Skill_Parry :: nat where "Skill_Parry = 34"
definition Skill_PickLock :: nat where "Skill_PickLock = 35"
definition Skill_1HPiercing :: nat where "Skill_1HPiercing = 36"
definition Skill_Riposte :: nat where "Skill_Riposte = 37"
definition Skill_RoundKick :: nat where "Skill_RoundKick = 38"
definition Skill_SafeFall :: nat where "Skill_SafeFall = 39"
definition Skill_SenseHeading :: nat where "Skill_SenseHeading = 40"
definition Skill_Singing :: nat where "Skill_Singing = 41"
definition Skill_Sneak :: nat where "Skill_Sneak = 42"
definition Skill_SpecializeAbjuration :: nat where "Skill_SpecializeAbjuration = 43"
definition Skill_SpecializeAlteration :: nat where "Skill_SpecializeAlteration = 44"
definition Skill_SpecializeConjuration :: nat where "Skill_SpecializeConjuration = 45"
definition Skill_SpecializeDivination :: nat where "Skill_SpecializeDivination = 46"
definition Skill_SpecializeEvocation :: nat where "Skill_SpecializeEvocation = 47"
definition Skill_PickPockets :: nat where "Skill_PickPockets = 48"
definition Skill_StringedInstruments :: nat where "Skill_StringedInstruments = 49"
definition Skill_Swimming :: nat where "Skill_Swimming = 50"
definition Skill_Throwing :: nat where "Skill_Throwing = 51"
definition Skill_TigerClaw :: nat where "Skill_TigerClaw = 52"
definition Skill_Tracking :: nat where "Skill_Tracking = 53"
definition Skill_WindInstruments :: nat where "Skill_WindInstruments = 54"
definition Skill_Fishing :: nat where "Skill_Fishing = 55"
definition Skill_MakePoison :: nat where "Skill_MakePoison = 56"
definition Skill_Tinkering :: nat where "Skill_Tinkering = 57"
definition Skill_Research :: nat where "Skill_Research = 58"
definition Skill_Alchemy :: nat where "Skill_Alchemy = 59"
definition Skill_Baking :: nat where "Skill_Baking = 60"
definition Skill_Tailoring :: nat where "Skill_Tailoring = 61"
definition Skill_SenseTraps :: nat where "Skill_SenseTraps = 62"
definition Skill_Blacksmithing :: nat where "Skill_Blacksmithing = 63"
definition Skill_Fletching :: nat where "Skill_Fletching = 64"
definition Skill_Brewing :: nat where "Skill_Brewing = 65"
definition Skill_AlcoholTolerance :: nat where "Skill_AlcoholTolerance = 66"
definition Skill_Begging :: nat where "Skill_Begging = 67"
definition Skill_JewelryMaking :: nat where "Skill_JewelryMaking = 68"
definition Skill_Pottery :: nat where "Skill_Pottery = 69"
definition Skill_PercussionInstruments :: nat where "Skill_PercussionInstruments = 70"
definition Skill_Intimidation :: nat where "Skill_Intimidation = 71"
definition Skill_Berserking :: nat where "Skill_Berserking = 72"
definition Skill_Taunt :: nat where "Skill_Taunt = 73"
definition Skill_COUNT :: nat where "Skill_COUNT = 74"

lemmas skill_ids = Skill_1HBlunt_def
  Skill_1HSlashing_def
  Skill_2HBlunt_def
  Skill_2HSlashing_def
  Skill_Abjuration_def
  Skill_Alteration_def
  Skill_ApplyPoison_def
  Skill_Archery_def
  Skill_Backstab_def
  Skill_BindWound_def
  Skill_Bash_def
  Skill_Block_def
  Skill_BrassInstruments_def
  Skill_Channeling_def
  Skill_Conjuration_def
  Skill_Defense_def
  Skill_Disarm_def
  Skill_DisarmTraps_def
  Skill_Divination_def
  Skill_Dodge_def
  Skill_DoubleAttack_def
  Skill_DragonPunch_def
  Skill_DualWield_def
  Skill_EagleStrike_def
  Skill_Evocation_def
  Skill_FeignDeath_def
  Skill_FlyingKick_def
  Skill_Forage_def
  Skill_HandToHand_def
  Skill_Hide_def
  Skill_Kick_def
  Skill_Meditate_def
  Skill_Mend_def
  Skill_Offense_def
  Skill_Parry_def
  Skill_PickLock_def
  Skill_1HPiercing_def
  Skill_Riposte_def
  Skill_RoundKick_def
  Skill_SafeFall_def
  Skill_SenseHeading_def
  Skill_Singing_def
  Skill_Sneak_def
  Skill_SpecializeAbjuration_def
  Skill_SpecializeAlteration_def
  Skill_SpecializeConjuration_def
  Skill_SpecializeDivination_def
  Skill_SpecializeEvocation_def
  Skill_PickPockets_def
  Skill_StringedInstruments_def
  Skill_Swimming_def
  Skill_Throwing_def
  Skill_TigerClaw_def
  Skill_Tracking_def
  Skill_WindInstruments_def
  Skill_Fishing_def
  Skill_MakePoison_def
  Skill_Tinkering_def
  Skill_Research_def
  Skill_Alchemy_def
  Skill_Baking_def
  Skill_Tailoring_def
  Skill_SenseTraps_def
  Skill_Blacksmithing_def
  Skill_Fletching_def
  Skill_Brewing_def
  Skill_AlcoholTolerance_def
  Skill_Begging_def
  Skill_JewelryMaking_def
  Skill_Pottery_def
  Skill_PercussionInstruments_def
  Skill_Intimidation_def
  Skill_Berserking_def
  Skill_Taunt_def
  Skill_COUNT_def

record skills =
  sk_skill :: "u8 list"
  sk_language :: "u8 list"

definition SKILL_CANT_LEARN :: u8 where "SKILL_CANT_LEARN = 0xff"
definition SKILL_HAVENT_TRAINED_YET :: u8 where "SKILL_HAVENT_TRAINED_YET = 0xfe"
definition EQP_SKILL_MAX_VALUE :: u8 where "EQP_SKILL_MAX_VALUE = 250"
definition EQP_DB_LANGUAGE_SKILL_OFFSET :: u32 where "EQP_DB_LANGUAGE_SKILL_OFFSET = 100"
definition Lang_CommonTongue :: nat where "Lang_CommonTongue = 0"
definition Lang_COUNT :: nat where "Lang_COUNT = 24"

definition Class_Monk :: u32 where "Class_Monk = 7"
definition Class_Rogue :: u32 where "Class_Rogue = 9"
definition Class_Shaman :: u32 where "Class_Shaman = 10"
definition Class_Necromancer :: u32 where "Class_Necromancer = 11"
definition Class_Enchanter :: u32 where "Class_Enchanter = 14"
definition Class_Beastlord :: u32 where "Class_Beastlord = 15"
definition Race_Gnome :: u32 where "Race_Gnome = 12"
definition Race_Iksar :: u32 where "Race_Iksar = 124"

definition skillsThatDefaultToZeroUniversally :: "nat list" where
  "skillsThatDefaultToZeroUniversally =
     [Skill_1HBlunt, Skill_BindWound, Skill_Defense, Skill_HandToHand, Skill_Offense, Skill_SenseHeading,
      Skill_Swimming, Skill_Throwing, Skill_Fishing, Skill_Baking, Skill_Tailoring, Skill_Blacksmithing,
      Skill_Fletching, Skill_Brewing, Skill_AlcoholTolerance, Skill_Begging, Skill_JewelryMaking, Skill_Pottery]"

definition set_skills :: "u8 \<Rightarrow> nat list \<Rightarrow> skills \<Rightarrow> skills" where
  "set_skills v ids s = s\<lparr>sk_skill := foldl (\<lambda>sk i. sk[i := v]) (sk_skill s) ids\<rparr>"

definition skills_preinit :: "skills \<Rightarrow> skills" where
  "skills_preinit s =
     (let s = s\<lparr>sk_skill := replicate Skill_COUNT SKILL_HAVENT_TRAINED_YET\<rparr>;
          s = set_skills 0 skillsThatDefaultToZeroUniversally s
      in s\<lparr>sk_language := (sk_language s)[Lang_CommonTongue := 100]\<rparr>)"

definition skills_init :: "skills \<Rightarrow> u32 \<Rightarrow> u32 \<Rightarrow> u32 \<Rightarrow> skills" where
  "skills_init s class level race =
     (let s = (if class \<noteq> Class_Monk
               then set_skills SKILL_CANT_LEARN [Skill_DragonPunch, Skill_EagleStrike, Skill_FeignDeath, Skill_FlyingKick,
                      Skill_RoundKick, Skill_TigerClaw] s else s);
          s = (if class \<noteq> Class_Rogue
               then set_skills SKILL_CANT_LEARN [Skill_ApplyPoison, Skill_Backstab, Skill_DisarmTraps, Skill_PickLock,
                      Skill_PickPockets, Skill_MakePoison] s else s);
          s = (if class \<noteq> Class_Monk \<and> class \<noteq> Class_Beastlord then set_skills SKILL_CANT_LEARN [Skill_Block] s else s);
          s = (if class < Class_Necromancer \<or> class > Class_Enchanter then set_skills SKILL_CANT_LEARN [Skill_Research] s else s);
          s = (if class \<noteq> Class_Shaman then set_skills SKILL_CANT_LEARN [Skill_Alchemy] s else s);
          s = (if race \<noteq> Race_Gnome then set_skills SKILL_CANT_LEARN [Skill_Tinkering] s else s)
      in if race = Race_Iksar then set_skills 100 [Skill_Swimming] s else s)"

text \<open>An index past the array of skills is undefined.\<close>

definition skills_set_from_db :: "skills \<Rightarrow> u32 \<Rightarrow> u32 \<Rightarrow> skills result" where
  "skills_set_from_db s skillId value =
     (let isLanguage = (skillId \<ge> EQP_DB_LANGUAGE_SKILL_OFFSET);
          skillId = (if isLanguage then skillId - EQP_DB_LANGUAGE_SKILL_OFFSET else skillId)
      in if isLanguage \<and> unat skillId \<ge> Lang_COUNT then Inr s
         else (let s = (if isLanguage then s\<lparr>sk_language := (sk_language s)[unat skillId := ucast value]\<rparr> else s) in
               if unat skillId < Skill_COUNT then Inr (s\<lparr>sk_skill := (sk_skill s)[unat skillId := ucast value]\<rparr>)
               else Inl UndefinedBehaviour))"

section \<open>Spell book\<close>

record spellbook_slot =
  ss_slotId :: u32
  ss_spellId :: u32

record memorized_spell =
  ms_spellId :: u32
  ms_castingTimeMilliseconds :: u32
  ms_recastTimestamp :: u64

record spellbook =
  sb_knownSpells :: "spellbook_slot vec option"
  sb_memorized :: "memorized_spell list"

definition EQP_MEMORIZED_SPELL_SLOTS :: nat where "EQP_MEMORIZED_SPELL_SLOTS = 9"
definition sizeof_SpellbookSlot :: u32 where "sizeof_SpellbookSlot = 8"

definition spellbook_deinit :: "spellbook \<Rightarrow> spellbook" where
  "spellbook_deinit b = b\<lparr>sb_knownSpells := None\<rparr>"

definition spellbook_add_from_database :: "heap \<Rightarrow> spellbook \<Rightarrow> u32 \<Rightarrow> u32 \<Rightarrow> spellbook result" where
  "spellbook_add_from_database h b slotId spellId =
     bindE (case sb_knownSpells b of Some v \<Rightarrow> Inr v | None \<Rightarrow> vec_create h sizeof_SpellbookSlot) (\<lambda>v.
     bindE (vec_push h sizeof_SpellbookSlot v \<lparr>ss_slotId = slotId, ss_spellId = spellId\<rparr>) (\<lambda>v.
     Inr (b\<lparr>sb_knownSpells := Some v\<rparr>)))"

definition spellbook_add_memorized_from_database :: "spellbook \<Rightarrow> u32 \<Rightarrow> u32 \<Rightarrow> u64 \<Rightarrow> spellbook" where
  "spellbook_add_memorized_from_database b slotId spellId recastTimestamp =
     (if slotId \<ge> 9 then b
      else b\<lparr>sb_memorized := (sb_memorized b)[unat slotId :=
               \<lparr>ms_spellId = spellId, ms_castingTimeMilliseconds = 0, ms_recastTimestamp = recastTimestamp\<rparr>]\<rparr>)"

section \<open>Inventory\<close>

record inventory_slot =
  is_slotId :: u16
  is_augSlotId :: u16
  is_itemId :: u32
  is_item :: "item option"

record inventory =
  inv_primaryIndex :: int
  inv_secondaryIndex :: int
  inv_rangeIndex :: int
  inv_ammoIndex :: int
  inv_slots :: "inventory_slot vec option"
  inv_cursorQueue :: "inventory_slot vec option"

definition sizeof_InventorySlot :: u32 where "sizeof_InventorySlot = 16"
definition InvSlot_Range :: u16 where "InvSlot_Range = 11"
definition InvSlot_Primary :: u16 where "InvSlot_Primary = 13"
definition InvSlot_Secondary :: u16 where "InvSlot_Secondary = 14"
definition InvSlot_Cursor :: u16 where "InvSlot_Cursor = 30"

definition cursor_slot :: inventory_slot where
  "cursor_slot = \<lparr>is_slotId = InvSlot_Cursor, is_augSlotId = 0, is_itemId = 0, is_item = None\<rparr>"

definition inventory_init :: "heap \<Rightarrow> inventory result" where
  "inventory_init h =
     bindE (vec_create h sizeof_InventorySlot) (\<lambda>v.
     bindE (vec_push h sizeof_InventorySlot v cursor_slot) (\<lambda>v.
     Inr \<lparr>inv_primaryIndex = -1, inv_secondaryIndex = -1, inv_rangeIndex = -1, inv_ammoIndex = -1,
          inv_slots = Some v, inv_cursorQueue = None\<rparr>))"

definition inventory_deinit :: "inventory \<Rightarrow> inventory" where
  "inventory_deinit iv = iv\<lparr>inv_slots := None, inv_cursorQueue := None\<rparr>"

definition inventory_add_to_cursor_queue_from_database ::
  "heap \<Rightarrow> inventory \<Rightarrow> inventory_slot \<Rightarrow> inventory result" where
  "inventory_add_to_cursor_queue_from_database h iv slot =
     bindE (case inv_cursorQueue iv of Some q \<Rightarrow> Inr q | None \<Rightarrow> vec_create h sizeof_InventorySlot) (\<lambda>q.
     bindE (vec_push h sizeof_InventorySlot q slot) (\<lambda>q. Inr (iv\<lparr>inv_cursorQueue := Some q\<rparr>)))"

definition inventory_add_slot :: "heap \<Rightarrow> inventory \<Rightarrow> inventory_slot vec \<Rightarrow> inventory_slot \<Rightarrow> inventory result" where
  "inventory_add_slot h iv v slot =
     (let slotId = is_slotId slot; count = sint (vec_count v);
          iv = (if slotId = InvSlot_Range then iv\<lparr>inv_rangeIndex := count\<rparr>
                 else if slotId = InvSlot_Primary then iv\<lparr>inv_primaryIndex := count\<rparr>
                 else if slotId = InvSlot_Secondary then iv\<lparr>inv_secondaryIndex := count\<rparr> else iv)
      in bindE (vec_push h sizeof_InventorySlot v slot) (\<lambda>v. Inr (iv\<lparr>inv_slots := Some v\<rparr>)))"

definition inventory_add_from_database :: "heap \<Rightarrow> inventory \<Rightarrow> inventory_slot \<Rightarrow> inventory result" where
  "inventory_add_from_database h iv slot =
     (case inv_slots iv of
        None \<Rightarrow> Inl UndefinedBehaviour
      | Some v \<Rightarrow>
          if is_slotId slot = InvSlot_Cursor
          then (case vec_get v 0 of
                  None \<Rightarrow> Inl UndefinedBehaviour
                | Some cursor \<Rightarrow>
                    if is_itemId cursor \<noteq> 0 then inventory_add_to_cursor_queue_from_database h iv slot
                    else inventory_add_slot h iv v slot)
          else inventory_add_slot h iv v slot)"

record inventory_iterator =
  ii_index :: u32
  ii_slotFrom :: u32
  ii_slotTo :: u32
  ii_slot :: "u32 option"

definition inventory_iterator_init :: "u32 \<Rightarrow> u32 \<Rightarrow> inventory_iterator" where
  "inventory_iterator_init slotFrom slotTo =
     (let (slotFrom, slotTo) = (if slotFrom > slotTo then (slotTo, slotFrom) else (slotFrom, slotTo)) in
      \<lparr>ii_index = 0, ii_slotFrom = slotFrom, ii_slotTo = slotTo, ii_slot = None\<rparr>)"

fun find_slot :: "nat \<Rightarrow> inventory_slot list \<Rightarrow> u32 \<Rightarrow> u32 \<Rightarrow> u32 \<Rightarrow> u32 option" where
  "find_slot 0 slots from to i = None"
| "find_slot (Suc k) slots from to i =
     (let slot = slots ! unat i; slotId = ucast (is_slotId slot) in
      if slotId \<ge> from \<and> slotId \<le> to \<and> is_itemId slot \<noteq> 0 \<and> is_augSlotId slot = 0 then Some i
      else find_slot k slots from to (i + 1))"

definition inventory_iterate_no_augs :: "inventory \<Rightarrow> inventory_iterator \<Rightarrow> (bool \<times> inventory_iterator) result" where
  "inventory_iterate_no_augs iv itr =
     (case inv_slots iv of
        None \<Rightarrow> Inl UndefinedBehaviour
      | Some v \<Rightarrow>
          (case find_slot (length (vec_items v) - unat (ii_index itr)) (vec_items v) (ii_slotFrom itr) (ii_slotTo itr) (ii_index itr) of
             Some i \<Rightarrow> Inr (True, itr\<lparr>ii_index := i + 1, ii_slot := Some i\<rparr>)
           | None \<Rightarrow> Inr (False, itr)))"

section \<open>Dates are dates\<close>

lemma find_month_spec:
  "1 \<le> unat day \<Longrightarrow> unat day \<le> sum_list (map unat ms) \<Longrightarrow>
   \<exists>k d. k < length ms \<and> find_month ms i day = (Some (ucast (i + of_nat k + 1)), d) \<and>
     unat day = sum_list (map unat (take k ms)) + unat d \<and> 1 \<le> unat d \<and> unat d \<le> unat (ms ! k)"
proof (induction ms arbitrary: i day)
  case (Cons m ms)
  have um: "unat (ucast m :: u32) = unat m" by (simp add: unat_ucast_up)
  show ?case
  proof (cases "day \<le> ucast m")
    case True
    then have "unat day \<le> unat m" using um by (simp add: word_le_nat_alt)
    then show ?thesis using True Cons.prems(1) by (intro exI [of _ 0] exI [of _ day]) simp
  next
    case False
    then have lt: "unat m < unat day" using um by (simp add: word_le_nat_alt)
    then have ud: "unat (day - ucast m) = unat day - unat m" using um by (subst unat_sub_word) (simp_all add: word_le_nat_alt)
    then have "1 \<le> unat (day - ucast m)" "unat (day - ucast m) \<le> sum_list (map unat ms)" using lt Cons.prems by auto
    from Cons.IH [OF this, of "i + 1"] obtain k d where k: "k < length ms"
      "find_month ms (i + 1) (day - ucast m) = (Some (ucast (i + 1 + of_nat k + 1)), d)"
      "unat (day - ucast m) = sum_list (map unat (take k ms)) + unat d" "1 \<le> unat d" "unat d \<le> unat (ms ! k)" by blast
    then show ?thesis using False lt ud by (intro exI [of _ "Suc k"] exI [of _ d]) (auto simp: ac_simps)
  qed
qed simp

definition days_before :: "nat \<Rightarrow> nat" where
  "days_before month = sum_list (map unat (take (month - 1) daysInMonth))"

text \<open>The minutes since year 0 that a date names.\<close>

definition date_minutes :: "eq_time \<Rightarrow> nat" where
  "date_minutes t =
     ((unat (et_year t) * 365 + days_before (unat (et_month t)) + (unat (et_day t) - 1)) * 24 + unat (et_hour t)) * 60
     + unat (et_minute t)"

definition date_ok :: "eq_time \<Rightarrow> bool" where
  "date_ok t \<longleftrightarrow> 1 \<le> unat (et_month t) \<and> unat (et_month t) \<le> 12 \<and> 1 \<le> unat (et_day t) \<and>
     unat (et_day t) \<le> unat (daysInMonth ! (unat (et_month t) - 1)) \<and> unat (et_hour t) < 24 \<and> unat (et_minute t) < 60"

lemma minutes_split: "(m :: nat) = ((m div 525600 * 365 + m mod 525600 div 1440) * 24 + m mod 525600 mod 1440 div 60) * 60 +
    m mod 525600 mod 1440 mod 60"
proof -
  define r s where "r = m mod 525600" and "s = r mod 1440"
  have "m = m div 525600 * 525600 + r" "r = r div 1440 * 1440 + s" "s = s div 60 * 60 + s mod 60"
    unfolding r_def s_def by (rule div_mult_mod_eq [symmetric])+
  moreover have "a = b * 525600 + c \<Longrightarrow> c = d * 1440 + e \<Longrightarrow> e = f * 60 + g \<Longrightarrow> a = ((b * 365 + d) * 24 + f) * 60 + g"
    for a b c d e f g :: nat by simp
  ultimately show ?thesis unfolding r_def [symmetric] s_def [symmetric] by blast
qed

lemma unat_ucast_small: "unat (x :: 'a :: len word) < 2 ^ LENGTH('b) \<Longrightarrow> unat (ucast x :: 'b :: len word) = unat x"
  by (simp add: unsigned_ucast_eq take_bit_eq_mod)

lemma eq_time_spec:
  assumes "m = unat (now - base) div 3" "m < 525600 * 65536"
  shows "date_ok (eq_time_calc now t base) \<and> date_minutes (eq_time_calc now t base) = m"
proof -
  define q where "q = (now - base) div SECONDS_PER_EQ_MINUTE"
  have c: "MINUTES_PER_YEAR = 525600" "MINUTES_PER_DAY = 1440" "MINUTES_PER_HOUR = 60"
    by (simp_all add: MINUTES_PER_YEAR_def MINUTES_PER_DAY_def MINUTES_PER_HOUR_def DAYS_PER_YEAR_def)
  have eq: "unat q = m" by (simp add: q_def unat_div SECONDS_PER_EQ_MINUTE_def assms(1))
  have y: "unat (q div 525600) = m div 525600" "unat (q mod 525600) = m mod 525600" by (simp_all add: unat_div unat_mod eq)
  define e where "e = q mod 525600"
  have d: "unat (e div 1440) = m mod 525600 div 1440" "unat (e mod 1440) = m mod 525600 mod 1440"
    by (simp_all add: unat_div unat_mod e_def eq)
  have h: "unat (e mod 1440 div 60) = m mod 525600 mod 1440 div 60" "unat (e mod 1440 mod 60) = m mod 525600 mod 1440 mod 60"
    by (simp_all add: unat_div unat_mod e_def eq)
  have lt: "m mod 525600 div 1440 < 365" "m mod 525600 mod 1440 div 60 < 24" "m mod 525600 mod 1440 mod 60 < 60" by simp_all
  define day :: u32 where "day = ucast (e div 1440) + 1"
  have "unat (ucast (e div 1440) :: u32) = m mod 525600 div 1440" using d lt by (subst unat_ucast_small) simp_all
  then have ud: "unat day = Suc (m mod 525600 div 1440)" using lt unfolding day_def by (subst unat_Suc_u32) simp_all
  have "sum_list (map unat daysInMonth) = 365" "length daysInMonth = 12" by (simp_all add: daysInMonth_def)
  then obtain k dd where k: "k < 12" "find_month daysInMonth 0 day = (Some (ucast (0 + of_nat k + 1 :: u32)), dd)"
    "unat day = sum_list (map unat (take k daysInMonth)) + unat dd" "1 \<le> unat dd" "unat dd \<le> unat (daysInMonth ! k)"
    using find_month_spec [of day daysInMonth 0] ud lt by auto
  have um: "unat (ucast (0 + of_nat k + 1 :: u32) :: u8) = Suc k"
  proof -
    have "unat (of_nat k + 1 :: u32) = Suc k" using k(1) unat_of_nat_u32 [of k] by (subst unat_Suc_u32) simp_all
    then show ?thesis using k(1) by (subst unat_ucast_small) simp_all
  qed
  have "unat dd < 256" using k(5) unat_lt_u8 [of "daysInMonth ! k"] by linarith
  then have udd: "unat (ucast dd :: u8) = unat dd" by (subst unat_ucast_small) simp_all
  have uy: "unat (ucast (q div 525600) :: u16) = m div 525600" using y assms(2) by (subst unat_ucast_small) simp_all
  have uh: "unat (ucast (e mod 1440 div 60) :: u8) = m mod 525600 mod 1440 div 60"
    "unat (ucast (e mod 1440 mod 60) :: u8) = m mod 525600 mod 1440 mod 60"
  proof -
    have "unat (e mod 1440 div 60) < 2 ^ LENGTH(8)" "unat (e mod 1440 mod 60) < 2 ^ LENGTH(8)"
      unfolding h using lt(2) less_trans [OF lt(3), of 256] by simp_all
    note small = this
    show "unat (ucast (e mod 1440 div 60) :: u8) = m mod 525600 mod 1440 div 60"
      using unat_ucast_small [OF small(1)] unfolding h .
    show "unat (ucast (e mod 1440 mod 60) :: u8) = m mod 525600 mod 1440 mod 60"
      using unat_ucast_small [OF small(2)] unfolding h .
  qed
  have t: "eq_time_calc now t base = t\<lparr>et_year := ucast (q div 525600), et_month := ucast (0 + of_nat k + 1 :: u32),
      et_day := ucast dd, et_hour := ucast (e mod 1440 div 60), et_minute := ucast (e mod 1440 mod 60)\<rparr>"
    using k(2) by (simp add: eq_time_calc_def c Let_def day_def e_def q_def)
  let ?t = "eq_time_calc now t base"
  have f: "unat (et_year ?t) = m div 525600" "unat (et_month ?t) = Suc k" "unat (et_day ?t) = unat dd"
    "unat (et_hour ?t) = m mod 525600 mod 1440 div 60" "unat (et_minute ?t) = m mod 525600 mod 1440 mod 60"
    unfolding t using um udd uy uh by simp_all
  have "sum_list (map unat (take k daysInMonth)) + (unat dd - 1) = m mod 525600 div 1440" using k(3,4) ud by simp
  then have "date_minutes ?t = m"
    unfolding date_minutes_def days_before_def f diff_Suc_1 add.assoc using minutes_split [of m] by simp
  moreover have "date_ok ?t" unfolding date_ok_def f using k lt by simp
  ultimately show ?thesis by blast
qed

section \<open>Loading an inventory\<close>

text \<open>The slots of an inventory that was only loaded: the cursor slot, which stays empty, then the
  rows, in their order. An index of a weapon names its last slot.\<close>

definition last_index :: "u16 \<Rightarrow> inventory_slot list \<Rightarrow> int" where
  "last_index slotId rows =
     (let found = filter (\<lambda>i. is_slotId (rows ! i) = slotId) [0..<length rows] in
      if found = [] then -1 else 1 + int (last found))"

definition loaded :: "inventory_slot list \<Rightarrow> inventory \<Rightarrow> bool" where
  "loaded rows iv \<longleftrightarrow>
     (\<exists>v. inv_slots iv = Some v \<and> vec_ok sizeof_InventorySlot v \<and> vec_items v = cursor_slot # rows) \<and>
     inv_cursorQueue iv = None \<and> inv_ammoIndex iv = -1 \<and>
     inv_rangeIndex iv = last_index InvSlot_Range rows \<and> inv_primaryIndex iv = last_index InvSlot_Primary rows \<and>
     inv_secondaryIndex iv = last_index InvSlot_Secondary rows"

lemma last_index_snoc:
  "last_index x (rows @ [r]) = (if is_slotId r = x then 1 + int (length rows) else last_index x rows)"
proof -
  have "filter (\<lambda>i. is_slotId ((rows @ [r]) ! i) = x) [0..<length rows] = filter (\<lambda>i. is_slotId (rows ! i) = x) [0..<length rows]"
    by (rule filter_cong) (auto simp: nth_append)
  then show ?thesis by (simp add: last_index_def Let_def)
qed

lemma sint_of_nat: "n < 2147483648 \<Longrightarrow> sint (of_nat n :: u32) = int n"
proof -
  assume "n < 2147483648"
  then have "signed_take_bit 31 (int n) = int n" by (intro signed_take_bit_int_eq_self) auto
  moreover have "sint (of_nat n :: u32) = signed_take_bit 31 (int n)" by transfer simp
  ultimately show ?thesis by simp
qed

lemma inventory_init_loaded: "ample h \<Longrightarrow> \<exists>iv. inventory_init h = Inr iv \<and> loaded [] iv"
  by (simp add: inventory_init_def ample_def vec_create_def vec_push_def vec_count_def MIN_CAPACITY_def loaded_def
      vec_ok_def sizeof_InventorySlot_def last_index_def)

lemma add_loaded:
  assumes "loaded rows iv" "ample h" "length rows < 2 ^ 20"
  shows "\<exists>iv'. inventory_add_from_database h iv r = Inr iv' \<and> loaded (rows @ [r]) iv'"
proof -
  obtain v where v: "inv_slots iv = Some v" "vec_ok sizeof_InventorySlot v" "vec_items v = cursor_slot # rows"
    using assms(1) by (auto simp: loaded_def)
  have "2 * length (vec_items v) * unat sizeof_InventorySlot < 2 ^ 32" using v(3) assms(3) by (simp add: sizeof_InventorySlot_def)
  from vec_push_ample [OF v(2) assms(2) this, of r] obtain v' where v': "vec_push h sizeof_InventorySlot v r = Inr v'"
    "vec_ok sizeof_InventorySlot v'" "vec_items v' = vec_items v @ [r]" by (auto simp: sizeof_InventorySlot_def)
  have c: "sint (vec_count v) = 1 + int (length rows)"
    using sint_of_nat [of "Suc (length rows)"] assms(3) by (simp add: vec_count_def v(3))
  have add: "\<exists>iv'. inventory_add_slot h iv v r = Inr iv' \<and> loaded (rows @ [r]) iv'"
    using v' assms(1) v(3) c by (auto simp: inventory_add_slot_def Let_def loaded_def last_index_snoc
        InvSlot_Range_def InvSlot_Primary_def InvSlot_Secondary_def)
  have "vec_get v 0 = Some cursor_slot" using v by (simp add: vec_get_def vec_count_def)
  then show ?thesis using add v(1) by (simp add: inventory_add_from_database_def cursor_slot_def)
qed

fun add_rows :: "heap \<Rightarrow> inventory_slot list \<Rightarrow> inventory \<Rightarrow> inventory result" where
  "add_rows h [] iv = Inr iv"
| "add_rows h (r # rs) iv = bindE (inventory_add_from_database h iv r) (add_rows h rs)"

lemma add_rows_loaded:
  "loaded rows iv \<Longrightarrow> ample h \<Longrightarrow> length rows + length rs < 2 ^ 20 \<Longrightarrow>
   \<exists>iv'. add_rows h rs iv = Inr iv' \<and> loaded (rows @ rs) iv'"
proof (induction rs arbitrary: rows iv)
  case (Cons r rs)
  obtain iv' where "inventory_add_from_database h iv r = Inr iv'" "loaded (rows @ [r]) iv'"
    using add_loaded [OF Cons.prems(1,2), of r] Cons.prems(3) by auto
  then show ?case using Cons.IH [of "rows @ [r]" iv'] Cons.prems by simp
qed simp

section \<open>Iterating\<close>

definition matches :: "u32 \<Rightarrow> u32 \<Rightarrow> inventory_slot \<Rightarrow> bool" where
  "matches from to s \<longleftrightarrow> ucast (is_slotId s) \<ge> from \<and> ucast (is_slotId s) \<le> to \<and> is_itemId s \<noteq> 0 \<and> is_augSlotId s = 0"

lemma find_slot_spec:
  "unat i + k = length slots \<Longrightarrow> length slots < 2 ^ 32 \<Longrightarrow>
   case find_slot k slots from to i of
     None \<Rightarrow> filter (matches from to) (drop (unat i) slots) = []
   | Some j \<Rightarrow> unat j < length slots \<and> unat i \<le> unat j \<and>
       filter (matches from to) (drop (unat i) slots) = slots ! unat j # filter (matches from to) (drop (Suc (unat j)) slots)"
proof (induction k arbitrary: i)
  case (Suc k)
  have lt: "unat i < length slots" using Suc.prems(1) by simp
  then have d: "drop (unat i) slots = slots ! unat i # drop (Suc (unat i)) slots" by (simp add: Cons_nth_drop_Suc)
  have "Suc (unat i) < 2 ^ 32 \<or> Suc (unat i) = 2 ^ 32" using lt Suc.prems(2) by linarith
  then have ui: "unat (i + 1) = Suc (unat i)" using lt Suc.prems(2) by (intro unat_Suc_u32) simp
  show ?case
  proof (cases "matches from to (slots ! unat i)")
    case True
    then show ?thesis using d lt by (simp add: matches_def Let_def)
  next
    case False
    then have "find_slot (Suc k) slots from to i = find_slot k slots from to (i + 1)" by (auto simp: matches_def Let_def)
    moreover have "filter (matches from to) (drop (unat i) slots) = filter (matches from to) (drop (unat (i + 1)) slots)"
      using False d ui by simp
    ultimately show ?thesis using Suc.IH [of "i + 1"] Suc.prems ui by (auto split: option.splits)
  qed
qed simp

text \<open>What a caller sees that iterates until the iterator says stop, within a number of calls.\<close>

fun iterate_all :: "nat \<Rightarrow> inventory \<Rightarrow> inventory_iterator \<Rightarrow> inventory_slot list result" where
  "iterate_all 0 iv itr = Inl Diverges"
| "iterate_all (Suc k) iv itr =
     bindE (inventory_iterate_no_augs iv itr) (\<lambda>(more, itr).
     if more
     then (case (inv_slots iv, ii_slot itr) of
             (Some v, Some i) \<Rightarrow> bindE (iterate_all k iv itr) (\<lambda>ss. Inr (vec_items v ! unat i # ss))
           | _ \<Rightarrow> Inl UndefinedBehaviour)
     else Inr [])"

lemma iterate_all_spec:
  assumes "inv_slots iv = Some v" "length (vec_items v) < 2 ^ 32"
  shows "unat (ii_index itr) \<le> length (vec_items v) \<Longrightarrow> length (vec_items v) < unat (ii_index itr) + k \<Longrightarrow>
    iterate_all k iv itr = Inr (filter (matches (ii_slotFrom itr) (ii_slotTo itr)) (drop (unat (ii_index itr)) (vec_items v)))"
proof (induction k arbitrary: itr)
  case (Suc k)
  let ?n = "length (vec_items v) - unat (ii_index itr)"
  have "unat (ii_index itr) + ?n = length (vec_items v)" using Suc.prems(1) by simp
  note f = find_slot_spec [OF this assms(2), of "ii_slotFrom itr" "ii_slotTo itr"]
  show ?case
  proof (cases "find_slot ?n (vec_items v) (ii_slotFrom itr) (ii_slotTo itr) (ii_index itr)")
    case None
    then show ?thesis using f assms(1) by (simp add: inventory_iterate_no_augs_def)
  next
    case (Some j)
    then have j: "unat j < length (vec_items v)" "unat (ii_index itr) \<le> unat j" using f by simp_all
    then have uj: "unat (j + 1) = Suc (unat j)" using assms(2) by (intro unat_Suc_u32) simp
    let ?itr = "itr\<lparr>ii_index := j + 1, ii_slot := Some j\<rparr>"
    have "iterate_all k iv ?itr = Inr (filter (matches (ii_slotFrom itr) (ii_slotTo itr)) (drop (Suc (unat j)) (vec_items v)))"
      using Suc.IH [of ?itr] Suc.prems j uj by simp
    then show ?thesis using Some f assms(1) by (simp add: inventory_iterate_no_augs_def)
  qed
qed simp

end
