(* ===== verification/Mob.thy ===== *)
theory Mob
  imports Eqp_String Player_Data "HOL-Library.Signed_Division"
begin

text \<open>
  \<^verbatim>\<open>zone_cluster/mob/mob.c\<close>, \<^verbatim>\<open>npc_prototype.c\<close> and
  \<^verbatim>\<open>npc.c\<close>: the creatures of a zone. Signed fields are words of their width, read with
  \<open>sint\<close> where the sign matters; a float is the word of its bits. Names are counted references
  to strings that prototypes and mobs share, so strings live in a store. The Lua object of a mob is
  left out: only the binding reads it.
\<close>

section \<open>Shared strings\<close>

record string_store =
  ss_strings :: "nat \<Rightarrow> estring option"
  ss_next :: nat

definition new_string :: "string_store \<Rightarrow> estring \<Rightarrow> nat \<times> string_store" where
  "new_string st s = (ss_next st, st\<lparr>ss_strings := (ss_strings st)(ss_next st \<mapsto> s), ss_next := Suc (ss_next st)\<rparr>)"

definition string_at :: "string_store \<Rightarrow> nat \<Rightarrow> estring result" where
  "string_at st a = (case ss_strings st a of None \<Rightarrow> Inl UndefinedBehaviour | Some s \<Rightarrow> Inr s)"

definition grab_at :: "string_store \<Rightarrow> nat \<Rightarrow> string_store result" where
  "grab_at st a = bindE (string_at st a) (\<lambda>s. Inr (st\<lparr>ss_strings := (ss_strings st)(a \<mapsto> string_grab s)\<rparr>))"

definition drop_at :: "string_store \<Rightarrow> nat \<Rightarrow> string_store result" where
  "drop_at st a = bindE (string_at st a) (\<lambda>s. Inr (st\<lparr>ss_strings := (ss_strings st)(a := string_drop s)\<rparr>))"

text \<open>The guard \<^verbatim>\<open>if (name)\<close>.\<close>

definition if_present :: "(string_store \<Rightarrow> nat \<Rightarrow> string_store result) \<Rightarrow> string_store \<Rightarrow> nat option \<Rightarrow> string_store result" where
  "if_present f st a = (case a of None \<Rightarrow> Inr st | Some a \<Rightarrow> f st a)"

section \<open>Constants\<close>

definition float_0_46 :: u32 where "float_0_46 = 0x3eeb851f"
definition float_0_7 :: u32 where "float_0_7 = 0x3f333333"
definition float_4 :: u32 where "float_4 = 0x40800000"
definition float_50 :: u32 where "float_50 = 0x42480000"

definition Class_Warrior :: u8 where "Class_Warrior = 1"
definition Race_Human :: u16 where "Race_Human = 1"
definition Gender_Neuter :: u8 where "Gender_Neuter = 2"
definition BodyType_Humanoid :: u16 where "BodyType_Humanoid = 1"
definition BodyType_Undead :: u16 where "BodyType_Undead = 3"
definition BodyType_Animal :: u16 where "BodyType_Animal = 21"
definition Trilogy_UprightState_Standing :: u8 where "Trilogy_UprightState_Standing = 100"

definition MobType_Npc :: i32 where "MobType_Npc = 0"
definition MobType_Client :: i32 where "MobType_Client = 1"
definition MobType_Pet :: i32 where "MobType_Pet = 2"

section \<open>Prototypes of characters\<close>

record stats =
  st_maxHp :: u64
  st_maxMana :: u64
  st_maxEndurance :: u64
  st_AC :: i32
  st_STR :: i32
  st_STA :: i32
  st_DEX :: i32
  st_AGI :: i32
  st_INT :: i32
  st_WIS :: i32
  st_CHA :: i32
  st_svMagic :: i32
  st_svFire :: i32
  st_svCold :: i32
  st_svPoison :: i32
  st_svDisease :: i32

definition zero_stats :: stats where
  "zero_stats = \<lparr>
     st_maxHp = 0, st_maxMana = 0, st_maxEndurance = 0, st_AC = 0, st_STR = 0, st_STA = 0, st_DEX = 0,
     st_AGI = 0, st_INT = 0, st_WIS = 0, st_CHA = 0, st_svMagic = 0, st_svFire = 0, st_svCold = 0,
     st_svPoison = 0, st_svDisease = 0\<rparr>"

record npc_prototype =
  np_name :: "nat option"
  np_clientFriendlyName :: "nat option"
  np_adHocId :: u32
  np_level :: u8
  np_class :: u8
  np_gender :: u8
  np_face :: u8
  np_race :: u16
  np_texture :: u8
  np_helmTexture :: u8
  np_stats :: stats
  np_size :: u32
  np_runningSpeed :: u32
  np_walkingSpeed :: u32
  np_aggroRadius :: u32
  np_materials :: "u8 list"
  np_tints :: "u32 list"
  np_primaryModelId :: u32
  np_secondaryModelId :: u32
  np_bodyType :: u8
  np_primaryMessageSkill :: u8
  np_secondaryMessageSkill :: u8
  np_swingsPerRound :: u8
  np_minDamage :: u64
  np_maxDamage :: u64

definition zero_npc_prototype :: npc_prototype where
  "zero_npc_prototype = \<lparr>
     np_name = None, np_clientFriendlyName = None, np_adHocId = 0, np_level = 0, np_class = 0,
     np_gender = 0, np_face = 0, np_race = 0, np_texture = 0, np_helmTexture = 0, np_stats = zero_stats,
     np_size = 0, np_runningSpeed = 0, np_walkingSpeed = 0, np_aggroRadius = 0,
     np_materials = replicate 7 0, np_tints = replicate 7 0, np_primaryModelId = 0,
     np_secondaryModelId = 0, np_bodyType = 0, np_primaryMessageSkill = 0, np_secondaryMessageSkill = 0,
     np_swingsPerRound = 0, np_minDamage = 0, np_maxDamage = 0\<rparr>"

definition sizeof_NpcPrototype :: nat where "sizeof_NpcPrototype = 192"

definition npc_proto_create :: "heap \<Rightarrow> npc_prototype result" where
  "npc_proto_create h =
     (if can_alloc h sizeof_NpcPrototype
      then Inr (zero_npc_prototype\<lparr>np_level := 1, np_class := Class_Warrior, np_gender := Gender_Neuter, np_race := Race_Human,
             np_stats := zero_stats\<lparr>st_maxHp := 10\<rparr>, np_size := float_4, np_runningSpeed := float_0_7,
             np_walkingSpeed := float_0_46, np_aggroRadius := float_50,
             np_primaryMessageSkill := of_nat Skill_HandToHand, np_secondaryMessageSkill := of_nat Skill_HandToHand,
             np_swingsPerRound := 1, np_minDamage := 1, np_maxDamage := 2\<rparr>)
      else Inl ErrorOutOfMemory)"

definition npc_proto_destroy :: "npc_prototype \<Rightarrow> string_store \<Rightarrow> string_store result" where
  "npc_proto_destroy proto st =
     bindE (if_present drop_at st (np_name proto)) (\<lambda>st. if_present drop_at st (np_clientFriendlyName proto))"

primrec clean_chars :: "heap \<Rightarrow> bytes \<Rightarrow> estring \<Rightarrow> nat \<Rightarrow> (estring \<times> nat) result" where
  "clean_chars h [] clean changes = Inr (clean, changes)"
| "clean_chars h (c # cs) clean changes =
     bindE (string_add_char h clean (if c = 0x20 then 0x5f else c)) (\<lambda>clean.
     clean_chars h cs clean (if c = 0x20 then Suc changes else changes))"

definition npc_proto_determine_client_friendly_name :: "heap \<Rightarrow> string_store \<Rightarrow> nat \<Rightarrow> (nat \<times> string_store) result" where
  "npc_proto_determine_client_friendly_name h st name =
     bindE (string_at st name) (\<lambda>s.
     let n = str_length s in
     bindE (string_create_with_capacity h (n + 1)) (\<lambda>clean.
     bindE (mem_read (str_data s) 0 (unat n)) (\<lambda>str.
     bindE (clean_chars h str clean 0) (\<lambda>(clean, changes).
     let (a, st) = new_string st clean in
     if changes = 0 then bindE (drop_at st a) (\<lambda>st. bindE (grab_at st name) (\<lambda>st. Inr (name, st)))
     else Inr (a, st)))))"

text \<open>A new name does not drop the strings it replaces.\<close>

definition npc_proto_set_name ::
  "heap \<Rightarrow> npc_prototype \<Rightarrow> bytes option \<Rightarrow> u32 \<Rightarrow> string_store \<Rightarrow> (npc_prototype \<times> string_store) result" where
  "npc_proto_set_name h proto str len st =
     (case str of
        Some cs \<Rightarrow>
          bindE (string_create_from_cstr h cs len) (\<lambda>s.
          let (name, st) = new_string st s; proto = proto\<lparr>np_name := Some name\<rparr> in
          bindE (npc_proto_determine_client_friendly_name h st name) (\<lambda>(friendly, st).
          Inr (proto\<lparr>np_clientFriendlyName := Some friendly\<rparr>, st)))
      | None \<Rightarrow>
          bindE (if_present drop_at st (np_name proto)) (\<lambda>st.
          bindE (if_present drop_at st (np_clientFriendlyName proto)) (\<lambda>st.
          Inr (proto\<lparr>np_name := None, np_clientFriendlyName := None\<rparr>, st))))"

definition npc_proto_set_level :: "npc_prototype \<Rightarrow> u8 \<Rightarrow> npc_prototype" where
  "npc_proto_set_level proto level = proto\<lparr>np_level := (if level = 0 then 1 else level)\<rparr>"

definition npc_proto_set_gender :: "npc_prototype \<Rightarrow> u8 \<Rightarrow> npc_prototype" where
  "npc_proto_set_gender proto gender = proto\<lparr>np_gender := (if gender > Gender_Neuter then Gender_Neuter else gender)\<rparr>"

definition npc_proto_set_material :: "npc_prototype \<Rightarrow> u8 \<Rightarrow> u8 \<Rightarrow> npc_prototype" where
  "npc_proto_set_material proto slot materialId =
     (if slot \<ge> 7 then proto else proto\<lparr>np_materials := (np_materials proto)[unat slot := materialId]\<rparr>)"

definition npc_proto_set_tint :: "npc_prototype \<Rightarrow> u8 \<Rightarrow> u8 \<Rightarrow> u8 \<Rightarrow> u8 \<Rightarrow> npc_prototype" where
  "npc_proto_set_tint proto slot red green blue =
     (if slot \<ge> 7 then proto
      else proto\<lparr>np_tints := (np_tints proto)[unat slot := ucast red OR push_bit 8 (ucast green) OR push_bit 16 (ucast blue)]\<rparr>)"

definition npc_proto_get_material :: "npc_prototype \<Rightarrow> u8 \<Rightarrow> u8" where
  "npc_proto_get_material proto slot = (if slot \<ge> 7 then 0 else np_materials proto ! unat slot)"

definition npc_proto_get_tint :: "npc_prototype \<Rightarrow> u8 \<Rightarrow> u32" where
  "npc_proto_get_tint proto slot = (if slot \<ge> 7 then 0 else np_tints proto ! unat slot)"

definition npc_proto_get_stats :: "npc_prototype \<Rightarrow> stats" where
  "npc_proto_get_stats proto = np_stats proto"

definition npc_proto_get_name_cstr :: "npc_prototype \<Rightarrow> string_store \<Rightarrow> bytes option result" where
  "npc_proto_get_name_cstr proto st =
     (case np_name proto of None \<Rightarrow> Inr None | Some a \<Rightarrow> bindE (string_at st a) (\<lambda>s. Inr (Some (str_data s))))"

definition npc_proto_get_name :: "npc_prototype \<Rightarrow> nat option" where
  "npc_proto_get_name proto = np_name proto"

definition npc_proto_get_client_friendly_name :: "npc_prototype \<Rightarrow> nat option" where
  "npc_proto_get_client_friendly_name proto = np_clientFriendlyName proto"

definition npc_proto_set_adhoc_id :: "npc_prototype \<Rightarrow> u32 \<Rightarrow> npc_prototype" where
  "npc_proto_set_adhoc_id proto id' = proto\<lparr>np_adHocId := id'\<rparr>"

definition npc_proto_set_class :: "npc_prototype \<Rightarrow> u8 \<Rightarrow> npc_prototype" where
  "npc_proto_set_class proto class' = proto\<lparr>np_class := class'\<rparr>"

definition npc_proto_set_race :: "npc_prototype \<Rightarrow> u16 \<Rightarrow> npc_prototype" where
  "npc_proto_set_race proto race = proto\<lparr>np_race := race\<rparr>"

definition npc_proto_set_face :: "npc_prototype \<Rightarrow> u8 \<Rightarrow> npc_prototype" where
  "npc_proto_set_face proto face = proto\<lparr>np_face := face\<rparr>"

definition npc_proto_set_body_type :: "npc_prototype \<Rightarrow> u8 \<Rightarrow> npc_prototype" where
  "npc_proto_set_body_type proto bodyType = proto\<lparr>np_bodyType := bodyType\<rparr>"

definition npc_proto_set_texture :: "npc_prototype \<Rightarrow> u8 \<Rightarrow> npc_prototype" where
  "npc_proto_set_texture proto textureId = proto\<lparr>np_texture := textureId\<rparr>"

definition npc_proto_set_helm_texture :: "npc_prototype \<Rightarrow> u8 \<Rightarrow> npc_prototype" where
  "npc_proto_set_helm_texture proto textureId = proto\<lparr>np_helmTexture := textureId\<rparr>"

definition npc_proto_set_max_hp :: "npc_prototype \<Rightarrow> u64 \<Rightarrow> npc_prototype" where
  "npc_proto_set_max_hp proto hp = proto\<lparr>np_stats := (np_stats proto)\<lparr>st_maxHp := hp\<rparr>\<rparr>"

definition npc_proto_set_max_mana :: "npc_prototype \<Rightarrow> u64 \<Rightarrow> npc_prototype" where
  "npc_proto_set_max_mana proto mana = proto\<lparr>np_stats := (np_stats proto)\<lparr>st_maxMana := mana\<rparr>\<rparr>"

definition npc_proto_set_max_endurance :: "npc_prototype \<Rightarrow> u64 \<Rightarrow> npc_prototype" where
  "npc_proto_set_max_endurance proto endur = proto\<lparr>np_stats := (np_stats proto)\<lparr>st_maxEndurance := endur\<rparr>\<rparr>"

definition npc_proto_set_size :: "npc_prototype \<Rightarrow> u32 \<Rightarrow> npc_prototype" where
  "npc_proto_set_size proto size' = proto\<lparr>np_size := size'\<rparr>"

definition npc_proto_set_running_speed :: "npc_prototype \<Rightarrow> u32 \<Rightarrow> npc_prototype" where
  "npc_proto_set_running_speed proto speed = proto\<lparr>np_runningSpeed := speed\<rparr>"

definition npc_proto_set_walking_speed :: "npc_prototype \<Rightarrow> u32 \<Rightarrow> npc_prototype" where
  "npc_proto_set_walking_speed proto speed = proto\<lparr>np_walkingSpeed := speed\<rparr>"

definition npc_proto_set_aggro_radius :: "npc_prototype \<Rightarrow> u32 \<Rightarrow> npc_prototype" where
  "npc_proto_set_aggro_radius proto radius = proto\<lparr>np_aggroRadius := radius\<rparr>"

definition npc_proto_set_primary_model_id :: "npc_prototype \<Rightarrow> u32 \<Rightarrow> npc_prototype" where
  "npc_proto_set_primary_model_id proto modelId = proto\<lparr>np_primaryModelId := modelId\<rparr>"

definition npc_proto_set_secondary_model_id :: "npc_prototype \<Rightarrow> u32 \<Rightarrow> npc_prototype" where
  "npc_proto_set_secondary_model_id proto modelId = proto\<lparr>np_secondaryModelId := modelId\<rparr>"

definition npc_proto_set_primary_message_skill :: "npc_prototype \<Rightarrow> u8 \<Rightarrow> npc_prototype" where
  "npc_proto_set_primary_message_skill proto skill = proto\<lparr>np_primaryMessageSkill := skill\<rparr>"

definition npc_proto_set_secondary_message_skill :: "npc_prototype \<Rightarrow> u8 \<Rightarrow> npc_prototype" where
  "npc_proto_set_secondary_message_skill proto skill = proto\<lparr>np_secondaryMessageSkill := skill\<rparr>"

definition npc_proto_set_swings_per_round :: "npc_prototype \<Rightarrow> u8 \<Rightarrow> npc_prototype" where
  "npc_proto_set_swings_per_round proto swings = proto\<lparr>np_swingsPerRound := swings\<rparr>"

definition npc_proto_set_melee_damage :: "npc_prototype \<Rightarrow> u64 \<Rightarrow> u64 \<Rightarrow> npc_prototype" where
  "npc_proto_set_melee_damage proto minDmg maxDmg = proto\<lparr>np_minDamage := minDmg, np_maxDamage := maxDmg\<rparr>"

definition npc_proto_set_ac :: "npc_prototype \<Rightarrow> u32 \<Rightarrow> npc_prototype" where
  "npc_proto_set_ac proto ac = proto\<lparr>np_stats := (np_stats proto)\<lparr>st_AC := ucast ac\<rparr>\<rparr>"

definition npc_proto_set_str :: "npc_prototype \<Rightarrow> i32 \<Rightarrow> npc_prototype" where
  "npc_proto_set_str proto value = proto\<lparr>np_stats := (np_stats proto)\<lparr>st_STR := value\<rparr>\<rparr>"

definition npc_proto_set_sta :: "npc_prototype \<Rightarrow> i32 \<Rightarrow> npc_prototype" where
  "npc_proto_set_sta proto value = proto\<lparr>np_stats := (np_stats proto)\<lparr>st_STA := value\<rparr>\<rparr>"

definition npc_proto_set_dex :: "npc_prototype \<Rightarrow> i32 \<Rightarrow> npc_prototype" where
  "npc_proto_set_dex proto value = proto\<lparr>np_stats := (np_stats proto)\<lparr>st_DEX := value\<rparr>\<rparr>"

definition npc_proto_set_agi :: "npc_prototype \<Rightarrow> i32 \<Rightarrow> npc_prototype" where
  "npc_proto_set_agi proto value = proto\<lparr>np_stats := (np_stats proto)\<lparr>st_AGI := value\<rparr>\<rparr>"

definition npc_proto_set_wis :: "npc_prototype \<Rightarrow> i32 \<Rightarrow> npc_prototype" where
  "npc_proto_set_wis proto value = proto\<lparr>np_stats := (np_stats proto)\<lparr>st_WIS := value\<rparr>\<rparr>"

definition npc_proto_set_int :: "npc_prototype \<Rightarrow> i32 \<Rightarrow> npc_prototype" where
  "npc_proto_set_int proto value = proto\<lparr>np_stats := (np_stats proto)\<lparr>st_INT := value\<rparr>\<rparr>"

definition npc_proto_set_cha :: "npc_prototype \<Rightarrow> i32 \<Rightarrow> npc_prototype" where
  "npc_proto_set_cha proto value = proto\<lparr>np_stats := (np_stats proto)\<lparr>st_CHA := value\<rparr>\<rparr>"

definition npc_proto_set_sv_magic :: "npc_prototype \<Rightarrow> i32 \<Rightarrow> npc_prototype" where
  "npc_proto_set_sv_magic proto value = proto\<lparr>np_stats := (np_stats proto)\<lparr>st_svMagic := value\<rparr>\<rparr>"

definition npc_proto_set_sv_fire :: "npc_prototype \<Rightarrow> i32 \<Rightarrow> npc_prototype" where
  "npc_proto_set_sv_fire proto value = proto\<lparr>np_stats := (np_stats proto)\<lparr>st_svFire := value\<rparr>\<rparr>"

definition npc_proto_set_sv_cold :: "npc_prototype \<Rightarrow> i32 \<Rightarrow> npc_prototype" where
  "npc_proto_set_sv_cold proto value = proto\<lparr>np_stats := (np_stats proto)\<lparr>st_svCold := value\<rparr>\<rparr>"

definition npc_proto_set_sv_poison :: "npc_prototype \<Rightarrow> i32 \<Rightarrow> npc_prototype" where
  "npc_proto_set_sv_poison proto value = proto\<lparr>np_stats := (np_stats proto)\<lparr>st_svPoison := value\<rparr>\<rparr>"

definition npc_proto_set_sv_disease :: "npc_prototype \<Rightarrow> i32 \<Rightarrow> npc_prototype" where
  "npc_proto_set_sv_disease proto value = proto\<lparr>np_stats := (np_stats proto)\<lparr>st_svDisease := value\<rparr>\<rparr>"

definition npc_proto_get_adhoc_id :: "npc_prototype \<Rightarrow> u32" where
  "npc_proto_get_adhoc_id proto = np_adHocId proto"

definition npc_proto_get_level :: "npc_prototype \<Rightarrow> u8" where
  "npc_proto_get_level proto = np_level proto"

definition npc_proto_get_class :: "npc_prototype \<Rightarrow> u8" where
  "npc_proto_get_class proto = np_class proto"

definition npc_proto_get_race :: "npc_prototype \<Rightarrow> u16" where
  "npc_proto_get_race proto = np_race proto"

definition npc_proto_get_gender :: "npc_prototype \<Rightarrow> u8" where
  "npc_proto_get_gender proto = np_gender proto"

definition npc_proto_get_face :: "npc_prototype \<Rightarrow> u8" where
  "npc_proto_get_face proto = np_face proto"

definition npc_proto_get_body_type :: "npc_prototype \<Rightarrow> u8" where
  "npc_proto_get_body_type proto = np_bodyType proto"

definition npc_proto_get_texture :: "npc_prototype \<Rightarrow> u8" where
  "npc_proto_get_texture proto = np_texture proto"

definition npc_proto_get_helm_texture :: "npc_prototype \<Rightarrow> u8" where
  "npc_proto_get_helm_texture proto = np_helmTexture proto"

definition npc_proto_get_max_hp :: "npc_prototype \<Rightarrow> u64" where
  "npc_proto_get_max_hp proto = st_maxHp (np_stats proto)"

definition npc_proto_get_max_mana :: "npc_prototype \<Rightarrow> u64" where
  "npc_proto_get_max_mana proto = st_maxMana (np_stats proto)"

definition npc_proto_get_max_endurance :: "npc_prototype \<Rightarrow> u64" where
  "npc_proto_get_max_endurance proto = st_maxEndurance (np_stats proto)"

definition npc_proto_get_size :: "npc_prototype \<Rightarrow> u32" where
  "npc_proto_get_size proto = np_size proto"

definition npc_proto_get_running_speed :: "npc_prototype \<Rightarrow> u32" where
  "npc_proto_get_running_speed proto = np_runningSpeed proto"

definition npc_proto_get_walking_speed :: "npc_prototype \<Rightarrow> u32" where
  "npc_proto_get_walking_speed proto = np_walkingSpeed proto"

definition npc_proto_get_aggro_radius :: "npc_prototype \<Rightarrow> u32" where
  "npc_proto_get_aggro_radius proto = np_aggroRadius proto"

definition npc_proto_get_primary_model_id :: "npc_prototype \<Rightarrow> u32" where
  "npc_proto_get_primary_model_id proto = np_primaryModelId proto"

definition npc_proto_get_secondary_model_id :: "npc_prototype \<Rightarrow> u32" where
  "npc_proto_get_secondary_model_id proto = np_secondaryModelId proto"

definition npc_proto_get_primary_message_skill :: "npc_prototype \<Rightarrow> u8" where
  "npc_proto_get_primary_message_skill proto = np_primaryMessageSkill proto"

definition npc_proto_get_secondary_message_skill :: "npc_prototype \<Rightarrow> u8" where
  "npc_proto_get_secondary_message_skill proto = np_secondaryMessageSkill proto"

definition npc_proto_get_swings_per_round :: "npc_prototype \<Rightarrow> u8" where
  "npc_proto_get_swings_per_round proto = np_swingsPerRound proto"

definition npc_proto_get_min_damage :: "npc_prototype \<Rightarrow> u64" where
  "npc_proto_get_min_damage proto = np_minDamage proto"

definition npc_proto_get_max_damage :: "npc_prototype \<Rightarrow> u64" where
  "npc_proto_get_max_damage proto = np_maxDamage proto"

section \<open>Mobs\<close>

record mob =
  mb_mobType :: i32
  mb_entityId :: i32
  mb_zoneMobIndex :: i32
  mb_level :: u8
  mb_class :: u8
  mb_baseRace :: u16
  mb_currentRace :: u16
  mb_baseGender :: u8
  mb_currentGender :: u8
  mb_face :: u8
  mb_uprightState :: u8
  mb_lightLevel :: u8
  mb_texture :: u8
  mb_helmTexture :: u8
  mb_deity :: u16
  mb_x :: u32
  mb_y :: u32
  mb_z :: u32
  mb_heading :: u32
  mb_headingRaw :: u16
  mb_currentHp :: u64
  mb_currentMana :: u64
  mb_currentEndurance :: u64
  mb_currentStats :: stats
  mb_baseStats :: stats
  mb_currentWalkingSpeed :: u32
  mb_currentRunningSpeed :: u32
  mb_baseWalkingSpeed :: u32
  mb_baseRunningSpeed :: u32
  mb_currentSize :: u32
  mb_baseSize :: u32
  mb_bodyType :: u16
  mb_invisibilityLevel :: u16
  mb_seeInvisLevel :: u16
  mb_invisVsBodyTypeBitfields :: u32
  mb_ownerEntityId :: i32
  mb_primaryModelId :: u32
  mb_secondaryModelId :: u32
  mb_materials :: "u8 list"
  mb_tints :: "u32 list"
  mb_name :: "nat option"
  mb_clientFriendlyName :: "nat option"
  mb_zone :: "nat option"
  mb_zoneCluster :: "nat option"

text \<open>Memory after \<^verbatim>\<open>memset\<close>.\<close>

definition zero_mob :: mob where
  "zero_mob = \<lparr>
     mb_mobType = 0, mb_entityId = 0, mb_zoneMobIndex = 0, mb_level = 0, mb_class = 0, mb_baseRace = 0,
     mb_currentRace = 0, mb_baseGender = 0, mb_currentGender = 0, mb_face = 0, mb_uprightState = 0,
     mb_lightLevel = 0, mb_texture = 0, mb_helmTexture = 0, mb_deity = 0, mb_x = 0, mb_y = 0, mb_z = 0,
     mb_heading = 0, mb_headingRaw = 0, mb_currentHp = 0, mb_currentMana = 0, mb_currentEndurance = 0,
     mb_currentStats = zero_stats, mb_baseStats = zero_stats, mb_currentWalkingSpeed = 0,
     mb_currentRunningSpeed = 0, mb_baseWalkingSpeed = 0, mb_baseRunningSpeed = 0, mb_currentSize = 0,
     mb_baseSize = 0, mb_bodyType = 0, mb_invisibilityLevel = 0, mb_seeInvisLevel = 0,
     mb_invisVsBodyTypeBitfields = 0, mb_ownerEntityId = 0, mb_primaryModelId = 0, mb_secondaryModelId = 0,
     mb_materials = replicate 7 0, mb_tints = replicate 7 0, mb_name = None, mb_clientFriendlyName = None,
     mb_zone = None, mb_zoneCluster = None\<rparr>"

definition mob_init_npc ::
  "mob \<Rightarrow> nat \<Rightarrow> nat \<Rightarrow> npc_prototype \<Rightarrow> u32 \<Rightarrow> u32 \<Rightarrow> u32 \<Rightarrow> u32 \<Rightarrow> string_store \<Rightarrow> (mob \<times> string_store) result" where
  "mob_init_npc mob zc zone proto x y z heading st =
     (let base = npc_proto_get_stats proto;
          base = (if sint (st_maxHp base) \<le> 0 then base\<lparr>st_maxHp := 1\<rparr> else base);
          mob = mob\<lparr>mb_mobType := MobType_Npc, mb_zoneMobIndex := -1,
            mb_level := npc_proto_get_level proto, mb_class := npc_proto_get_class proto,
            mb_baseRace := npc_proto_get_race proto, mb_currentRace := npc_proto_get_race proto,
            mb_baseGender := npc_proto_get_gender proto, mb_currentGender := npc_proto_get_gender proto,
            mb_face := npc_proto_get_face proto, mb_uprightState := Trilogy_UprightState_Standing,
            mb_texture := npc_proto_get_texture proto, mb_helmTexture := npc_proto_get_helm_texture proto,
            mb_x := x, mb_y := y, mb_z := z, mb_heading := heading,
            mb_baseStats := base, mb_currentHp := st_maxHp base, mb_currentMana := st_maxMana base,
            mb_currentEndurance := st_maxEndurance base, mb_currentStats := base,
            mb_currentWalkingSpeed := npc_proto_get_walking_speed proto, mb_baseWalkingSpeed := npc_proto_get_walking_speed proto,
            mb_currentRunningSpeed := npc_proto_get_running_speed proto, mb_baseRunningSpeed := npc_proto_get_running_speed proto,
            mb_currentSize := npc_proto_get_size proto, mb_baseSize := npc_proto_get_size proto,
            mb_bodyType := ucast (npc_proto_get_body_type proto),
            mb_name := npc_proto_get_name proto, mb_clientFriendlyName := npc_proto_get_client_friendly_name proto,
            mb_zone := Some zone, mb_zoneCluster := Some zc\<rparr>
      in bindE (if_present grab_at st (mb_name mob)) (\<lambda>st.
         bindE (if_present grab_at st (mb_clientFriendlyName mob)) (\<lambda>st. Inr (mob, st))))"

text \<open>The name is that of the structure the master process sent, up to its terminator.\<close>

definition mob_init_client :: "heap \<Rightarrow> mob \<Rightarrow> nat \<Rightarrow> nat \<Rightarrow> bytes \<Rightarrow> string_store \<Rightarrow> (mob \<times> string_store) result" where
  "mob_init_client h mob zc zone characterName st =
     bindE (string_create_from_cstr h characterName (of_nat (length (takeWhile (\<lambda>c. c \<noteq> 0) characterName)))) (\<lambda>s.
     let (name, st) = new_string st s in
     Inr (mob\<lparr>mb_mobType := MobType_Client, mb_zoneMobIndex := -1, mb_uprightState := Trilogy_UprightState_Standing,
            mb_texture := 0xff, mb_helmTexture := 0xff,
            mb_currentStats := (mb_currentStats mob)\<lparr>st_maxHp := 100, st_maxMana := 100, st_maxEndurance := 100\<rparr>,
            mb_currentWalkingSpeed := float_0_46, mb_currentRunningSpeed := float_0_7,
            mb_baseWalkingSpeed := float_0_46, mb_baseRunningSpeed := float_0_7,
            mb_currentSize := float_4, mb_baseSize := float_4, mb_bodyType := BodyType_Humanoid,
            mb_name := Some name, mb_zone := Some zone, mb_zoneCluster := Some zc\<rparr>, st))"

definition mob_deinit :: "mob \<Rightarrow> string_store \<Rightarrow> (mob \<times> string_store) result" where
  "mob_deinit mob st =
     bindE (if_present drop_at st (mb_name mob)) (\<lambda>st.
     bindE (if_present drop_at st (mb_clientFriendlyName mob)) (\<lambda>st.
     Inr (mob\<lparr>mb_name := None, mb_clientFriendlyName := None\<rparr>, st)))"

definition mob_name_cstr :: "mob \<Rightarrow> string_store \<Rightarrow> bytes result" where
  "mob_name_cstr mob st =
     (case mb_name mob of Some a \<Rightarrow> bindE (string_at st a) (\<lambda>s. Inr (str_data s)) | None \<Rightarrow> Inr [0])"

definition mob_client_friendly_name_cstr :: "mob \<Rightarrow> string_store \<Rightarrow> bytes result" where
  "mob_client_friendly_name_cstr mob st =
     (case mb_clientFriendlyName mob of Some a \<Rightarrow> bindE (string_at st a) (\<lambda>s. Inr (str_data s)) | None \<Rightarrow> mob_name_cstr mob st)"

text \<open>The product is computed in 64 bits and must fit them; the quotient is cut to eight bits.\<close>

definition mob_hp_ratio :: "mob \<Rightarrow> u8 result" where
  "mob_hp_ratio mob =
     (let p = sint (mb_currentHp mob) * 100; d = sint (st_maxHp (mb_currentStats mob)) in
      if p < -(2 ^ 63) \<or> 2 ^ 63 \<le> p \<or> d = 0 \<or> (p = -(2 ^ 63) \<and> d = -1) then Inl UndefinedBehaviour
      else Inr (word_of_int (p sdiv d)))"

definition mob_is_invisible :: "mob \<Rightarrow> bool" where
  "mob_is_invisible mob = bit (mb_invisVsBodyTypeBitfields mob) (unat (BodyType_Humanoid - 1))"

definition mob_is_invisible_vs_undead :: "mob \<Rightarrow> bool" where
  "mob_is_invisible_vs_undead mob = bit (mb_invisVsBodyTypeBitfields mob) (unat (BodyType_Undead - 1))"

definition mob_is_invisible_vs_animals :: "mob \<Rightarrow> bool" where
  "mob_is_invisible_vs_animals mob = bit (mb_invisVsBodyTypeBitfields mob) (unat (BodyType_Animal - 1))"

definition mob_entity_id :: "mob \<Rightarrow> i32" where
  "mob_entity_id mob = mb_entityId mob"

definition mob_get_type :: "mob \<Rightarrow> i32" where
  "mob_get_type mob = mb_mobType mob"

definition mob_level :: "mob \<Rightarrow> u8" where
  "mob_level mob = mb_level mob"

definition mob_class :: "mob \<Rightarrow> u8" where
  "mob_class mob = mb_class mob"

definition mob_base_race :: "mob \<Rightarrow> u16" where
  "mob_base_race mob = mb_baseRace mob"

definition mob_current_race :: "mob \<Rightarrow> u16" where
  "mob_current_race mob = mb_currentRace mob"

definition mob_base_gender :: "mob \<Rightarrow> u8" where
  "mob_base_gender mob = mb_baseGender mob"

definition mob_current_gender :: "mob \<Rightarrow> u8" where
  "mob_current_gender mob = mb_currentGender mob"

definition mob_face :: "mob \<Rightarrow> u8" where
  "mob_face mob = mb_face mob"

definition mob_deity :: "mob \<Rightarrow> u16" where
  "mob_deity mob = mb_deity mob"

definition mob_x :: "mob \<Rightarrow> u32" where
  "mob_x mob = mb_x mob"

definition mob_y :: "mob \<Rightarrow> u32" where
  "mob_y mob = mb_y mob"

definition mob_z :: "mob \<Rightarrow> u32" where
  "mob_z mob = mb_z mob"

definition mob_heading :: "mob \<Rightarrow> u32" where
  "mob_heading mob = mb_heading mob"

definition mob_current_hp :: "mob \<Rightarrow> u64" where
  "mob_current_hp mob = mb_currentHp mob"

definition mob_max_hp :: "mob \<Rightarrow> u64" where
  "mob_max_hp mob = st_maxHp (mb_currentStats mob)"

definition mob_current_mana :: "mob \<Rightarrow> u64" where
  "mob_current_mana mob = mb_currentMana mob"

definition mob_max_mana :: "mob \<Rightarrow> u64" where
  "mob_max_mana mob = st_maxMana (mb_currentStats mob)"

definition mob_current_endurance :: "mob \<Rightarrow> u64" where
  "mob_current_endurance mob = mb_currentEndurance mob"

definition mob_max_endurance :: "mob \<Rightarrow> u64" where
  "mob_max_endurance mob = st_maxEndurance (mb_currentStats mob)"

definition mob_cur_str :: "mob \<Rightarrow> i32" where
  "mob_cur_str mob = st_STR (mb_currentStats mob)"

definition mob_base_str :: "mob \<Rightarrow> i32" where
  "mob_base_str mob = st_STR (mb_baseStats mob)"

definition mob_set_base_str :: "mob \<Rightarrow> i32 \<Rightarrow> mob" where
  "mob_set_base_str mob value = mob\<lparr>mb_baseStats := (mb_baseStats mob)\<lparr>st_STR := value\<rparr>\<rparr>"

definition mob_cur_sta :: "mob \<Rightarrow> i32" where
  "mob_cur_sta mob = st_STA (mb_currentStats mob)"

definition mob_base_sta :: "mob \<Rightarrow> i32" where
  "mob_base_sta mob = st_STA (mb_baseStats mob)"

definition mob_set_base_sta :: "mob \<Rightarrow> i32 \<Rightarrow> mob" where
  "mob_set_base_sta mob value = mob\<lparr>mb_baseStats := (mb_baseStats mob)\<lparr>st_STA := value\<rparr>\<rparr>"

definition mob_cur_dex :: "mob \<Rightarrow> i32" where
  "mob_cur_dex mob = st_DEX (mb_currentStats mob)"

definition mob_base_dex :: "mob \<Rightarrow> i32" where
  "mob_base_dex mob = st_DEX (mb_baseStats mob)"

definition mob_set_base_dex :: "mob \<Rightarrow> i32 \<Rightarrow> mob" where
  "mob_set_base_dex mob value = mob\<lparr>mb_baseStats := (mb_baseStats mob)\<lparr>st_DEX := value\<rparr>\<rparr>"

definition mob_cur_agi :: "mob \<Rightarrow> i32" where
  "mob_cur_agi mob = st_AGI (mb_currentStats mob)"

definition mob_base_agi :: "mob \<Rightarrow> i32" where
  "mob_base_agi mob = st_AGI (mb_baseStats mob)"

definition mob_set_base_agi :: "mob \<Rightarrow> i32 \<Rightarrow> mob" where
  "mob_set_base_agi mob value = mob\<lparr>mb_baseStats := (mb_baseStats mob)\<lparr>st_AGI := value\<rparr>\<rparr>"

definition mob_cur_int :: "mob \<Rightarrow> i32" where
  "mob_cur_int mob = st_INT (mb_currentStats mob)"

definition mob_base_int :: "mob \<Rightarrow> i32" where
  "mob_base_int mob = st_INT (mb_baseStats mob)"

definition mob_set_base_int :: "mob \<Rightarrow> i32 \<Rightarrow> mob" where
  "mob_set_base_int mob value = mob\<lparr>mb_baseStats := (mb_baseStats mob)\<lparr>st_INT := value\<rparr>\<rparr>"

definition mob_cur_wis :: "mob \<Rightarrow> i32" where
  "mob_cur_wis mob = st_WIS (mb_currentStats mob)"

definition mob_base_wis :: "mob \<Rightarrow> i32" where
  "mob_base_wis mob = st_WIS (mb_baseStats mob)"

definition mob_set_base_wis :: "mob \<Rightarrow> i32 \<Rightarrow> mob" where
  "mob_set_base_wis mob value = mob\<lparr>mb_baseStats := (mb_baseStats mob)\<lparr>st_WIS := value\<rparr>\<rparr>"

definition mob_cur_cha :: "mob \<Rightarrow> i32" where
  "mob_cur_cha mob = st_CHA (mb_currentStats mob)"

definition mob_base_cha :: "mob \<Rightarrow> i32" where
  "mob_base_cha mob = st_CHA (mb_baseStats mob)"

definition mob_set_base_cha :: "mob \<Rightarrow> i32 \<Rightarrow> mob" where
  "mob_set_base_cha mob value = mob\<lparr>mb_baseStats := (mb_baseStats mob)\<lparr>st_CHA := value\<rparr>\<rparr>"

definition mob_current_walking_speed :: "mob \<Rightarrow> u32" where
  "mob_current_walking_speed mob = mb_currentWalkingSpeed mob"

definition mob_base_walking_speed :: "mob \<Rightarrow> u32" where
  "mob_base_walking_speed mob = mb_baseWalkingSpeed mob"

definition mob_set_base_walking_speed :: "mob \<Rightarrow> u32 \<Rightarrow> mob" where
  "mob_set_base_walking_speed mob value = mob\<lparr>mb_currentWalkingSpeed := value, mb_baseWalkingSpeed := value\<rparr>"

definition mob_current_running_speed :: "mob \<Rightarrow> u32" where
  "mob_current_running_speed mob = mb_currentRunningSpeed mob"

definition mob_base_running_speed :: "mob \<Rightarrow> u32" where
  "mob_base_running_speed mob = mb_baseRunningSpeed mob"

definition mob_set_base_running_speed :: "mob \<Rightarrow> u32 \<Rightarrow> mob" where
  "mob_set_base_running_speed mob value = mob\<lparr>mb_currentRunningSpeed := value, mb_baseRunningSpeed := value\<rparr>"

definition mob_current_size :: "mob \<Rightarrow> u32" where
  "mob_current_size mob = mb_currentSize mob"

definition mob_base_size :: "mob \<Rightarrow> u32" where
  "mob_base_size mob = mb_baseSize mob"

definition mob_body_type :: "mob \<Rightarrow> u16" where
  "mob_body_type mob = mb_bodyType mob"

definition mob_upright_state :: "mob \<Rightarrow> u8" where
  "mob_upright_state mob = mb_uprightState mob"

definition mob_light_level :: "mob \<Rightarrow> u8" where
  "mob_light_level mob = mb_lightLevel mob"

definition mob_texture :: "mob \<Rightarrow> u8" where
  "mob_texture mob = mb_texture mob"

definition mob_helm_texture :: "mob \<Rightarrow> u8" where
  "mob_helm_texture mob = mb_helmTexture mob"

definition mob_is_invisible_to_mob :: "mob \<Rightarrow> mob \<Rightarrow> bool" where
  "mob_is_invisible_to_mob self target =
     (let bodyType = mob_body_type target;
          isInvis = (if bodyType = 0 \<or> bodyType \<ge> 32 then mob_is_invisible self
                     else bit (mb_invisVsBodyTypeBitfields self) (unat (bodyType - 1)))
      in isInvis \<and> mb_invisibilityLevel self > mb_seeInvisLevel target)"

section \<open>Characters\<close>

record npc =
  npc_mob :: mob
  npc_adhocId :: u32

definition sizeof_Npc :: nat where "sizeof_Npc = 368"

definition npc_create ::
  "heap \<Rightarrow> nat \<Rightarrow> nat \<Rightarrow> npc_prototype \<Rightarrow> u32 \<Rightarrow> u32 \<Rightarrow> u32 \<Rightarrow> u32 \<Rightarrow> string_store \<Rightarrow> (npc \<times> string_store) result" where
  "npc_create h zc zone proto x y z heading st =
     (if can_alloc h sizeof_Npc
      then bindE (mob_init_npc zero_mob zc zone proto x y z heading st) (\<lambda>(mob, st).
           Inr (\<lparr>npc_mob = mob, npc_adhocId = 0\<rparr>, st))
      else Inl ErrorOutOfMemory)"

definition npc_destroy :: "npc \<Rightarrow> string_store \<Rightarrow> string_store result" where
  "npc_destroy npc st = bindE (mob_deinit (npc_mob npc) st) (\<lambda>(mob, st). Inr st)"

definition npc_adhoc_id :: "npc \<Rightarrow> u32" where
  "npc_adhoc_id npc = npc_adhocId npc"

section \<open>The health bar\<close>

lemma sdiv_bounds: "0 \<le> (a :: int) \<Longrightarrow> a \<le> b \<Longrightarrow> 0 < b \<Longrightarrow> 0 \<le> (a * 100) sdiv b \<and> (a * 100) sdiv b \<le> 100"
proof -
  assume h: "0 \<le> a" "a \<le> b" "0 < b"
  then have e: "(a * 100) sdiv b = a * 100 div b" by (simp add: signed_divide_int_def sgn_mult sgn_if)
  moreover have "a * 100 div b \<le> b * 100 div b" using h by (intro zdiv_mono1) auto
  ultimately show ?thesis using h by (simp add: pos_imp_zdiv_nonneg_iff)
qed

end
