(* ===== verification/Hash_Table_Growth.thy ===== *)
theory Hash_Table_Growth
  imports Hash_Table_Correct Vec
begin

text \<open>
  How large a hash table gets that is only ever added to: its capacity stays within twice the
  number of its keys, so that a table of some hundred names can be built without a failure. The
  slots of such a table that have no key were never used.
\<close>

section \<open>Slots that were never used\<close>

definition unused_ok :: "entry \<Rightarrow> bool" where
  "unused_ok e \<longleftrightarrow> (ent_key e = None \<longrightarrow> ent_hash e = 0)"

definition pristine :: "entry list \<Rightarrow> bool" where
  "pristine es \<longleftrightarrow> (\<forall>e \<in> set es. unused_ok e)"

lemma pristine_at: "ent_at es i = Inr e \<Longrightarrow> pristine es \<Longrightarrow> unused_ok e"
  by (auto simp: ent_at_def pristine_def split: if_splits)

lemma pristine_set: "ent_set es i e = Inr es' \<Longrightarrow> pristine es \<Longrightarrow> unused_ok e \<Longrightarrow> pristine es'"
  using set_update_subset_insert [of es "unat i" e] by (auto simp: ent_set_def pristine_def split: if_splits)

lemma unused_ok_simps [simp]:
  "unused_ok (e\<lparr>ent_next := n\<rparr>) = unused_ok e" "unused_ok (fresh_entry sz)"
  "unused_ok (hash_table_entry_copy e old) = unused_ok old"
  by (simp_all add: unused_ok_def fresh_entry_def hash_table_entry_copy_def)

lemma do_insert_unused: "hash_table_do_insert h e key len v hash sz = Inr e' \<Longrightarrow> unused_ok e'"
  by (auto simp: hash_table_do_insert_def result_simps unused_ok_def)

lemma advance_free_entries: "hash_table_advance_free_index tbl = Inr tbl' \<Longrightarrow>
    ht_entries tbl' = ht_entries tbl \<and> ht_capacity tbl' = ht_capacity tbl"
  by (auto simp: hash_table_advance_free_index_def result_simps)

text \<open>A condition on what a computation returns, if it returns something.\<close>

definition gives :: "('a \<Rightarrow> bool) \<Rightarrow> 'a result \<Rightarrow> bool" where
  "gives P r \<longleftrightarrow> (\<forall>x. r = Inr x \<longrightarrow> P x)"

lemma gives_Inr [simp]: "gives P (Inr x) = P x"
  by (simp add: gives_def)

lemma gives_any: "(\<And>x. gives P (f x)) \<Longrightarrow> gives P (bindE r f)"
  by (cases r) (auto simp: gives_def)

lemma gives_if: "(b \<Longrightarrow> gives P r) \<Longrightarrow> (\<not> b \<Longrightarrow> gives P s) \<Longrightarrow> gives P (if b then r else s)"
  by simp

lemma gives_at: "pristine es \<Longrightarrow> (\<And>e. unused_ok e \<Longrightarrow> gives P (f e)) \<Longrightarrow> gives P (bindE (ent_at es i) f)"
  using pristine_at [of es i] by (cases "ent_at es i") (auto simp: gives_def)

lemma gives_set: "pristine es \<Longrightarrow> unused_ok e \<Longrightarrow> (\<And>es'. pristine es' \<Longrightarrow> gives P (f es')) \<Longrightarrow>
    gives P (bindE (ent_set es i e) f)"
  using pristine_set [of es i e] by (cases "ent_set es i e") (auto simp: gives_def)

lemma gives_advance:
  assumes f: "\<And>t. ht_entries t = ht_entries tbl \<Longrightarrow> ht_capacity t = ht_capacity tbl \<Longrightarrow> gives P (f t)"
  shows "gives P (bindE (hash_table_advance_free_index tbl) f)"
proof (cases "hash_table_advance_free_index tbl")
  case (Inr t)
  then have "gives P (f t)" using advance_free_entries [OF Inr] by (intro f) (elim conjE, assumption)+
  then show ?thesis by (simp add: Inr)
qed (simp add: gives_def)

lemma gives_advance_if:
  assumes f: "\<And>t. ht_entries t = ht_entries tbl \<Longrightarrow> ht_capacity t = ht_capacity tbl \<Longrightarrow> gives P (f t)"
  shows "gives P (bindE (if b then hash_table_advance_free_index tbl else Inr tbl) f)"
proof (cases b)
  case True
  show ?thesis unfolding if_P [OF True] by (rule gives_advance [OF f])
next
  case False
  show ?thesis unfolding if_not_P [OF False] bindE.simps by (rule f) (rule refl)+
qed

lemma gives_insert: "(\<And>e'. unused_ok e' \<Longrightarrow> gives P (f e')) \<Longrightarrow>
    gives P (bindE (hash_table_do_insert h e key len v hash sz) f)"
  using do_insert_unused [of h e key len v hash sz]
  by (cases "hash_table_do_insert h e key len v hash sz") (auto simp: gives_def)

lemma gives_walk: "(\<And>p i. gives P (f p i)) \<Longrightarrow> (\<And>l. gives P (g l)) \<Longrightarrow> gives P (case w of Found p i \<Rightarrow> f p i | End l \<Rightarrow> g l)"
  by (cases w) simp_all

lemmas gives_rules = gives_at gives_set gives_advance_if gives_advance gives_insert gives_if gives_walk gives_any

lemma realloc_move_pristine:
  assumes "pristine es" "unused_ok old"
  shows "gives (\<lambda>(es', f'). pristine es') (realloc_move c es f old)"
  unfolding realloc_move_def Let_def using assms by (intro gives_rules) simp_all

lemma realloc_loop_pristine:
  "pristine es \<Longrightarrow> \<forall>e \<in> set olds. unused_ok e \<Longrightarrow> gives (\<lambda>(es', f'). pristine es') (realloc_loop c es f olds)"
proof (induction olds arbitrary: es f)
  case (Cons old olds)
  then have "gives (\<lambda>(es', f'). pristine es') (realloc_move c es f old)" by (intro realloc_move_pristine) auto
  then show ?case using Cons by (cases "realloc_move c es f old") (auto simp: gives_def)
qed simp

lemma realloc_pristine:
  assumes "hash_table_realloc h tbl = Inr tbl'" "pristine (ht_entries tbl)"
  shows "pristine (ht_entries tbl')"
proof -
  let ?new = "replicate (unat (ht_capacity tbl * 2)) (fresh_entry (ht_elemSize tbl))"
  have "pristine ?new" by (simp add: pristine_def)
  then have "gives (\<lambda>(es', f'). pristine es') (realloc_loop (ht_capacity tbl * 2 - 1) ?new 0 (ht_entries tbl))"
    using assms(2) by (intro realloc_loop_pristine) (auto simp: pristine_def)
  then show ?thesis using assms(1)
    by (auto simp: hash_table_realloc_def Let_def result_simps gives_def split: if_splits prod.splits)
qed

lemma do_set_step_pristine:
  assumes "pristine (ht_entries tbl)"
  shows "gives (\<lambda>r. \<forall>tbl' b. r = Some (tbl', b) \<longrightarrow> pristine (ht_entries tbl') \<and> ht_capacity tbl' = ht_capacity tbl)
    (do_set_step h tbl key len v hash)"
  unfolding do_set_step_def Let_def using assms by (intro gives_rules) simp_all

lemma do_set_step_None: "gives (\<lambda>r. r = None \<longrightarrow> ht_freeIndex tbl = FREE_INDEX_INVALID) (do_set_step h tbl key len v hash)"
  by (auto simp: gives_def do_set_step_def Let_def result_simps split: if_splits walk.splits; meson walk.exhaust)

lemma set_grows:
  assumes "hash_table_set_by_cstr h tbl key len v = Inr (tbl', b)" "pristine (ht_entries tbl)"
  shows "pristine (ht_entries tbl') \<and> (ht_capacity tbl' = ht_capacity tbl \<or>
      ht_freeIndex tbl = FREE_INDEX_INVALID \<and> ht_capacity tbl' = ht_capacity tbl * 2)"
proof -
  obtain hash where set: "hash_table_do_set (Suc (Suc 0)) h tbl key len v hash = Inr (tbl', b)"
    using assms(1) by (auto simp: hash_table_set_by_cstr_def result_simps numeral_2_eq_2)
  obtain r where r: "do_set_step h tbl key len v hash = Inr r"
    using set by (cases "do_set_step h tbl key len v hash") auto
  show ?thesis
  proof (cases r)
    case (Some x)
    then show ?thesis using set r do_set_step_pristine [OF assms(2), of h key len v hash] by (simp add: gives_def)
  next
    case None
    then have full: "ht_freeIndex tbl = FREE_INDEX_INVALID" using do_set_step_None [of tbl h key len v hash] r by (simp add: gives_def)
    obtain t where t: "hash_table_realloc h tbl = Inr t" using set r None by (cases "hash_table_realloc h tbl") auto
    have cap: "ht_capacity t = ht_capacity tbl * 2"
      using t by (auto simp: hash_table_realloc_def Let_def result_simps split: if_splits)
    have "do_set_step h t key len v hash = Inr (Some (tbl', b))"
      using set r None t by (auto simp: result_simps split: option.splits)
    then show ?thesis using do_set_step_pristine [OF realloc_pristine [OF t assms(2)], of h key len v hash] cap full
      by (simp add: gives_def)
  qed
qed

section \<open>The capacity\<close>

text \<open>With no free slot every slot has a key, the first one possibly excepted.\<close>

lemma pairs_full:
  assumes "holes_ok c es FREE_INDEX_INVALID" "pristine es"
  shows "length es \<le> Suc (length (pairs es))"
proof -
  have used: "ent_key (es ! i) \<noteq> None" if "i < length es" "i \<noteq> 0" for i
  proof
    assume "ent_key (es ! i) = None"
    then have "home c (es ! i) = i" "ent_hash (es ! i) = 0"
      using assms that by (auto simp: holes_ok_def pristine_def unused_ok_def)
    then show False using that(2) by (simp add: home_def)
  qed
  show ?thesis
  proof (cases es)
    case (Cons e es')
    have "\<forall>x \<in> set es'. kv x \<noteq> None"
    proof
      fix x assume "x \<in> set es'"
      then obtain j where "j < length es'" "x = es' ! j" by (auto simp: in_set_conv_nth)
      then show "kv x \<noteq> None" using used [of "Suc j"] Cons by (simp add: kv_None)
    qed
    then have "length (List.map_filter kv es') = length es'" by (induction es') (auto simp: List.map_filter_def)
    then show ?thesis using Cons by (simp add: pairs_def List.map_filter_def)
  qed simp
qed

definition key_count :: "table \<Rightarrow> nat" where
  "key_count tbl = length (pairs (ht_entries tbl))"

lemma key_count_card: "table_inv tbl \<Longrightarrow> key_count tbl = card (dom (ht_contents tbl))"
proof -
  assume "table_inv tbl"
  then have "distinct (map fst (pairs (ht_entries tbl)))" by (simp add: table_inv_def es_inv_def)
  then show ?thesis using distinct_card [of "map fst (pairs (ht_entries tbl))"]
    by (simp add: key_count_def ht_contents_def dom_map_of_conv_image_fst)
qed

definition growing :: "table \<Rightarrow> bool" where
  "growing tbl \<longleftrightarrow> table_inv tbl \<and> pristine (ht_entries tbl) \<and>
     unat (ht_capacity tbl) \<le> 2 * Suc (card (dom (ht_contents tbl)))"

lemma growing_create:
  assumes "hash_table_create h sz = Inr tbl"
  shows "growing tbl"
proof -
  have "ht_capacity tbl = 2" "ht_entries tbl = replicate 2 (fresh_entry sz)"
    using assms by (auto simp: hash_table_create_def Let_def DEFAULT_CAPACITY_def split: if_splits)
  then show ?thesis using create_spec [OF assms] by (simp add: growing_def pristine_def)
qed

lemma growing_full:
  assumes "growing tbl" "ht_freeIndex tbl = FREE_INDEX_INVALID"
  shows "unat (ht_capacity tbl) \<le> Suc (card (dom (ht_contents tbl)))"
proof -
  have "holes_ok (ht_capacity tbl - 1) (ht_entries tbl) FREE_INDEX_INVALID" "length (ht_entries tbl) = unat (ht_capacity tbl)"
    using assms by (auto simp: growing_def table_inv_def es_inv_def)
  then show ?thesis
    using pairs_full [of "ht_capacity tbl - 1" "ht_entries tbl"] assms(1) key_count_card [of tbl]
    by (simp add: growing_def key_count_def)
qed

lemma growing_set:
  assumes g: "growing tbl" and k: "0 \<notin> set k" "length k < 2 ^ 31" and h: "ample h"
    and v: "length v = unat (ht_elemSize tbl)" and small: "Suc (card (dom (ht_contents tbl))) \<le> 2 ^ 29"
  shows "\<exists>tbl' b. hash_table_set_by_cstr h tbl (k @ 0 # r) (of_nat (length k)) v = Inr (tbl', b) \<and> growing tbl' \<and>
    ht_elemSize tbl' = ht_elemSize tbl \<and>
    ht_contents tbl' = (if ht_contents tbl k = None then (ht_contents tbl)(k \<mapsto> v) else ht_contents tbl)"
proof -
  have inv: "table_inv tbl" and cap: "unat (ht_capacity tbl) \<le> 2 * Suc (card (dom (ht_contents tbl)))"
    and pr: "pristine (ht_entries tbl)" using g by (auto simp: growing_def)
  have al: "alloc_ok h k" using k(2) h by (simp add: alloc_ok_def ample_def)
  have gr: "grow_ok h tbl" using cap small h by (simp add: grow_ok_def ample_def)
  from set_spec [OF inv k(1) al _ gr, of v r] v obtain tbl' b where
    t: "hash_table_set_by_cstr h tbl (k @ 0 # r) (of_nat (length k)) v = Inr (tbl', b)" "set_done tbl k v tbl' b" by auto
  have two: "2 = Suc (Suc 0)" by simp
  have fin: "finite (dom (ht_contents tbl))" by (simp add: ht_contents_def finite_dom_map_of)
  have mono: "card (dom (ht_contents tbl)) \<le> card (dom (ht_contents tbl'))"
    using t(2) fin by (auto simp: set_done_def card_insert_if)
  note gs = set_grows [OF t(1) pr]
  have "unat (ht_capacity tbl') \<le> 2 * Suc (card (dom (ht_contents tbl')))"
    using gs
  proof (elim conjE disjE)
    assume full: "ht_freeIndex tbl = FREE_INDEX_INVALID" and c: "ht_capacity tbl' = ht_capacity tbl * 2"
    have "unat (ht_capacity tbl * 2) \<le> unat (ht_capacity tbl) * 2" by (simp add: unat_word_ariths)
    then show ?thesis using growing_full [OF g full] mono c by simp
  qed (use cap mono in simp)
  then show ?thesis using t gs by (auto simp: growing_def set_done_def)
qed

text \<open>Adding keys one after the other, with room for all of them.\<close>

primrec set_all :: "heap \<Rightarrow> (bytes \<times> bytes) list \<Rightarrow> table \<Rightarrow> table result" where
  "set_all h [] tbl = Inr tbl"
| "set_all h (x # xs) tbl =
     bindE (hash_table_set_by_cstr h tbl (fst x @ [0]) (of_nat (length (fst x))) (snd x)) (\<lambda>(tbl, _). set_all h xs tbl)"

lemma set_all_spec:
  "growing tbl \<Longrightarrow> ample h \<Longrightarrow> \<forall>x \<in> set xs. 0 \<notin> set (fst x) \<and> length (fst x) < 2 ^ 31 \<and> length (snd x) = unat (ht_elemSize tbl) \<Longrightarrow>
   card (dom (ht_contents tbl)) + length xs \<le> 2 ^ 28 \<Longrightarrow>
   \<exists>tbl'. set_all h xs tbl = Inr tbl' \<and> growing tbl' \<and> ht_contents tbl' = map_of xs ++ ht_contents tbl"
proof (induction xs arbitrary: tbl)
  case (Cons x xs)
  have "Suc (card (dom (ht_contents tbl))) \<le> 2 ^ 29" using Cons.prems(4) by simp
  from growing_set [OF Cons.prems(1) _ _ Cons.prems(2) _ this, of "fst x" "snd x" "[]"] Cons.prems(3)
  obtain tbl' b where t: "hash_table_set_by_cstr h tbl (fst x @ [0]) (of_nat (length (fst x))) (snd x) = Inr (tbl', b)"
    "growing tbl'" "ht_elemSize tbl' = ht_elemSize tbl"
    "ht_contents tbl' = (if ht_contents tbl (fst x) = None then (ht_contents tbl)(fst x \<mapsto> snd x) else ht_contents tbl)"
    by auto
  have "finite (dom (ht_contents tbl))" by (simp add: ht_contents_def finite_dom_map_of)
  then have "card (dom (ht_contents tbl')) \<le> Suc (card (dom (ht_contents tbl)))" using t(4) by (simp add: card_insert_if)
  then obtain tbl'' where u: "set_all h xs tbl' = Inr tbl''" "growing tbl''" "ht_contents tbl'' = map_of xs ++ ht_contents tbl'"
    using Cons.IH [OF t(2) Cons.prems(2)] Cons.prems(3,4) t(3) by auto
  have "map_of xs ++ ht_contents tbl' = map_of (x # xs) ++ ht_contents tbl"
    using t(4) by (auto simp: fun_eq_iff map_add_def split: option.splits)
  then have "ht_contents tbl'' = map_of (x # xs) ++ ht_contents tbl" unfolding u(3) .
  moreover have "set_all h (x # xs) tbl = Inr tbl''" using t(1) u(1) by simp
  ultimately show ?case using u(2) by blast
qed simp

end
