(* ===== verification/Zone_Id.thy ===== *)
theory Zone_Id
  imports Hash_Table_Growth Aligned "HOL-Library.Tree"
begin

text \<open>
  \<^verbatim>\<open>common/zone_id.c\<close>: the names of the zones. The map from short names to numbers is a
  hash table filled when a process starts; the names of a number are two \<^verbatim>\<open>switch\<close>
  statements, whose \<^verbatim>\<open>default\<close> is the case of zone 1. A table below lists the calls or the
  cases of one of the three, in their order.
\<close>

section \<open>The tables\<close>

definition zone_adds_1 :: "(int \<times> string) list" where
  "zone_adds_1 =
    [(1, ''qeynos''), (2, ''qeynos2''), (3, ''qrg''), (4, ''qeytoqrg''), (5, ''highpass''), (6, ''highkeep''),
     (8, ''freportn''), (9, ''freportw''), (10, ''freporte''), (11, ''runnyeye''), (12, ''qey2hh1''),
     (13, ''northkarana''), (14, ''southkarana''), (15, ''eastkarana''), (16, ''beholder''),
     (17, ''blackburrow''), (18, ''paw''), (19, ''rivervale''), (20, ''kithicor''), (21, ''commons''),
     (22, ''ecommons''), (23, ''erudnint''), (24, ''erudnext''), (25, ''nektulos''), (25, ''nektulos''),
     (26, ''cshome''), (27, ''lavastorm''), (28, ''nektropos''), (29, ''halas''), (30, ''everfrost''),
     (31, ''soldunga''), (32, ''soldungb''), (33, ''misty''), (34, ''nro''), (35, ''sro''), (36, ''befallen''),
     (37, ''oasis''), (38, ''tox''), (39, ''hole''), (40, ''neriaka''), (41, ''neriakb''), (42, ''neriakc''),
     (43, ''neriakd''), (44, ''najena''), (45, ''qcat''), (46, ''innothule''), (47, ''feerrott''),
     (48, ''cazicthule''), (49, ''oggok''), (50, ''rathemtn''), (51, ''lakerathe''), (52, ''grobb''),
     (53, ''aviak''), (54, ''gfaydark''), (55, ''akanon''), (56, ''steamfont''), (57, ''lfaydark''),
     (58, ''crushbone''), (59, ''mistmoore''), (60, ''kaladima''), (61, ''felwithea''), (62, ''felwitheb''),
     (63, ''unrest''), (64, ''kedge''), (65, ''guktop''), (66, ''gukbottom''), (67, ''kaladimb''),
     (68, ''butcher''), (69, ''oot''), (70, ''cauldron''), (71, ''airplane''), (72, ''fearplane''),
     (73, ''permafrost''), (74, ''kerraridge''), (75, ''paineel''), (76, ''hateplane''), (77, ''arena''),
     (78, ''fieldofbone''), (79, ''warslikswood''), (80, ''soltemple''), (81, ''droga''), (82, ''cabwest''),
     (83, ''swampofnohope''), (84, ''firiona''), (85, ''lakeofillomen''), (86, ''dreadlands''),
     (87, ''burningwood''), (88, ''kaesora''), (89, ''sebilis''), (90, ''citymist''), (91, ''skyfire''),
     (92, ''frontiermtns''), (93, ''overthere''), (94, ''emeraldjungle''), (95, ''trakanon''),
     (96, ''timorous''), (97, ''kurn''), (98, ''erudsxing''), (100, ''stonebrunt''), (101, ''warrens''),
     (102, ''karnor''), (103, ''chardok''), (104, ''dalnir''), (105, ''charasis''), (106, ''cabeast''),
     (107, ''nurga''), (108, ''veeshan''), (109, ''veksar''), (110, ''iceclad''), (111, ''frozenshadow''),
     (112, ''velketor''), (113, ''kael''), (114, ''skyshrine''), (115, ''thurgadina''), (116, ''eastwastes''),
     (117, ''cobaltscar''), (118, ''greatdivide''), (119, ''wakening''), (120, ''westwastes''),
     (121, ''crystal''), (123, ''necropolis''), (124, ''templeveeshan''), (125, ''sirens''),
     (126, ''mischiefplane''), (127, ''growthplane''), (128, ''sleeper''), (129, ''thurgadinb''),
     (130, ''erudsxing2''), (150, ''shadowhaven''), (151, ''bazaar''), (151, ''bazaar''), (152, ''nexus''),
     (153, ''echo''), (154, ''acrylia''), (155, ''sharvahl''), (156, ''paludal''), (157, ''fungusgrove''),
     (158, ''vexthal''), (159, ''sseru''), (160, ''katta'')]"

definition zone_adds_2 :: "(int \<times> string) list" where
  "zone_adds_2 =
    [(161, ''netherbian''), (162, ''ssratemple''), (163, ''griegsend''), (164, ''thedeep''),
     (165, ''shadeweaver''), (166, ''hollowshade''), (167, ''grimling''), (168, ''mseru''), (169, ''letalis''),
     (170, ''twilight''), (171, ''thegrey''), (172, ''tenebrous''), (173, ''maiden''), (174, ''dawnshroud''),
     (175, ''scarlet''), (176, ''umbral''), (179, ''akheva''), (180, ''arena2''), (181, ''jaggedpine''),
     (182, ''nedaria''), (183, ''tutorial''), (184, ''load''), (185, ''load2''), (186, ''hateplaneb''),
     (187, ''shadowrest''), (188, ''tutoriala''), (189, ''tutorialb''), (190, ''clz''), (200, ''codecay''),
     (201, ''pojustice''), (202, ''poknowledge''), (203, ''potranquility''), (204, ''ponightmare''),
     (205, ''podisease''), (206, ''poinnovation''), (207, ''potorment''), (208, ''povalor''),
     (209, ''bothunder''), (210, ''postorms''), (211, ''hohonora''), (212, ''solrotower''), (213, ''powar''),
     (214, ''potactics''), (215, ''poair''), (216, ''powater''), (217, ''pofire''), (218, ''poeartha''),
     (219, ''potimea''), (220, ''hohonorb''), (221, ''nightmareb''), (222, ''poearthb''), (223, ''potimeb''),
     (224, ''gunthak''), (225, ''dulak''), (226, ''torgiran''), (227, ''nadox''), (228, ''hatesfury''),
     (229, ''guka''), (230, ''ruja''), (231, ''taka''), (232, ''mira''), (233, ''mmca''), (234, ''gukb''),
     (235, ''rujb''), (236, ''takb''), (237, ''mirb''), (238, ''mmcb''), (239, ''gukc''), (240, ''rujc''),
     (241, ''takc''), (242, ''mirc''), (243, ''mmcc''), (244, ''gukd''), (245, ''rujd''), (246, ''takd''),
     (247, ''mird''), (248, ''mmcd''), (249, ''guke''), (250, ''ruje''), (251, ''take''), (252, ''mire''),
     (253, ''mmce''), (254, ''gukf''), (255, ''rujf''), (256, ''takf''), (257, ''mirf''), (258, ''mmcf''),
     (259, ''gukg''), (260, ''rujg''), (261, ''takg''), (262, ''mirg''), (263, ''mmcg''), (264, ''gukh''),
     (265, ''rujh''), (266, ''takh''), (267, ''mirh''), (268, ''mmch''), (269, ''ruji''), (270, ''taki''),
     (271, ''miri''), (272, ''mmci''), (273, ''rujj''), (274, ''takj''), (275, ''mirj''), (276, ''mmcj''),
     (277, ''chardokb''), (278, ''soldungc''), (279, ''abysmal''), (280, ''natimbi''), (281, ''qinimi''),
     (282, ''riwwi''), (283, ''barindu''), (284, ''ferubi''), (285, ''snpool''), (286, ''snlair''),
     (287, ''snplant''), (288, ''sncrematory''), (289, ''tipt''), (290, ''vxed''), (291, ''yxtta''),
     (292, ''uqua''), (293, ''kodtaz''), (294, ''ikkinz''), (295, ''qvic''), (296, ''inktuta''),
     (297, ''txevu''), (298, ''tacvi''), (299, ''qvicb''), (300, ''wallofslaughter''), (301, ''bloodfields''),
     (302, ''draniksscar''), (303, ''causeway''), (304, ''chambersa''), (305, ''chambersb''),
     (306, ''chambersc''), (307, ''chambersd''), (308, ''chamberse''), (309, ''chambersf''),
     (316, ''provinggrounds''), (317, ''anguish'')]"

definition zone_adds_3 :: "(int \<times> string) list" where
  "zone_adds_3 =
    [(318, ''dranikhollowsa''), (319, ''dranikhollowsb''), (320, ''dranikhollowsc''),
     (328, ''dranikcatacombsa''), (329, ''dranikcatacombsb''), (330, ''dranikcatacombsc''),
     (331, ''draniksewersa''), (332, ''draniksewersb''), (333, ''draniksewersc''), (334, ''riftseekers''),
     (335, ''harbingers''), (336, ''dranik''), (337, ''broodlands''), (338, ''stillmoona''),
     (339, ''stillmoonb''), (340, ''thundercrest''), (341, ''delvea''), (342, ''delveb''), (343, ''thenest''),
     (344, ''guildlobby''), (345, ''guildhall''), (346, ''barter''), (347, ''illsalin''), (348, ''illsalina''),
     (349, ''illsalinb''), (350, ''illsalinc''), (351, ''dreadspire''), (354, ''drachnidhive''),
     (355, ''drachnidhivea''), (356, ''drachnidhiveb''), (357, ''drachnidhivec''), (358, ''westkorlach''),
     (359, ''westkorlacha''), (360, ''westkorlachb''), (361, ''westkorlachc''), (362, ''eastkorlach''),
     (363, ''eastkorlacha''), (364, ''shadowspine''), (365, ''corathus''), (366, ''corathusa''),
     (367, ''corathusb''), (368, ''nektulosa''), (369, ''arcstone''), (370, ''relic''), (371, ''skylance''),
     (372, ''devastation''), (373, ''devastationa''), (374, ''rage''), (375, ''ragea''), (376, ''takishruins''),
     (377, ''takishruinsa''), (378, ''elddar''), (379, ''elddara''), (380, ''theater''), (381, ''theatera''),
     (382, ''freeporteast''), (383, ''freeportwest''), (384, ''freeportsewers''), (385, ''freeportacademy''),
     (386, ''freeporttemple''), (387, ''freeportmilitia''), (388, ''freeportarena''),
     (389, ''freeportcityhall''), (390, ''freeporttheater''), (391, ''freeporthall''), (392, ''northro''),
     (393, ''southro''), (394, ''crescent''), (395, ''moors''), (396, ''stonehive''), (397, ''mesa''),
     (398, ''roost''), (399, ''steppes''), (400, ''icefall''), (401, ''valdeholm''), (402, ''frostcrypt''),
     (403, ''sunderock''), (404, ''vergalid''), (405, ''direwind''), (406, ''ashengate''),
     (407, ''highpasshold''), (408, ''commonlands''), (409, ''oceanoftears''), (410, ''kithforest''),
     (411, ''befallenb''), (412, ''highpasskeep''), (413, ''innothuleb''), (414, ''toxxulia''),
     (415, ''mistythicket''), (416, ''kattacastrum''), (417, ''thalassius''), (418, ''atiiki''),
     (419, ''zhisza''), (420, ''silyssar''), (421, ''solteris''), (422, ''barren''), (423, ''buriedsea''),
     (424, ''jardelshook''), (425, ''monkeyrock''), (426, ''suncrest''), (427, ''deadbone''),
     (428, ''blacksail''), (429, ''maidensgrave''), (430, ''redfeather''), (431, ''shipmvp''),
     (432, ''shipmvu''), (433, ''shippvu''), (434, ''shipuvu''), (435, ''shipmvm''), (436, ''mechanotus''),
     (437, ''mansion''), (438, ''steamfactory''), (439, ''shipworkshop''), (440, ''gyrospireb''),
     (441, ''gyrospirez''), (442, ''dragonscale''), (443, ''lopingplains''), (444, ''hillsofshade''),
     (445, ''bloodmoon''), (446, ''crystallos''), (447, ''guardian''), (448, ''steamfontmts''),
     (449, ''cryptofshade''), (451, ''dragonscaleb''), (452, ''oldfieldofbone''), (453, ''oldkaesoraa''),
     (454, ''oldkaesorab''), (455, ''oldkurn''), (456, ''oldkithicor''), (457, ''oldcommons''),
     (458, ''oldhighpass''), (459, ''thevoida''), (460, ''thevoidb''), (461, ''thevoidc''), (462, ''thevoidd''),
     (463, ''thevoide''), (464, ''thevoidf''), (465, ''thevoidg''), (466, ''oceangreenhills''),
     (467, ''oceangreenvillage'')]"

definition zone_adds_4 :: "(int \<times> string) list" where
  "zone_adds_4 =
    [(468, ''oldblackburrow''), (469, ''bertoxtemple''), (470, ''discord''), (471, ''discordtower''),
     (472, ''oldbloodfield''), (473, ''precipiceofwar''), (474, ''olddranik''), (475, ''toskirakk''),
     (476, ''korascian''), (477, ''rathechamber''), (480, ''brellsrest''), (481, ''fungalforest''),
     (482, ''underquarry''), (483, ''coolingchamber''), (484, ''shiningcity''), (485, ''arthicrex''),
     (486, ''foundation''), (487, ''lichencreep''), (488, ''pellucid''), (489, ''stonesnake''),
     (490, ''brellstemple''), (491, ''convorteum''), (492, ''brellsarena''), (493, ''weddingchapel''),
     (494, ''weddingchapeldark''), (495, ''dragoncrypt''), (700, ''feerrott2''), (701, ''thulehouse1''),
     (702, ''thulehouse2''), (703, ''housegarden''), (704, ''thulelibrary''), (705, ''well''),
     (706, ''fallen''), (707, ''morellcastle''), (708, ''somnium''), (709, ''alkabormare''),
     (710, ''miragulmare''), (711, ''thuledream''), (712, ''neighborhood''), (724, ''argath''),
     (725, ''arelis''), (726, ''sarithcity''), (727, ''rubak''), (728, ''beastdomain''), (729, ''resplendent''),
     (730, ''pillarsalra''), (731, ''windsong''), (732, ''cityofbronze''), (733, ''sepulcher''),
     (734, ''eastsepulcher''), (735, ''westsepulcher''), (752, ''shardslanding''), (753, ''xorbb''),
     (754, ''kaelshard''), (755, ''eastwastesshard''), (756, ''crystalshard''), (757, ''breedinggrounds''),
     (758, ''eviltree''), (759, ''grelleth''), (760, ''chapterhouse''), (996, ''arttest''), (998, ''fhalls''),
     (999, ''apprentice'')]"

definition zone_adds :: "(int \<times> string) list" where
  "zone_adds = zone_adds_1 @ zone_adds_2 @ zone_adds_3 @ zone_adds_4"

definition zone_short_names_1 :: "(int \<times> string) list" where
  "zone_short_names_1 =
    [(1, ''qeynos''), (2, ''qeynos2''), (3, ''qrg''), (4, ''qeytoqrg''), (5, ''highpass''), (6, ''highkeep''),
     (8, ''freportn''), (9, ''freportw''), (10, ''freporte''), (11, ''runnyeye''), (12, ''qey2hh1''),
     (13, ''northkarana''), (14, ''southkarana''), (15, ''eastkarana''), (16, ''beholder''),
     (17, ''blackburrow''), (18, ''paw''), (19, ''rivervale''), (20, ''kithicor''), (21, ''commons''),
     (22, ''ecommons''), (23, ''erudnint''), (24, ''erudnext''), (25, ''nektulos''), (26, ''cshome''),
     (27, ''lavastorm''), (28, ''nektropos''), (29, ''halas''), (30, ''everfrost''), (31, ''soldunga''),
     (32, ''soldungb''), (33, ''misty''), (34, ''nro''), (35, ''sro''), (36, ''befallen''), (37, ''oasis''),
     (38, ''tox''), (39, ''hole''), (40, ''neriaka''), (41, ''neriakb''), (42, ''neriakc''), (43, ''neriakd''),
     (44, ''najena''), (45, ''qcat''), (46, ''innothule''), (47, ''feerrott''), (48, ''cazicthule''),
     (49, ''oggok''), (50, ''rathemtn''), (51, ''lakerathe''), (52, ''grobb''), (53, ''aviak''),
     (54, ''gfaydark''), (55, ''akanon''), (56, ''steamfont''), (57, ''lfaydark''), (58, ''crushbone''),
     (59, ''mistmoore''), (60, ''kaladima''), (61, ''felwithea''), (62, ''felwitheb''), (63, ''unrest''),
     (64, ''kedge''), (65, ''guktop''), (66, ''gukbottom''), (67, ''kaladimb''), (68, ''butcher''),
     (69, ''oot''), (70, ''cauldron''), (71, ''airplane''), (72, ''fearplane''), (73, ''permafrost''),
     (74, ''kerraridge''), (75, ''paineel''), (76, ''hateplane''), (77, ''arena''), (78, ''fieldofbone''),
     (79, ''warslikswood''), (80, ''soltemple''), (81, ''droga''), (82, ''cabwest''), (83, ''swampofnohope''),
     (84, ''firiona''), (85, ''lakeofillomen''), (86, ''dreadlands''), (87, ''burningwood''), (88, ''kaesora''),
     (89, ''sebilis''), (90, ''citymist''), (91, ''skyfire''), (92, ''frontiermtns''), (93, ''overthere''),
     (94, ''emeraldjungle''), (95, ''trakanon''), (96, ''timorous''), (97, ''kurn''), (98, ''erudsxing''),
     (100, ''stonebrunt''), (101, ''warrens''), (102, ''karnor''), (103, ''chardok''), (104, ''dalnir''),
     (105, ''charasis''), (106, ''cabeast''), (107, ''nurga''), (108, ''veeshan''), (109, ''veksar''),
     (110, ''iceclad''), (111, ''frozenshadow''), (112, ''velketor''), (113, ''kael''), (114, ''skyshrine''),
     (115, ''thurgadina''), (116, ''eastwastes''), (117, ''cobaltscar''), (118, ''greatdivide''),
     (119, ''wakening''), (120, ''westwastes''), (121, ''crystal''), (123, ''necropolis''),
     (124, ''templeveeshan''), (125, ''sirens''), (126, ''mischiefplane''), (127, ''growthplane''),
     (128, ''sleeper''), (129, ''thurgadinb''), (130, ''erudsxing2''), (150, ''shadowhaven''),
     (151, ''bazaar''), (152, ''nexus''), (153, ''echo''), (154, ''acrylia''), (155, ''sharvahl''),
     (156, ''paludal''), (157, ''fungusgrove''), (158, ''vexthal''), (159, ''sseru''), (160, ''katta''),
     (161, ''netherbian''), (162, ''ssratemple'')]"

definition zone_short_names_2 :: "(int \<times> string) list" where
  "zone_short_names_2 =
    [(163, ''griegsend''), (164, ''thedeep''), (165, ''shadeweaver''), (166, ''hollowshade''),
     (167, ''grimling''), (168, ''mseru''), (169, ''letalis''), (170, ''twilight''), (171, ''thegrey''),
     (172, ''tenebrous''), (173, ''maiden''), (174, ''dawnshroud''), (175, ''scarlet''), (176, ''umbral''),
     (179, ''akheva''), (180, ''arena2''), (181, ''jaggedpine''), (182, ''nedaria''), (183, ''tutorial''),
     (184, ''load''), (185, ''load2''), (186, ''hateplaneb''), (187, ''shadowrest''), (188, ''tutoriala''),
     (189, ''tutorialb''), (190, ''clz''), (200, ''codecay''), (201, ''pojustice''), (202, ''poknowledge''),
     (203, ''potranquility''), (204, ''ponightmare''), (205, ''podisease''), (206, ''poinnovation''),
     (207, ''potorment''), (208, ''povalor''), (209, ''bothunder''), (210, ''postorms''), (211, ''hohonora''),
     (212, ''solrotower''), (213, ''powar''), (214, ''potactics''), (215, ''poair''), (216, ''powater''),
     (217, ''pofire''), (218, ''poeartha''), (219, ''potimea''), (220, ''hohonorb''), (221, ''nightmareb''),
     (222, ''poearthb''), (223, ''potimeb''), (224, ''gunthak''), (225, ''dulak''), (226, ''torgiran''),
     (227, ''nadox''), (228, ''hatesfury''), (229, ''guka''), (230, ''ruja''), (231, ''taka''), (232, ''mira''),
     (233, ''mmca''), (234, ''gukb''), (235, ''rujb''), (236, ''takb''), (237, ''mirb''), (238, ''mmcb''),
     (239, ''gukc''), (240, ''rujc''), (241, ''takc''), (242, ''mirc''), (243, ''mmcc''), (244, ''gukd''),
     (245, ''rujd''), (246, ''takd''), (247, ''mird''), (248, ''mmcd''), (249, ''guke''), (250, ''ruje''),
     (251, ''take''), (252, ''mire''), (253, ''mmce''), (254, ''gukf''), (255, ''rujf''), (256, ''takf''),
     (257, ''mirf''), (258, ''mmcf''), (259, ''gukg''), (260, ''rujg''), (261, ''takg''), (262, ''mirg''),
     (263, ''mmcg''), (264, ''gukh''), (265, ''rujh''), (266, ''takh''), (267, ''mirh''), (268, ''mmch''),
     (269, ''ruji''), (270, ''taki''), (271, ''miri''), (272, ''mmci''), (273, ''rujj''), (274, ''takj''),
     (275, ''mirj''), (276, ''mmcj''), (277, ''chardokb''), (278, ''soldungc''), (279, ''abysmal''),
     (280, ''natimbi''), (281, ''qinimi''), (282, ''riwwi''), (283, ''barindu''), (284, ''ferubi''),
     (285, ''snpool''), (286, ''snlair''), (287, ''snplant''), (288, ''sncrematory''), (289, ''tipt''),
     (290, ''vxed''), (291, ''yxtta''), (292, ''uqua''), (293, ''kodtaz''), (294, ''ikkinz''), (295, ''qvic''),
     (296, ''inktuta''), (297, ''txevu''), (298, ''tacvi''), (299, ''qvicb''), (300, ''wallofslaughter''),
     (301, ''bloodfields''), (302, ''draniksscar''), (303, ''causeway''), (304, ''chambersa''),
     (305, ''chambersb''), (306, ''chambersc''), (307, ''chambersd''), (308, ''chamberse''),
     (309, ''chambersf''), (316, ''provinggrounds''), (317, ''anguish''), (318, ''dranikhollowsa''),
     (319, ''dranikhollowsb'')]"

definition zone_short_names_3 :: "(int \<times> string) list" where
  "zone_short_names_3 =
    [(320, ''dranikhollowsc''), (328, ''dranikcatacombsa''), (329, ''dranikcatacombsb''),
     (330, ''dranikcatacombsc''), (331, ''draniksewersa''), (332, ''draniksewersb''), (333, ''draniksewersc''),
     (334, ''riftseekers''), (335, ''harbingers''), (336, ''dranik''), (337, ''broodlands''),
     (338, ''stillmoona''), (339, ''stillmoonb''), (340, ''thundercrest''), (341, ''delvea''),
     (342, ''delveb''), (343, ''thenest''), (344, ''guildlobby''), (345, ''guildhall''), (346, ''barter''),
     (347, ''illsalin''), (348, ''illsalina''), (349, ''illsalinb''), (350, ''illsalinc''),
     (351, ''dreadspire''), (354, ''drachnidhive''), (355, ''drachnidhivea''), (356, ''drachnidhiveb''),
     (357, ''drachnidhivec''), (358, ''westkorlach''), (359, ''westkorlacha''), (360, ''westkorlachb''),
     (361, ''westkorlachc''), (362, ''eastkorlach''), (363, ''eastkorlacha''), (364, ''shadowspine''),
     (365, ''corathus''), (366, ''corathusa''), (367, ''corathusb''), (368, ''nektulosa''), (369, ''arcstone''),
     (370, ''relic''), (371, ''skylance''), (372, ''devastation''), (373, ''devastationa''), (374, ''rage''),
     (375, ''ragea''), (376, ''takishruins''), (377, ''takishruinsa''), (378, ''elddar''), (379, ''elddara''),
     (380, ''theater''), (381, ''theatera''), (382, ''freeporteast''), (383, ''freeportwest''),
     (384, ''freeportsewers''), (385, ''freeportacademy''), (386, ''freeporttemple''),
     (387, ''freeportmilitia''), (388, ''freeportarena''), (389, ''freeportcityhall''),
     (390, ''freeporttheater''), (391, ''freeporthall''), (392, ''northro''), (393, ''southro''),
     (394, ''crescent''), (395, ''moors''), (396, ''stonehive''), (397, ''mesa''), (398, ''roost''),
     (399, ''steppes''), (400, ''icefall''), (401, ''valdeholm''), (402, ''frostcrypt''), (403, ''sunderock''),
     (404, ''vergalid''), (405, ''direwind''), (406, ''ashengate''), (407, ''highpasshold''),
     (408, ''commonlands''), (409, ''oceanoftears''), (410, ''kithforest''), (411, ''befallenb''),
     (412, ''highpasskeep''), (413, ''innothuleb''), (414, ''toxxulia''), (415, ''mistythicket''),
     (416, ''kattacastrum''), (417, ''thalassius''), (418, ''atiiki''), (419, ''zhisza''), (420, ''silyssar''),
     (421, ''solteris''), (422, ''barren''), (423, ''buriedsea''), (424, ''jardelshook''),
     (425, ''monkeyrock''), (426, ''suncrest''), (427, ''deadbone''), (428, ''blacksail''),
     (429, ''maidensgrave''), (430, ''redfeather''), (431, ''shipmvp''), (432, ''shipmvu''), (433, ''shippvu''),
     (434, ''shipuvu''), (435, ''shipmvm''), (436, ''mechanotus''), (437, ''mansion''), (438, ''steamfactory''),
     (439, ''shipworkshop''), (440, ''gyrospireb''), (441, ''gyrospirez''), (442, ''dragonscale''),
     (443, ''lopingplains''), (444, ''hillsofshade''), (445, ''bloodmoon''), (446, ''crystallos''),
     (447, ''guardian''), (448, ''steamfontmts''), (449, ''cryptofshade''), (451, ''dragonscaleb''),
     (452, ''oldfieldofbone''), (453, ''oldkaesoraa''), (454, ''oldkaesorab''), (455, ''oldkurn''),
     (456, ''oldkithicor''), (457, ''oldcommons''), (458, ''oldhighpass''), (459, ''thevoida''),
     (460, ''thevoidb''), (461, ''thevoidc''), (462, ''thevoidd''), (463, ''thevoide''), (464, ''thevoidf''),
     (465, ''thevoidg''), (466, ''oceangreenhills''), (467, ''oceangreenvillage''), (468, ''oldblackburrow''),
     (469, ''bertoxtemple'')]"

definition zone_short_names_4 :: "(int \<times> string) list" where
  "zone_short_names_4 =
    [(470, ''discord''), (471, ''discordtower''), (472, ''oldbloodfield''), (473, ''precipiceofwar''),
     (474, ''olddranik''), (475, ''toskirakk''), (476, ''korascian''), (477, ''rathechamber''),
     (480, ''brellsrest''), (481, ''fungalforest''), (482, ''underquarry''), (483, ''coolingchamber''),
     (484, ''shiningcity''), (485, ''arthicrex''), (486, ''foundation''), (487, ''lichencreep''),
     (488, ''pellucid''), (489, ''stonesnake''), (490, ''brellstemple''), (491, ''convorteum''),
     (492, ''brellsarena''), (493, ''weddingchapel''), (494, ''weddingchapeldark''), (495, ''dragoncrypt''),
     (700, ''feerrott2''), (701, ''thulehouse1''), (702, ''thulehouse2''), (703, ''housegarden''),
     (704, ''thulelibrary''), (705, ''well''), (706, ''fallen''), (707, ''morellcastle''), (708, ''somnium''),
     (709, ''alkabormare''), (710, ''miragulmare''), (711, ''thuledream''), (712, ''neighborhood''),
     (724, ''argath''), (725, ''arelis''), (726, ''sarithcity''), (727, ''rubak''), (728, ''beastdomain''),
     (729, ''resplendent''), (730, ''pillarsalra''), (731, ''windsong''), (732, ''cityofbronze''),
     (733, ''sepulcher''), (734, ''eastsepulcher''), (735, ''westsepulcher''), (752, ''shardslanding''),
     (753, ''xorbb''), (754, ''kaelshard''), (755, ''eastwastesshard''), (756, ''crystalshard''),
     (757, ''breedinggrounds''), (758, ''eviltree''), (759, ''grelleth''), (760, ''chapterhouse''),
     (996, ''arttest''), (998, ''fhalls''), (999, ''apprentice'')]"

definition zone_short_names :: "(int \<times> string) list" where
  "zone_short_names = zone_short_names_1 @ zone_short_names_2 @ zone_short_names_3 @ zone_short_names_4"

definition zone_long_names_1 :: "(int \<times> string) list" where
  "zone_long_names_1 =
    [(1, ''South Qeynos''), (2, ''North Qeynos''), (3, ''The Surefall Glade''), (4, ''The Qeynos Hills''),
     (5, ''Highpass Hold''), (6, ''High Keep''), (8, ''North Freeport''), (9, ''West Freeport''),
     (10, ''East Freeport''), (11, ''The Liberated Citadel of Runnyeye''),
     (12, ''The Western Plains of Karana''), (13, ''The Northern Plains of Karana''),
     (14, ''The Southern Plains of Karana''), (15, ''Eastern Plains of Karana''), (16, ''Gorge of King Xorbb''),
     (17, ''Blackburrow''), (18, ''The Lair of the Splitpaw''), (19, ''Rivervale''), (20, ''Kithicor Forest''),
     (21, ''West Commonlands''), (22, ''East Commonlands''), (23, ''The Erudin Palace''), (24, ''Erudin''),
     (25, ''The Nektulos Forest''), (26, ''Sunset Home''), (27, ''The Lavastorm Mountains''),
     (28, ''Nektropos''), (29, ''Halas''), (30, ''Everfrost Peaks''),
     (31, (''Solusek'' @ [CHR 0x27] @ ''s Eye'')), (32, (''Nagafen'' @ [CHR 0x27] @ ''s Lair'')),
     (33, ''Misty Thicket''), (34, ''Northern Desert of Ro''), (35, ''Southern Desert of Ro''),
     (36, ''Befallen''), (37, ''Oasis of Marr''), (38, ''Toxxulia Forest''), (39, ''The Hole''),
     (40, ''Neriak - Foreign Quarter''), (41, ''Neriak - Commons''), (42, ''Neriak - 3rd Gate''),
     (43, ''Neriak Palace''), (44, ''Najena''), (45, ''The Qeynos Aqueduct System''), (46, ''Innothule Swamp''),
     (47, ''The Feerrott''), (48, ''Accursed Temple of CazicThule''), (49, ''Oggok''),
     (50, ''The Rathe Mountains''), (51, ''Lake Rathetear''), (52, ''Grobb''), (53, ''Aviak Village''),
     (54, ''The Greater Faydark''), (55, (''Ak'' @ [CHR 0x27] @ ''Anon'')), (56, ''Steamfont Mountains''),
     (57, ''The Lesser Faydark''), (58, ''Crushbone''), (59, ''The Castle of Mistmoore''),
     (60, ''South Kaladim''), (61, ''Northern Felwithe''), (62, ''Southern Felwithe''),
     (63, ''The Estate of Unrest''), (64, ''Kedge Keep''), (65, ''The City of Guk''),
     (66, ''The Ruins of Old Guk''), (67, ''North Kaladim''), (68, ''Butcherblock Mountains''),
     (69, ''Ocean of Tears''), (70, (''Dagnor'' @ [CHR 0x27] @ ''s Cauldron'')), (71, ''The Plane of Sky''),
     (72, ''The Plane of Fear''), (73, ''The Permafrost Caverns''), (74, ''Kerra Isle''), (75, ''Paineel''),
     (76, ''Plane of Hate''), (77, ''The Arena''), (78, ''The Field of Bone''), (79, ''The Warsliks Woods''),
     (80, ''The Temple of Solusek Ro''), (81, ''The Temple of Droga''), (82, ''Cabilis West''),
     (83, ''The Swamp of No Hope''), (84, ''Firiona Vie''), (85, ''Lake of Ill Omen''),
     (86, ''The Dreadlands''), (87, ''The Burning Wood''), (88, ''Kaesora''), (89, ''The Ruins of Sebilis''),
     (90, ''The City of Mist''), (91, ''The Skyfire Mountains''), (92, ''Frontier Mountains''),
     (93, ''The Overthere''), (94, ''The Emerald Jungle''), (95, (''Trakanon'' @ [CHR 0x27] @ ''s Teeth'')),
     (96, ''Timorous Deep''), (97, (''Kurn'' @ [CHR 0x27] @ ''s Tower'')),
     (98, (''Erud'' @ [CHR 0x27] @ ''s Crossing'')), (100, ''The Stonebrunt Mountains''),
     (101, ''The Warrens''), (102, (''Karnor'' @ [CHR 0x27] @ ''s Castle'')), (103, ''Chardok''),
     (104, ''The Crypt of Dalnir''), (105, ''The Howling Stones''), (106, ''Cabilis East''),
     (107, ''The Mines of Nurga''), (108, (''Veeshan'' @ [CHR 0x27] @ ''s Peak'')), (109, ''Veksar''),
     (110, ''The Iceclad Ocean''), (111, ''The Tower of Frozen Shadow''),
     (112, (''Velketor'' @ [CHR 0x27] @ ''s Labyrinth'')), (113, ''Kael Drakkel''), (114, ''Skyshrine''),
     (115, ''The City of Thurgadin''), (116, ''Eastern Wastes''), (117, ''Cobaltscar''),
     (118, ''The Great Divide''), (119, ''The Wakening Land''), (120, ''The Western Wastes''),
     (121, ''The Crystal Caverns''), (123, ''Dragon Necropolis''), (124, ''The Temple of Veeshan''),
     (125, (''Siren'' @ [CHR 0x27] @ ''s Grotto'')), (126, ''The Plane of Mischief''),
     (127, ''The Plane of Growth''), (128, (''The Sleeper'' @ [CHR 0x27] @ ''s Tomb'')),
     (129, ''Icewell Keep''), (130, ''Marauders Mire''), (150, ''Shadow Haven''), (151, ''The Bazaar''),
     (152, ''Nexus''), (153, ''The Echo Caverns''), (154, ''The Acrylia Caverns''),
     (155, ''The City of Shar Vahl''), (156, ''The Paludal Caverns''), (157, ''The Fungus Grove''),
     (158, ''Vex Thal''), (159, ''Sanctus Seru''), (160, ''Katta Castellum''), (161, ''Netherbian Lair''),
     (162, ''Ssraeshza Temple'')]"

definition zone_long_names_2 :: "(int \<times> string) list" where
  "zone_long_names_2 =
    [(163, (''Grieg'' @ [CHR 0x27] @ ''s End'')), (164, ''The Deep''),
     (165, (''Shadeweaver'' @ [CHR 0x27] @ ''s Thicket'')), (166, ''Hollowshade Moor''),
     (167, ''Grimling Forest''), (168, ''Marus Seru''), (169, ''Mons Letalis''), (170, ''The Twilight Sea''),
     (171, ''The Grey''), (172, ''The Tenebrous Mountains''), (173, (''The Maiden'' @ [CHR 0x27] @ ''s Eye'')),
     (174, ''The Dawnshroud Peaks''), (175, ''The Scarlet Desert''), (176, ''The Umbral Plains''),
     (179, ''The Akheva Ruins''), (180, ''The Arena Two''), (181, ''The Jaggedpine Forest''),
     (182, (''Nedaria'' @ [CHR 0x27] @ ''s Landing'')), (183, ''EverQuest Tutorial''), (184, ''Loading Zone''),
     (185, ''New Loading Zone''), (186, ''The Plane of Hate''), (187, ''Shadowrest''),
     (188, ''The Mines of Gloomingdeep''), (189, ''The Mines of Gloomingdeep''), (190, ''Loading''),
     (200, ''The Crypt of Decay''), (201, ''The Plane of Justice''), (202, ''The Plane of Knowledge''),
     (203, ''The Plane of Tranquility''), (204, ''The Plane of Nightmares''), (205, ''The Plane of Disease''),
     (206, ''The Plane of Innovation''), (207, ''Torment, the Plane of Pain''), (208, ''The Plane of Valor''),
     (209, ''Bastion of Thunder''), (210, ''The Plane of Storms''), (211, ''The Halls of Honor''),
     (212, ''The Tower of Solusek Ro''), (213, ''Plane of War''), (214, ''Drunder, the Fortress of Zek''),
     (215, ''The Plane of Air''), (216, ''The Plane of Water''), (217, ''The Plane of Fire''),
     (218, ''The Plane of Earth''), (219, ''The Plane of Time A''), (220, ''The Temple of Marr''),
     (221, ''The Lair of Terris Thule''), (222, ''The Plane of Earth''), (223, ''The Plane of Time B''),
     (224, ''The Gulf of Gunthak''), (225, (''Dulak'' @ [CHR 0x27] @ ''s Harbor'')),
     (226, ''The Torgiran Mines''), (227, ''The Crypt of Nadox''), (228, (''Hate'' @ [CHR 0x27] @ ''s Fury'')),
     (229, ''Deepest Guk: Cauldron of Lost Souls''), (230, ''The Rujarkian Hills: Bloodied Quarries''),
     (231, ''Takish-Hiz: Sunken Library''), (232, (''Miragul'' @ [CHR 0x27] @ ''s Menagerie: Silent Gallery'')),
     (233, (''Mistmoore'' @ [CHR 0x27] @ ''s Catacombs: Forlorn Caverns'')), (234, ''The Drowning Crypt''),
     (235, ''The Rujarkian Hills: Halls of War''), (236, ''Takish-Hiz: Shifting Tower''),
     (237, (''Miragul'' @ [CHR 0x27] @ ''s Menagerie: Frozen Nightmare'')),
     (238, (''Mistmoore'' @ [CHR 0x27] @ ''s Catacombs: Dreary Grotto'')),
     (239, ''Deepest Guk: Ancient Aqueducts''), (240, ''The Rujarkian Hills: Wind Bridges''),
     (241, ''Takish-Hiz: Fading Temple''), (242, ''The Spider Den''),
     (243, (''Mistmoore'' @ [CHR 0x27] @ ''s Catacombs: Struggles within the Progeny'')),
     (244, ''The Mushroom Grove''), (245, ''The Rujarkian Hills: Prison Break''),
     (246, ''Takish-Hiz: Royal Observatory''),
     (247, (''Miragul'' @ [CHR 0x27] @ ''s Menagerie: Hushed Banquet'')),
     (248, (''Mistmoore'' @ [CHR 0x27] @ ''s Catacombs: Chambers of Eternal Affliction'')),
     (249, ''Deepest Guk: The Curse Reborn''), (250, ''The Rujarkian Hills: Drudge Hollows''),
     (251, ''Takish-Hiz: River of Recollection''), (252, ''The Frosted Halls''),
     (253, (''Mistmoore'' @ [CHR 0x27] @ ''s Catacombs: Sepulcher of the Damned'')),
     (254, ''Deepest Guk: Chapel of the Witnesses''),
     (255, ''The Rujarkian Hills: Fortified Lair of the Taskmasters''),
     (256, ''Takish-Hiz: Sandfall Corridors''), (257, ''The Forgotten Wastes''),
     (258, (''Mistmoore'' @ [CHR 0x27] @ ''s Catacombs: Scion Lair of Fury'')), (259, ''The Root Garden''),
     (260, ''The Rujarkian Hills: Hidden Vale of Deceit''), (261, ''Takish-Hiz: Balancing Chamber''),
     (262, (''Miragul'' @ [CHR 0x27] @ ''s Menagerie: Heart of the Menagerie'')),
     (263, (''Mistmoore'' @ [CHR 0x27] @ ''s Catacombs: Cesspits of Putrescence'')),
     (264, ''Deepest Guk: Accursed Sanctuary''), (265, ''The Rujarkian Hills: Blazing Forge''),
     (266, ''Takish-Hiz: Sweeping Tides''), (267, ''The Morbid Laboratory''),
     (268, (''Mistmoore'' @ [CHR 0x27] @ ''s Catacombs: Aisles of Blood'')),
     (269, ''The Rujarkian Hills: Arena of Chance''), (270, ''Takish-Hiz: Antiquated Palace''),
     (271, ''The Theater of Imprisoned Horror''),
     (272, (''Mistmoore'' @ [CHR 0x27] @ ''s Catacombs: Halls of Sanguinary Rites'')),
     (273, ''The Rujarkian Hills: Barracks of War''), (274, ''Takish-Hiz: Prismatic Corridors''),
     (275, (''Miragul'' @ [CHR 0x27] @ ''s Menagerie: Grand Library'')),
     (276, (''Mistmoore'' @ [CHR 0x27] @ ''s Catacombs: Infernal Sanctuary'')),
     (277, ''Chardok: The Halls of Betrayal''), (278, ''The Caverns of Exile''), (279, ''The Abysmal Sea''),
     (280, ''Natimbi, the Broken Shores''), (281, ''Qinimi, Court of Nihilia''),
     (282, ''Riwwi, Coliseum of Games''), (283, ''Barindu, Hanging Gardens''),
     (284, ''Ferubi, Forgotten Temple of Taelosia''), (285, ''Sewers of Nihilia, Pool of Sludg''),
     (286, ''Sewers of Nihilia, Lair of Trapp''), (287, ''Sewers of Nihilia, Purifying Pla''),
     (288, ''Sewers of Nihilia, Emanating Cre''), (289, ''Tipt, Treacherous Crags''),
     (290, ''Vxed, the Crumbling Caverns''), (291, ''Yxtta, Pulpit of Exiles''),
     (292, ''Uqua, the Ocean God Chantry''), (293, (''Kod'' @ [CHR 0x27] @ ''Taz, Broken Trial Grounds'')),
     (294, ''Ikkinz, Chambers of Transcendence''), (295, ''Qvic, Prayer Grounds of Calling''),
     (296, (''Inktu'' @ [CHR 0x27] @ ''Ta, the Unmasked Chapel'')), (297, ''Txevu, Lair of the Elite''),
     (298, ''Tacvi, The Broken Temple''), (299, ''Qvic, the Hidden Vault''), (300, ''Wall of Slaughter''),
     (301, ''The Bloodfields''), (302, (''Dranik'' @ [CHR 0x27] @ ''s Scar'')),
     (303, (''Nobles'' @ [CHR 0x27] @ '' Causeway'')), (304, ''Muramite Proving Grounds A''),
     (305, ''Muramite Proving Grounds B''), (306, ''Muramite Proving Grounds C''),
     (307, ''Muramite Proving Grounds D''), (308, ''Muramite Proving Grounds E''),
     (309, ''Muramite Proving Grounds F''), (316, ''Muramite Proving Grounds G''),
     (317, ''Anguish, the Fallen Palace''), (318, (''Dranik'' @ [CHR 0x27] @ ''s Hollows A'')),
     (319, (''Dranik'' @ [CHR 0x27] @ ''s Hollows B''))]"

definition zone_long_names_3 :: "(int \<times> string) list" where
  "zone_long_names_3 =
    [(320, (''Dranik'' @ [CHR 0x27] @ ''s Hollows C'')), (328, ''Catacombs of Dranik A''),
     (329, ''Catacombs of Dranik B''), (330, ''Catacombs of Dranik C''), (331, ''Sewers of Dranik A''),
     (332, ''Sewers of Dranik B''), (333, ''Sewers of Dranik C''),
     (334, (''Riftseekers'' @ [CHR 0x27] @ '' Sanctum'')), (335, (''Harbinger'' @ [CHR 0x27] @ ''s Spire'')),
     (336, ''The Ruined City of Dranik''), (337, ''The Broodlands''), (338, ''Stillmoon Temple''),
     (339, ''The Ascent''), (340, ''Thundercrest Isles''), (341, (''Lavaspinner'' @ [CHR 0x27] @ ''s Lair'')),
     (342, (''Tirranun'' @ [CHR 0x27] @ ''s Delve'')), (343, ''The Nest''), (344, ''Guild Lobby''),
     (345, ''Guild Hall''), (346, ''The Barter Hall''), (347, ''Ruins of Illsalin''),
     (348, ''Illsalin Marketplace''), (349, ''Temple of Korlach''), (350, ''The Nargil Pits''),
     (351, ''Dreadspire Keep''), (354, ''The Hive''), (355, ''The Hatchery''), (356, ''The Cocoons''),
     (357, ''Queen Sendaii`s Lair''), (358, ''Stoneroot Falls''),
     (359, (''Prince'' @ [CHR 0x27] @ ''s Manor'')), (360, ''Caverns of the Lost''),
     (361, ''Lair of the Korlach''), (362, ''The Undershore''), (363, ''Snarlstone Dens''),
     (364, ''Shadow Spine''), (365, ''Corathus Creep''), (366, ''Sporali Caverns''),
     (367, ''The Corathus Mines''), (368, ''Shadowed Grove''), (369, ''Arcstone, Isle of Spirits''),
     (370, ''Relic, the Artifact City''), (371, ''Skylance''), (372, ''The Devastation''),
     (373, ''The Seething Wall''), (374, ''Sverag, Stronghold of Rage''),
     (375, ''Razorthorn, Tower of Sullon Zek''), (376, ''Ruins of Takish-Hiz''), (377, ''The Root of Ro''),
     (378, ''The Elddar Forest''), (379, (''Tunare'' @ [CHR 0x27] @ ''s Shrine'')), (380, ''Theater of Blood''),
     (381, ''Deathknell, Tower of Dissonance''), (382, ''East Freeport''), (383, ''West Freeport''),
     (384, ''Freeport Sewers''), (385, ''Academy of Arcane Sciences''), (386, ''Temple of Marr''),
     (387, ''Freeport Militia House: My Precious''), (388, ''Arena''), (389, ''City Hall''),
     (390, ''Theater of the Tranquil''), (391, ''Hall of Truth: Bounty''), (392, ''North Desert of Ro''),
     (393, ''South Desert of Ro''), (394, ''Crescent Reach''), (395, ''Blightfire Moors''),
     (396, ''Stone Hive''), (397, ''Goru`kar Mesa''), (398, ''Blackfeather Roost''), (399, ''The Steppes''),
     (400, ''Icefall Glacier''), (401, ''Valdeholm''), (402, ''Frostcrypt, Throne of the Shade King''),
     (403, ''Sunderock Springs''), (404, ''Vergalid Mines''), (405, ''Direwind Cliffs''),
     (406, ''Ashengate, Reliquary of the Scale''), (407, ''Highpass Hold''), (408, ''The Commonlands''),
     (409, ''The Ocean of Tears''), (410, ''Kithicor Forest''), (411, ''Befallen''), (412, ''HighKeep''),
     (413, ''The Innothule Swamp''), (414, ''Toxxulia Forest''), (415, ''The Misty Thicket''),
     (416, ''Katta Castrum''), (417, ''Thalassius, the Coral Keep''), (418, ''Jewel of Atiiki''),
     (419, ''Zhisza, the Shissar Sanctuary''), (420, ''Silyssar, New Chelsith''),
     (421, ''Solteris, the Throne of Ro''), (422, ''Barren Coast''), (423, ''The Buried Sea''),
     (424, (''Jardel'' @ [CHR 0x27] @ ''s Hook'')), (425, ''Monkey Rock''), (426, ''Suncrest Isle''),
     (427, ''Deadbone Reef''), (428, ''Blacksail Folly''), (429, (''Maiden'' @ [CHR 0x27] @ ''s Grave'')),
     (430, ''Redfeather Isle''), (431, ''The Open Sea''), (432, ''The Open Sea''), (433, ''The Open Sea''),
     (434, ''The Open Sea''), (435, ''The Open Sea''), (436, ''Fortress Mechanotus''),
     (437, (''Meldrath'' @ [CHR 0x27] @ ''s Majestic Mansion'')), (438, ''The Steam Factory''),
     (439, ''S.H.I.P. Workshop''), (440, ''Gyrospire Beza''), (441, ''Gyrospire Zeka''),
     (442, ''Dragonscale Hills''), (443, ''Loping Plains''), (444, ''Hills of Shade''),
     (445, ''Bloodmoon Keep''), (446, ''Crystallos, Lair of the Awakened''), (447, ''The Mechamatic Guardian''),
     (448, ''The Steamfont Mountains''), (449, ''Crypt of Shade''),
     (451, (''Deepscar'' @ [CHR 0x27] @ ''s Den'')), (452, ''Field of Scale''), (453, ''Kaesora Library''),
     (454, ''Kaesora Hatchery''), (455, (''Kurn'' @ [CHR 0x27] @ ''s Tower'')), (456, ''Bloody Kithicor''),
     (457, ''Old Commonlands''), (458, ''Highpass Hold''), (459, ''The Void A''), (460, ''The Void B''),
     (461, ''The Void C''), (462, ''The Void D''), (463, ''The Void E''), (464, ''The Void F''),
     (465, ''The Void G''), (466, ''Oceangreen Hills''), (467, ''Oceangreen Village''), (468, ''BlackBurrow''),
     (469, ''Temple of Bertoxxulous'')]"

definition zone_long_names_4 :: "(int \<times> string) list" where
  "zone_long_names_4 =
    [(470, ''Korafax, Home of the Riders''), (471, ''Citadel of the Worldslayer''), (472, ''Old Bloodfields''),
     (473, ''The Precipice of War''), (474, ''City of Dranik''), (475, ''Toskirakk''),
     (476, ''Korascian Warrens''), (477, ''Rathe Council Chamber''),
     (480, (''Brell'' @ [CHR 0x27] @ ''s Rest'')), (481, ''Fungal Forest''), (482, ''The Underquarry''),
     (483, ''The Cooling Chamber''), (484, ''Kernagir, the Shining City''), (485, ''Arthicrex''),
     (486, ''The Foundation''), (487, ''Lichen Creep''), (488, ''Pellucid Grotto''),
     (489, (''Volska'' @ [CHR 0x27] @ ''s Husk'')), (490, (''Brell'' @ [CHR 0x27] @ ''s Temple'')),
     (491, ''The Convorteum''), (492, (''Brell'' @ [CHR 0x27] @ ''s Arena'')), (493, ''Wedding Chapel''),
     (494, ''Wedding Chapel''), (495, ''Lair of the Risen''), (700, ''The Feerrott''),
     (701, ''House of Thule''), (702, ''House of Thule, Upper Floors''), (703, ''The Grounds''),
     (704, ''The Library''), (705, ''The Well''), (706, ''Erudin Burning''),
     (707, (''Morell'' @ [CHR 0x27] @ ''s Castle'')), (708, ''Sanctum Somnium''),
     (709, (''Al'' @ [CHR 0x27] @ ''Kabor'' @ [CHR 0x27] @ ''s Nightmare'')),
     (710, (''Miragul'' @ [CHR 0x27] @ ''s Nightmare'')), (711, ''Fear Itself''), (712, ''Sunrise Hills''),
     (724, ''Argath, Bastion of Illdaera''), (725, ''Valley of Lunanyn''), (726, ''Sarith, City of Tides''),
     (727, ''Rubak Oseka, Temple of the Sea''), (728, (''Beasts'' @ [CHR 0x27] @ '' Domain'')),
     (729, ''The Resplendent Temple''), (730, ''Pillars of Alra''), (731, ''Windsong Sanctuary''),
     (732, ''Erillion, City of Bronze''), (733, ''Sepulcher of Order''), (734, ''Sepulcher East''),
     (735, ''Sepulcher West''), (752, (''Shard'' @ [CHR 0x27] @ ''s Landing'')),
     (753, ''Valley of King Xorbb''), (754, (''Kael Drakkel: The King'' @ [CHR 0x27] @ ''s Madness'')),
     (755, (''East Wastes: Zeixshi-Kar'' @ [CHR 0x27] @ ''s Awakening'')),
     (756, ''The Crystal Caverns: Fragment of Fear''), (757, ''The Breeding Grounds''),
     (758, ''Evantil, the Vile Oak''), (759, (''Grelleth'' @ [CHR 0x27] @ ''s Palace, the Chateau of Filth'')),
     (760, ''Chapterhouse of the Fallen''), (996, ''Art Testing Domain''), (998, ''The Forgotten Halls''),
     (999, ''Designer Apprentice'')]"

definition zone_long_names :: "(int \<times> string) list" where
  "zone_long_names = zone_long_names_1 @ zone_long_names_2 @ zone_long_names_3 @ zone_long_names_4"

section \<open>The operations\<close>

text \<open>A string literal, and an \<^verbatim>\<open>int\<close> as the hash table copies it.\<close>

definition bytes_of :: "string \<Rightarrow> bytes" where
  "bytes_of s = map of_char s"

definition int_bytes :: "int \<Rightarrow> bytes" where
  "int_bytes i = uint32_bytes (word_of_int i)"

definition bytes_int :: "bytes \<Rightarrow> int" where
  "bytes_int b = sint (ucast (b ! 0) OR push_bit 8 (ucast (b ! 1)) OR push_bit 16 (ucast (b ! 2))
       OR push_bit 24 (ucast (b ! 3)) :: u32)"

definition zone_entries :: "(bytes \<times> bytes) list" where
  "zone_entries = map (\<lambda>(i, s). (bytes_of s, int_bytes i)) zone_adds"

definition zone_short_name_map_create :: "heap \<Rightarrow> table result" where
  "zone_short_name_map_create h = bindE (hash_table_create h 4) (set_all h zone_entries)"

definition zone_id_by_short_name :: "table \<Rightarrow> bytes \<Rightarrow> u32 \<Rightarrow> int result" where
  "zone_id_by_short_name map' shortName len =
     bindE (hash_table_get_by_cstr map' shortName len) (\<lambda>zoneId.
     Inr (case zoneId of Some b \<Rightarrow> bytes_int b | None \<Rightarrow> 0))"

definition zone_short_name_by_id :: "int \<Rightarrow> string" where
  "zone_short_name_by_id i = (case map_of zone_short_names i of Some s \<Rightarrow> s | None \<Rightarrow> ''qeynos'')"

definition zone_long_name_by_id :: "int \<Rightarrow> string" where
  "zone_long_name_by_id i = (case map_of zone_long_names i of Some s \<Rightarrow> s | None \<Rightarrow> ''South Qeynos'')"

section \<open>The three tables agree\<close>

lemmas zone_adds_defs = zone_adds_def zone_adds_1_def zone_adds_2_def zone_adds_3_def zone_adds_4_def
lemmas zone_short_defs = zone_short_names_def zone_short_names_1_def zone_short_names_2_def zone_short_names_3_def zone_short_names_4_def
lemmas zone_long_defs = zone_long_names_def zone_long_names_1_def zone_long_names_2_def zone_long_names_3_def zone_long_names_4_def

text \<open>Two of the calls are there twice.\<close>

lemma zone_adds_short: "remdups_adj zone_adds = zone_short_names"
  by code_simp

lemma zone_long_ids: "map fst zone_long_names = map fst zone_short_names"
  by code_simp

lemma zone_ids_sorted: "successively (<) (map fst zone_short_names)"
  by code_simp

text \<open>A number for every name, to tell the names apart.\<close>

definition name_code :: "string \<Rightarrow> int" where
  "name_code s = foldl (\<lambda>a c. a * 5 + of_char c) 0 s"

primrec insert_tree :: "int \<Rightarrow> int tree \<Rightarrow> int tree option" where
  "insert_tree x Leaf = Some (Node Leaf x Leaf)"
| "insert_tree x (Node l y r) =
     (if x < y then map_option (\<lambda>l. Node l y r) (insert_tree x l)
      else if y < x then map_option (\<lambda>r. Node l y r) (insert_tree x r) else None)"

primrec insert_all :: "int list \<Rightarrow> int tree \<Rightarrow> bool" where
  "insert_all [] t = True"
| "insert_all (x # xs) t = (case insert_tree x t of None \<Rightarrow> False | Some t \<Rightarrow> insert_all xs t)"

lemma name_codes: "insert_all (map (name_code \<circ> snd) zone_short_names) Leaf"
  by code_simp

lemma zone_names_ok: "list_all (\<lambda>x. CHR 0x00 \<notin> set (snd x) \<and> length (snd x) < 20 \<and> 0 < fst x \<and> fst x < 1000) zone_short_names"
  by code_simp

lemma insert_tree_bst:
  "bst t \<Longrightarrow> insert_tree x t = Some t' \<Longrightarrow> bst t' \<and> set_tree t' = insert x (set_tree t) \<and> x \<notin> set_tree t"
proof (induction t arbitrary: t')
  case (Node l y r)
  consider "x < y" | "y < x" using Node.prems(2) by (fastforce simp: not_less_iff_gr_or_eq)
  then show ?case
  proof cases
    case 1
    then obtain l' where "insert_tree x l = Some l'" "t' = Node l' y r" using Node.prems(2) by auto
    then show ?thesis using Node.IH(1) [of l'] Node.prems(1) 1 by auto
  next
    case 2
    then obtain r' where "insert_tree x r = Some r'" "t' = Node l y r'" using Node.prems(2) by auto
    then show ?thesis using Node.IH(2) [of r'] Node.prems(1) 2 by auto
  qed
qed auto

lemma insert_all_distinct: "insert_all xs t \<Longrightarrow> bst t \<Longrightarrow> distinct xs \<and> set xs \<inter> set_tree t = {}"
proof (induction xs arbitrary: t)
  case (Cons x xs)
  then obtain t' where t: "insert_tree x t = Some t'" "insert_all xs t'" by (auto split: option.splits)
  note b = insert_tree_bst [OF Cons.prems(2) t(1)]
  then show ?case using Cons.IH [OF t(2)] by auto
qed simp

lemma zone_names_distinct: "distinct (map snd zone_short_names)"
proof -
  have "distinct (map name_code (map snd zone_short_names))" using insert_all_distinct [OF name_codes] by simp
  then show ?thesis by (simp only: distinct_map)
qed

lemma zone_ids_distinct: "distinct (map fst zone_short_names)"
proof -
  have "sorted_wrt (<) (map fst zone_short_names)" using zone_ids_sorted by (simp add: successively_conv_sorted_wrt)
  then show ?thesis by (simp add: strict_sorted_iff)
qed

lemma zone_adds_set: "set zone_adds = set zone_short_names"
  using remdups_adj_set [of zone_adds] zone_adds_short by simp

section \<open>Strings and integers in the table\<close>

lemma unat_of_char: "unat (of_char c :: u8) = of_char c"
proof -
  have "(of_char c :: nat) < 256" by (cases c) (simp add: horner_sum_simps)
  then have "unat (of_nat (of_char c) :: u8) = of_char c" by (simp add: unat_of_nat)
  then show ?thesis by (simp add: of_nat_of_char)
qed

lemma bytes_of_inj: "inj bytes_of"
proof -
  have "inj (of_char :: char \<Rightarrow> u8)" by (rule injI) (metis unat_of_char of_char_eq_iff)
  then show ?thesis unfolding bytes_of_def by simp
qed

lemma bytes_of_null: "CHR 0x00 \<notin> set s \<Longrightarrow> 0 \<notin> set (bytes_of s)"
proof
  assume n: "CHR 0x00 \<notin> set s" and "0 \<in> set (bytes_of s)"
  then obtain c where c: "c \<in> set s" "of_char c = (0 :: u8)" by (auto simp: bytes_of_def)
  then have "of_char c = (0 :: nat)" using unat_of_char [of c] by simp
  then have "of_char c = (of_char (CHR 0x00) :: nat)" by simp
  then show False using n c(1) by (metis of_char_eq_iff)
qed

lemma bytes_int_int_bytes:
  assumes "0 \<le> i" "i < 1000"
  shows "bytes_int (int_bytes i) = i"
proof -
  have "bytes_int (int_bytes i) = sint (word_of_int i :: u32)"
    unfolding bytes_int_def int_bytes_def by (simp only: uint32_roundtrip)
  also have "\<dots> = signed_take_bit 31 i" by transfer simp
  also have "\<dots> = i" using assms by (intro signed_take_bit_int_eq_self) auto
  finally show ?thesis .
qed

section \<open>Looking up a zone\<close>

lemma zone_entries_map:
  assumes "(i, s) \<in> set zone_short_names"
  shows "map_of zone_entries (bytes_of s) = Some (int_bytes i)"
proof -
  have "(bytes_of s, int_bytes i) \<in> set zone_entries"
    using assms by (force simp: zone_entries_def zone_adds_set)
  then obtain v where v: "map_of zone_entries (bytes_of s) = Some v" by (meson map_of_eq_None_iff weak_map_of_SomeI)
  then have "(bytes_of s, v) \<in> set zone_entries" by (rule map_of_SomeD)
  then obtain j where j: "(j, s) \<in> set zone_short_names" "v = int_bytes j"
    by (auto simp: zone_entries_def zone_adds_set dest: injD [OF bytes_of_inj])
  have "inj_on snd (set zone_short_names)" using zone_names_distinct by (simp add: distinct_map)
  then have "j = i" using inj_onD [of snd _ "(j, s)" "(i, s)"] assms j(1) by simp
  then show ?thesis using v j(2) by simp
qed

lemma zone_entries_none: "k \<notin> bytes_of ` snd ` set zone_short_names \<Longrightarrow> map_of zone_entries k = None"
  by (auto simp: map_of_eq_None_iff zone_entries_def zone_adds_set image_image split_beta)

lemma zone_entries_ok: "x \<in> set zone_entries \<Longrightarrow> 0 \<notin> set (fst x) \<and> length (fst x) < 20 \<and> length (snd x) = 4"
  using zone_names_ok bytes_of_null
  by (auto simp: zone_entries_def zone_adds_set list_all_iff int_bytes_def uint32_bytes_def bytes_of_def [symmetric])
    (auto simp: bytes_of_def)

lemma zone_map_spec:
  assumes "ample h"
  shows "\<exists>tbl. zone_short_name_map_create h = Inr tbl \<and> table_inv tbl \<and> ht_contents tbl = map_of zone_entries"
proof -
  obtain t where t: "hash_table_create h 4 = Inr t" using assms by (auto simp: hash_table_create_def ample_def Let_def)
  note c = create_spec [OF t]
  have "length zone_entries \<le> 2 ^ 28"
  proof -
    have "length zone_adds = 483" by code_simp
    then show ?thesis by (simp add: zone_entries_def)
  qed
  moreover have "\<forall>x \<in> set zone_entries. 0 \<notin> set (fst x) \<and> length (fst x) < 2 ^ 31 \<and> length (snd x) = unat (ht_elemSize t)"
    using zone_entries_ok c by fastforce
  ultimately obtain tbl where "set_all h zone_entries t = Inr tbl" "growing tbl" "ht_contents tbl = map_of zone_entries ++ Map.empty"
    using set_all_spec [OF growing_create [OF t] assms, of zone_entries] c by auto
  then show ?thesis using t by (simp add: zone_short_name_map_create_def growing_def)
qed

lemma zone_lookup_none:
  "map_of zone_entries k = None \<Longrightarrow> table_inv tbl \<Longrightarrow> ht_contents tbl = map_of zone_entries \<Longrightarrow> 0 \<notin> set k \<Longrightarrow> length k < 2 ^ 32 \<Longrightarrow>
   zone_id_by_short_name tbl (k @ [0]) (of_nat (length k)) = Inr 0"
  using get_spec [of tbl k "[]"] by (simp add: zone_id_by_short_name_def)

lemma zone_lookup_some:
  assumes "(i, s) \<in> set zone_short_names" "table_inv tbl" "ht_contents tbl = map_of zone_entries"
  shows "zone_id_by_short_name tbl (bytes_of s @ [0]) (of_nat (length s)) = Inr i"
proof -
  have ok: "CHR 0x00 \<notin> set s" "length s < 20" "0 < i" "i < 1000" using zone_names_ok assms(1) by (auto simp: list_all_iff)
  have "length (bytes_of s) < 2 ^ 32" using ok(2) by (simp add: bytes_of_def)
  from get_spec [OF assms(2) bytes_of_null [OF ok(1)] this, of "[]"] zone_entries_map [OF assms(1)] assms(3)
  have "hash_table_get_by_cstr tbl (bytes_of s @ [0]) (of_nat (length s)) = Inr (Some (int_bytes i))"
    by (simp add: bytes_of_def)
  then show ?thesis using ok bytes_int_int_bytes [of i] by (simp add: zone_id_by_short_name_def)
qed

lemma zone_short_name_iff: "(i, s) \<in> set zone_short_names \<Longrightarrow> zone_short_name_by_id i = s"
  using map_of_is_SomeI [OF zone_ids_distinct] by (simp add: zone_short_name_by_id_def)

lemma zone_short_name_in:
  "(if i \<in> fst ` set zone_short_names then i else 1, zone_short_name_by_id i) \<in> set zone_short_names"
proof (cases "map_of zone_short_names i")
  case None
  have "(1, ''qeynos'') \<in> set zone_short_names" by (simp add: zone_short_names_def zone_short_names_1_def)
  moreover have "zone_short_name_by_id i = ''qeynos''" by (simp add: zone_short_name_by_id_def None)
  ultimately show ?thesis using None by (simp add: map_of_eq_None_iff)
next
  case (Some s)
  then have "(i, s) \<in> set zone_short_names" by (rule map_of_SomeD)
  moreover have "i \<in> fst ` set zone_short_names" using calculation by force
  ultimately show ?thesis using Some by (simp add: zone_short_name_by_id_def)
qed

end
