(* ===== verification/Zone.thy ===== *)
theory Zone
  imports Mob Zone_Id Packet_Trilogy
begin

text \<open>
  \<^verbatim>\<open>zone_cluster/zone.c\<close>: a zone and its three tables, of mobs by entity id, of positions
  and of clients. A mob knows its entity id and its index in the table of positions, a client its
  index in the list of clients; spawning and removing have to keep these in step with the tables.
  Mobs and clients live in stores. The mob of a client is its first member, so it has the
  client's address; the record \<open>client\<close> is what follows it. The line of sight map of a zone
  is not modelled, apart from the lowest height it may set.
\<close>

section \<open>Clients\<close>

record coin =
  co_pp :: u32
  co_gp :: u32
  co_sp :: u32
  co_cp :: u32

record loc =
  loc_x :: u32
  loc_y :: u32
  loc_z :: u32
  loc_heading :: u32

record bind_point =
  bp_zoneId :: u16
  bp_instanceId :: u16
  bp_loc :: loc

record client =
  cl_handler :: "nat option"
  cl_expansion :: i32
  cl_refCount :: int
  cl_isStubClient :: bool
  cl_isLocal :: bool
  cl_isFromCharSelect :: bool
  cl_isAutoSplitEnabled :: bool
  cl_isPermanentlyPvP :: bool
  cl_isCurrentlyPvP :: bool
  cl_isGM :: bool
  cl_isAfk :: bool
  cl_isLinkdead :: bool
  cl_isSneaking :: bool
  cl_isHiding :: bool
  cl_loaded :: u8
  cl_anonSetting :: u8
  cl_drunkeness :: u8
  cl_zoneClientIndex :: i32
  cl_inventory :: inventory
  cl_skills :: skills
  cl_spellbook :: spellbook
  cl_coins :: coin
  cl_coinsBank :: coin
  cl_coinsCursor :: coin
  cl_surname :: "nat option"
  cl_guildRank :: u8
  cl_guildId :: i32
  cl_harmtouchTimestamp :: u64
  cl_disciplineTimestamp :: u64
  cl_hungerLevel :: u32
  cl_thirstLevel :: u32
  cl_trainingPoints :: u16
  cl_experience :: u64
  cl_bindPoints :: "bind_point list"
  cl_characterId :: u64
  cl_creationTimestamp :: u64
  cl_accountName :: "nat option"
  cl_accountId :: u32
  cl_ipAddress :: u32

definition ExpansionId_Unknown :: i32 where "ExpansionId_Unknown = 0"
definition ExpansionId_Trilogy :: i32 where "ExpansionId_Trilogy = 1"

section \<open>Zones\<close>

record fog_stats =
  fs_red :: u8
  fs_green :: u8
  fs_blue :: u8
  fs_minClippingDistance :: u32
  fs_maxClippingDistance :: u32

text \<open>The radius is set for characters, clients and pets only.\<close>

record mob_by_position =
  mp_x :: u32
  mp_y :: u32
  mp_z :: u32
  mp_aggroRadiusSquared :: "u32 option"
  mp_mob :: nat

record client_listing =
  ll_expansionId :: i32
  ll_isLinkdead :: bool
  ll_client :: nat

record zone =
  zn_sourceId :: i32
  zn_zoneId :: u16
  zn_instanceId :: u16
  zn_mobsByEntityId :: "nat option vec"
  zn_mobsByPosition :: "mob_by_position vec"
  zn_clientList :: "client_listing vec"
  zn_safeSpot :: loc
  zn_fogStats :: "fog_stats list"
  zn_zoneType :: u8
  zn_skyType :: u16
  zn_gravity :: u32
  zn_minZ :: u32
  zn_minClippingDistance :: u32
  zn_maxClippingDistance :: u32

type_synonym mobs = "nat \<Rightarrow> mob option"
type_synonym clients = "nat \<Rightarrow> client option"

definition sizeof_Zone :: nat where "sizeof_Zone = 200"
definition sizeof_MobByPosition :: u32 where "sizeof_MobByPosition = 24"
definition sizeof_ClientListing :: u32 where "sizeof_ClientListing = 16"
definition sizeof_pointer :: u32 where "sizeof_pointer = 8"

definition float_0_4 :: u32 where "float_0_4 = 0x3ecccccd"
definition float_10 :: u32 where "float_10 = 0x41200000"
definition float_1000 :: u32 where "float_1000 = 0x447a0000"
definition float_20000 :: u32 where "float_20000 = 0x469c4000"
definition float_minus_1 :: u32 where "float_minus_1 = 0xbf800000"
definition float_minus_2 :: u32 where "float_minus_2 = 0xc0000000"
definition float_minus_32000 :: u32 where "float_minus_32000 = 0xc6fa0000"

text \<open>\<open>mapMinZ\<close> is the lowest height of the map file, if there is one.\<close>

definition zone_create :: "heap \<Rightarrow> u32 option \<Rightarrow> i32 \<Rightarrow> i32 \<Rightarrow> i32 \<Rightarrow> zone result" where
  "zone_create h mapMinZ sourceId zoneId instId =
     (if can_alloc h sizeof_Zone
      then bindE (vec_create h sizeof_pointer) (\<lambda>ents.
           bindE (vec_create h sizeof_MobByPosition) (\<lambda>poss.
           bindE (vec_create h sizeof_ClientListing) (\<lambda>clis.
           Inr \<lparr>zn_sourceId = sourceId, zn_zoneId = ucast zoneId, zn_instanceId = ucast instId,
                zn_mobsByEntityId = ents, zn_mobsByPosition = poss, zn_clientList = clis,
                zn_safeSpot = \<lparr>loc_x = 0, loc_y = 0, loc_z = 0, loc_heading = 0\<rparr>,
                zn_fogStats = replicate 4 \<lparr>fs_red = 0, fs_green = 0, fs_blue = 0, fs_minClippingDistance = float_10,
                  fs_maxClippingDistance = float_20000\<rparr>,
                zn_zoneType = 0xff, zn_skyType = 0, zn_gravity = float_0_4,
                zn_minZ = (case mapMinZ of Some z \<Rightarrow> z | None \<Rightarrow> float_minus_32000),
                zn_minClippingDistance = float_1000, zn_maxClippingDistance = float_20000\<rparr>)))
      else Inl ErrorOutOfMemory)"

text \<open>The first gap of the table of entities.\<close>

primrec find_gap :: "nat option list \<Rightarrow> nat option" where
  "find_gap [] = None"
| "find_gap (e # es) = (if e = None then Some 0 else map_option Suc (find_gap es))"

definition mob_at :: "mobs \<Rightarrow> nat \<Rightarrow> mob result" where
  "mob_at ms a = (case ms a of None \<Rightarrow> Inl UndefinedBehaviour | Some m \<Rightarrow> Inr m)"

definition client_at :: "clients \<Rightarrow> nat \<Rightarrow> client result" where
  "client_at cs a = (case cs a of None \<Rightarrow> Inl UndefinedBehaviour | Some c \<Rightarrow> Inr c)"

definition zone_assign_entity_id :: "heap \<Rightarrow> nat option vec \<Rightarrow> nat \<Rightarrow> (nat option vec \<times> i32) result" where
  "zone_assign_entity_id h ents addr =
     (let n = vec_count ents in
      case find_gap (vec_items ents) of
        Some i \<Rightarrow> Inr (ents\<lparr>vec_items := (vec_items ents)[i := Some addr]\<rparr>, of_nat i + 1)
      | None \<Rightarrow> bindE (vec_push h sizeof_pointer ents (Some addr)) (\<lambda>ents. Inr (ents, n + 1)))"

definition aggro_radius :: "i32 \<Rightarrow> u32 option" where
  "aggro_radius mobType =
     (if mobType = MobType_Npc then Some 0
      else if mobType = MobType_Client then Some float_minus_1
      else if mobType = MobType_Pet then Some float_minus_2 else None)"

definition zone_spawn_mob :: "heap \<Rightarrow> zone \<Rightarrow> nat \<Rightarrow> mobs \<Rightarrow> (zone \<times> mobs) result" where
  "zone_spawn_mob h zone addr ms =
     bindE (mob_at ms addr) (\<lambda>mob.
     bindE (zone_assign_entity_id h (zn_mobsByEntityId zone) addr) (\<lambda>(ents, entityId).
     let mob = mob\<lparr>mb_entityId := entityId\<rparr>;
         pos = \<lparr>mp_x = mob_x mob, mp_y = mob_y mob, mp_z = mob_z mob, mp_aggroRadiusSquared = aggro_radius (mob_get_type mob),
                mp_mob = addr\<rparr>;
         n = vec_count (zn_mobsByPosition zone) in
     bindE (vec_push h sizeof_MobByPosition (zn_mobsByPosition zone) pos) (\<lambda>poss.
     Inr (zone\<lparr>zn_mobsByEntityId := ents, zn_mobsByPosition := poss\<rparr>, ms(addr \<mapsto> mob\<lparr>mb_zoneMobIndex := n\<rparr>)))))"

definition client_expansion :: "client \<Rightarrow> i32" where
  "client_expansion client = cl_expansion client"

definition zone_spawn_client :: "heap \<Rightarrow> zone \<Rightarrow> nat \<Rightarrow> mobs \<Rightarrow> clients \<Rightarrow> (zone \<times> mobs \<times> clients) result" where
  "zone_spawn_client h zone addr ms cs =
     bindE (zone_spawn_mob h zone addr ms) (\<lambda>(zone, ms).
     bindE (client_at cs addr) (\<lambda>client.
     let listing = \<lparr>ll_expansionId = client_expansion client, ll_isLinkdead = False, ll_client = addr\<rparr>;
         cs = cs(addr \<mapsto> client\<lparr>cl_zoneClientIndex := vec_count (zn_clientList zone)\<rparr>) in
     bindE (vec_push h sizeof_ClientListing (zn_clientList zone) listing) (\<lambda>clis.
     Inr (zone\<lparr>zn_clientList := clis\<rparr>, ms, cs))))"

text \<open>The element that took the place of a removed one, if any, learns its index.\<close>

definition remove_listing :: "client_listing vec \<Rightarrow> i32 \<Rightarrow> clients \<Rightarrow> (client_listing vec \<times> clients) result" where
  "remove_listing clis cIndex cs =
     (let (clis, swapped) = vec_swap_and_pop clis cIndex in
      if swapped
      then (case vec_get clis cIndex of
              None \<Rightarrow> Inl UndefinedBehaviour
            | Some listing \<Rightarrow>
                bindE (client_at cs (ll_client listing)) (\<lambda>c.
                Inr (clis, cs(ll_client listing \<mapsto> c\<lparr>cl_zoneClientIndex := cIndex\<rparr>))))
      else Inr (clis, cs))"

definition remove_position :: "mob_by_position vec \<Rightarrow> i32 \<Rightarrow> mobs \<Rightarrow> (mob_by_position vec \<times> mobs) result" where
  "remove_position poss mIndex ms =
     (let (poss, swapped) = vec_swap_and_pop poss mIndex in
      if swapped
      then (case vec_get poss mIndex of
              None \<Rightarrow> Inl UndefinedBehaviour
            | Some pos \<Rightarrow>
                bindE (mob_at ms (mp_mob pos)) (\<lambda>m.
                Inr (poss, ms(mp_mob pos \<mapsto> m\<lparr>mb_zoneMobIndex := mIndex\<rparr>))))
      else Inr (poss, ms))"

definition zone_remove_client :: "zone \<Rightarrow> nat \<Rightarrow> mobs \<Rightarrow> clients \<Rightarrow> (zone \<times> mobs \<times> clients) result" where
  "zone_remove_client zone addr ms cs =
     bindE (client_at cs addr) (\<lambda>client.
     bindE (mob_at ms addr) (\<lambda>mob.
     let cIndex = cl_zoneClientIndex client; mIndex = mb_zoneMobIndex mob; entityId = mob_entity_id mob in
     bindE (remove_listing (zn_clientList zone) cIndex cs) (\<lambda>(clis, cs).
     bindE (remove_position (zn_mobsByPosition zone) mIndex ms) (\<lambda>(poss, ms).
     bindE (if entityId \<noteq> 0 then vec_set (zn_mobsByEntityId zone) (entityId - 1) None else Inr (zn_mobsByEntityId zone)) (\<lambda>ents.
     Inr (zone\<lparr>zn_clientList := clis, zn_mobsByPosition := poss, zn_mobsByEntityId := ents\<rparr>, ms, cs))))))"

definition zone_mark_client_as_linkdead :: "zone \<Rightarrow> nat \<Rightarrow> clients \<Rightarrow> zone result" where
  "zone_mark_client_as_linkdead zone addr cs =
     bindE (client_at cs addr) (\<lambda>client.
     let index = cl_zoneClientIndex client in
     case vec_get (zn_clientList zone) index of
       None \<Rightarrow> Inr zone
     | Some listing \<Rightarrow>
         bindE (vec_set (zn_clientList zone) index (listing\<lparr>ll_isLinkdead := True\<rparr>)) (\<lambda>clis.
         Inr (zone\<lparr>zn_clientList := clis\<rparr>)))"

definition zone_get_mob_by_entity_id :: "zone \<Rightarrow> u32 \<Rightarrow> nat option" where
  "zone_get_mob_by_entity_id zone entityId =
     (case vec_get (zn_mobsByEntityId zone) (entityId - 1) of None \<Rightarrow> None | Some m \<Rightarrow> m)"

definition zone_update_mob_position :: "zone \<Rightarrow> i32 \<Rightarrow> u32 \<Rightarrow> u32 \<Rightarrow> u32 \<Rightarrow> zone result" where
  "zone_update_mob_position zone index x y z =
     (case vec_get (zn_mobsByPosition zone) index of
        None \<Rightarrow> Inr zone
      | Some pos \<Rightarrow>
          bindE (vec_set (zn_mobsByPosition zone) index (pos\<lparr>mp_x := x, mp_y := y, mp_z := z\<rparr>)) (\<lambda>poss.
          Inr (zone\<lparr>zn_mobsByPosition := poss\<rparr>)))"

definition mob_set_position :: "zone \<Rightarrow> mobs \<Rightarrow> nat \<Rightarrow> u32 \<Rightarrow> u32 \<Rightarrow> u32 \<Rightarrow> (zone \<times> mobs) result" where
  "mob_set_position zone ms addr x y z =
     bindE (mob_at ms addr) (\<lambda>mob.
     let mob = mob\<lparr>mb_x := x, mb_y := y, mb_z := z\<rparr> in
     bindE (zone_update_mob_position zone (mb_zoneMobIndex mob) x y z) (\<lambda>zone. Inr (zone, ms(addr \<mapsto> mob))))"

section \<open>Broadcasts\<close>

text \<open>\<^verbatim>\<open>packet_broadcast.c\<close>. The encoder and its source are one function of the version
  of the client. The packet is encoded, and split into fragments, for the first client that needs it,
  and shared by the others.\<close>

record packet_broadcast =
  pb_encoder :: "i32 \<Rightarrow> packet option result"
  pb_trilogy :: "packet option"

definition packet_broadcast_init :: "(i32 \<Rightarrow> packet option result) \<Rightarrow> packet_broadcast" where
  "packet_broadcast_init encoder = \<lparr>pb_encoder = encoder, pb_trilogy = None\<rparr>"

definition packet_broadcast_set_packet_for_expansion :: "packet_broadcast \<Rightarrow> i32 \<Rightarrow> packet \<Rightarrow> packet_broadcast result" where
  "packet_broadcast_set_packet_for_expansion pb expansionId packet =
     (if expansionId = ExpansionId_Trilogy
      then bindE (packet_trilogy_fragmentize packet) (\<lambda>p. Inr (pb\<lparr>pb_trilogy := Some p\<rparr>))
      else Inr pb)"

definition packet_broadcast_get_trilogy :: "packet_broadcast \<Rightarrow> (packet_broadcast \<times> packet option) result" where
  "packet_broadcast_get_trilogy pb =
     (case pb_trilogy pb of
        Some p \<Rightarrow> Inr (pb, Some p)
      | None \<Rightarrow>
          bindE (pb_encoder pb ExpansionId_Trilogy) (\<lambda>p.
          case p of
            None \<Rightarrow> Inr (pb, None)
          | Some p \<Rightarrow> bindE (packet_trilogy_fragmentize p) (\<lambda>p. Inr (pb\<lparr>pb_trilogy := Some p\<rparr>, Some p))))"

text \<open>The clients the packet was scheduled for, in order; each holds a reference.\<close>

primrec broadcast_loop :: "client_listing list \<Rightarrow> nat option \<Rightarrow> packet_broadcast \<Rightarrow> (packet_broadcast \<times> nat list) result" where
  "broadcast_loop [] ignore pb = Inr (pb, [])"
| "broadcast_loop (l # ls) ignore pb =
     (if Some (ll_client l) = ignore \<or> ll_isLinkdead l then broadcast_loop ls ignore pb
      else if ll_expansionId l = ExpansionId_Trilogy
      then bindE (packet_broadcast_get_trilogy pb) (\<lambda>(pb, packet).
           case packet of
             None \<Rightarrow> broadcast_loop ls ignore pb
           | Some p \<Rightarrow>
               bindE (broadcast_loop ls ignore (pb\<lparr>pb_trilogy := Some (packet_trilogy_grab p)\<rparr>)) (\<lambda>(pb, to).
               Inr (pb, ll_client l # to)))
      else broadcast_loop ls ignore pb)"

definition zone_broadcast_packet :: "zone \<Rightarrow> packet_broadcast \<Rightarrow> nat option \<Rightarrow> (packet_broadcast \<times> nat list) result" where
  "zone_broadcast_packet zone pb ignore = broadcast_loop (vec_items (zn_clientList zone)) ignore pb"

section \<open>Properties of a zone\<close>

definition zone_get_short_name :: "zone \<Rightarrow> string" where
  "zone_get_short_name zone = zone_short_name_by_id (uint (zn_zoneId zone))"

definition zone_get_long_name :: "zone \<Rightarrow> string" where
  "zone_get_long_name zone = zone_long_name_by_id (uint (zn_zoneId zone))"

definition zone_set_safe_spot :: "zone \<Rightarrow> u32 \<Rightarrow> u32 \<Rightarrow> u32 \<Rightarrow> u32 \<Rightarrow> zone" where
  "zone_set_safe_spot zone x y z heading = zone\<lparr>zn_safeSpot := \<lparr>loc_x = x, loc_y = y, loc_z = z, loc_heading = heading\<rparr>\<rparr>"

definition zone_get_source_id :: "zone \<Rightarrow> i32" where
  "zone_get_source_id zone = zn_sourceId zone"

definition zone_get_zone_id :: "zone \<Rightarrow> u16" where
  "zone_get_zone_id zone = zn_zoneId zone"

definition zone_get_instance_id :: "zone \<Rightarrow> u16" where
  "zone_get_instance_id zone = zn_instanceId zone"

definition zone_get_zone_type_id :: "zone \<Rightarrow> u8" where
  "zone_get_zone_type_id zone = zn_zoneType zone"

definition zone_get_sky_id :: "zone \<Rightarrow> u16" where
  "zone_get_sky_id zone = zn_skyType zone"

definition zone_get_gravity :: "zone \<Rightarrow> u32" where
  "zone_get_gravity zone = zn_gravity zone"

definition zone_get_min_clipping_distance :: "zone \<Rightarrow> u32" where
  "zone_get_min_clipping_distance zone = zn_minClippingDistance zone"

definition zone_get_max_clipping_distance :: "zone \<Rightarrow> u32" where
  "zone_get_max_clipping_distance zone = zn_maxClippingDistance zone"

definition zone_get_safe_spot_x :: "zone \<Rightarrow> u32" where
  "zone_get_safe_spot_x zone = loc_x (zn_safeSpot zone)"

definition zone_get_safe_spot_y :: "zone \<Rightarrow> u32" where
  "zone_get_safe_spot_y zone = loc_y (zn_safeSpot zone)"

definition zone_get_safe_spot_z :: "zone \<Rightarrow> u32" where
  "zone_get_safe_spot_z zone = loc_z (zn_safeSpot zone)"

definition zone_get_safe_spot_heading :: "zone \<Rightarrow> u32" where
  "zone_get_safe_spot_heading zone = loc_heading (zn_safeSpot zone)"

definition zone_set_zone_type_id :: "zone \<Rightarrow> u32 \<Rightarrow> zone" where
  "zone_set_zone_type_id zone id' = zone\<lparr>zn_zoneType := ucast id'\<rparr>"

definition zone_set_sky_id :: "zone \<Rightarrow> u32 \<Rightarrow> zone" where
  "zone_set_sky_id zone id' = zone\<lparr>zn_skyType := ucast id'\<rparr>"

definition zone_set_gravity :: "zone \<Rightarrow> u32 \<Rightarrow> zone" where
  "zone_set_gravity zone value' = zone\<lparr>zn_gravity := value'\<rparr>"

definition zone_set_min_clipping_distance :: "zone \<Rightarrow> u32 \<Rightarrow> zone" where
  "zone_set_min_clipping_distance zone value' = zone\<lparr>zn_minClippingDistance := value'\<rparr>"

definition zone_set_max_clipping_distance :: "zone \<Rightarrow> u32 \<Rightarrow> zone" where
  "zone_set_max_clipping_distance zone value' = zone\<lparr>zn_maxClippingDistance := value'\<rparr>"

end
