(* ===== verification/Zone_Tables.thy ===== *)
theory Zone_Tables
  imports Zone
begin

text \<open>
  The tables of a zone stay in step with what its mobs and clients know of them. Two of the three
  tables follow one scheme, elements that are removed by swapping the last one into their place and
  whose owners keep their index: the locale \<open>indexed_table\<close>, interpreted for the positions
  and for the list of clients.
\<close>

section \<open>Tables whose owners know their index\<close>

definition drop_swap :: "nat \<Rightarrow> 'e list \<Rightarrow> 'e list" where
  "drop_swap i xs = butlast (xs[i := last xs])"

lemma length_drop_swap [simp]: "length (drop_swap i xs) = length xs - 1"
  by (simp add: drop_swap_def)

lemma nth_drop_swap:
  "i < length xs \<Longrightarrow> j < length xs - 1 \<Longrightarrow> drop_swap i xs ! j = (if j = i then last xs else xs ! j)"
  by (auto simp: drop_swap_def nth_butlast nth_list_update)

lemma set_drop_swap:
  assumes "i < length xs" "distinct (map f xs)"
  shows "f ` set (drop_swap i xs) = f ` set xs - {f (xs ! i)}"
proof -
  have d: "f (xs ! j) = f (xs ! k) \<longleftrightarrow> j = k" if "j < length xs" "k < length xs" for j k
    using assms(2) that nth_eq_iff_index_eq [of "map f xs" j k] by simp
  have l: "last xs = xs ! (length xs - 1)" using assms(1) by (intro last_conv_nth) auto
  show ?thesis
  proof (intro set_eqI iffI)
    fix y assume "y \<in> f ` set (drop_swap i xs)"
    then obtain j where j: "j < length xs - 1" "y = f (drop_swap i xs ! j)" by (auto simp: in_set_conv_nth)
    then show "y \<in> f ` set xs - {f (xs ! i)}"
      using nth_drop_swap [OF assms(1) j(1)] d [of "length xs - 1" i] d [of j i] assms(1) l by (auto simp: image_iff)
  next
    fix y assume "y \<in> f ` set xs - {f (xs ! i)}"
    then obtain k where k: "k < length xs" "y = f (xs ! k)" "k \<noteq> i" using d assms(1) by (auto simp: in_set_conv_nth)
    define j where "j = (if k = length xs - 1 then i else k)"
    have j: "j < length xs - 1" using k assms(1) by (auto simp: j_def)
    have "y = f (drop_swap i xs ! j)"
      unfolding nth_drop_swap [OF assms(1) j] using k l by (auto simp: j_def)
    then show "y \<in> f ` set (drop_swap i xs)" using j by (auto intro!: imageI nth_mem)
  qed
qed

locale indexed_table =
  fixes addr :: "'e \<Rightarrow> nat" and idx :: "'o \<Rightarrow> u32" and set_idx :: "u32 \<Rightarrow> 'o \<Rightarrow> 'o"
  assumes idx_set [simp]: "idx (set_idx i x) = i"
begin

definition indexed :: "'e list \<Rightarrow> (nat \<Rightarrow> 'o option) \<Rightarrow> bool" where
  "indexed xs st \<longleftrightarrow> length xs \<le> 2 ^ 24 \<and> (\<forall>i. i < length xs \<longrightarrow> (\<exists>x. st (addr (xs ! i)) = Some x \<and> idx x = of_nat i))"

lemma indexed_at: "indexed xs st \<Longrightarrow> i < length xs \<Longrightarrow> \<exists>x. st (addr (xs ! i)) = Some x \<and> idx x = of_nat i"
  by (simp add: indexed_def)

lemma indexed_distinct: "indexed xs st \<Longrightarrow> distinct (map addr xs)"
proof (unfold distinct_conv_nth, intro allI impI)
  fix i j assume h: "indexed xs st" and i: "i < length (map addr xs)" "j < length (map addr xs)" "i \<noteq> j"
  obtain x y where "st (addr (xs ! i)) = Some x" "idx x = of_nat i" "st (addr (xs ! j)) = Some y" "idx y = of_nat j"
    using indexed_at [OF h, of i] indexed_at [OF h, of j] i by auto
  moreover have "(of_nat i :: u32) \<noteq> of_nat j"
  proof
    assume "(of_nat i :: u32) = of_nat j"
    moreover have "i < 2 ^ 32" "j < 2 ^ 32" using h i by (auto simp: indexed_def)
    ultimately show False using i(3) by (metis unat_of_nat_u32)
  qed
  ultimately show "map addr xs ! i \<noteq> map addr xs ! j" using i by auto
qed

lemma indexed_index: "indexed xs st \<Longrightarrow> e \<in> set xs \<Longrightarrow> st (addr e) = Some x \<Longrightarrow> unat (idx x) < length xs \<and> xs ! unat (idx x) = e"
proof -
  assume h: "indexed xs st" "e \<in> set xs" "st (addr e) = Some x"
  then obtain i where i: "i < length xs" "xs ! i = e" by (auto simp: in_set_conv_nth)
  then have "idx x = of_nat i" using h by (force simp: indexed_def)
  moreover have "i < 2 ^ 32" using h(1) i by (auto simp: indexed_def)
  ultimately show ?thesis using i by (simp add: unat_of_nat_u32)
qed

lemma indexed_push:
  assumes "indexed xs st" "addr e \<notin> addr ` set xs" "length xs < 2 ^ 24" "idx x = of_nat (length xs)"
  shows "indexed (xs @ [e]) (st(addr e \<mapsto> x))"
  unfolding indexed_def
proof (intro conjI allI impI)
  fix i assume "i < length (xs @ [e])"
  then show "\<exists>y. (st(addr e \<mapsto> x)) (addr ((xs @ [e]) ! i)) = Some y \<and> idx y = of_nat i"
  proof (cases "i < length xs")
    case True
    then have "addr (xs ! i) \<noteq> addr e" using assms(2) by (metis imageI nth_mem)
    then show ?thesis using indexed_at [OF assms(1) True] True by (simp add: nth_append)
  qed (use assms(4) in \<open>simp add: nth_append less_Suc_eq\<close>)
qed (use assms in simp)

lemma indexed_other: "indexed xs st \<Longrightarrow> (\<And>e. e \<in> set xs \<Longrightarrow> \<exists>y. st' (addr e) = Some y \<and> (\<exists>x. st (addr e) = Some x \<and> idx y = idx x)) \<Longrightarrow>
  indexed xs st'"
  unfolding indexed_def by (metis nth_mem option.inject)

lemma indexed_kept:
  assumes "indexed xs st" "\<And>e. e \<in> set xs \<Longrightarrow> map_option idx (st' (addr e)) = map_option idx (st (addr e))"
  shows "indexed xs st'"
proof (rule indexed_other [OF assms(1)])
  fix e assume e: "e \<in> set xs"
  then obtain i where "i < length xs" "e = xs ! i" by (auto simp: in_set_conv_nth)
  then obtain x where "st (addr e) = Some x" using indexed_at [OF assms(1)] by blast
  then show "\<exists>y. st' (addr e) = Some y \<and> (\<exists>x. st (addr e) = Some x \<and> idx y = idx x)" using assms(2) [OF e] by auto
qed

lemma indexed_fresh: "indexed xs st \<Longrightarrow> a \<notin> addr ` set xs \<Longrightarrow> indexed xs (st(a := v))"
proof (rule indexed_other)
  fix e assume h: "indexed xs st" "a \<notin> addr ` set xs" "e \<in> set xs"
  then obtain i where "i < length xs" "e = xs ! i" by (auto simp: in_set_conv_nth)
  then show "\<exists>y. (st(a := v)) (addr e) = Some y \<and> (\<exists>x. st (addr e) = Some x \<and> idx y = idx x)"
    using indexed_at [OF h(1), of i] h(2,3) by (auto simp: image_iff)
qed

lemma indexed_same:
  assumes "indexed xs st" "st a = Some x" "idx y = idx x"
  shows "indexed xs (st(a \<mapsto> y))"
  using assms by (intro indexed_other [OF assms(1)]) (auto simp: indexed_def in_set_conv_nth)

lemma indexed_map: "indexed xs st \<Longrightarrow> length ys = length xs \<Longrightarrow> (\<And>i. i < length xs \<Longrightarrow> addr (ys ! i) = addr (xs ! i)) \<Longrightarrow> indexed ys st"
  by (auto simp: indexed_def)

text \<open>Removing the element at an index: the last one takes its place and learns it.\<close>

lemma indexed_remove:
  assumes "indexed xs st" "i < length xs"
  shows "(if Suc i \<noteq> length xs
          then \<exists>x. st (addr (last xs)) = Some x \<and> indexed (drop_swap i xs) (st(addr (last xs) \<mapsto> set_idx (of_nat i) x))
          else indexed (drop_swap i xs) st)"
proof -
  have d: "addr (xs ! j) = addr (xs ! k) \<longleftrightarrow> j = k" if "j < length xs" "k < length xs" for j k
    using indexed_distinct [OF assms(1)] that nth_eq_iff_index_eq [of "map addr xs" j k] by simp
  have l: "last xs = xs ! (length xs - 1)" using assms(2) by (intro last_conv_nth) auto
  show ?thesis
  proof (cases "Suc i = length xs")
    case True
    have "drop_swap i xs = butlast xs" using True l unfolding drop_swap_def by (metis diff_Suc_1 list_update_id)
    then show ?thesis using assms(1) True by (auto simp: indexed_def nth_butlast)
  next
    case False
    obtain x where x: "st (addr (last xs)) = Some x" using indexed_at [OF assms(1), of "length xs - 1"] assms(2) l by (metis diff_less length_pos_if_in_set nth_mem zero_less_one)
    have "indexed (drop_swap i xs) (st(addr (last xs) \<mapsto> set_idx (of_nat i) x))"
      unfolding indexed_def
    proof (intro conjI allI impI)
      fix j assume j: "j < length (drop_swap i xs)"
      then show "\<exists>y. (st(addr (last xs) \<mapsto> set_idx (of_nat i) x)) (addr (drop_swap i xs ! j)) = Some y \<and> idx y = of_nat j"
        using nth_drop_swap [OF assms(2), of j] d [of j "length xs - 1"] l assms False by (auto simp: indexed_def)
    qed (use assms in \<open>auto simp: indexed_def\<close>)
    then show ?thesis using x False by simp
  qed
qed

end

interpretation pos: indexed_table mp_mob mb_zoneMobIndex "\<lambda>i m. m\<lparr>mb_zoneMobIndex := i\<rparr>"
  by unfold_locales simp

interpretation lst: indexed_table ll_client cl_zoneClientIndex "\<lambda>i c. c\<lparr>cl_zoneClientIndex := i\<rparr>"
  by unfold_locales simp

section \<open>The table of entities\<close>

abbreviation ents :: "zone \<Rightarrow> nat option list" where "ents z \<equiv> vec_items (zn_mobsByEntityId z)"
abbreviation poss :: "zone \<Rightarrow> mob_by_position list" where "poss z \<equiv> vec_items (zn_mobsByPosition z)"
abbreviation clis :: "zone \<Rightarrow> client_listing list" where "clis z \<equiv> vec_items (zn_clientList z)"

definition members :: "nat option list \<Rightarrow> nat set" where
  "members es = {a. Some a \<in> set es}"

definition ents_ok :: "nat option list \<Rightarrow> mobs \<Rightarrow> bool" where
  "ents_ok es ms \<longleftrightarrow> length es \<le> 2 ^ 24 \<and>
     (\<forall>i a. i < length es \<longrightarrow> es ! i = Some a \<longrightarrow> (\<exists>m. ms a = Some m \<and> mb_entityId m = of_nat (Suc i)))"

lemma find_gap_Some: "find_gap es = Some i \<Longrightarrow> i < length es \<and> es ! i = None"
  by (induction es arbitrary: i) (auto split: if_splits)

lemma ents_at: "ents_ok es ms \<Longrightarrow> i < length es \<Longrightarrow> es ! i = Some a \<Longrightarrow> \<exists>m. ms a = Some m \<and> mb_entityId m = of_nat (Suc i)"
  by (simp add: ents_ok_def)

lemma ents_index:
  assumes "ents_ok es ms" "a \<in> members es" "ms a = Some m"
  shows "unat (mb_entityId m - 1) < length es \<and> es ! unat (mb_entityId m - 1) = Some a \<and> mb_entityId m \<noteq> 0"
proof -
  obtain i where i: "i < length es" "es ! i = Some a" using assms(2) by (auto simp: members_def in_set_conv_nth)
  then have e: "mb_entityId m = of_nat (Suc i)" using ents_at [OF assms(1), of i a] assms(3) by simp
  have lt: "Suc i < 2 ^ 32" using i(1) assms(1) by (simp add: ents_ok_def)
  then have "unat (mb_entityId m) = Suc i" unfolding e by (rule unat_of_nat_u32)
  moreover from this have "unat (mb_entityId m - 1) = i" by (subst unat_pred) simp_all
  ultimately show ?thesis using i by auto
qed

lemma members_update:
  "i < length es \<Longrightarrow> b \<in> members (es[i := e]) \<longleftrightarrow> e = Some b \<or> (\<exists>j < length es. j \<noteq> i \<and> es ! j = Some b)"
proof
  assume h: "i < length es" "b \<in> members (es[i := e])"
  then obtain j where "j < length es" "es[i := e] ! j = Some b" by (auto simp: members_def in_set_conv_nth)
  then show "e = Some b \<or> (\<exists>j < length es. j \<noteq> i \<and> es ! j = Some b)" using h(1) by (cases "j = i") auto
next
  assume h: "i < length es" "e = Some b \<or> (\<exists>j < length es. j \<noteq> i \<and> es ! j = Some b)"
  then obtain j where "j < length es" "es[i := e] ! j = Some b" by (metis nth_list_update_eq nth_list_update_neq)
  then show "b \<in> members (es[i := e])" unfolding members_def by (metis (mono_tags) length_list_update mem_Collect_eq nth_mem)
qed

lemma members_nth: "b \<in> members es \<longleftrightarrow> (\<exists>j < length es. es ! j = Some b)"
  by (simp add: members_def in_set_conv_nth)

lemma members_set_None:
  assumes "ents_ok es ms" "a \<in> members es" "ms a = Some m"
  shows "members (es[unat (mb_entityId m - 1) := None]) = members es - {a}"
proof -
  let ?i = "unat (mb_entityId m - 1)"
  note i = ents_index [OF assms]
  have u: "j = ?i" if "j < length es" "es ! j = Some a" for j
  proof -
    have "mb_entityId m = of_nat (Suc j)" using ents_at [OF assms(1) that] assms(3) by simp
    moreover have "Suc j < 2 ^ 32" using that(1) assms(1) by (simp add: ents_ok_def)
    ultimately have "unat (mb_entityId m) = Suc j" by (simp only: unat_of_nat_u32)
    then show ?thesis by (subst unat_pred) simp_all
  qed
  show ?thesis
  proof (rule set_eqI)
    fix b
    have "b \<in> members (es[?i := None]) \<longleftrightarrow> (\<exists>j < length es. j \<noteq> ?i \<and> es ! j = Some b)" using i by (simp add: members_update)
    also have "\<dots> \<longleftrightarrow> b \<in> members es - {a}" unfolding members_nth Diff_iff singleton_iff using i u by (metis option.inject)
    finally show "b \<in> members (es[?i := None]) \<longleftrightarrow> b \<in> members es - {a}" .
  qed
qed

lemma members_set_Some: "i < length es \<Longrightarrow> es ! i = None \<Longrightarrow> members (es[i := Some a]) = insert a (members es)"
proof (rule set_eqI)
  fix b assume "i < length es" "es ! i = None"
  then show "b \<in> members (es[i := Some a]) \<longleftrightarrow> b \<in> insert a (members es)"
    using members_update [of i es b "Some a"] members_nth [of b es] by auto
qed

lemma ents_ok_other:
  assumes "ents_ok es ms" "\<And>a m. a \<in> members es \<Longrightarrow> ms a = Some m \<Longrightarrow> \<exists>m'. ms' a = Some m' \<and> mb_entityId m' = mb_entityId m"
  shows "ents_ok es ms'"
  unfolding ents_ok_def
proof (intro conjI allI impI)
  fix i a assume i: "i < length es" "es ! i = Some a"
  then have "a \<in> members es" by (auto simp: members_def in_set_conv_nth)
  then show "\<exists>m. ms' a = Some m \<and> mb_entityId m = of_nat (Suc i)" using ents_at [OF assms(1) i] assms(2) [of a] by auto
qed (use assms(1) in \<open>simp add: ents_ok_def\<close>)

lemma assign_entity_id_spec:
  assumes "ents_ok (vec_items v) ms" "vec_ok sizeof_pointer v" "ample h" "a \<notin> members (vec_items v)" "length (vec_items v) < 2 ^ 24"
  shows "\<exists>v' e. zone_assign_entity_id h v a = Inr (v', e) \<and> vec_ok sizeof_pointer v' \<and>
    members (vec_items v') = insert a (members (vec_items v)) \<and>
    (\<forall>m. mb_entityId m = e \<longrightarrow> ents_ok (vec_items v') (ms(a \<mapsto> m)))"
proof (cases "find_gap (vec_items v)")
  case (Some i)
  note g = find_gap_Some [OF Some]
  have "\<exists>m'. (ms(a \<mapsto> m)) b = Some m' \<and> mb_entityId m' = of_nat (Suc j)"
    if "mb_entityId m = of_nat (Suc i)" "j < length (vec_items v)" "(vec_items v)[i := Some a] ! j = Some b" for m j b
  proof (cases "j = i")
    case False
    then have j: "vec_items v ! j = Some b" using that(3) by simp
    then have "b \<noteq> a" using assms(4) that(2) by (auto simp: members_def in_set_conv_nth)
    then show ?thesis using ents_at [OF assms(1) that(2) j] by simp
  qed (use that g in simp)
  then show ?thesis using Some g assms
    by (auto simp: zone_assign_entity_id_def Let_def members_set_Some ents_ok_def intro: vec_ok_shrink)
next
  case None
  have "2 * length (vec_items v) * unat sizeof_pointer < 2 ^ 32" "0 < unat sizeof_pointer"
    using assms(5) by (simp_all add: sizeof_pointer_def)
  from vec_push_ample [OF assms(2,3) this, of "Some a"] obtain v' where v': "vec_push h sizeof_pointer v (Some a) = Inr v'"
    "vec_ok sizeof_pointer v'" "vec_items v' = vec_items v @ [Some a]" by blast
  have "\<exists>m'. (ms(a \<mapsto> m)) b = Some m' \<and> mb_entityId m' = of_nat (Suc j)"
    if "mb_entityId m = of_nat (length (vec_items v)) + 1" "j < Suc (length (vec_items v))" "(vec_items v @ [Some a]) ! j = Some b" for m j b
  proof (cases "j = length (vec_items v)")
    case False
    then have j: "j < length (vec_items v)" "vec_items v ! j = Some b" using that by (auto simp: nth_append)
    then have "b \<noteq> a" using assms(4) by (auto simp: members_def in_set_conv_nth)
    then show ?thesis using ents_at [OF assms(1) j] by simp
  qed (use that in \<open>simp add: add.commute\<close>)
  then show ?thesis using None v' assms(5)
    by (auto simp: zone_assign_entity_id_def Let_def vec_count_def ents_ok_def members_def)
qed

section \<open>The zone\<close>

definition zone_mobs :: "zone \<Rightarrow> nat set" where
  "zone_mobs z = mp_mob ` set (poss z)"

definition zone_clients :: "zone \<Rightarrow> nat set" where
  "zone_clients z = ll_client ` set (clis z)"

definition fits :: "zone \<Rightarrow> bool" where
  "fits z \<longleftrightarrow> length (ents z) < 2 ^ 24 \<and> length (poss z) < 2 ^ 24 \<and> length (clis z) < 2 ^ 24"

definition zone_ok :: "zone \<Rightarrow> mobs \<Rightarrow> clients \<Rightarrow> bool" where
  "zone_ok z ms cs \<longleftrightarrow>
     vec_ok sizeof_pointer (zn_mobsByEntityId z) \<and> vec_ok sizeof_MobByPosition (zn_mobsByPosition z) \<and>
     vec_ok sizeof_ClientListing (zn_clientList z) \<and>
     members (ents z) = zone_mobs z \<and> zone_clients z \<subseteq> zone_mobs z \<and>
     ents_ok (ents z) ms \<and> pos.indexed (poss z) ms \<and> lst.indexed (clis z) cs"

lemma zone_create_ok: "zone_create h mapMinZ sourceId zoneId instId = Inr z \<Longrightarrow> zone_ok z ms cs"
proof -
  assume "zone_create h mapMinZ sourceId zoneId instId = Inr z"
  then obtain es ps ls where v: "vec_create h sizeof_pointer = Inr es" "vec_create h sizeof_MobByPosition = Inr ps"
    "vec_create h sizeof_ClientListing = Inr ls"
    "zn_mobsByEntityId z = es" "zn_mobsByPosition z = ps" "zn_clientList z = ls"
    by (auto simp: zone_create_def result_simps split: if_splits)
  have "2 * unat sizeof_pointer < 2 ^ 32" "2 * unat sizeof_MobByPosition < 2 ^ 32" "2 * unat sizeof_ClientListing < 2 ^ 32"
    by (simp_all add: sizeof_pointer_def sizeof_MobByPosition_def sizeof_ClientListing_def)
  then show ?thesis using vec_create_spec [OF v(1)] vec_create_spec [OF v(2)] vec_create_spec [OF v(3)] v(4-6)
    by (simp add: zone_ok_def zone_mobs_def zone_clients_def members_def ents_ok_def pos.indexed_def lst.indexed_def)
qed

lemma spawn_mob_ok:
  assumes "zone_ok z ms cs" "fits z" "ample h" "a \<notin> zone_mobs z" "ms a = Some m"
  shows "\<exists>z' m'. zone_spawn_mob h z a ms = Inr (z', ms(a \<mapsto> m')) \<and> zone_ok z' (ms(a \<mapsto> m')) cs \<and>
    zone_mobs z' = insert a (zone_mobs z) \<and> zn_clientList z' = zn_clientList z"
proof -
  have ok: "ents_ok (ents z) ms" "vec_ok sizeof_pointer (zn_mobsByEntityId z)" "a \<notin> members (ents z)"
    "vec_ok sizeof_MobByPosition (zn_mobsByPosition z)" "pos.indexed (poss z) ms"
    using assms(1,4) by (auto simp: zone_ok_def)
  obtain es e where e: "zone_assign_entity_id h (zn_mobsByEntityId z) a = Inr (es, e)" "vec_ok sizeof_pointer es"
    "members (vec_items es) = insert a (members (ents z))" "\<And>m. mb_entityId m = e \<Longrightarrow> ents_ok (vec_items es) (ms(a \<mapsto> m))"
    using assign_entity_id_spec [OF ok(1,2) assms(3) ok(3)] assms(2) unfolding fits_def by blast
  define p where "p = \<lparr>mp_x = mob_x m, mp_y = mob_y m, mp_z = mob_z m, mp_aggroRadiusSquared = aggro_radius (mob_get_type m), mp_mob = a\<rparr>"
  have "2 * length (poss z) * unat sizeof_MobByPosition < 2 ^ 32" "0 < unat sizeof_MobByPosition"
    using assms(2) by (simp_all add: fits_def sizeof_MobByPosition_def)
  from vec_push_ample [OF ok(4) assms(3) this, of p] obtain ps where ps: "vec_push h sizeof_MobByPosition (zn_mobsByPosition z) p = Inr ps"
    "vec_ok sizeof_MobByPosition ps" "vec_items ps = poss z @ [p]" by blast
  define m' where "m' = m\<lparr>mb_entityId := e, mb_zoneMobIndex := vec_count (zn_mobsByPosition z)\<rparr>"
  define z' where "z' = z\<lparr>zn_mobsByEntityId := es, zn_mobsByPosition := ps\<rparr>"
  have r: "zone_spawn_mob h z a ms = Inr (z', ms(a \<mapsto> m'))"
    using e(1) ps(1) assms(5)
    by (simp add: zone_spawn_mob_def mob_at_def Let_def m'_def z'_def p_def mob_x_def mob_y_def mob_z_def mob_get_type_def)
  have "mp_mob p \<notin> mp_mob ` set (poss z)" using assms(4) by (simp add: p_def zone_mobs_def)
  from pos.indexed_push [OF ok(5) this, of m'] have "pos.indexed (poss z') (ms(a \<mapsto> m'))"
    using assms(2) ps(3) by (simp add: z'_def m'_def p_def vec_count_def fits_def)
  moreover have "ents_ok (ents z') (ms(a \<mapsto> m'))" using e(4) [of m'] by (simp add: m'_def z'_def)
  moreover have zm: "zone_mobs z' = insert a (zone_mobs z)" using ps(3) by (simp add: zone_mobs_def z'_def p_def)
  ultimately have "zone_ok z' (ms(a \<mapsto> m')) cs"
    using assms(1) e(2,3) ps(2) by (auto simp: zone_ok_def z'_def zone_clients_def)
  then show ?thesis using r zm by (auto simp: z'_def)
qed

lemma spawn_client_ok:
  assumes "zone_ok z ms cs" "fits z" "ample h" "a \<notin> zone_mobs z" "ms a = Some m" "cs a = Some c"
  shows "\<exists>z' m' c'. zone_spawn_client h z a ms cs = Inr (z', ms(a \<mapsto> m'), cs(a \<mapsto> c')) \<and>
    zone_ok z' (ms(a \<mapsto> m')) (cs(a \<mapsto> c')) \<and> zone_mobs z' = insert a (zone_mobs z) \<and> zone_clients z' = insert a (zone_clients z)"
proof -
  obtain z1 m' where s: "zone_spawn_mob h z a ms = Inr (z1, ms(a \<mapsto> m'))" "zone_ok z1 (ms(a \<mapsto> m')) cs"
    "zone_mobs z1 = insert a (zone_mobs z)" "zn_clientList z1 = zn_clientList z"
    using spawn_mob_ok [OF assms(1-5)] by blast
  define l where "l = \<lparr>ll_expansionId = client_expansion c, ll_isLinkdead = False, ll_client = a\<rparr>"
  define c' where "c' = c\<lparr>cl_zoneClientIndex := vec_count (zn_clientList z)\<rparr>"
  have "vec_ok sizeof_ClientListing (zn_clientList z)" using assms(1) by (simp add: zone_ok_def)
  moreover have "2 * length (clis z) * unat sizeof_ClientListing < 2 ^ 32" "0 < unat sizeof_ClientListing"
    using assms(2) by (simp_all add: fits_def sizeof_ClientListing_def)
  ultimately obtain ls where ls: "vec_push h sizeof_ClientListing (zn_clientList z) l = Inr ls"
    "vec_ok sizeof_ClientListing ls" "vec_items ls = clis z @ [l]" using vec_push_ample [OF _ assms(3), of _ _ l] by blast
  define z' where "z' = z1\<lparr>zn_clientList := ls\<rparr>"
  have r: "zone_spawn_client h z a ms cs = Inr (z', ms(a \<mapsto> m'), cs(a \<mapsto> c'))"
    using s ls(1) assms(6) by (simp add: zone_spawn_client_def client_at_def Let_def l_def c'_def z'_def)
  have "a \<notin> zone_clients z" using assms(1,4) by (auto simp: zone_ok_def)
  then have "lst.indexed (vec_items ls) (cs(a \<mapsto> c'))"
    using lst.indexed_push [of "clis z" cs l c'] assms(1,2) ls(3)
    by (simp add: zone_ok_def zone_clients_def fits_def l_def c'_def vec_count_def)
  moreover have zc: "zone_clients z' = insert a (zone_clients z)" using ls(3) by (simp add: zone_clients_def z'_def l_def)
  moreover have zm: "zone_mobs z' = insert a (zone_mobs z)" using s(3) by (simp add: zone_mobs_def z'_def)
  ultimately have "zone_ok z' (ms(a \<mapsto> m')) (cs(a \<mapsto> c'))" using s(2,3) ls(2) assms(1)
    by (auto simp: zone_ok_def z'_def zone_mobs_def)
  then show ?thesis using r zc zm by auto
qed

lemma remove_listing_ok:
  assumes "lst.indexed (vec_items v) cs" "vec_ok sizeof_ClientListing v" "l \<in> set (vec_items v)" "cs (ll_client l) = Some c"
  shows "\<exists>v' cs'. remove_listing v (cl_zoneClientIndex c) cs = Inr (v', cs') \<and> vec_ok sizeof_ClientListing v' \<and>
    lst.indexed (vec_items v') cs' \<and> ll_client ` set (vec_items v') = ll_client ` set (vec_items v) - {ll_client l} \<and>
    (\<forall>b. cs' b = None \<longleftrightarrow> cs b = None)"
proof -
  let ?xs = "vec_items v" and ?i = "unat (cl_zoneClientIndex c)"
  have i: "?i < length ?xs" "?xs ! ?i = l" using lst.indexed_index [OF assms(1,3,4)] by simp_all
  note sd = set_drop_swap [OF i(1) lst.indexed_distinct [OF assms(1)]]
  have sp: "vec_swap_and_pop v (cl_zoneClientIndex c) = (v\<lparr>vec_items := drop_swap ?i ?xs\<rparr>, Suc ?i \<noteq> length ?xs)"
    using i(1) by (simp add: vec_swap_and_pop_def Let_def drop_swap_def)
  have vok: "vec_ok sizeof_ClientListing (v\<lparr>vec_items := drop_swap ?i ?xs\<rparr>)" by (rule vec_ok_shrink [OF assms(2)]) simp
  note ir = lst.indexed_remove [OF assms(1) i(1)]
  show ?thesis
  proof (cases "Suc ?i = length ?xs")
    case True
    then show ?thesis using sp vok ir sd i by (simp add: remove_listing_def)
  next
    case False
    then obtain x where x: "cs (ll_client (last ?xs)) = Some x"
      "lst.indexed (drop_swap ?i ?xs) (cs(ll_client (last ?xs) \<mapsto> x\<lparr>cl_zoneClientIndex := cl_zoneClientIndex c\<rparr>))"
      using ir by auto
    have "?i < length ?xs - 1" using i(1) False by linarith
    then have g: "vec_get (v\<lparr>vec_items := drop_swap ?i ?xs\<rparr>) (cl_zoneClientIndex c) = Some (last ?xs)"
      using nth_drop_swap [OF i(1), of ?i] by (simp add: vec_get_def)
    then show ?thesis using sp vok x sd i False by (auto simp: remove_listing_def client_at_def)
  qed
qed

lemma remove_position_ok:
  assumes "pos.indexed (vec_items v) ms" "vec_ok sizeof_MobByPosition v" "p \<in> set (vec_items v)" "ms (mp_mob p) = Some m"
  shows "\<exists>v' ms'. remove_position v (mb_zoneMobIndex m) ms = Inr (v', ms') \<and> vec_ok sizeof_MobByPosition v' \<and>
    pos.indexed (vec_items v') ms' \<and> mp_mob ` set (vec_items v') = mp_mob ` set (vec_items v) - {mp_mob p} \<and>
    (\<forall>b. map_option mb_entityId (ms' b) = map_option mb_entityId (ms b))"
proof -
  let ?xs = "vec_items v" and ?i = "unat (mb_zoneMobIndex m)"
  have i: "?i < length ?xs" "?xs ! ?i = p" using pos.indexed_index [OF assms(1,3,4)] by simp_all
  note sd = set_drop_swap [OF i(1) pos.indexed_distinct [OF assms(1)]]
  have sp: "vec_swap_and_pop v (mb_zoneMobIndex m) = (v\<lparr>vec_items := drop_swap ?i ?xs\<rparr>, Suc ?i \<noteq> length ?xs)"
    using i(1) by (simp add: vec_swap_and_pop_def Let_def drop_swap_def)
  have vok: "vec_ok sizeof_MobByPosition (v\<lparr>vec_items := drop_swap ?i ?xs\<rparr>)" by (rule vec_ok_shrink [OF assms(2)]) simp
  note ir = pos.indexed_remove [OF assms(1) i(1)]
  show ?thesis
  proof (cases "Suc ?i = length ?xs")
    case True
    then show ?thesis using sp vok ir sd i by (simp add: remove_position_def)
  next
    case False
    then obtain x where x: "ms (mp_mob (last ?xs)) = Some x"
      "pos.indexed (drop_swap ?i ?xs) (ms(mp_mob (last ?xs) \<mapsto> x\<lparr>mb_zoneMobIndex := mb_zoneMobIndex m\<rparr>))"
      using ir by auto
    have "?i < length ?xs - 1" using i(1) False by linarith
    then have g: "vec_get (v\<lparr>vec_items := drop_swap ?i ?xs\<rparr>) (mb_zoneMobIndex m) = Some (last ?xs)"
      using nth_drop_swap [OF i(1), of ?i] by (simp add: vec_get_def)
    then show ?thesis using sp vok x sd i False by (auto simp: remove_position_def mob_at_def)
  qed
qed

lemma remove_client_ok:
  assumes "zone_ok z ms cs" "a \<in> zone_clients z"
  shows "\<exists>z' ms' cs'. zone_remove_client z a ms cs = Inr (z', ms', cs') \<and> zone_ok z' ms' cs' \<and>
    zone_mobs z' = zone_mobs z - {a} \<and> zone_clients z' = zone_clients z - {a} \<and>
    (\<forall>b. map_option mb_entityId (ms' b) = map_option mb_entityId (ms b)) \<and> (\<forall>b. cs' b = None \<longleftrightarrow> cs b = None)"
proof -
  have ok: "vec_ok sizeof_pointer (zn_mobsByEntityId z)" "vec_ok sizeof_MobByPosition (zn_mobsByPosition z)"
    "vec_ok sizeof_ClientListing (zn_clientList z)" "members (ents z) = zone_mobs z" "zone_clients z \<subseteq> zone_mobs z"
    "ents_ok (ents z) ms" "pos.indexed (poss z) ms" "lst.indexed (clis z) cs"
    using assms(1) by (simp_all add: zone_ok_def)
  obtain l where l: "l \<in> set (clis z)" "ll_client l = a" using assms(2) by (auto simp: zone_clients_def)
  obtain p where p: "p \<in> set (poss z)" "mp_mob p = a" using ok(5) assms(2) by (auto simp: zone_mobs_def)
  obtain c where c: "cs a = Some c" using lst.indexed_at [OF ok(8)] l by (auto simp: in_set_conv_nth)
  obtain m where m: "ms a = Some m" using pos.indexed_at [OF ok(7)] p by (auto simp: in_set_conv_nth)
  obtain ls cs' where L: "remove_listing (zn_clientList z) (cl_zoneClientIndex c) cs = Inr (ls, cs')" "vec_ok sizeof_ClientListing ls"
    "lst.indexed (vec_items ls) cs'" "ll_client ` set (vec_items ls) = zone_clients z - {a}" "\<forall>b. cs' b = None \<longleftrightarrow> cs b = None"
    using remove_listing_ok [OF ok(8,3) l(1), of c] c l(2) by (auto simp: zone_clients_def)
  obtain ps ms' where P: "remove_position (zn_mobsByPosition z) (mb_zoneMobIndex m) ms = Inr (ps, ms')" "vec_ok sizeof_MobByPosition ps"
    "pos.indexed (vec_items ps) ms'" "mp_mob ` set (vec_items ps) = zone_mobs z - {a}"
    "\<forall>b. map_option mb_entityId (ms' b) = map_option mb_entityId (ms b)"
    using remove_position_ok [OF ok(7,2) p(1), of m] m p(2) by (auto simp: zone_mobs_def)
  have am: "a \<in> members (ents z)" using ok(4,5) assms(2) by auto
  note ei = ents_index [OF ok(6) am m]
  define es where "es = (zn_mobsByEntityId z)\<lparr>vec_items := (ents z)[unat (mb_entityId m - 1) := None]\<rparr>"
  have E: "vec_set (zn_mobsByEntityId z) (mb_entityId m - 1) None = Inr es" using ei by (simp add: vec_set_def es_def)
  define z' where "z' = z\<lparr>zn_clientList := ls, zn_mobsByPosition := ps, zn_mobsByEntityId := es\<rparr>"
  have r: "zone_remove_client z a ms cs = Inr (z', ms', cs')"
    using c m L(1) P(1) E ei by (simp add: zone_remove_client_def client_at_def mob_at_def Let_def mob_entity_id_def z'_def)
  have "ents_ok (ents z') ms"
    using ok(6) ei by (auto simp: z'_def es_def ents_ok_def nth_list_update)
  then have "ents_ok (ents z') ms'"
    by (rule ents_ok_other) (use P(5) in \<open>metis option.map_disc_iff option.map_sel option.sel option.exhaust_sel option.distinct(1)\<close>)
  moreover have "members (ents z') = zone_mobs z - {a}" using members_set_None [OF ok(6) am m] ok(4) by (simp add: z'_def es_def)
  moreover have "vec_ok sizeof_pointer es" unfolding es_def by (rule vec_ok_shrink [OF ok(1)]) simp
  ultimately have "zone_ok z' ms' cs'" "zone_mobs z' = zone_mobs z - {a}" "zone_clients z' = zone_clients z - {a}"
    using L P ok(5) by (auto simp: zone_ok_def z'_def zone_mobs_def zone_clients_def)
  then show ?thesis using r P(5) L(5) by blast
qed

lemma set_position_ok:
  assumes "zone_ok z ms cs" "mob_set_position z ms a x y h' = Inr (z', ms')"
  shows "zone_ok z' ms' cs"
proof -
  obtain m where m: "ms a = Some m" using assms(2) by (auto simp: mob_set_position_def mob_at_def split: option.splits)
  define m' where "m' = m\<lparr>mb_x := x, mb_y := y, mb_z := h'\<rparr>"
  have r: "zone_update_mob_position z (mb_zoneMobIndex m) x y h' = Inr z'" "ms' = ms(a \<mapsto> m')"
    using assms(2) m by (auto simp: mob_set_position_def mob_at_def Let_def result_simps m'_def)
  have ok: "ents_ok (ents z) ms" "pos.indexed (poss z) ms" using assms(1) by (simp_all add: zone_ok_def)
  have e: "ents_ok (ents z) ms'" unfolding r(2) using m by (intro ents_ok_other [OF ok(1)]) (auto simp: m'_def)
  have p: "pos.indexed (poss z) ms'" unfolding r(2) using m by (intro pos.indexed_same [OF ok(2)]) (auto simp: m'_def)
  show ?thesis
  proof (cases "vec_get (zn_mobsByPosition z) (mb_zoneMobIndex m)")
    case None
    then show ?thesis using r(1) assms(1) e p by (simp add: zone_update_mob_position_def zone_ok_def)
  next
    case (Some q)
    define q' where "q' = q\<lparr>mp_x := x, mp_y := y, mp_z := h'\<rparr>"
    have i: "unat (mb_zoneMobIndex m) < length (poss z)" "q = poss z ! unat (mb_zoneMobIndex m)"
      using Some by (auto simp: vec_get_def split: if_splits)
    have z': "z' = z\<lparr>zn_mobsByPosition := (zn_mobsByPosition z)\<lparr>vec_items := (poss z)[unat (mb_zoneMobIndex m) := q']\<rparr>\<rparr>"
      using r(1) Some i by (simp add: zone_update_mob_position_def vec_set_def q'_def)
    have ma: "map mp_mob (poss z') = map mp_mob (poss z)"
      using i by (intro nth_equalityI) (auto simp: z' nth_list_update q'_def)
    have "pos.indexed (poss z') ms'"
      by (rule pos.indexed_map [OF p]) (use i in \<open>auto simp: z' nth_list_update q'_def\<close>)
    moreover have "zone_mobs z' = zone_mobs z" unfolding zone_mobs_def by (metis ma list.set_map)
    moreover have "vec_ok sizeof_MobByPosition (zn_mobsByPosition z')"
      using assms(1) vec_ok_shrink [of _ "zn_mobsByPosition z"] by (simp add: z' zone_ok_def)
    ultimately show ?thesis using assms(1) e by (simp add: zone_ok_def z' zone_clients_def)
  qed
qed

lemma linkdead_ok:
  assumes "zone_ok z ms cs" "zone_mark_client_as_linkdead z a cs = Inr z'"
  shows "zone_ok z' ms cs"
proof -
  obtain c where c: "cs a = Some c"
    using assms(2) by (auto simp: zone_mark_client_as_linkdead_def client_at_def split: option.splits)
  show ?thesis
  proof (cases "vec_get (zn_clientList z) (cl_zoneClientIndex c)")
    case None
    then show ?thesis using assms c by (simp add: zone_mark_client_as_linkdead_def client_at_def)
  next
    case (Some l)
    then have i: "unat (cl_zoneClientIndex c) < length (clis z)" "l = clis z ! unat (cl_zoneClientIndex c)"
      by (auto simp: vec_get_def split: if_splits)
    have z': "z' = z\<lparr>zn_clientList := (zn_clientList z)\<lparr>vec_items := (clis z)[unat (cl_zoneClientIndex c) := l\<lparr>ll_isLinkdead := True\<rparr>]\<rparr>\<rparr>"
      using assms(2) c Some i by (simp add: zone_mark_client_as_linkdead_def client_at_def vec_set_def Let_def)
    have ma: "map ll_client (clis z') = map ll_client (clis z)"
      using i by (intro nth_equalityI) (auto simp: z' nth_list_update)
    have "lst.indexed (clis z) cs" using assms(1) by (simp add: zone_ok_def)
    then have "lst.indexed (clis z') cs"
      by (rule lst.indexed_map) (use i in \<open>auto simp: z' nth_list_update\<close>)
    moreover have "zone_clients z' = zone_clients z" unfolding zone_clients_def by (metis ma list.set_map)
    moreover have "vec_ok sizeof_ClientListing (zn_clientList z')"
      using assms(1) vec_ok_shrink [of _ "zn_clientList z"] by (simp add: z' zone_ok_def)
    ultimately show ?thesis using assms(1) by (simp add: zone_ok_def z' zone_mobs_def)
  qed
qed

text \<open>What can happen to a zone and to the stores. The last rule is anything else that is done to
  mobs and clients: it leaves what they know of the tables alone.\<close>

inductive zone_reach :: "heap \<Rightarrow> zone \<Rightarrow> mobs \<Rightarrow> clients \<Rightarrow> bool" for h where
  created: "zone_create h mapMinZ sourceId zoneId instId = Inr z \<Longrightarrow> zone_reach h z ms cs"
| spawned: "zone_reach h z ms cs \<Longrightarrow> fits z \<Longrightarrow> a \<notin> zone_mobs z \<Longrightarrow> zone_spawn_mob h z a ms = Inr (z', ms') \<Longrightarrow>
    zone_reach h z' ms' cs"
| joined: "zone_reach h z ms cs \<Longrightarrow> fits z \<Longrightarrow> a \<notin> zone_mobs z \<Longrightarrow> zone_spawn_client h z a ms cs = Inr (z', ms', cs') \<Longrightarrow>
    zone_reach h z' ms' cs'"
| parted: "zone_reach h z ms cs \<Longrightarrow> a \<in> zone_clients z \<Longrightarrow> zone_remove_client z a ms cs = Inr (z', ms', cs') \<Longrightarrow>
    zone_reach h z' ms' cs'"
| moved: "zone_reach h z ms cs \<Longrightarrow> mob_set_position z ms a x y h' = Inr (z', ms') \<Longrightarrow> zone_reach h z' ms' cs"
| linkdead: "zone_reach h z ms cs \<Longrightarrow> zone_mark_client_as_linkdead z a cs = Inr z' \<Longrightarrow> zone_reach h z' ms cs"
| elsewhere: "zone_reach h z ms cs \<Longrightarrow>
    (\<And>b. b \<in> zone_mobs z \<Longrightarrow> map_option mb_entityId (ms' b) = map_option mb_entityId (ms b) \<and>
       map_option mb_zoneMobIndex (ms' b) = map_option mb_zoneMobIndex (ms b)) \<Longrightarrow>
    (\<And>b. b \<in> zone_clients z \<Longrightarrow> map_option cl_zoneClientIndex (cs' b) = map_option cl_zoneClientIndex (cs b)) \<Longrightarrow>
    zone_reach h z ms' cs'"

lemma spawn_mob_present: "zone_spawn_mob h z a ms = Inr r \<Longrightarrow> \<exists>m. ms a = Some m"
  by (auto simp: zone_spawn_mob_def mob_at_def split: option.splits)

lemma elsewhere_ok:
  assumes "zone_ok z ms cs"
    "\<And>b. b \<in> zone_mobs z \<Longrightarrow> map_option mb_entityId (ms' b) = map_option mb_entityId (ms b) \<and>
       map_option mb_zoneMobIndex (ms' b) = map_option mb_zoneMobIndex (ms b)"
    "\<And>b. b \<in> zone_clients z \<Longrightarrow> map_option cl_zoneClientIndex (cs' b) = map_option cl_zoneClientIndex (cs b)"
  shows "zone_ok z ms' cs'"
proof -
  have ok: "ents_ok (ents z) ms" "pos.indexed (poss z) ms" "lst.indexed (clis z) cs" "members (ents z) = zone_mobs z"
    using assms(1) by (simp_all add: zone_ok_def)
  have "ents_ok (ents z) ms'"
  proof (rule ents_ok_other [OF ok(1)])
    fix a m assume "a \<in> members (ents z)" "ms a = Some m"
    then show "\<exists>m'. ms' a = Some m' \<and> mb_entityId m' = mb_entityId m" using assms(2) [of a] ok(4) by auto
  qed
  moreover have "pos.indexed (poss z) ms'"
    by (rule pos.indexed_kept [OF ok(2)]) (use assms(2) in \<open>simp add: zone_mobs_def\<close>)
  moreover have "lst.indexed (clis z) cs'"
    by (rule lst.indexed_kept [OF ok(3)]) (use assms(3) in \<open>simp add: zone_clients_def\<close>)
  ultimately show ?thesis using assms(1) by (simp add: zone_ok_def)
qed

lemma zone_reach_ok: "zone_reach h z ms cs \<Longrightarrow> ample h \<Longrightarrow> zone_ok z ms cs"
proof (induction rule: zone_reach.induct)
  case (spawned z ms cs a z' ms')
  then show ?case using spawn_mob_ok [of z ms cs h a] spawn_mob_present [of h z a ms] by fastforce
next
  case (joined z ms cs a z' ms' cs')
  have "\<exists>m. ms a = Some m" "\<exists>c. cs a = Some c" using joined(4)
    by (auto simp: zone_spawn_client_def result_simps client_at_def split: option.splits dest: spawn_mob_present)
  then show ?case using spawn_client_ok [of z ms cs h a] joined by fastforce
next
  case (parted z ms cs a z' ms' cs')
  then show ?case using remove_client_ok [of z ms cs a] by fastforce
qed (auto intro: zone_create_ok set_position_ok linkdead_ok elsewhere_ok)

lemma zone_ok_lookup:
  assumes "zone_ok z ms cs" "a \<in> zone_mobs z"
  shows "\<exists>m. ms a = Some m \<and> zone_get_mob_by_entity_id z (mb_entityId m) = Some a \<and>
    unat (mb_zoneMobIndex m) < length (poss z) \<and> mp_mob (poss z ! unat (mb_zoneMobIndex m)) = a"
proof -
  have ok: "ents_ok (ents z) ms" "pos.indexed (poss z) ms" "a \<in> members (ents z)" using assms by (simp_all add: zone_ok_def)
  obtain p where p: "p \<in> set (poss z)" "mp_mob p = a" using assms(2) by (auto simp: zone_mobs_def)
  then obtain m where m: "ms a = Some m" using pos.indexed_at [OF ok(2)] by (auto simp: in_set_conv_nth)
  show ?thesis using ents_index [OF ok(1,3) m] pos.indexed_index [OF ok(2) p(1), of m] m p(2)
    by (simp add: zone_get_mob_by_entity_id_def vec_get_def)
qed

end
