(* ===== verification/World_Properties.thy ===== *)
theory World_Properties
  imports Runtime_Properties Zone_Tables
begin

text \<open>
  What is promised of the data of the world: the names of the zones, the calendar, and the data of a
  player that are loaded from the database.
\<close>

section \<open>Zones\<close>

text \<open>C26. The map of short names is always built, and gives back every zone id from its short name;
  an id that no zone has counts as the first zone, a name that no zone has gives 0. The zones that
  have a long name are those that have a short one.\<close>

theorem zone_names_roundtrip:
  assumes "ample h"
  shows "\<exists>tbl. zone_short_name_map_create h = Inr tbl \<and>
    (\<forall>i. zone_id_by_short_name tbl (bytes_of (zone_short_name_by_id i) @ [0]) (of_nat (length (zone_short_name_by_id i)))
           = Inr (if i \<in> fst ` set zone_short_names then i else 1)) \<and>
    (\<forall>s. CHR 0x00 \<notin> set s \<and> length s < 2 ^ 32 \<and> s \<notin> range zone_short_name_by_id
           \<longrightarrow> zone_id_by_short_name tbl (bytes_of s @ [0]) (of_nat (length s)) = Inr 0) \<and>
    fst ` set zone_long_names = fst ` set zone_short_names"
proof -
  obtain tbl where tbl: "zone_short_name_map_create h = Inr tbl" "table_inv tbl" "ht_contents tbl = map_of zone_entries"
    using zone_map_spec [OF assms] by blast
  have "zone_id_by_short_name tbl (bytes_of s @ [0]) (of_nat (length s)) = Inr 0"
    if "CHR 0x00 \<notin> set s" "length s < 2 ^ 32" "s \<notin> range zone_short_name_by_id" for s
  proof -
    have "bytes_of s \<notin> bytes_of ` snd ` set zone_short_names"
    proof
      assume "bytes_of s \<in> bytes_of ` snd ` set zone_short_names"
      then obtain i where "(i, s) \<in> set zone_short_names" by (auto dest: injD [OF bytes_of_inj])
      then show False using that(3) zone_short_name_iff by (metis rangeI)
    qed
    from zone_lookup_none [OF zone_entries_none [OF this] tbl(2,3) bytes_of_null [OF that(1)]] that(2)
    show ?thesis by (simp add: bytes_of_def)
  qed
  then show ?thesis using tbl(1) zone_lookup_some [OF zone_short_name_in tbl(2,3)] arg_cong [OF zone_long_ids, of set]
    by (intro exI [of _ tbl]) simp
qed

theorem zone_names_roundtrip_witness:
  "\<exists>tbl. zone_short_name_map_create roomy = Inr tbl \<and>
     zone_id_by_short_name tbl (bytes_of ''freporte'' @ [0]) 8 = Inr 10"
proof -
  obtain tbl where tbl: "zone_short_name_map_create roomy = Inr tbl"
    "\<And>i. zone_id_by_short_name tbl (bytes_of (zone_short_name_by_id i) @ [0]) (of_nat (length (zone_short_name_by_id i)))
           = Inr (if i \<in> fst ` set zone_short_names then i else 1)"
    using zone_names_roundtrip [OF ample_roomy] by blast
  have "zone_short_name_by_id 10 = ''freporte''" "10 \<in> fst ` set zone_short_names" by code_simp+
  then show ?thesis using tbl(1) tbl(2) [of 10] by simp
qed

section \<open>The calendar\<close>

definition no_date :: eq_time where
  "no_date = \<lparr>et_hour = 0, et_minute = 0, et_day = 0, et_month = 0, et_year = 0\<rparr>"

text \<open>C27. For 65536 years of the game after its base, the date computed from the clock is a date of
  the calendar, and names exactly the minute that has been reached, three seconds of the clock each.\<close>

theorem eq_time_correct:
  assumes "unat (now - base) div 3 < 525600 * 65536"
  shows "date_ok (eq_time_calc now t base) \<and> date_minutes (eq_time_calc now t base) = unat (now - base) div 3"
  by (rule eq_time_spec [OF refl assms])

theorem eq_time_correct_witness:
  "date_ok (eq_time_calc 6000000 no_date 10) \<and>
   date_minutes (eq_time_calc 6000000 no_date 10) = 1999996"
  using eq_time_correct [of 6000000 10] by simp

section \<open>Inventory\<close>


definition a_row :: "u16 \<Rightarrow> u32 \<Rightarrow> inventory_slot" where
  "a_row slot itm = \<lparr>is_slotId = slot, is_augSlotId = 0, is_itemId = itm, is_item = None\<rparr>"


section \<open>The tables of a zone\<close>

text \<open>C29. However mobs are spawned and clients come, move, lose their connection and leave, every mob
  of a zone is found under its entity id and at its position's index, every client at its index in the
  list; a listed client can always be removed, which removes it and nobody else, and anyone
  else can be spawned while there is room.\<close>

theorem zone_tables_in_step:
  assumes "zone_reach h z ms cs" "ample h"
  shows "(\<forall>a \<in> zone_mobs z. \<exists>m. ms a = Some m \<and> zone_get_mob_by_entity_id z (mb_entityId m) = Some a \<and>
            unat (mb_zoneMobIndex m) < length (poss z) \<and> mp_mob (poss z ! unat (mb_zoneMobIndex m)) = a) \<and>
    (\<forall>a \<in> zone_clients z. \<exists>z' ms' cs'. zone_remove_client z a ms cs = Inr (z', ms', cs') \<and>
            zone_mobs z' = zone_mobs z - {a} \<and> zone_clients z' = zone_clients z - {a} \<and>
            (\<forall>b. map_option mb_entityId (ms' b) = map_option mb_entityId (ms b))) \<and>
    (\<forall>a. fits z \<and> a \<notin> zone_mobs z \<and> ms a \<noteq> None \<and> cs a \<noteq> None \<longrightarrow>
            (\<exists>z' m' c'. zone_spawn_client h z a ms cs = Inr (z', ms(a \<mapsto> m'), cs(a \<mapsto> c')) \<and>
               zone_mobs z' = insert a (zone_mobs z) \<and> zone_clients z' = insert a (zone_clients z)))"
proof -
  note ok = zone_reach_ok [OF assms]
  show ?thesis
  proof (intro conjI ballI allI impI)
    fix a assume "a \<in> zone_mobs z"
    then show "\<exists>m. ms a = Some m \<and> zone_get_mob_by_entity_id z (mb_entityId m) = Some a \<and>
        unat (mb_zoneMobIndex m) < length (poss z) \<and> mp_mob (poss z ! unat (mb_zoneMobIndex m)) = a"
      by (rule zone_ok_lookup [OF ok])
  next
    fix a assume "a \<in> zone_clients z"
    from remove_client_ok [OF ok this]
    show "\<exists>z' ms' cs'. zone_remove_client z a ms cs = Inr (z', ms', cs') \<and> zone_mobs z' = zone_mobs z - {a} \<and>
        zone_clients z' = zone_clients z - {a} \<and> (\<forall>b. map_option mb_entityId (ms' b) = map_option mb_entityId (ms b))" by blast
  next
    fix a assume "fits z \<and> a \<notin> zone_mobs z \<and> ms a \<noteq> None \<and> cs a \<noteq> None"
    then show "\<exists>z' m' c'. zone_spawn_client h z a ms cs = Inr (z', ms(a \<mapsto> m'), cs(a \<mapsto> c')) \<and>
        zone_mobs z' = insert a (zone_mobs z) \<and> zone_clients z' = insert a (zone_clients z)"
      using spawn_client_ok [OF ok _ assms(2)] by fast
  qed
qed

theorem zone_tables_in_step_witness:
  "\<exists>z m. zone_reach roomy z [5 \<mapsto> m] Map.empty \<and> zone_mobs z = {5} \<and> zone_get_mob_by_entity_id z (mb_entityId m) = Some 5"
proof -
  obtain z0 where z0: "zone_create roomy None 1 1 0 = Inr z0"
    by (simp add: zone_create_def roomy_def vec_create_def)
  have e: "ents z0 = []" "poss z0 = []" "clis z0 = []" using z0 by (auto simp: zone_create_def roomy_def vec_create_def)
  have r0: "zone_reach roomy z0 [5 \<mapsto> zero_mob] Map.empty" by (rule zone_reach.created [OF z0])
  have f: "fits z0" "5 \<notin> zone_mobs z0" using e by (simp_all add: fits_def zone_mobs_def)
  obtain z m where z: "zone_spawn_mob roomy z0 5 [5 \<mapsto> zero_mob] = Inr (z, [5 \<mapsto> zero_mob](5 \<mapsto> m))" "zone_mobs z = insert 5 (zone_mobs z0)"
    using spawn_mob_ok [OF zone_reach_ok [OF r0 ample_roomy] f(1) ample_roomy f(2)] by auto
  have r: "zone_reach roomy z [5 \<mapsto> m] Map.empty" using zone_reach.spawned [OF r0 f z(1)] by simp
  have "zone_mobs z = {5}" using z(2) e by (simp add: zone_mobs_def)
  moreover from this have "zone_get_mob_by_entity_id z (mb_entityId m) = Some 5"
    using zone_tables_in_step [OF r ample_roomy] by simp
  ultimately show ?thesis using r by blast
qed

section \<open>The health bar\<close>

text \<open>The percentage of health sent to clients is between 0 and 100 for a mob whose health is
  between 0 and its maximum; with a maximum of 0 the computation is undefined.\<close>

lemma hp_ratio_percentage:
  assumes "0 \<le> sint (mb_currentHp m)" "sint (mb_currentHp m) \<le> sint (st_maxHp (mb_currentStats m))"
    "sint (mb_currentHp m) * 100 < 2 ^ 63"
  shows "if st_maxHp (mb_currentStats m) = 0 then mob_hp_ratio m = Inl UndefinedBehaviour
         else \<exists>r. mob_hp_ratio m = Inr r \<and> unat r \<le> 100"
proof (cases "st_maxHp (mb_currentStats m) = 0")
  case True
  then show ?thesis by (simp add: mob_hp_ratio_def Let_def)
next
  case False
  let ?a = "sint (mb_currentHp m)" and ?b = "sint (st_maxHp (mb_currentStats m))"
  have "?b \<noteq> 0" using False by (simp add: signed_eq_0_iff)
  then have b: "0 < ?b" using assms(1,2) by linarith
  note s = sdiv_bounds [OF assms(1,2) b]
  have "\<not> (?a * 100 < -(2 ^ 63) \<or> 2 ^ 63 \<le> ?a * 100 \<or> ?b = 0 \<or> (?a * 100 = -(2 ^ 63) \<and> ?b = -1))"
    using assms b by linarith
  then have "mob_hp_ratio m = Inr (word_of_int ((?a * 100) sdiv ?b))" unfolding mob_hp_ratio_def Let_def by (rule if_not_P)
  moreover have "unat (word_of_int ((?a * 100) sdiv ?b) :: u8) \<le> 100"
  proof -
    have "uint (word_of_int ((?a * 100) sdiv ?b) :: u8) = (?a * 100) sdiv ?b"
      using s by (simp add: uint_word_of_int take_bit_int_eq_self)
    then show ?thesis using s by (simp add: unat_eq_nat_uint nat_le_iff)
  qed
  ultimately show ?thesis using False by simp
qed

end
