(* ===== verification/Client.thy ===== *)
theory Client
  imports Zone
begin

text \<open>
  \<^verbatim>\<open>zone_cluster/mob/client.c\<close>: a client while it zones in. Its data are loaded by five
  queries that run in the background, a sixth is started by the first; their callbacks and the
  connection of the player come in any order, and the one that comes last sends the player into the zone.
  What is called in other parts of the program (timers, Lua, the database, packets) is recorded, in
  order. Values of the database are read through sqlite, which is a parameter.
\<close>

section \<open>The database as the callbacks see it\<close>

text \<open>A real number is kept as the float the code makes of it.\<close>

datatype dbval = DbNull | DbInt u64 | DbReal u32 | DbText bytes

type_synonym row = "dbval list"

record sqlite =
  column_int64 :: "dbval \<Rightarrow> u64"
  column_float :: "dbval \<Rightarrow> u32"
  column_text :: "dbval \<Rightarrow> bytes"

text \<open>What is documented of reading a value of the type asked for, and of reading NULL as a number.\<close>

definition sqlite_ok :: "sqlite \<Rightarrow> bool" where
  "sqlite_ok q \<longleftrightarrow> (\<forall>v. column_int64 q (DbInt v) = v) \<and> column_int64 q DbNull = 0 \<and>
     (\<forall>r. column_float q (DbReal r) = r) \<and> (\<forall>t. column_text q (DbText t) = t)"

text \<open>Columns are counted from 1; a column the statement does not have reads as NULL.\<close>

definition column :: "row \<Rightarrow> nat \<Rightarrow> dbval" where
  "column row col = (if 1 \<le> col \<and> col \<le> length row then row ! (col - 1) else DbNull)"

definition query_get_int :: "sqlite \<Rightarrow> row \<Rightarrow> nat \<Rightarrow> i32" where
  "query_get_int q row col = ucast (column_int64 q (column row col))"

definition query_get_int64 :: "sqlite \<Rightarrow> row \<Rightarrow> nat \<Rightarrow> u64" where
  "query_get_int64 q row col = column_int64 q (column row col)"

definition query_get_double :: "sqlite \<Rightarrow> row \<Rightarrow> nat \<Rightarrow> u32" where
  "query_get_double q row col = column_float q (column row col)"

definition query_get_string :: "sqlite \<Rightarrow> row \<Rightarrow> nat \<Rightarrow> bytes" where
  "query_get_string q row col = column_text q (column row col)"

definition query_is_null :: "row \<Rightarrow> nat \<Rightarrow> bool" where
  "query_is_null row col \<longleftrightarrow> column row col = DbNull"

section \<open>One client\<close>

datatype effect =
    ScheduleQuery string u64
  | TimerInit | TimerStart | TimerRestart | TimerDeinit
  | LuaCreateClient | LuaEvent string | LuaDestroyObject
  | SendPlayerProfile | SendZoneEntry | SendWeather i32 i32
  | SendCustomMessage u32 bytes
  | SendDisconnect nat | DropHandler nat | GrabHandler nat
  | Freed

record cstate =
  cs_client :: client
  cs_mob :: mob
  cs_strings :: string_store
  cs_effects :: "effect list"

definition emit_effect :: "effect \<Rightarrow> cstate \<Rightarrow> cstate" where
  "emit_effect e s = s\<lparr>cs_effects := cs_effects s @ [e]\<rparr>"

definition upd_client :: "(client \<Rightarrow> client) \<Rightarrow> cstate \<Rightarrow> cstate" where
  "upd_client f s = s\<lparr>cs_client := f (cs_client s)\<rparr>"

record client_zoning =
  cz_accountId :: u32
  cz_ipAddress :: u32
  cz_characterId :: u64
  cz_isLocal :: i32
  cz_isFromCharSelect :: i32
  cz_accountName :: bytes
  cz_characterName :: bytes

text \<open>The bits of \<^verbatim>\<open>loaded\<close>.\<close>

definition Loaded_connection :: u8 where "Loaded_connection = 0x01"
definition Loaded_stats :: u8 where "Loaded_stats = 0x02"
definition Loaded_inventory :: u8 where "Loaded_inventory = 0x04"
definition Loaded_skills :: u8 where "Loaded_skills = 0x08"
definition Loaded_spellbook :: u8 where "Loaded_spellbook = 0x10"
definition Loaded_memmedSpells :: u8 where "Loaded_memmedSpells = 0x20"
definition Loaded_bindPoints :: u8 where "Loaded_bindPoints = 0x40"
definition Loaded_unused :: u8 where "Loaded_unused = 0x80"

lemmas loaded_bits = Loaded_connection_def Loaded_stats_def Loaded_inventory_def Loaded_skills_def Loaded_spellbook_def
  Loaded_memmedSpells_def Loaded_bindPoints_def Loaded_unused_def

definition set_loaded :: "u8 \<Rightarrow> cstate \<Rightarrow> cstate" where
  "set_loaded b = upd_client (\<lambda>c. c\<lparr>cl_loaded := cl_loaded c OR b\<rparr>)"

definition is_loaded :: "u8 \<Rightarrow> cstate \<Rightarrow> bool" where
  "is_loaded b s \<longleftrightarrow> cl_loaded (cs_client s) AND b \<noteq> 0"

definition zero_coin :: coin where
  "zero_coin = \<lparr>co_pp = 0, co_gp = 0, co_sp = 0, co_cp = 0\<rparr>"

definition zero_loc :: loc where
  "zero_loc = \<lparr>loc_x = 0, loc_y = 0, loc_z = 0, loc_heading = 0\<rparr>"

definition zero_bind_point :: bind_point where
  "zero_bind_point = \<lparr>bp_zoneId = 0, bp_instanceId = 0, bp_loc = zero_loc\<rparr>"

definition zero_inventory :: inventory where
  "zero_inventory = \<lparr>inv_primaryIndex = 0, inv_secondaryIndex = 0, inv_rangeIndex = 0, inv_ammoIndex = 0,
     inv_slots = None, inv_cursorQueue = None\<rparr>"

text \<open>Memory after \<^verbatim>\<open>memset\<close>.\<close>

definition zero_client_struct :: client where
  "zero_client_struct =
     \<lparr>cl_handler = None, cl_expansion = 0, cl_refCount = 0, cl_isStubClient = False, cl_isLocal = False,
      cl_isFromCharSelect = False, cl_isAutoSplitEnabled = False, cl_isPermanentlyPvP = False, cl_isCurrentlyPvP = False,
      cl_isGM = False, cl_isAfk = False, cl_isLinkdead = False, cl_isSneaking = False, cl_isHiding = False,
      cl_loaded = 0, cl_anonSetting = 0, cl_drunkeness = 0, cl_zoneClientIndex = 0,
      cl_inventory = zero_inventory, cl_skills = \<lparr>sk_skill = replicate Skill_COUNT 0, sk_language = replicate Lang_COUNT 0\<rparr>,
      cl_spellbook = \<lparr>sb_knownSpells = None, sb_memorized = replicate EQP_MEMORIZED_SPELL_SLOTS
        \<lparr>ms_spellId = 0, ms_castingTimeMilliseconds = 0, ms_recastTimestamp = 0\<rparr>\<rparr>,
      cl_coins = zero_coin, cl_coinsBank = zero_coin, cl_coinsCursor = zero_coin, cl_surname = None, cl_guildRank = 0,
      cl_guildId = 0, cl_harmtouchTimestamp = 0, cl_disciplineTimestamp = 0, cl_hungerLevel = 0, cl_thirstLevel = 0,
      cl_trainingPoints = 0, cl_experience = 0, cl_bindPoints = replicate 5 zero_bind_point, cl_characterId = 0,
      cl_creationTimestamp = 0, cl_accountName = None, cl_accountId = 0, cl_ipAddress = 0\<rparr>"

section \<open>Creation\<close>

definition sizeof_Client :: nat where "sizeof_Client = 952"

definition client_create_unidentified_stub :: "heap \<Rightarrow> u64 \<Rightarrow> nat \<Rightarrow> i32 \<Rightarrow> string_store \<Rightarrow> cstate result" where
  "client_create_unidentified_stub h now handler expansion st =
     (if can_alloc h sizeof_Client
      then Inr \<lparr>cs_client = zero_client_struct\<lparr>cl_handler := Some handler, cl_expansion := expansion, cl_refCount := 1,
                  cl_isStubClient := True, cl_creationTimestamp := now\<rparr>,
                cs_mob = zero_mob, cs_strings = st, cs_effects = [GrabHandler handler]\<rparr>
      else Inl ErrorOutOfMemory)"

definition client_create_from_new_connection_standard :: "heap \<Rightarrow> u64 \<Rightarrow> nat \<Rightarrow> string_store \<Rightarrow> cstate result" where
  "client_create_from_new_connection_standard h now handler st = client_create_unidentified_stub h now handler ExpansionId_Unknown st"

definition client_create_from_new_connection_trilogy :: "heap \<Rightarrow> u64 \<Rightarrow> nat \<Rightarrow> string_store \<Rightarrow> cstate result" where
  "client_create_from_new_connection_trilogy h now handler st = client_create_unidentified_stub h now handler ExpansionId_Trilogy st"

definition client_grab :: "client \<Rightarrow> client" where
  "client_grab client = client\<lparr>cl_refCount := cl_refCount client + 1\<rparr>"

text \<open>Every query holds a reference of its own.\<close>

definition start_query :: "string \<Rightarrow> u64 \<Rightarrow> cstate \<Rightarrow> cstate" where
  "start_query t characterId s = emit_effect (ScheduleQuery t characterId) (upd_client client_grab s)"

definition c_strlen :: "bytes \<Rightarrow> u32" where
  "c_strlen cs = of_nat (length (takeWhile (\<lambda>c. c \<noteq> 0) cs))"

definition client_create :: "heap \<Rightarrow> nat \<Rightarrow> nat \<Rightarrow> client_zoning \<Rightarrow> string_store \<Rightarrow> cstate result" where
  "client_create h zc zone zoning st =
     (if can_alloc h sizeof_Client
      then bindE (mob_init_client h zero_mob zc zone (cz_characterName zoning) st) (\<lambda>(mob, st).
           bindE (inventory_init h) (\<lambda>iv.
           bindE (string_create_from_cstr h (cz_accountName zoning) (c_strlen (cz_accountName zoning))) (\<lambda>name.
           let (accountName, st) = new_string st name;
               client = zero_client_struct\<lparr>cl_refCount := 1, cl_inventory := iv,
                 cl_skills := skills_preinit (cl_skills zero_client_struct),
                 cl_isLocal := odd (uint (cz_isLocal zoning)), cl_isFromCharSelect := odd (uint (cz_isFromCharSelect zoning)),
                 cl_characterId := cz_characterId zoning, cl_accountName := Some accountName,
                 cl_accountId := cz_accountId zoning, cl_ipAddress := cz_ipAddress zoning\<rparr>;
               s = \<lparr>cs_client = client, cs_mob = mob, cs_strings = st, cs_effects = [TimerInit]\<rparr>;
               characterId = cz_characterId zoning
           in Inr (start_query ''bind_point'' characterId (start_query ''memmed_spells'' characterId
                   (start_query ''spellbook'' characterId (start_query ''inventory'' characterId
                    (start_query ''character'' characterId s))))))))
      else Inl ErrorOutOfMemory)"

section \<open>The end of loading\<close>

definition client_is_trilogy :: "client \<Rightarrow> bool" where
  "client_is_trilogy c \<longleftrightarrow> cl_expansion c = ExpansionId_Trilogy"

definition finishing :: "bool \<Rightarrow> effect list" where
  "finishing trilogy = [TimerStart, LuaCreateClient, LuaEvent ''event_pre_spawn''] @
     (if trilogy then [SendPlayerProfile, SendZoneEntry, SendWeather 0 0] else [])"

definition client_check_loading_finished :: "cstate \<Rightarrow> cstate" where
  "client_check_loading_finished s =
     (if cl_loaded (cs_client s) \<noteq> 0xff then s
      else s\<lparr>cs_effects := cs_effects s @ finishing (client_is_trilogy (cs_client s))\<rparr>)"

definition client_catch_up_with_loading_progress :: "cstate \<Rightarrow> cstate" where
  "client_catch_up_with_loading_progress s =
     client_check_loading_finished (set_loaded Loaded_unused (set_loaded Loaded_connection s))"

text \<open>Dropping the last reference ends the client. Its surname and the name of its account are
  not dropped with it.\<close>

definition client_drop :: "cstate \<Rightarrow> cstate result" where
  "client_drop s =
     (let c = cs_client s; s = upd_client (\<lambda>c. c\<lparr>cl_refCount := cl_refCount c - 1\<rparr>) s in
      if cl_refCount c > 1 then Inr s
      else bindE (if cl_isStubClient c then Inr s
                  else (let s = emit_effect TimerDeinit s;
                            s = upd_client (\<lambda>c. c\<lparr>cl_spellbook := spellbook_deinit (cl_spellbook c),
                                  cl_inventory := inventory_deinit (cl_inventory c)\<rparr>) s in
                        bindE (mob_deinit (cs_mob s) (cs_strings s)) (\<lambda>(mob, st).
                        Inr (emit_effect LuaDestroyObject (emit_effect LuaDestroyObject (s\<lparr>cs_mob := mob, cs_strings := st\<rparr>)))))) (\<lambda>s.
           Inr (emit_effect Freed (case cl_handler c of Some p \<Rightarrow> emit_effect (DropHandler p) s | None \<Rightarrow> s))))"

definition client_forcibly_disconnect :: "cstate \<Rightarrow> cstate" where
  "client_forcibly_disconnect s = (case cl_handler (cs_client s) of Some p \<Rightarrow> emit_effect (SendDisconnect p) s | None \<Rightarrow> s)"

text \<open>The end of every callback but the first.\<close>

definition loaded_part :: "u8 \<Rightarrow> cstate \<Rightarrow> cstate result" where
  "loaded_part b s =
     (let s = set_loaded b s;
          s = (if is_loaded Loaded_connection s then client_check_loading_finished s else s)
      in client_drop s)"

section \<open>Callbacks\<close>

primrec load_skills :: "sqlite \<Rightarrow> row list \<Rightarrow> skills \<Rightarrow> skills result" where
  "load_skills q [] sk = Inr sk"
| "load_skills q (r # rs) sk = bindE (skills_set_from_db sk (query_get_int q r 1) (query_get_int q r 2)) (load_skills q rs)"

definition client_load_skills_callback :: "sqlite \<Rightarrow> row list \<Rightarrow> cstate \<Rightarrow> cstate result" where
  "client_load_skills_callback q rows s =
     bindE (load_skills q rows (cl_skills (cs_client s))) (\<lambda>sk.
     loaded_part Loaded_skills (upd_client (\<lambda>c. c\<lparr>cl_skills := sk\<rparr>) s))"

definition load_surname :: "heap \<Rightarrow> sqlite \<Rightarrow> row \<Rightarrow> cstate \<Rightarrow> cstate result" where
  "load_surname h q r s =
     (if query_is_null r 1 then Inr s
      else bindE (string_create_from_cstr h (query_get_string q r 1) (of_nat (length (query_get_string q r 1)))) (\<lambda>str.
           let (a, st) = new_string (cs_strings s) str in
           Inr (upd_client (\<lambda>c. c\<lparr>cl_surname := Some a\<rparr>) (s\<lparr>cs_strings := st\<rparr>))))"

definition load_mob :: "sqlite \<Rightarrow> row \<Rightarrow> mob \<Rightarrow> mob" where
  "load_mob q r mob =
     (let i = query_get_int q r; l = query_get_int64 q r; f = query_get_double q r;
          mob = mob\<lparr>mb_level := ucast (i 2), mb_class := ucast (i 3), mb_baseRace := ucast (i 4), mb_currentRace := ucast (i 4),
            mb_baseGender := ucast (i 5), mb_currentGender := ucast (i 5), mb_face := ucast (i 6), mb_deity := ucast (i 7),
            mb_x := f 8, mb_y := f 9, mb_z := f 10, mb_heading := f 11,
            mb_currentHp := l 12, mb_currentMana := l 13, mb_currentEndurance := l 14\<rparr>;
          mob = mob_set_base_str mob (i 17); mob = mob_set_base_sta mob (i 18); mob = mob_set_base_dex mob (i 19);
          mob = mob_set_base_agi mob (i 20); mob = mob_set_base_int mob (i 21); mob = mob_set_base_wis mob (i 22)
      in mob_set_base_cha mob (i 23))"

definition load_client :: "sqlite \<Rightarrow> row \<Rightarrow> client \<Rightarrow> client" where
  "load_client q r c =
     (let i = query_get_int q r; l = query_get_int64 q r in
      c\<lparr>cl_experience := l 15, cl_trainingPoints := ucast (i 16), cl_guildId := i 24, cl_guildRank := ucast (i 25),
        cl_harmtouchTimestamp := l 26, cl_disciplineTimestamp := l 27,
        cl_coins := \<lparr>co_pp = i 28, co_gp = i 29, co_sp = i 30, co_cp = i 31\<rparr>,
        cl_coinsCursor := \<lparr>co_pp = i 32, co_gp = i 33, co_sp = i 34, co_cp = i 35\<rparr>,
        cl_coinsBank := \<lparr>co_pp = i 36, co_gp = i 37, co_sp = i 38, co_cp = i 39\<rparr>,
        cl_hungerLevel := i 40, cl_thirstLevel := i 41, cl_isGM := odd (uint (i 42)), cl_anonSetting := ucast (i 43),
        cl_drunkeness := ucast (i 44), cl_creationTimestamp := l 45\<rparr>)"

primrec load_stats :: "heap \<Rightarrow> sqlite \<Rightarrow> row list \<Rightarrow> cstate \<Rightarrow> cstate result" where
  "load_stats h q [] s = Inr s"
| "load_stats h q (r # rs) s =
     bindE (load_surname h q r s) (\<lambda>s.
     let mob = load_mob q r (cs_mob s); client = load_client q r (cs_client s);
         sk = skills_init (cl_skills client) (ucast (mob_class mob)) (ucast (mob_level mob)) (ucast (mob_base_race mob)) in
     load_stats h q rs (s\<lparr>cs_mob := mob, cs_client := client\<lparr>cl_skills := sk\<rparr>\<rparr>))"

text \<open>The reference of this query becomes that of the next.\<close>

definition client_load_stats_callback :: "heap \<Rightarrow> sqlite \<Rightarrow> row list \<Rightarrow> cstate \<Rightarrow> cstate result" where
  "client_load_stats_callback h q rows s =
     bindE (load_stats h q rows s) (\<lambda>s.
     let s = set_loaded Loaded_stats s in
     Inr (emit_effect (ScheduleQuery ''skill'' (cl_characterId (cs_client s))) s))"

primrec load_inventory :: "heap \<Rightarrow> sqlite \<Rightarrow> (u32 \<Rightarrow> nat option) \<Rightarrow> row list \<Rightarrow> inventory \<Rightarrow> inventory result" where
  "load_inventory h q item_by_id [] iv = Inr iv"
| "load_inventory h q item_by_id (r # rs) iv =
     (let itemId = query_get_int q r 5 in
      case item_by_id itemId of
        None \<Rightarrow> load_inventory h q item_by_id rs iv
      | Some proto \<Rightarrow>
          bindE (item_create h (Some proto) (ucast (query_get_int q r 4)) (ucast (query_get_int q r 3))) (\<lambda>item.
          let slot = \<lparr>is_slotId = ucast (query_get_int q r 1), is_augSlotId = ucast (query_get_int q r 2), is_itemId = itemId,
                is_item = Some item\<rparr> in
          bindE (inventory_add_from_database h iv slot) (load_inventory h q item_by_id rs)))"

definition client_load_inventory_callback ::
  "heap \<Rightarrow> sqlite \<Rightarrow> (u32 \<Rightarrow> nat option) \<Rightarrow> row list \<Rightarrow> cstate \<Rightarrow> cstate result" where
  "client_load_inventory_callback h q item_by_id rows s =
     bindE (load_inventory h q item_by_id rows (cl_inventory (cs_client s))) (\<lambda>iv.
     loaded_part Loaded_inventory (upd_client (\<lambda>c. c\<lparr>cl_inventory := iv\<rparr>) s))"

primrec load_spellbook :: "heap \<Rightarrow> sqlite \<Rightarrow> row list \<Rightarrow> spellbook \<Rightarrow> spellbook result" where
  "load_spellbook h q [] b = Inr b"
| "load_spellbook h q (r # rs) b =
     bindE (spellbook_add_from_database h b (query_get_int q r 1) (query_get_int q r 2)) (load_spellbook h q rs)"

definition client_load_spellbook_callback :: "heap \<Rightarrow> sqlite \<Rightarrow> row list \<Rightarrow> cstate \<Rightarrow> cstate result" where
  "client_load_spellbook_callback h q rows s =
     bindE (load_spellbook h q rows (cl_spellbook (cs_client s))) (\<lambda>b.
     loaded_part Loaded_spellbook (upd_client (\<lambda>c. c\<lparr>cl_spellbook := b\<rparr>) s))"

primrec load_memmed_spells :: "sqlite \<Rightarrow> row list \<Rightarrow> spellbook \<Rightarrow> spellbook" where
  "load_memmed_spells q [] b = b"
| "load_memmed_spells q (r # rs) b =
     load_memmed_spells q rs
       (spellbook_add_memorized_from_database b (query_get_int q r 1) (query_get_int q r 2) (query_get_int64 q r 3))"

definition client_load_memmed_spells_callback :: "sqlite \<Rightarrow> row list \<Rightarrow> cstate \<Rightarrow> cstate result" where
  "client_load_memmed_spells_callback q rows s =
     loaded_part Loaded_memmedSpells (upd_client (\<lambda>c. c\<lparr>cl_spellbook := load_memmed_spells q rows (cl_spellbook c)\<rparr>) s)"

definition client_set_bind_point :: "client \<Rightarrow> u32 \<Rightarrow> i32 \<Rightarrow> i32 \<Rightarrow> u32 \<Rightarrow> u32 \<Rightarrow> u32 \<Rightarrow> u32 \<Rightarrow> client" where
  "client_set_bind_point client bindId zoneId instId x y z heading =
     (if bindId \<ge> 5 then client
      else client\<lparr>cl_bindPoints := (cl_bindPoints client)[unat bindId :=
             \<lparr>bp_zoneId = ucast zoneId, bp_instanceId = ucast instId,
              bp_loc = \<lparr>loc_x = x, loc_y = y, loc_z = z, loc_heading = heading\<rparr>\<rparr>]\<rparr>)"

text \<open>\<open>garbage\<close> is what the instance id of the local variable \<^verbatim>\<open>qeynos\<close> happens to be: it is
  not set.\<close>

definition client_fill_in_missing_bind_points :: "u16 \<Rightarrow> client \<Rightarrow> client" where
  "client_fill_in_missing_bind_points garbage client =
     (let copyFrom = (case find (\<lambda>b. bp_zoneId b \<noteq> 0) (cl_bindPoints client) of
            Some b \<Rightarrow> b
          | None \<Rightarrow> \<lparr>bp_zoneId = 1, bp_instanceId = garbage, bp_loc = zero_loc\<rparr>)
      in client\<lparr>cl_bindPoints := map (\<lambda>b. if bp_zoneId b = 0 then copyFrom else b) (cl_bindPoints client)\<rparr>)"

primrec load_bind_points :: "sqlite \<Rightarrow> row list \<Rightarrow> client \<Rightarrow> client" where
  "load_bind_points q [] c = c"
| "load_bind_points q (r # rs) c =
     load_bind_points q rs
       (client_set_bind_point c (query_get_int q r 1) (query_get_int q r 2) (query_get_int q r 3) (query_get_double q r 4)
          (query_get_double q r 5) (query_get_double q r 6) (query_get_double q r 7))"

definition client_load_bind_points_callback :: "sqlite \<Rightarrow> u16 \<Rightarrow> row list \<Rightarrow> cstate \<Rightarrow> cstate result" where
  "client_load_bind_points_callback q garbage rows s =
     loaded_part Loaded_bindPoints
       (upd_client (\<lambda>c. client_fill_in_missing_bind_points garbage (load_bind_points q rows c)) s)"

section \<open>Other operations\<close>

definition client_calc_base_hp_mult :: "u8 \<Rightarrow> int \<Rightarrow> int" where
  "client_calc_base_hp_mult class lvl =
     (if class \<in> {2, 6, 10} then 15
      else if class \<in> {11, 12, 13, 14} then 12
      else if class \<in> {7, 8, 9, 15} then (if lvl < 51 then 18 else if lvl < 58 then 19 else 20)
      else if class = 4 then (if lvl < 58 then 20 else 21)
      else if class = 1 then (if lvl < 20 then 22 else if lvl < 30 then 23 else if lvl < 40 then 25 else if lvl < 53 then 27
                              else if lvl < 57 then 28 else 30)
      else (if lvl < 35 then 21 else if lvl < 45 then 22 else if lvl < 51 then 23 else if lvl < 56 then 24
            else if lvl < 60 then 25 else 26))"

text \<open>The products are computed on \<^verbatim>\<open>int\<close>, whose overflow is undefined.\<close>

definition client_calc_base_hp_trilogy :: "mob \<Rightarrow> u64 result" where
  "client_calc_base_hp_trilogy mob =
     (let lvl = uint (mob_level mob); sta = sint (mob_cur_sta mob); mult = client_calc_base_hp_mult (mob_class mob) lvl * lvl;
          sum = 5 + mult + (mult * sta) sdiv 300 in
      if mult * sta < -(2 ^ 31) \<or> 2 ^ 31 \<le> mult * sta \<or> sum < -(2 ^ 31) \<or> 2 ^ 31 \<le> sum then Inl UndefinedBehaviour
      else Inr (word_of_int sum))"

definition client_is_pvp :: "client \<Rightarrow> bool" where "client_is_pvp client = cl_isCurrentlyPvP client"
definition client_is_gm :: "client \<Rightarrow> bool" where "client_is_gm client = cl_isGM client"
definition client_is_afk :: "client \<Rightarrow> bool" where "client_is_afk client = cl_isAfk client"
definition client_is_linkdead :: "client \<Rightarrow> bool" where "client_is_linkdead client = cl_isLinkdead client"
definition client_anon_setting :: "client \<Rightarrow> u8" where "client_anon_setting client = cl_anonSetting client"
definition client_guild_rank :: "client \<Rightarrow> u8" where "client_guild_rank client = cl_guildRank client"

definition client_surname_cstr :: "client \<Rightarrow> string_store \<Rightarrow> bytes result" where
  "client_surname_cstr client st =
     (case cl_surname client of Some a \<Rightarrow> bindE (string_at st a) (\<lambda>s. Inr (str_data s)) | None \<Rightarrow> Inr [0])"

definition client_send_custom_message :: "u32 \<Rightarrow> bytes \<Rightarrow> cstate \<Rightarrow> cstate" where
  "client_send_custom_message chatChannel str s =
     (if client_is_trilogy (cs_client s) then emit_effect (SendCustomMessage chatChannel str) s else s)"

definition client_on_unhandled_packet_opcode :: "u16 \<Rightarrow> cstate \<Rightarrow> cstate" where
  "client_on_unhandled_packet_opcode opcode s = (if opcode = 0 then s else emit_effect (LuaEvent ''event_unhandled_packet'') s)"

end
