(* ===== verification/Client_Load.thy ===== *)
theory Client_Load
  imports Client
begin

text \<open>
  Loading a client ends, exactly once, in whatever order its parts arrive.
\<close>

section \<open>Arrivals\<close>

datatype arrival =
    Stats "row list"
  | Skills "row list"
  | Inventory "row list"
  | Spellbook "row list"
  | MemmedSpells "row list"
  | BindPoints "row list"
  | Connected nat i32

text \<open>The connection comes through \<^verbatim>\<open>zc_client_match_with_expected\<close>.\<close>

fun arrive :: "heap \<Rightarrow> sqlite \<Rightarrow> (u32 \<Rightarrow> nat option) \<Rightarrow> u16 \<Rightarrow> arrival \<Rightarrow> cstate \<Rightarrow> cstate result" where
  "arrive h q item_by_id g (Stats rows) s = client_load_stats_callback h q rows s"
| "arrive h q item_by_id g (Skills rows) s = client_load_skills_callback q rows s"
| "arrive h q item_by_id g (Inventory rows) s = client_load_inventory_callback h q item_by_id rows s"
| "arrive h q item_by_id g (Spellbook rows) s = client_load_spellbook_callback h q rows s"
| "arrive h q item_by_id g (MemmedSpells rows) s = client_load_memmed_spells_callback q rows s"
| "arrive h q item_by_id g (BindPoints rows) s = client_load_bind_points_callback q g rows s"
| "arrive h q item_by_id g (Connected handler expansion) s =
     Inr (client_catch_up_with_loading_progress (upd_client (\<lambda>c. c\<lparr>cl_handler := Some handler, cl_expansion := expansion\<rparr>) s))"

primrec arrive_all :: "heap \<Rightarrow> sqlite \<Rightarrow> (u32 \<Rightarrow> nat option) \<Rightarrow> u16 \<Rightarrow> arrival list \<Rightarrow> cstate \<Rightarrow> cstate result" where
  "arrive_all h q item_by_id g [] s = Inr s"
| "arrive_all h q item_by_id g (a # as) s = bindE (arrive h q item_by_id g a s) (arrive_all h q item_by_id g as)"

text \<open>The bits of \<^verbatim>\<open>loaded\<close> an arrival sets.\<close>

fun bits :: "arrival \<Rightarrow> u8" where
  "bits (Stats rows) = Loaded_stats"
| "bits (Skills rows) = Loaded_skills"
| "bits (Inventory rows) = Loaded_inventory"
| "bits (Spellbook rows) = Loaded_spellbook"
| "bits (MemmedSpells rows) = Loaded_memmedSpells"
| "bits (BindPoints rows) = Loaded_bindPoints"
| "bits (Connected handler expansion) = Loaded_connection OR Loaded_unused"

text \<open>Rows the callbacks can take: few enough, and with ids of skills inside the array.\<close>

fun sound :: "sqlite \<Rightarrow> arrival \<Rightarrow> bool" where
  "sound q (Stats rows) = (\<forall>r \<in> set rows. length (query_get_string q r 1) < 2 ^ 31)"
| "sound q (Skills rows) = (\<forall>r \<in> set rows. query_get_int q r 1 < 74 \<or> query_get_int q r 1 \<ge> 100)"
| "sound q (Inventory rows) = (length rows < 2 ^ 20)"
| "sound q (Spellbook rows) = (length rows < 2 ^ 20)"
| "sound q _ = True"

section \<open>The parts load\<close>

lemma load_skills_total:
  "(\<forall>r \<in> set rows. query_get_int q r 1 < 74 \<or> query_get_int q r 1 \<ge> 100) \<Longrightarrow> \<exists>sk'. load_skills q rows sk = Inr sk'"
proof (induction rows arbitrary: sk)
  case (Cons r rs)
  let ?i = "query_get_int q r 1"
  have "\<exists>sk'. skills_set_from_db sk ?i (query_get_int q r 2) = Inr sk'"
  proof (cases "?i \<ge> 100")
    case True
    have "unat (?i - 100) < 74" if "unat (?i - 100) < 24" using that by simp
    then show ?thesis using True by (simp add: skills_set_from_db_def EQP_DB_LANGUAGE_SKILL_OFFSET_def Lang_COUNT_def Skill_COUNT_def Let_def)
  next
    case False
    then have "?i < 74" using Cons.prems by simp
    then have "unat ?i < 74" by (simp add: word_less_nat_alt)
    then show ?thesis using False by (simp add: skills_set_from_db_def EQP_DB_LANGUAGE_SKILL_OFFSET_def Skill_COUNT_def Let_def)
  qed
  then show ?case using Cons by auto
qed simp

lemma load_inventory_total:
  "loaded old iv \<Longrightarrow> ample h \<Longrightarrow> length old + length rows < 2 ^ 20 \<Longrightarrow> \<exists>iv'. load_inventory h q item_by_id rows iv = Inr iv'"
proof (induction rows arbitrary: old iv)
  case (Cons r rs)
  show ?case
  proof (cases "item_by_id (query_get_int q r 5)")
    case None
    then show ?thesis using Cons by simp
  next
    case (Some proto)
    have can: "can_alloc h sizeof_Item" using Cons.prems(2) by (simp add: ample_def)
    have len: "length old < 2 ^ 20" using Cons.prems(3) by simp
    note add = add_loaded [OF Cons.prems(1,2) len]
    show ?thesis
    proof -
      obtain slot where s: "load_inventory h q item_by_id (r # rs) iv =
          bindE (inventory_add_from_database h iv slot) (load_inventory h q item_by_id rs)"
        using Some can by (auto simp: item_create_def Let_def)
      obtain iv' where "inventory_add_from_database h iv slot = Inr iv'" "loaded (old @ [slot]) iv'" using add by blast
      then show ?thesis using s Cons.IH [of "old @ [slot]" iv'] Cons.prems by simp
    qed
  qed
qed simp

lemma load_spellbook_total:
  assumes "ample h"
  shows "(case sb_knownSpells b of None \<Rightarrow> length rows < 2 ^ 20
    | Some v \<Rightarrow> vec_ok sizeof_SpellbookSlot v \<and> length (vec_items v) + length rows < 2 ^ 20) \<Longrightarrow> \<exists>b'. load_spellbook h q rows b = Inr b'"
proof (induction rows arbitrary: b)
  case (Cons r rs)
  have z: "unat sizeof_SpellbookSlot = 8" by (simp add: sizeof_SpellbookSlot_def)
  obtain v where v: "(case sb_knownSpells b of Some v \<Rightarrow> Inr v | None \<Rightarrow> vec_create h sizeof_SpellbookSlot) = Inr v"
    "vec_ok sizeof_SpellbookSlot v" "length (vec_items v) + length (r # rs) < 2 ^ 20"
    using Cons.prems assms z by (auto simp: vec_create_def ample_def vec_ok_def MIN_CAPACITY_def split: option.splits)
  have "2 * length (vec_items v) * unat sizeof_SpellbookSlot < 2 ^ 32" "0 < unat sizeof_SpellbookSlot" using v(3) z by simp_all
  from vec_push_ample [OF v(2) assms this, of "\<lparr>ss_slotId = query_get_int q r 1, ss_spellId = query_get_int q r 2\<rparr>"] obtain v' where v':
    "vec_push h sizeof_SpellbookSlot v \<lparr>ss_slotId = query_get_int q r 1, ss_spellId = query_get_int q r 2\<rparr> = Inr v'"
    "vec_ok sizeof_SpellbookSlot v'" "length (vec_items v') = Suc (length (vec_items v))" by auto
  have "spellbook_add_from_database h b (query_get_int q r 1) (query_get_int q r 2) = Inr (b\<lparr>sb_knownSpells := Some v'\<rparr>)"
    using v(1) v'(1) by (simp add: spellbook_add_from_database_def)
  then show ?case using Cons.IH [of "b\<lparr>sb_knownSpells := Some v'\<rparr>"] v' v(3) by simp
qed simp

lemma load_surname_total:
  assumes "ample h" "length (query_get_string q r 1) < 2 ^ 31"
  shows "\<exists>a st. load_surname h q r s = Inr (upd_client (\<lambda>c. c\<lparr>cl_surname := a\<rparr>) (s\<lparr>cs_strings := st\<rparr>))"
proof (cases "query_is_null r 1")
  case True
  then show ?thesis by (intro exI [of _ "cl_surname (cs_client s)"] exI [of _ "cs_strings s"]) (simp add: load_surname_def upd_client_def)
next
  case False
  let ?t = "query_get_string q r 1"
  have u: "unat (of_nat (length ?t) :: u32) = length ?t" using assms(2) by (intro unat_of_nat_u32) simp
  have "\<exists>str. string_create_from_cstr h ?t (of_nat (length ?t)) = Inr str"
    by (rule string_create_from_cstr_total) (use assms u in \<open>simp_all add: ample_def\<close>)
  then obtain str where "string_create_from_cstr h ?t (of_nat (length ?t)) = Inr str" by blast
  then have "load_surname h q r s = Inr (upd_client (\<lambda>c. c\<lparr>cl_surname := Some (ss_next (cs_strings s))\<rparr>)
      (s\<lparr>cs_strings := snd (new_string (cs_strings s) str)\<rparr>))" using False by (simp add: load_surname_def new_string_def)
  then show ?thesis by blast
qed

text \<open>What loading the stats leaves alone.\<close>

definition kept :: "cstate \<Rightarrow> cstate \<Rightarrow> bool" where
  "kept s s' \<longleftrightarrow> cl_loaded (cs_client s') = cl_loaded (cs_client s) \<and>
     cl_refCount (cs_client s') = cl_refCount (cs_client s) \<and> cl_inventory (cs_client s') = cl_inventory (cs_client s) \<and>
     cl_spellbook (cs_client s') = cl_spellbook (cs_client s) \<and> cl_expansion (cs_client s') = cl_expansion (cs_client s) \<and>
     cs_effects s' = cs_effects s"

lemma load_stats_total:
  "ample h \<Longrightarrow> (\<forall>r \<in> set rows. length (query_get_string q r 1) < 2 ^ 31) \<Longrightarrow> \<exists>s'. load_stats h q rows s = Inr s' \<and> kept s s'"
proof (induction rows arbitrary: s)
  case (Cons r rs)
  have "length (query_get_string q r 1) < 2 ^ 31" using Cons.prems(2) by simp
  from load_surname_total [OF Cons.prems(1) this, of s]
  obtain a st where s1: "load_surname h q r s = Inr (upd_client (\<lambda>c. c\<lparr>cl_surname := a\<rparr>) (s\<lparr>cs_strings := st\<rparr>))" by blast
  then obtain sk where s2: "load_stats h q (r # rs) s = load_stats h q rs (s\<lparr>cs_strings := st, cs_mob := load_mob q r (cs_mob s),
      cs_client := (load_client q r ((cs_client s)\<lparr>cl_surname := a\<rparr>))\<lparr>cl_skills := sk\<rparr>\<rparr>)" (is "_ = load_stats h q rs ?s")
    by (simp add: upd_client_def Let_def)
  have k: "kept s ?s" by (simp add: kept_def load_client_def Let_def)
  obtain s' where "load_stats h q rs ?s = Inr s'" "kept ?s s'" using Cons.IH [of ?s] Cons.prems by auto
  then show ?case using s2 k by (auto simp: kept_def)
qed (simp add: kept_def)

section \<open>Progress\<close>

text \<open>The references a client has while it loads: its own, and one for each part that is missing.\<close>

definition missing :: "u8 \<Rightarrow> u8 \<Rightarrow> int" where
  "missing l b = (if l AND b = 0 then 1 else 0)"

definition refs :: "u8 \<Rightarrow> int" where
  "refs l = 1 + missing l Loaded_inventory + missing l Loaded_skills + missing l Loaded_spellbook +
     missing l Loaded_memmedSpells + missing l Loaded_bindPoints"

definition progress :: "u8 \<Rightarrow> cstate \<Rightarrow> bool" where
  "progress l s \<longleftrightarrow>
     cl_loaded (cs_client s) = l \<and> cl_refCount (cs_client s) = refs l \<and>
     (l AND Loaded_inventory = 0 \<longrightarrow> loaded [] (cl_inventory (cs_client s))) \<and>
     (l AND Loaded_spellbook = 0 \<longrightarrow> sb_knownSpells (cl_spellbook (cs_client s)) = None) \<and>
     (if l = 0xff then \<exists>pre. cs_effects s = pre @ finishing (client_is_trilogy (cs_client s)) \<and> TimerStart \<notin> set pre
      else TimerStart \<notin> set (cs_effects s))"

definition one_of :: "u8 \<Rightarrow> bool" where
  "one_of b \<longleftrightarrow> b \<in> {Loaded_inventory, Loaded_skills, Loaded_spellbook, Loaded_memmedSpells, Loaded_bindPoints}"

lemma disjoint_bits:
  "Loaded_inventory AND Loaded_skills = 0" "Loaded_inventory AND Loaded_spellbook = 0"
  "Loaded_inventory AND Loaded_memmedSpells = 0" "Loaded_inventory AND Loaded_bindPoints = 0"
  "Loaded_skills AND Loaded_inventory = 0" "Loaded_skills AND Loaded_spellbook = 0"
  "Loaded_skills AND Loaded_memmedSpells = 0" "Loaded_skills AND Loaded_bindPoints = 0"
  "Loaded_spellbook AND Loaded_inventory = 0" "Loaded_spellbook AND Loaded_skills = 0"
  "Loaded_spellbook AND Loaded_memmedSpells = 0" "Loaded_spellbook AND Loaded_bindPoints = 0"
  "Loaded_memmedSpells AND Loaded_inventory = 0" "Loaded_memmedSpells AND Loaded_skills = 0"
  "Loaded_memmedSpells AND Loaded_spellbook = 0" "Loaded_memmedSpells AND Loaded_bindPoints = 0"
  "Loaded_bindPoints AND Loaded_inventory = 0" "Loaded_bindPoints AND Loaded_skills = 0"
  "Loaded_bindPoints AND Loaded_spellbook = 0" "Loaded_bindPoints AND Loaded_memmedSpells = 0"
  "Loaded_stats AND Loaded_inventory = 0" "Loaded_stats AND Loaded_skills = 0"
  "Loaded_stats AND Loaded_spellbook = 0" "Loaded_stats AND Loaded_memmedSpells = 0"
  "Loaded_stats AND Loaded_bindPoints = 0" "(Loaded_connection OR Loaded_unused) AND Loaded_inventory = 0"
  "(Loaded_connection OR Loaded_unused) AND Loaded_skills = 0"
  "(Loaded_connection OR Loaded_unused) AND Loaded_spellbook = 0"
  "(Loaded_connection OR Loaded_unused) AND Loaded_memmedSpells = 0"
  "(Loaded_connection OR Loaded_unused) AND Loaded_bindPoints = 0" "Loaded_inventory \<noteq> 0"
  "Loaded_skills \<noteq> 0" "Loaded_spellbook \<noteq> 0" "Loaded_memmedSpells \<noteq> 0"
  "Loaded_bindPoints \<noteq> 0"
  by (simp_all add: loaded_bits)

lemma missing_set: "b \<noteq> 0 \<Longrightarrow> missing (l OR b) b = 0"
  by (simp add: missing_def bit.conj_disj_distrib2)

lemma missing_other: "b AND c = 0 \<Longrightarrow> missing (l OR b) c = missing l c"
  by (simp add: missing_def bit.conj_disj_distrib2)

lemma missing_unset: "l AND b = 0 \<Longrightarrow> missing l b = 1"
  by (simp add: missing_def)

lemma missing_nonneg: "0 \<le> missing l b"
  by (simp add: missing_def)

lemma refs_part: "one_of b \<Longrightarrow> l AND b = 0 \<Longrightarrow> refs (l OR b) = refs l - 1"
  unfolding one_of_def insert_iff
  by (elim disjE) (simp_all add: refs_def missing_other missing_set missing_unset disjoint_bits)

lemma refs_pos: "one_of b \<Longrightarrow> l AND b = 0 \<Longrightarrow> 1 < refs l"
  using missing_unset [of l b] missing_nonneg [of l Loaded_inventory] missing_nonneg [of l Loaded_skills]
    missing_nonneg [of l Loaded_spellbook] missing_nonneg [of l Loaded_memmedSpells] missing_nonneg [of l Loaded_bindPoints]
  unfolding one_of_def insert_iff by (elim disjE) (simp_all add: refs_def)

lemma refs_other: "b \<in> {Loaded_stats, Loaded_connection OR Loaded_unused} \<Longrightarrow> refs (l OR b) = refs l"
  by (auto simp: refs_def missing_other disjoint_bits)

text \<open>A part that is marked, when the client is connected, ends the loading if it was the last.\<close>

lemma loaded_part_progress:
  assumes "one_of b" "l AND b = 0" "cl_loaded (cs_client s) = l" "cl_refCount (cs_client s) = refs l"
    "((l OR b) AND Loaded_inventory = 0 \<longrightarrow> loaded [] (cl_inventory (cs_client s)))"
    "((l OR b) AND Loaded_spellbook = 0 \<longrightarrow> sb_knownSpells (cl_spellbook (cs_client s)) = None)"
    "TimerStart \<notin> set (cs_effects s)"
  shows "\<exists>s'. loaded_part b s = Inr s' \<and> progress (l OR b) s'"
proof -
  let ?s = "set_loaded b s"
  have s: "cl_loaded (cs_client ?s) = l OR b" "cl_refCount (cs_client ?s) = refs l" "cs_effects ?s = cs_effects s"
    "cl_inventory (cs_client ?s) = cl_inventory (cs_client s)" "cl_spellbook (cs_client ?s) = cl_spellbook (cs_client s)"
    using assms(3,4) by (simp_all add: set_loaded_def upd_client_def)
  define s2 where "s2 = (if is_loaded Loaded_connection ?s then client_check_loading_finished ?s else ?s)"
  have "(0xff :: u8) AND Loaded_connection \<noteq> 0" by (simp add: loaded_bits)
  then have c: "is_loaded Loaded_connection ?s" if "l OR b = 0xff" using that s(1) by (simp add: is_loaded_def)
  have s2: "cs_client s2 = cs_client ?s"
    "cs_effects s2 = cs_effects s @ (if l OR b = 0xff then finishing (client_is_trilogy (cs_client ?s)) else [])"
    using s c by (auto simp: s2_def client_check_loading_finished_def)
  have "loaded_part b s = Inr (upd_client (\<lambda>c. c\<lparr>cl_refCount := cl_refCount c - 1\<rparr>) s2)"
    using refs_pos [OF assms(1,2)] s s2 by (simp add: loaded_part_def client_drop_def Let_def s2_def [symmetric])
  moreover have "progress (l OR b) (upd_client (\<lambda>c. c\<lparr>cl_refCount := cl_refCount c - 1\<rparr>) s2)"
    using s s2 assms refs_part [OF assms(1,2)] by (auto simp: progress_def upd_client_def client_is_trilogy_def)
  ultimately show ?thesis by blast
qed

lemma or_and_zero: "(l OR b) AND c = 0 \<longleftrightarrow> l AND c = 0 \<and> b AND c = (0 :: u8)"
proof
  assume h: "(l OR b) AND c = 0"
  have "\<not> bit (l AND c) n \<and> \<not> bit (b AND c) n" for n
  proof -
    have "\<not> bit ((l OR b) AND c) n" unfolding h by simp
    then show ?thesis by (auto simp: bit_and_iff bit_or_iff)
  qed
  then show "l AND c = 0 \<and> b AND c = 0" by (simp add: bit_eq_iff)
qed (simp add: bit.conj_disj_distrib2)

lemma progress_part:
  assumes "progress l s" "one_of b" "l AND b = 0"
    "\<And>c. cl_loaded (f c) = cl_loaded c" "\<And>c. cl_refCount (f c) = cl_refCount c"
    "b \<noteq> Loaded_inventory \<Longrightarrow> cl_inventory (f (cs_client s)) = cl_inventory (cs_client s)"
    "b \<noteq> Loaded_spellbook \<Longrightarrow> sb_knownSpells (cl_spellbook (f (cs_client s))) = sb_knownSpells (cl_spellbook (cs_client s))"
  shows "\<exists>s'. loaded_part b (upd_client f s) = Inr s' \<and> progress (l OR b) s'"
proof (rule loaded_part_progress [OF assms(2,3)])
  have ne: "l \<noteq> 0xff" using assms(2,3) by (auto simp: one_of_def loaded_bits)
  then show "TimerStart \<notin> set (cs_effects (upd_client f s))" using assms(1) by (simp add: progress_def upd_client_def)
  show "cl_loaded (cs_client (upd_client f s)) = l" "cl_refCount (cs_client (upd_client f s)) = refs l"
    using assms(1,4,5) by (simp_all add: progress_def upd_client_def)
  show "(l OR b) AND Loaded_inventory = 0 \<longrightarrow> loaded [] (cl_inventory (cs_client (upd_client f s)))"
    by (cases "b = Loaded_inventory") (use assms(1,6) disjoint_bits in \<open>simp_all add: progress_def upd_client_def or_and_zero\<close>)
  show "(l OR b) AND Loaded_spellbook = 0 \<longrightarrow> sb_knownSpells (cl_spellbook (cs_client (upd_client f s))) = None"
    by (cases "b = Loaded_spellbook") (use assms(1,7) disjoint_bits in \<open>simp_all add: progress_def upd_client_def or_and_zero\<close>)
qed

lemma memmed_known: "sb_knownSpells (load_memmed_spells q rows b) = sb_knownSpells b"
  by (induction rows arbitrary: b) (auto simp: spellbook_add_memorized_from_database_def)

lemma bind_points_kept:
  "cl_loaded (load_bind_points q rows c) = cl_loaded c" "cl_refCount (load_bind_points q rows c) = cl_refCount c"
  "cl_inventory (load_bind_points q rows c) = cl_inventory c" "cl_spellbook (load_bind_points q rows c) = cl_spellbook c"
  by (induction rows arbitrary: c) (auto simp: client_set_bind_point_def)

lemma arrive_step:
  assumes "progress l s" "ample h" "sound q a" "l AND bits a = 0" "\<And>rows. a = Stats rows \<Longrightarrow> l AND Loaded_skills = 0"
  shows "\<exists>s'. arrive h q item_by_id g a s = Inr s' \<and> progress (l OR bits a) s'"
proof (cases a)
  case (Stats rows)
  then have "\<forall>r \<in> set rows. length (query_get_string q r 1) < 2 ^ 31" using assms(3) by simp
  from load_stats_total [OF assms(2) this, of s] obtain s1 where s1: "load_stats h q rows s = Inr s1" "kept s s1" by blast
  have n: "l AND Loaded_skills = 0" using assms(5) Stats by simp
  then have "l \<noteq> 0xff" by (auto simp: loaded_bits)
  moreover have "l OR Loaded_stats \<noteq> 0xff"
  proof
    assume "l OR Loaded_stats = 0xff"
    moreover have "(l OR Loaded_stats) AND Loaded_skills = 0" using n disjoint_bits by (simp add: or_and_zero)
    ultimately show False by (simp add: loaded_bits)
  qed
  ultimately have "progress (l OR Loaded_stats) (emit_effect (ScheduleQuery ''skill'' c) (set_loaded Loaded_stats s1))" for c
    using s1(2) assms(1) refs_other [of Loaded_stats l]
    by (auto simp: progress_def kept_def emit_effect_def set_loaded_def upd_client_def or_and_zero)
  then show ?thesis using Stats s1(1) by (simp add: client_load_stats_callback_def Let_def)
next
  case (Skills rows)
  then obtain sk where "load_skills q rows (cl_skills (cs_client s)) = Inr sk" using load_skills_total assms(3) by fastforce
  moreover have "one_of Loaded_skills" by (simp add: one_of_def)
  ultimately show ?thesis using Skills assms(4) progress_part [OF assms(1), of Loaded_skills "\<lambda>c. c\<lparr>cl_skills := sk\<rparr>"]
    by (simp add: client_load_skills_callback_def)
next
  case (Inventory rows)
  have "loaded [] (cl_inventory (cs_client s))" using assms(1,4) Inventory by (simp add: progress_def)
  from load_inventory_total [OF this assms(2), of rows q item_by_id] obtain iv where
    "load_inventory h q item_by_id rows (cl_inventory (cs_client s)) = Inr iv" using assms(3) Inventory by auto
  moreover have "one_of Loaded_inventory" by (simp add: one_of_def)
  ultimately show ?thesis using Inventory assms(4) progress_part [OF assms(1), of Loaded_inventory "\<lambda>c. c\<lparr>cl_inventory := iv\<rparr>"]
    by (simp add: client_load_inventory_callback_def)
next
  case (Spellbook rows)
  have "sb_knownSpells (cl_spellbook (cs_client s)) = None" using assms(1,4) Spellbook by (simp add: progress_def)
  then obtain b where "load_spellbook h q rows (cl_spellbook (cs_client s)) = Inr b"
    using load_spellbook_total [OF assms(2), of rows "cl_spellbook (cs_client s)" q] assms(3) Spellbook by auto
  moreover have "one_of Loaded_spellbook" by (simp add: one_of_def)
  ultimately show ?thesis using Spellbook assms(4) progress_part [OF assms(1), of Loaded_spellbook "\<lambda>c. c\<lparr>cl_spellbook := b\<rparr>"]
    by (simp add: client_load_spellbook_callback_def)
next
  case (MemmedSpells rows)
  have "one_of Loaded_memmedSpells" by (simp add: one_of_def)
  then show ?thesis using MemmedSpells assms(4) memmed_known
      progress_part [OF assms(1), of Loaded_memmedSpells "\<lambda>c. c\<lparr>cl_spellbook := load_memmed_spells q rows (cl_spellbook c)\<rparr>"]
    by (simp add: client_load_memmed_spells_callback_def)
next
  case (BindPoints rows)
  have "one_of Loaded_bindPoints" by (simp add: one_of_def)
  then show ?thesis using BindPoints assms(4) bind_points_kept
      progress_part [OF assms(1), of Loaded_bindPoints "\<lambda>c. client_fill_in_missing_bind_points g (load_bind_points q rows c)"]
    by (simp add: client_load_bind_points_callback_def client_fill_in_missing_bind_points_def Let_def)
next
  case (Connected p e)
  let ?b = "Loaded_connection OR Loaded_unused"
  have ne: "l \<noteq> 0xff" using assms(4) Connected by (auto simp: loaded_bits)
  define s1 where "s1 = set_loaded Loaded_unused (set_loaded Loaded_connection
      (upd_client (\<lambda>c. c\<lparr>cl_handler := Some p, cl_expansion := e\<rparr>) s))"
  have s1: "cl_loaded (cs_client s1) = l OR ?b" "cl_refCount (cs_client s1) = refs (l OR ?b)"
    "cs_effects s1 = cs_effects s" "cl_inventory (cs_client s1) = cl_inventory (cs_client s)"
    "cl_spellbook (cs_client s1) = cl_spellbook (cs_client s)"
    using assms(1) refs_other [of ?b l] by (simp_all add: s1_def progress_def set_loaded_def upd_client_def or.assoc)
  have "progress (l OR ?b) (client_check_loading_finished s1)"
    using s1 assms(1) ne by (auto simp: progress_def client_check_loading_finished_def or_and_zero)
  then show ?thesis using Connected by (simp add: client_catch_up_with_loading_progress_def s1_def)
qed

section \<open>In any order\<close>

text \<open>The query of the skills is started by the callback of the stats.\<close>

fun ordered :: "arrival list \<Rightarrow> bool" where
  "ordered [] = True"
| "ordered (Skills rows # as) = ((\<forall>r. Stats r \<notin> set as) \<and> ordered as)"
| "ordered (a # as) = ordered as"

lemma bits_disjoint: "bits a \<noteq> bits b \<Longrightarrow> bits a AND bits b = 0"
  by (cases a; cases b) (simp_all add: loaded_bits)

lemma ordered_Cons: "ordered (a # as) \<Longrightarrow> ordered as \<and> (bits a = Loaded_skills \<longrightarrow> (\<forall>r. Stats r \<notin> set as))"
  by (cases a) (simp_all add: loaded_bits)

lemma bits_skills: "bits a AND Loaded_skills = 0 \<or> bits a = Loaded_skills"
  by (cases a) (simp_all add: loaded_bits)

lemma arrive_all_progress:
  assumes "ample h"
  shows "progress l s \<Longrightarrow> \<forall>a \<in> set as. sound q a \<and> l AND bits a = 0 \<Longrightarrow> distinct (map bits as) \<Longrightarrow> ordered as \<Longrightarrow>
    (\<And>r. Stats r \<in> set as \<Longrightarrow> l AND Loaded_skills = 0) \<Longrightarrow>
    \<exists>s'. arrive_all h q item_by_id g as s = Inr s' \<and> progress (fold (\<lambda>a l. l OR bits a) as l) s'"
proof (induction as arbitrary: l s)
  case (Cons a as)
  have "\<exists>s'. arrive h q item_by_id g a s = Inr s' \<and> progress (l OR bits a) s'"
    by (rule arrive_step [OF Cons.prems(1) assms]) (use Cons.prems(2,5) in auto)
  then obtain s1 where s1: "arrive h q item_by_id g a s = Inr s1" "progress (l OR bits a) s1" by blast
  have "sound q b \<and> (l OR bits a) AND bits b = 0" if "b \<in> set as" for b
  proof -
    have "bits a \<noteq> bits b" using that Cons.prems(3) by auto
    then show ?thesis using Cons.prems(2) that bits_disjoint [of a b] by (simp add: or_and_zero)
  qed
  moreover have "(l OR bits a) AND Loaded_skills = 0" if "Stats r \<in> set as" for r
    using that ordered_Cons [OF Cons.prems(4)] Cons.prems(5) [of r] bits_skills [of a] by (auto simp: or_and_zero)
  ultimately show ?case using Cons.IH [OF s1(2)] Cons.prems(3) ordered_Cons [OF Cons.prems(4)] s1(1) by auto
qed simp

definition all_bits :: "u8 set" where
  "all_bits = {Loaded_stats, Loaded_skills, Loaded_inventory, Loaded_spellbook, Loaded_memmedSpells, Loaded_bindPoints,
     Loaded_connection OR Loaded_unused}"

lemma bit_fold_or: "bit (fold (\<lambda>a l. l OR bits a) as l) n \<longleftrightarrow> bit l n \<or> (\<exists>a \<in> set as. bit (bits a) n)"
  by (induction as arbitrary: l) (auto simp: bit_or_iff)

lemma all_bits_cover: "list_all (\<lambda>n. (\<exists>b \<in> all_bits. bit b n) \<and> bit (0xff :: u8) n) [0..<8]"
  by code_simp

lemma fold_all_bits:
  assumes "bits ` set as = all_bits"
  shows "fold (\<lambda>a l. l OR bits a) as 0 = 0xff"
proof (rule bit_eqI)
  fix n assume "possible_bit TYPE(u8) n"
  then have "n \<in> set [0..<8]" by simp
  then have "\<exists>b \<in> all_bits. bit b n" "bit (0xff :: u8) n" using all_bits_cover unfolding list_all_iff by blast+
  moreover have "bit (fold (\<lambda>a l. l OR bits a) as 0) n \<longleftrightarrow> (\<exists>b \<in> all_bits. bit b n)"
    unfolding bit_fold_or assms [symmetric] by simp
  ultimately show "bit (fold (\<lambda>a l. l OR bits a) as 0) n = bit (0xff :: u8) n" by simp
qed

lemma client_create_progress:
  assumes "client_create h zc zone zoning st = Inr s" "ample h"
  shows "progress 0 s"
proof -
  obtain iv where iv: "inventory_init h = Inr iv" "loaded [] iv" using inventory_init_loaded [OF assms(2)] by blast
  then show ?thesis using assms(1)
    by (auto simp: client_create_def result_simps Let_def new_string_def progress_def refs_def missing_def zero_client_struct_def
        start_query_def emit_effect_def upd_client_def client_grab_def split: if_splits)
qed

lemma string_create_strlen:
  assumes "ample h" "length cs < 2 ^ 31"
  shows "\<exists>s. string_create_from_cstr h cs (of_nat (length (takeWhile (\<lambda>c. c \<noteq> 0) cs))) = Inr s"
proof -
  have "length (takeWhile (\<lambda>c. c \<noteq> 0) cs) \<le> length cs" by (rule length_takeWhile_le)
  then have "unat (of_nat (length (takeWhile (\<lambda>c. c \<noteq> 0) cs)) :: u32) \<le> length cs"
    using assms(2) unat_of_nat_u32 [of "length (takeWhile (\<lambda>c. c \<noteq> 0) cs)"] by simp
  then show ?thesis using assms by (intro string_create_from_cstr_total) (simp_all add: ample_def)
qed

lemma client_create_total:
  assumes "ample h" "length (cz_accountName zoning) < 2 ^ 31" "length (cz_characterName zoning) < 2 ^ 31"
  shows "\<exists>s. client_create h zc zone zoning st = Inr s"
proof -
  obtain n where "string_create_from_cstr h (cz_characterName zoning)
      (of_nat (length (takeWhile (\<lambda>c. c \<noteq> 0) (cz_characterName zoning)))) = Inr n"
    using string_create_strlen [OF assms(1,3)] by blast
  then obtain m st' where "mob_init_client h zero_mob zc zone (cz_characterName zoning) st = Inr (m, st')"
    by (simp add: mob_init_client_def new_string_def)
  moreover obtain a where "string_create_from_cstr h (cz_accountName zoning) (c_strlen (cz_accountName zoning)) = Inr a"
    using string_create_strlen [OF assms(1,2)] unfolding c_strlen_def by blast
  moreover obtain iv where "inventory_init h = Inr iv" using inventory_init_loaded [OF assms(1)] by blast
  ultimately show ?thesis using assms(1) by (simp add: client_create_def ample_def new_string_def Let_def)
qed

end
