(* ===== verification/Client_Save.thy ===== *)
theory Client_Save
  imports Client_Load
begin

text \<open>
  \<^verbatim>\<open>zone_cluster/mob/client_save.c\<close>: a snapshot of a client, and the statements that write
  it to the database in one transaction. The few kinds of SQL statement the code uses get their
  meaning on tables of rows here; the schema's primary keys are checked.
\<close>

section \<open>Tables\<close>

datatype statement =
    UpdateRow string u64 "(string \<times> dbval) list"
  | DeleteRows string u64
  | InsertRow string u64 "(string \<times> dbval) list"

text \<open>The rows of a table with the character they belong to, in the order of their insertion.\<close>

type_synonym database = "string \<Rightarrow> (u64 \<times> (string \<Rightarrow> dbval)) list"

definition set_columns :: "(string \<times> dbval) list \<Rightarrow> (string \<Rightarrow> dbval) \<Rightarrow> string \<Rightarrow> dbval" where
  "set_columns cols r c = (case map_of cols c of Some v \<Rightarrow> v | None \<Rightarrow> r c)"

definition primary_key :: "string \<Rightarrow> string option" where
  "primary_key t = map_of [(''skill'', ''skill_id''), (''spellbook'', ''slot_id''), (''memmed_spells'', ''slot_id''),
     (''bind_point'', ''bind_id'')] t"

fun exec_statement :: "statement \<Rightarrow> database \<Rightarrow> database result" where
  "exec_statement (UpdateRow t cid cols) db = Inr (db(t := map (\<lambda>(i, r). (i, if i = cid then set_columns cols r else r)) (db t)))"
| "exec_statement (DeleteRows t cid) db = Inr (db(t := filter (\<lambda>(i, r). i \<noteq> cid) (db t)))"
| "exec_statement (InsertRow t cid cols) db =
     (let r = set_columns cols (\<lambda>_. DbNull) in
      case primary_key t of
        Some k \<Rightarrow> if \<exists>(i, r') \<in> set (db t). i = cid \<and> r' k = r k then Inl ErrorSql else Inr (db(t := db t @ [(cid, r)]))
      | None \<Rightarrow> Inr (db(t := db t @ [(cid, r)])))"

primrec exec_all :: "statement list \<Rightarrow> database \<Rightarrow> database result" where
  "exec_all [] db = Inr db"
| "exec_all (s # ss) db = bindE (exec_statement s db) (exec_all ss)"

definition select :: "database \<Rightarrow> string \<Rightarrow> string list \<Rightarrow> u64 \<Rightarrow> row list" where
  "select db t cols cid = map (\<lambda>(i, r). map r cols) (filter (\<lambda>(i, r). i = cid) (db t))"

section \<open>Snapshots\<close>

record save_inv =
  si_slotId :: u16
  si_augSlotId :: u16
  si_stackAmount :: u16
  si_charges :: u16
  si_itemId :: u32

record saved_client =
  sv_characterId :: u64
  sv_name :: bytes
  sv_surname :: bytes
  sv_level :: u8
  sv_class :: u8
  sv_gender :: u8
  sv_face :: u8
  sv_race :: u16
  sv_deity :: u16
  sv_point :: bind_point
  sv_hp :: i32
  sv_mana :: i32
  sv_endurance :: i32
  sv_STR :: i32
  sv_DEX :: i32
  sv_AGI :: i32
  sv_STA :: i32
  sv_INT :: i32
  sv_WIS :: i32
  sv_CHA :: i32
  sv_coins :: coin
  sv_coinsBank :: coin
  sv_coinsCursor :: coin
  sv_guildRank :: i32
  sv_guildId :: i32
  sv_harmtouchTimestamp :: u64
  sv_disciplineTimestamp :: u64
  sv_hungerLevel :: u32
  sv_thirstLevel :: u32
  sv_trainingPoints :: u16
  sv_experience :: u64
  sv_anonSetting :: i32
  sv_isGM :: i32
  sv_drunkeness :: i32
  sv_material :: "u8 list"
  sv_tint :: "u32 list"
  sv_primaryModelId :: u32
  sv_secondaryModelId :: u32
  sv_memmedSpell :: "memorized_spell list"
  sv_skill :: skills
  sv_bindPoints :: "bind_point list"
  sv_inv :: "save_inv list"
  sv_spellbook :: "spellbook_slot list"

text \<open>The text a buffer of 32 bytes holds after \<^verbatim>\<open>snprintf\<close>.\<close>

definition text32 :: "bytes \<Rightarrow> bytes" where
  "text32 cs = take 31 (takeWhile (\<lambda>c. c \<noteq> 0) cs)"

text \<open>What the fields that nobody sets hold: the time of the discipline, and amounts of a slot
  without item.\<close>

record garbage =
  g_disciplineTimestamp :: u64
  g_stackAmount :: u16
  g_charges :: u16

definition save_slot :: "garbage \<Rightarrow> inventory_slot \<Rightarrow> save_inv" where
  "save_slot g src =
     \<lparr>si_slotId = is_slotId src, si_augSlotId = is_augSlotId src,
      si_stackAmount = (case is_item src of Some item \<Rightarrow> item_get_stack_amount item | None \<Rightarrow> g_stackAmount g),
      si_charges = (case is_item src of Some item \<Rightarrow> item_get_charges item | None \<Rightarrow> g_charges g),
      si_itemId = is_itemId src\<rparr>"

definition flag :: "bool \<Rightarrow> i32" where
  "flag b = (if b then 1 else 0)"

definition client_save_snapshot ::
  "garbage \<Rightarrow> client \<Rightarrow> mob \<Rightarrow> string_store \<Rightarrow> inventory_slot list \<Rightarrow> bind_point \<Rightarrow> i32 \<Rightarrow> i32 \<Rightarrow> i32 \<Rightarrow> saved_client result" where
  "client_save_snapshot g c m st slots point hp mana endurance =
     bindE (mob_name_cstr m st) (\<lambda>name.
     bindE (client_surname_cstr c st) (\<lambda>surname.
     Inr \<lparr>sv_characterId = cl_characterId c, sv_name = text32 name, sv_surname = text32 surname,
          sv_level = mob_level m, sv_class = mob_class m, sv_gender = mob_base_gender m, sv_face = mob_face m,
          sv_race = mob_base_race m, sv_deity = mob_deity m, sv_point = point,
          sv_hp = hp, sv_mana = mana, sv_endurance = endurance,
          sv_STR = mob_base_str m, sv_DEX = mob_base_dex m, sv_AGI = mob_base_agi m, sv_STA = mob_base_sta m,
          sv_INT = mob_base_int m, sv_WIS = mob_base_wis m, sv_CHA = mob_base_cha m,
          sv_coins = cl_coins c, sv_coinsBank = cl_coinsBank c, sv_coinsCursor = cl_coinsCursor c,
          sv_guildRank = ucast (client_guild_rank c), sv_guildId = cl_guildId c,
          sv_harmtouchTimestamp = cl_harmtouchTimestamp c, sv_disciplineTimestamp = g_disciplineTimestamp g,
          sv_hungerLevel = cl_hungerLevel c, sv_thirstLevel = cl_thirstLevel c, sv_trainingPoints = cl_trainingPoints c,
          sv_experience = cl_experience c, sv_anonSetting = ucast (client_anon_setting c), sv_isGM = flag (client_is_gm c),
          sv_drunkeness = ucast (cl_drunkeness c), sv_material = mb_materials m, sv_tint = mb_tints m,
          sv_primaryModelId = mb_primaryModelId m, sv_secondaryModelId = mb_secondaryModelId m,
          sv_memmedSpell = sb_memorized (cl_spellbook c), sv_skill = cl_skills c, sv_bindPoints = cl_bindPoints c,
          sv_inv = map (save_slot g) slots,
          sv_spellbook = (case sb_knownSpells (cl_spellbook c) of Some v \<Rightarrow> vec_items v | None \<Rightarrow> [])\<rparr>))"

text \<open>The sizes of the parts of a snapshot, which is one block.\<close>

definition save_length :: "saved_client \<Rightarrow> nat" where
  "save_length s = 656 + 12 * length (sv_inv s) + 8 * length (sv_spellbook s)"

definition client_save_override_location_and_vitals ::
  "heap \<Rightarrow> garbage \<Rightarrow> bool \<Rightarrow> bind_point \<Rightarrow> i32 \<Rightarrow> i32 \<Rightarrow> i32 \<Rightarrow> cstate \<Rightarrow> (saved_client \<times> cstate) result" where
  "client_save_override_location_and_vitals h g isAutoSave point hp mana endurance s =
     (case inv_slots (cl_inventory (cs_client s)) of
        None \<Rightarrow> Inl UndefinedBehaviour
      | Some v \<Rightarrow>
          bindE (client_save_snapshot g (cs_client s) (cs_mob s) (cs_strings s) (vec_items v) point hp mana endurance) (\<lambda>save.
          if can_alloc h (save_length save)
          then Inr (save, if isAutoSave then s else emit_effect TimerRestart s)
          else Inl ErrorOutOfMemory))"

text \<open>The vital values are passed as \<^verbatim>\<open>int\<close>.\<close>

definition client_save :: "heap \<Rightarrow> garbage \<Rightarrow> zone \<Rightarrow> bool \<Rightarrow> cstate \<Rightarrow> (saved_client \<times> cstate) result" where
  "client_save h g zone isAutoSave s =
     (let m = cs_mob s;
          point = \<lparr>bp_zoneId = zone_get_zone_id zone, bp_instanceId = zone_get_instance_id zone,
            bp_loc = \<lparr>loc_x = mob_x m, loc_y = mob_y m, loc_z = mob_z m, loc_heading = mob_heading m\<rparr>\<rparr>
      in client_save_override_location_and_vitals h g isAutoSave point
           (ucast (mob_current_hp m)) (ucast (mob_current_mana m)) (ucast (mob_current_endurance m)) s)"

section \<open>The transaction\<close>

definition bind_int :: "i32 \<Rightarrow> dbval" where "bind_int v = DbInt (scast v)"
definition bind_int64 :: "u64 \<Rightarrow> dbval" where "bind_int64 v = DbInt v"
definition bind_double :: "u32 \<Rightarrow> dbval" where "bind_double v = DbReal v"
definition bind_string :: "bytes \<Rightarrow> dbval" where "bind_string cs = DbText cs"

definition character_columns :: "saved_client \<Rightarrow> (string \<times> dbval) list" where
  "character_columns s =
     [(''name'', bind_string (sv_name s)), (''surname'', bind_string (sv_surname s)),
      (''level'', bind_int (ucast (sv_level s))), (''class'', bind_int (ucast (sv_class s))),
      (''race'', bind_int (ucast (sv_race s))), (''zone_id'', bind_int (ucast (bp_zoneId (sv_point s)))),
      (''instance_id'', bind_int (ucast (bp_instanceId (sv_point s)))),
      (''gender'', bind_int (ucast (sv_gender s))), (''face'', bind_int (ucast (sv_face s))),
      (''deity'', bind_int (ucast (sv_deity s))), (''x'', bind_double (loc_x (bp_loc (sv_point s)))),
      (''y'', bind_double (loc_y (bp_loc (sv_point s)))), (''z'', bind_double (loc_z (bp_loc (sv_point s)))),
      (''heading'', bind_double (loc_heading (bp_loc (sv_point s)))), (''current_hp'', bind_int (sv_hp s)),
      (''current_mana'', bind_int (sv_mana s)), (''current_endurance'', bind_int (sv_endurance s)),
      (''experience'', bind_int64 (sv_experience s)),
      (''training_points'', bind_int (ucast (sv_trainingPoints s))), (''base_str'', bind_int (sv_STR s)),
      (''base_sta'', bind_int (sv_STA s)), (''base_dex'', bind_int (sv_DEX s)),
      (''base_agi'', bind_int (sv_AGI s)), (''base_int'', bind_int (sv_INT s)),
      (''base_wis'', bind_int (sv_WIS s)), (''base_cha'', bind_int (sv_CHA s)),
      (''guild_id'', bind_int (sv_guildId s)), (''guild_rank'', bind_int (sv_guildRank s)),
      (''harmtouch_timestamp'', bind_int64 (sv_harmtouchTimestamp s)),
      (''discipline_timestamp'', bind_int64 (sv_disciplineTimestamp s)), (''pp'', bind_int (co_pp (sv_coins s))),
      (''gp'', bind_int (co_gp (sv_coins s))), (''sp'', bind_int (co_sp (sv_coins s))),
      (''cp'', bind_int (co_cp (sv_coins s))), (''pp_cursor'', bind_int (co_pp (sv_coinsCursor s))),
      (''gp_cursor'', bind_int (co_gp (sv_coinsCursor s))), (''sp_cursor'', bind_int (co_sp (sv_coinsCursor s))),
      (''cp_cursor'', bind_int (co_cp (sv_coinsCursor s))), (''pp_bank'', bind_int (co_pp (sv_coinsBank s))),
      (''gp_bank'', bind_int (co_gp (sv_coinsBank s))), (''sp_bank'', bind_int (co_sp (sv_coinsBank s))),
      (''cp_bank'', bind_int (co_cp (sv_coinsBank s))), (''hunger'', bind_int (sv_hungerLevel s)),
      (''thirst'', bind_int (sv_thirstLevel s)), (''is_gm'', bind_int (sv_isGM s)),
      (''anon'', bind_int (sv_anonSetting s)), (''drunkeness'', bind_int (sv_drunkeness s)),
      (''material0'', bind_int (ucast (sv_material s ! 0))),
      (''material1'', bind_int (ucast (sv_material s ! 1))),
      (''material2'', bind_int (ucast (sv_material s ! 2))),
      (''material3'', bind_int (ucast (sv_material s ! 3))),
      (''material4'', bind_int (ucast (sv_material s ! 4))),
      (''material5'', bind_int (ucast (sv_material s ! 5))),
      (''material6'', bind_int (ucast (sv_material s ! 6))), (''material7'', bind_int (sv_primaryModelId s)),
      (''material8'', bind_int (sv_secondaryModelId s)), (''tint0'', bind_int (sv_tint s ! 0)),
      (''tint1'', bind_int (sv_tint s ! 1)), (''tint2'', bind_int (sv_tint s ! 2)),
      (''tint3'', bind_int (sv_tint s ! 3)), (''tint4'', bind_int (sv_tint s ! 4)),
      (''tint5'', bind_int (sv_tint s ! 5)), (''tint6'', bind_int (sv_tint s ! 6))]"

definition memmed_row :: "nat \<Rightarrow> memorized_spell \<Rightarrow> (string \<times> dbval) list" where
  "memmed_row i mem = [(''slot_id'', bind_int (of_nat i)), (''spell_id'', bind_int (ms_spellId mem)),
     (''recast_timestamp_milliseconds'', bind_int64 (ms_recastTimestamp mem))]"

definition skill_row :: "nat \<Rightarrow> u8 \<Rightarrow> (string \<times> dbval) list" where
  "skill_row i v = [(''skill_id'', bind_int (of_nat i)), (''value'', bind_int (ucast v))]"

definition bind_row :: "nat \<Rightarrow> bind_point \<Rightarrow> (string \<times> dbval) list" where
  "bind_row i b = [(''bind_id'', bind_int (of_nat i)), (''zone_id'', bind_int (ucast (bp_zoneId b))),
     (''instance_id'', bind_int (ucast (bp_instanceId b))), (''x'', bind_double (loc_x (bp_loc b))),
     (''y'', bind_double (loc_y (bp_loc b))), (''z'', bind_double (loc_z (bp_loc b))),
     (''heading'', bind_double (loc_heading (bp_loc b)))]"

definition inv_row :: "save_inv \<Rightarrow> (string \<times> dbval) list" where
  "inv_row slot = [(''slot_id'', bind_int (ucast (si_slotId slot))), (''aug_slot_id'', bind_int (ucast (si_augSlotId slot))),
     (''stack_amount'', bind_int (ucast (si_stackAmount slot))), (''charges'', bind_int (ucast (si_charges slot))),
     (''item_id'', bind_int64 (ucast (si_itemId slot)))]"

definition spell_row :: "spellbook_slot \<Rightarrow> (string \<times> dbval) list" where
  "spell_row spell = [(''slot_id'', bind_int (ss_slotId spell)), (''spell_id'', bind_int (ss_spellId spell))]"

text \<open>Values that are saved: neither 0 nor one of the codes above the maximum.\<close>

definition savable :: "u8 \<Rightarrow> bool" where
  "savable v \<longleftrightarrow> v \<noteq> 0 \<and> v \<le> EQP_SKILL_MAX_VALUE"

text \<open>The rows of a loop over an array of fixed length that skips some of its elements.\<close>

definition rows_of :: "(nat \<Rightarrow> 'a \<Rightarrow> (string \<times> dbval) list) \<Rightarrow> ('a \<Rightarrow> bool) \<Rightarrow> 'a list \<Rightarrow> (string \<times> dbval) list list" where
  "rows_of f keep xs = map (\<lambda>(i, x). f i x) (filter (\<lambda>(i, x). keep x) (enumerate 0 xs))"

definition client_save_transaction :: "saved_client \<Rightarrow> statement list" where
  "client_save_transaction s =
     (let cid = sv_characterId s; ins = \<lambda>t rows. map (InsertRow t cid) rows in
      [UpdateRow ''character'' cid (character_columns s),
       DeleteRows ''memmed_spells'' cid] @
      ins ''memmed_spells'' (rows_of memmed_row (\<lambda>m. ms_spellId m \<noteq> 0) (sv_memmedSpell s)) @
      [DeleteRows ''skill'' cid] @
      ins ''skill'' (rows_of skill_row savable (sk_skill (sv_skill s))) @
      ins ''skill'' (rows_of (\<lambda>i. skill_row (i + unat EQP_DB_LANGUAGE_SKILL_OFFSET)) savable (sk_language (sv_skill s))) @
      [DeleteRows ''bind_point'' cid] @
      ins ''bind_point'' (rows_of bind_row (\<lambda>b. bp_zoneId b \<noteq> 0) (sv_bindPoints s)) @
      [DeleteRows ''inventory'' cid] @
      ins ''inventory'' (map inv_row (filter (\<lambda>slot. si_itemId slot \<noteq> 0) (sv_inv s))) @
      [DeleteRows ''spellbook'' cid] @
      ins ''spellbook'' (map spell_row (sv_spellbook s)))"

text \<open>The columns of the queries of \<^verbatim>\<open>client.c\<close>.\<close>

definition stats_columns :: "string list" where
  "stats_columns =
     [''surname'', ''level'', ''class'', ''race'', ''gender'', ''face'', ''deity'', ''x'', ''y'', ''z'',
      ''heading'', ''current_hp'', ''current_mana'', ''current_endurance'', ''experience'',
      ''training_points'', ''base_str'', ''base_sta'', ''base_dex'', ''base_agi'', ''base_int'', ''base_wis'',
      ''base_cha'', ''guild_id'', ''guild_rank'', ''harmtouch_timestamp'', ''discipline_timestamp'', ''pp'',
      ''gp'', ''sp'', ''cp'', ''pp_cursor'', ''gp_cursor'', ''sp_cursor'', ''cp_cursor'', ''pp_bank'',
      ''gp_bank'', ''sp_bank'', ''cp_bank'', ''hunger'', ''thirst'', ''is_gm'', ''anon'', ''drunkeness'',
      ''strftime(creation_time)'']"

definition skill_columns :: "string list" where
  "skill_columns = [''skill_id'', ''value'']"

definition memmed_columns :: "string list" where
  "memmed_columns = [''slot_id'', ''spell_id'', ''recast_timestamp_milliseconds'']"

definition bind_columns :: "string list" where
  "bind_columns = [''bind_id'', ''zone_id'', ''instance_id'', ''x'', ''y'', ''z'', ''heading'']"

definition inventory_columns :: "string list" where
  "inventory_columns = [''slot_id'', ''aug_slot_id'', ''stack_amount'', ''charges'', ''item_id'']"

definition spellbook_columns :: "string list" where
  "spellbook_columns = [''slot_id'', ''spell_id'']"

end
