(* ===== verification/Client_Reload.thy ===== *)
theory Client_Reload
  imports Client_Save
begin

text \<open>
  What a client gets back that is saved and loaded again. Loading an array from rows that
  name their index is one argument for spells, bind points and skills: the locale \<open>row_loader\<close>.
\<close>

section \<open>Values\<close>

lemma scast_of_nat: "i < 2147483648 \<Longrightarrow> scast (of_nat i :: u32) = (of_nat i :: u64)"
proof -
  assume "i < 2147483648"
  then have "sint (of_nat i :: u32) = int i" by (rule sint_of_nat)
  then have "(word_of_int (sint (of_nat i :: u32)) :: u64) = of_nat i" by simp
  then show ?thesis by simp
qed

lemma ucast_scast [simp]: "(ucast (scast (v :: u32) :: u64) :: u32) = v"
  by (rule bit_word_eqI) (simp add: bit_ucast_iff bit_signed_iff)

lemma ucast_ucast_u8 [simp]: "(ucast (ucast (v :: u8) :: u32) :: u8) = v"
  by (rule bit_word_eqI) (simp add: bit_ucast_iff)

lemma ucast_ucast_u16 [simp]: "(ucast (ucast (v :: u16) :: u32) :: u16) = v"
  by (rule bit_word_eqI) (simp add: bit_ucast_iff)

lemma bind_int_inj: "i < 2147483648 \<Longrightarrow> j < 2147483648 \<Longrightarrow> bind_int (of_nat i) = bind_int (of_nat j) \<longleftrightarrow> i = j"
proof -
  assume h: "i < 2147483648" "j < 2147483648"
  have u: "unat (of_nat k :: u64) = k" if "k < 2147483648" for k using that by (simp add: unat_of_nat)
  then have "(of_nat i :: u64) = of_nat j \<longleftrightarrow> i = j" using u [OF h(1)] u [OF h(2)] by metis
  then show ?thesis using h by (simp only: bind_int_def scast_of_nat dbval.inject)
qed

lemma get_bound:
  assumes "sqlite_ok q"
  shows "column_int64 q (bind_int v) = scast v" "column_int64 q (bind_int64 w) = w" "column_float q (bind_double r) = r"
  using assms by (simp_all add: sqlite_ok_def bind_int_def bind_int64_def bind_double_def)

section \<open>Running the transaction\<close>

definition table_row :: "(string \<times> dbval) list \<Rightarrow> string \<Rightarrow> dbval" where
  "table_row cols = set_columns cols (\<lambda>_. DbNull)"

definition keys_ok :: "string \<Rightarrow> (string \<times> dbval) list list \<Rightarrow> bool" where
  "keys_ok t rows \<longleftrightarrow> (case primary_key t of None \<Rightarrow> True | Some k \<Rightarrow> distinct (map (\<lambda>r. table_row r k) rows))"

lemma exec_all_append: "exec_all (xs @ ys) db = bindE (exec_all xs db) (exec_all ys)"
proof (induction xs arbitrary: db)
  case (Cons x xs)
  then show ?case by (cases "exec_statement x db") simp_all
qed simp

lemma exec_inserts:
  "keys_ok t rows \<Longrightarrow> (\<forall>k. primary_key t = Some k \<longrightarrow> (\<forall>(i, r) \<in> set (db t). i = cid \<longrightarrow> r k \<notin> (\<lambda>r. table_row r k) ` set rows)) \<Longrightarrow>
   exec_all (map (InsertRow t cid) rows) db = Inr (db(t := db t @ map (\<lambda>r. (cid, table_row r)) rows))"
proof (induction rows arbitrary: db)
  case (Cons r rs)
  let ?db = "db(t := db t @ [(cid, table_row r)])"
  have "exec_statement (InsertRow t cid r) db = Inr ?db"
    using Cons.prems(2) by (fastforce simp: Let_def table_row_def split: option.splits)
  moreover have "exec_all (map (InsertRow t cid) rs) ?db = Inr (?db(t := ?db t @ map (\<lambda>r. (cid, table_row r)) rs))"
  proof (rule Cons.IH)
    show "keys_ok t rs" using Cons.prems(1) by (auto simp: keys_ok_def split: option.splits)
    show "\<forall>k. primary_key t = Some k \<longrightarrow> (\<forall>(i, r) \<in> set (?db t). i = cid \<longrightarrow> r k \<notin> (\<lambda>r. table_row r k) ` set rs)"
      using Cons.prems by (fastforce simp: keys_ok_def)
  qed
  ultimately show ?case by (simp del: exec_statement.simps fun_upd_apply add: fun_upd_same)
qed simp

definition phase :: "string \<Rightarrow> u64 \<Rightarrow> (string \<times> dbval) list list \<Rightarrow> statement list" where
  "phase t cid rows = DeleteRows t cid # map (InsertRow t cid) rows"

lemma exec_phase:
  assumes "keys_ok t rows"
  shows "exec_all (phase t cid rows) db =
    Inr (db(t := filter (\<lambda>(i, r). i \<noteq> cid) (db t) @ map (\<lambda>r. (cid, table_row r)) rows))"
  unfolding phase_def using exec_inserts [OF assms, of "db(t := filter (\<lambda>(i, r). i \<noteq> cid) (db t))" cid] by (auto simp: case_prod_unfold)

lemma select_phase: "select (db(t := filter (\<lambda>(i, r). i \<noteq> cid) xs @ map (\<lambda>r. (cid, table_row r)) rows)) t cols cid =
    map (\<lambda>r. map (table_row r) cols) rows"
  by (auto simp: select_def case_prod_unfold filter_empty_conv comp_def)

lemma select_other: "t \<noteq> t' \<Longrightarrow> select (db(t := xs)) t' = select db t'"
  by (auto simp: select_def fun_eq_iff)

section \<open>Loading arrays\<close>

locale row_loader =
  fixes one :: "row \<Rightarrow> 's \<Rightarrow> 's result" and load :: "row list \<Rightarrow> 's \<Rightarrow> 's result" and put :: "nat \<Rightarrow> 'a \<Rightarrow> row"
    and read :: "'s \<Rightarrow> nat \<Rightarrow> 'v" and val :: "'a \<Rightarrow> 'v" and ok :: "'s \<Rightarrow> bool" and n m :: nat
  assumes load_Nil: "load [] s = Inr s"
    and load_Cons: "load (r # rs) s = bindE (one r s) (load rs)"
    and one_put: "i < n \<Longrightarrow> ok s \<Longrightarrow> \<exists>s'. one (put i x) s = Inr s' \<and> ok s' \<and> (\<forall>j < m. read s' j = (if j = i then val x else read s j))"
begin

lemma load_enumerate:
  "k + length xs \<le> n \<Longrightarrow> ok s \<Longrightarrow>
   \<exists>s'. load (map (\<lambda>(i, x). put i x) (filter (\<lambda>(i, x). keep x) (enumerate k xs))) s = Inr s' \<and> ok s' \<and>
     (\<forall>j < m. read s' j = (if k \<le> j \<and> j < k + length xs \<and> keep (xs ! (j - k)) then val (xs ! (j - k)) else read s j))"
proof (induction xs arbitrary: k s)
  case (Cons x xs)
  show ?case
  proof (cases "keep x")
    case True
    obtain s1 where s1: "one (put k x) s = Inr s1" "ok s1" "\<forall>j < m. read s1 j = (if j = k then val x else read s j)"
      using one_put [of k s x] Cons.prems by auto
    obtain s' where s': "load (map (\<lambda>(i, x). put i x) (filter (\<lambda>(i, x). keep x) (enumerate (Suc k) xs))) s1 = Inr s'" "ok s'"
      "\<forall>j < m. read s' j = (if Suc k \<le> j \<and> j < Suc k + length xs \<and> keep (xs ! (j - Suc k)) then val (xs ! (j - Suc k)) else read s1 j)"
      using Cons.IH [of "Suc k" s1] Cons.prems(1) s1(2) by auto
    have "read s' j = (if k \<le> j \<and> j < k + length (x # xs) \<and> keep ((x # xs) ! (j - k)) then val ((x # xs) ! (j - k)) else read s j)"
      if "j < m" for j
      using s1(3) s'(3) that True by (cases "j = k") (auto simp: nth_Cons')
    then show ?thesis using s1(1) s'(1,2) True by (simp add: load_Cons)
  next
    case False
    obtain s' where s': "load (map (\<lambda>(i, x). put i x) (filter (\<lambda>(i, x). keep x) (enumerate (Suc k) xs))) s = Inr s'" "ok s'"
      "\<forall>j < m. read s' j = (if Suc k \<le> j \<and> j < Suc k + length xs \<and> keep (xs ! (j - Suc k)) then val (xs ! (j - Suc k)) else read s j)"
      using Cons.IH [of "Suc k" s] Cons.prems by auto
    have "read s' j = (if k \<le> j \<and> j < k + length (x # xs) \<and> keep ((x # xs) ! (j - k)) then val ((x # xs) ! (j - k)) else read s j)"
      if "j < m" for j
      using s'(3) that False by (cases "j = k") (auto simp: nth_Cons')
    then show ?thesis using s'(1,2) False by simp
  qed
qed (auto simp: load_Nil)

end

text \<open>The rows of the loops, as a query returns them.\<close>

lemma memmed_row_cols: "map (table_row (memmed_row i x)) memmed_columns =
    [bind_int (of_nat i), bind_int (ms_spellId x), bind_int64 (ms_recastTimestamp x)]"
  by (simp add: table_row_def set_columns_def memmed_row_def memmed_columns_def)

lemma skill_row_cols: "map (table_row (skill_row i v)) skill_columns = [bind_int (of_nat i), bind_int (ucast v)]"
  by (simp add: table_row_def set_columns_def skill_row_def skill_columns_def)

lemma bind_row_cols: "map (table_row (bind_row i b)) bind_columns =
    [bind_int (of_nat i), bind_int (ucast (bp_zoneId b)), bind_int (ucast (bp_instanceId b)), bind_double (loc_x (bp_loc b)),
     bind_double (loc_y (bp_loc b)), bind_double (loc_z (bp_loc b)), bind_double (loc_heading (bp_loc b))]"
  by (simp add: table_row_def set_columns_def bind_row_def bind_columns_def)

lemmas query_simps = query_get_int_def query_get_int64_def query_get_double_def column_def

lemma unat_of_nat_small: "i < 4294967296 \<Longrightarrow> unat (of_nat i :: u32) = i"
  using unat_of_nat_u32 [of i] by simp

interpretation memmed: row_loader
  "\<lambda>r b. Inr (spellbook_add_memorized_from_database b (query_get_int q r 1) (query_get_int q r 2) (query_get_int64 q r 3))"
  "\<lambda>rs b. Inr (load_memmed_spells q rs b)" "\<lambda>i x. map (table_row (memmed_row i x)) memmed_columns"
  "\<lambda>b j. sb_memorized b ! j" "\<lambda>x. x\<lparr>ms_castingTimeMilliseconds := 0\<rparr>" "\<lambda>b. sqlite_ok q \<and> length (sb_memorized b) = 9" 9 9
  for q
proof (unfold_locales, goal_cases)
  case (3 i b x)
  then have i: "\<not> (of_nat i :: u32) \<ge> 9" "unat (of_nat i :: u32) = i" using unat_of_nat_small [of i] by (simp_all add: word_le_nat_alt)
  have "query_get_int q (map (table_row (memmed_row i x)) memmed_columns) 1 = of_nat i"
    "query_get_int q (map (table_row (memmed_row i x)) memmed_columns) 2 = ms_spellId x"
    "query_get_int64 q (map (table_row (memmed_row i x)) memmed_columns) 3 = ms_recastTimestamp x"
    using get_bound [of q] 3 by (simp_all add: query_simps memmed_row_cols)
  then show ?case using i 3 by (auto simp: spellbook_add_memorized_from_database_def nth_list_update)
qed simp_all

interpretation bind: row_loader
  "\<lambda>r c. Inr (client_set_bind_point c (query_get_int q r 1) (query_get_int q r 2) (query_get_int q r 3) (query_get_double q r 4)
          (query_get_double q r 5) (query_get_double q r 6) (query_get_double q r 7))"
  "\<lambda>rs c. Inr (load_bind_points q rs c)" "\<lambda>i x. map (table_row (bind_row i x)) bind_columns"
  "\<lambda>c j. cl_bindPoints c ! j" "\<lambda>x. x" "\<lambda>c. sqlite_ok q \<and> length (cl_bindPoints c) = 5" 5 5
  for q
proof (unfold_locales, goal_cases)
  case (3 i c x)
  then have i: "\<not> (of_nat i :: u32) \<ge> 5" "unat (of_nat i :: u32) = i" using unat_of_nat_small [of i] by (simp_all add: word_le_nat_alt)
  let ?r = "map (table_row (bind_row i x)) bind_columns"
  have "query_get_int q ?r 1 = of_nat i" "query_get_int q ?r 2 = ucast (bp_zoneId x)" "query_get_int q ?r 3 = ucast (bp_instanceId x)"
    "query_get_double q ?r 4 = loc_x (bp_loc x)" "query_get_double q ?r 5 = loc_y (bp_loc x)"
    "query_get_double q ?r 6 = loc_z (bp_loc x)" "query_get_double q ?r 7 = loc_heading (bp_loc x)"
    using get_bound [of q] 3 by (simp_all add: query_simps bind_row_cols)
  then show ?case using i 3 by (auto simp: client_set_bind_point_def nth_list_update)
qed simp_all

interpretation skill: row_loader
  "\<lambda>r sk. skills_set_from_db sk (query_get_int q r 1) (query_get_int q r 2)"
  "load_skills q" "\<lambda>i v. map (table_row (skill_row i v)) skill_columns"
  "\<lambda>sk j. sk_skill sk ! j" "\<lambda>v. v" "\<lambda>sk. sqlite_ok q \<and> length (sk_skill sk) = 74 \<and> sk_language sk = langs" 74 74
  for q langs
proof (unfold_locales, goal_cases)
  case (3 i sk v)
  then have i: "\<not> (of_nat i :: u32) \<ge> 100" "unat (of_nat i :: u32) = i" using unat_of_nat_small [of i] by (simp_all add: word_le_nat_alt)
  let ?r = "map (table_row (skill_row i v)) skill_columns"
  have "query_get_int q ?r 1 = of_nat i" "query_get_int q ?r 2 = ucast v"
    using get_bound [of q] 3 by (simp_all add: query_simps skill_row_cols)
  then show ?case using i 3
    by (auto simp: skills_set_from_db_def EQP_DB_LANGUAGE_SKILL_OFFSET_def Skill_COUNT_def Let_def nth_list_update)
qed simp_all

interpretation language: row_loader
  "\<lambda>r sk. skills_set_from_db sk (query_get_int q r 1) (query_get_int q r 2)"
  "load_skills q" "\<lambda>i v. map (table_row (skill_row (i + 100) v)) skill_columns"
  "\<lambda>sk j. (sk_skill sk ! j, if j < 24 then sk_language sk ! j else 0)" "\<lambda>v. (v, v)"
  "\<lambda>sk. sqlite_ok q \<and> length (sk_skill sk) = 74 \<and> length (sk_language sk) = 24" 24 74
  for q
proof (unfold_locales, goal_cases)
  case (3 i sk v)
  have u: "unat (of_nat (i + 100) :: u32) = i + 100" "unat (of_nat i :: u32) = i"
    by (rule unat_of_nat_small, use 3 in simp)+
  then have ge: "(of_nat (i + 100) :: u32) \<ge> 100" by (simp add: word_le_nat_alt)
  have d: "(of_nat (i + 100) :: u32) - 100 = of_nat i" by simp
  let ?r = "map (table_row (skill_row (i + 100) v)) skill_columns"
  have "query_get_int q ?r 1 = of_nat (i + 100)" "query_get_int q ?r 2 = ucast v"
    using get_bound [of q] 3 by (simp_all only: query_simps skill_row_cols) simp_all
  then have "skills_set_from_db sk (query_get_int q ?r 1) (query_get_int q ?r 2) =
      Inr (sk\<lparr>sk_language := (sk_language sk)[i := v], sk_skill := (sk_skill sk)[i := v]\<rparr>)"
    using ge d u 3 by (simp add: skills_set_from_db_def EQP_DB_LANGUAGE_SKILL_OFFSET_def Skill_COUNT_def Lang_COUNT_def Let_def)
  then show ?case using 3 by (auto simp: nth_list_update)
qed simp_all

section \<open>What a save leaves in the tables\<close>

text \<open>The row of the character, as the query of the stats returns it.\<close>

lemma character_keys: "distinct (map fst (character_columns s))"
  unfolding character_columns_def list.map fst_conv by code_simp

lemma map_of_fst_nth: "k < length xs \<Longrightarrow> distinct (map fst xs) \<Longrightarrow> map_of xs (fst (xs ! k)) = Some (snd (xs ! k))"
  by (metis map_of_eq_Some_iff nth_mem prod.collapse)

definition character_index :: "nat list" where
  "character_index = [1, 2, 3, 4, 7, 8, 9, 10, 11, 12, 13, 14, 15, 16, 17, 18, 19, 20, 21, 22, 23, 24, 25, 26, 27, 28, 29, 30, 31,
     32, 33, 34, 35, 36, 37, 38, 39, 40, 41, 42, 43, 44, 45, 46]"

lemma stats_index: "stats_columns = map (\<lambda>i. fst (character_columns s ! i)) character_index @ [''strftime(creation_time)'']"
  unfolding character_columns_def stats_columns_def character_index_def by simp

lemma character_row: "map (set_columns (character_columns s) r) stats_columns =
   [bind_string (sv_surname s), bind_int (ucast (sv_level s)), bind_int (ucast (sv_class s)),
    bind_int (ucast (sv_race s)), bind_int (ucast (sv_gender s)), bind_int (ucast (sv_face s)),
    bind_int (ucast (sv_deity s)), bind_double (loc_x (bp_loc (sv_point s))),
    bind_double (loc_y (bp_loc (sv_point s))), bind_double (loc_z (bp_loc (sv_point s))),
    bind_double (loc_heading (bp_loc (sv_point s))), bind_int (sv_hp s), bind_int (sv_mana s),
    bind_int (sv_endurance s), bind_int64 (sv_experience s), bind_int (ucast (sv_trainingPoints s)),
    bind_int (sv_STR s), bind_int (sv_STA s), bind_int (sv_DEX s), bind_int (sv_AGI s), bind_int (sv_INT s),
    bind_int (sv_WIS s), bind_int (sv_CHA s), bind_int (sv_guildId s), bind_int (sv_guildRank s),
    bind_int64 (sv_harmtouchTimestamp s), bind_int64 (sv_disciplineTimestamp s), bind_int (co_pp (sv_coins s)),
    bind_int (co_gp (sv_coins s)), bind_int (co_sp (sv_coins s)), bind_int (co_cp (sv_coins s)),
    bind_int (co_pp (sv_coinsCursor s)), bind_int (co_gp (sv_coinsCursor s)), bind_int (co_sp (sv_coinsCursor s)),
    bind_int (co_cp (sv_coinsCursor s)), bind_int (co_pp (sv_coinsBank s)), bind_int (co_gp (sv_coinsBank s)),
    bind_int (co_sp (sv_coinsBank s)), bind_int (co_cp (sv_coinsBank s)), bind_int (sv_hungerLevel s),
    bind_int (sv_thirstLevel s), bind_int (sv_isGM s), bind_int (sv_anonSetting s), bind_int (sv_drunkeness s),
    r ''strftime(creation_time)'']" (is "_ = ?row")
proof -
  have "set_columns (character_columns s) r ''strftime(creation_time)'' = r ''strftime(creation_time)''"
    by (simp add: set_columns_def character_columns_def)
  moreover have "length (character_columns s) = 63" by (simp add: character_columns_def)
  then have "set_columns (character_columns s) r (fst (character_columns s ! i)) = snd (character_columns s ! i)"
    if "i \<in> set character_index" for i
    using that map_of_fst_nth [OF _ character_keys, of i s] by (auto simp: set_columns_def character_index_def)
  then have "map (set_columns (character_columns s) r) (map (\<lambda>i. fst (character_columns s ! i)) character_index) =
      map (\<lambda>i. snd (character_columns s ! i)) character_index" by simp
  moreover have "map (\<lambda>i. snd (character_columns s ! i)) character_index = take 44 ?row"
    by (simp add: character_index_def character_columns_def)
  ultimately show ?thesis by (simp add: stats_index [of s])
qed

lemma distinct_indices: "distinct (map fst (filter P (enumerate k xs)))"
  by (rule distinct_map_filter) (simp add: enumerate_eq_zip)

lemma distinct_rows:
  assumes "inj_on f {..<length xs}" "\<And>i x. table_row (row i x) k = f i"
  shows "distinct (map (\<lambda>r. table_row r k) (rows_of row keep xs))"
proof -
  let ?es = "filter (\<lambda>(i, x). keep x) (enumerate 0 xs)"
  have "map (\<lambda>r. table_row r k) (rows_of row keep xs) = map f (map fst ?es)"
    by (simp add: rows_of_def assms(2) case_prod_unfold comp_def)
  moreover have "set (map fst ?es) \<subseteq> {..<length xs}" by (auto simp: in_set_enumerate_eq)
  then have "inj_on f (set (map fst ?es))" using assms(1) inj_on_subset by blast
  ultimately show ?thesis using distinct_indices [of "\<lambda>(i, x). keep x" 0 xs] by (simp only: distinct_map)
qed

lemma inj_bind_int: "n < 2147483648 \<Longrightarrow> inj_on (\<lambda>i. bind_int (of_nat i)) {..<n}"
  by (rule inj_onI) (use bind_int_inj in force)

lemma memmed_keys: "length xs < 2147483648 \<Longrightarrow> keys_ok ''memmed_spells'' (rows_of memmed_row keep xs)"
  using distinct_rows [OF inj_bind_int [of "length xs"], of memmed_row "''slot_id''" keep]
  by (simp add: keys_ok_def primary_key_def table_row_def set_columns_def memmed_row_def)

lemma bind_keys: "length xs < 2147483648 \<Longrightarrow> keys_ok ''bind_point'' (rows_of bind_row keep xs)"
  using distinct_rows [OF inj_bind_int [of "length xs"], of bind_row "''bind_id''" keep]
  by (simp add: keys_ok_def primary_key_def table_row_def set_columns_def bind_row_def)

lemma inventory_keys: "keys_ok ''inventory'' rows"
  by (simp add: keys_ok_def primary_key_def)

lemma spellbook_keys:
  assumes "distinct (map ss_slotId xs)"
  shows "keys_ok ''spellbook'' (map spell_row xs)"
proof -
  have "inj bind_int" by (rule injI) (use ucast_scast in \<open>metis bind_int_def dbval.inject(1)\<close>)
  moreover have "map (\<lambda>r. table_row r ''slot_id'') (map spell_row xs) = map bind_int (map ss_slotId xs)"
    by (simp add: table_row_def set_columns_def spell_row_def)
  ultimately have "distinct (map (\<lambda>r. table_row r ''slot_id'') (map spell_row xs))"
    using assms by (metis distinct_map inj_on_subset subset_UNIV)
  then show ?thesis by (simp add: keys_ok_def primary_key_def)
qed

lemma skill_keys:
  assumes "length xs = 74" "length ys = 24"
  shows "keys_ok ''skill'' (rows_of skill_row keep xs @ rows_of (\<lambda>i. skill_row (i + 100)) keep ys)"
proof -
  let ?k = "\<lambda>r. table_row r ''skill_id''"
  have k: "?k (skill_row i v) = bind_int (of_nat i)" for i v by (simp add: table_row_def set_columns_def skill_row_def)
  have inj: "inj_on (\<lambda>i. bind_int (of_nat (i + 100))) {..<length ys}"
  proof (rule inj_onI)
    fix x y assume "x \<in> {..<length ys}" "y \<in> {..<length ys}" "bind_int (of_nat (x + 100)) = bind_int (of_nat (y + 100))"
    then show "x = y" using assms(2) bind_int_inj [of "x + 100" "y + 100"] by (simp del: of_nat_add)
  qed
  have d: "distinct (map ?k (rows_of skill_row keep xs))" "distinct (map ?k (rows_of (\<lambda>i. skill_row (i + 100)) keep ys))"
    using assms by (auto intro!: distinct_rows [OF inj_bind_int] distinct_rows [OF inj] simp: k simp del: of_nat_add)
  have "?k a \<noteq> ?k b" if "a \<in> set (rows_of skill_row keep xs)" "b \<in> set (rows_of (\<lambda>i. skill_row (i + 100)) keep ys)" for a b
  proof -
    note ab = that
    obtain i v j w where "a = skill_row i v" "i < 74" "b = skill_row (j + 100) w" "j < 24"
      using ab assms by (auto simp: rows_of_def in_set_enumerate_eq)
    then show ?thesis using bind_int_inj [of i "j + 100"] by (simp add: k del: of_nat_add)
  qed
  then show ?thesis using d by (auto simp: keys_ok_def primary_key_def)
qed

lemma select_at: "db t = filter (\<lambda>(i, r). i \<noteq> cid) xs @ map (\<lambda>r. (cid, table_row r)) rows \<Longrightarrow>
   select db t cols cid = map (\<lambda>r. map (table_row r) cols) rows"
  by (auto simp: select_def case_prod_unfold filter_empty_conv comp_def)

lemma client_save_transaction_phases:
  "client_save_transaction s =
     [UpdateRow ''character'' (sv_characterId s) (character_columns s)] @
     phase ''memmed_spells'' (sv_characterId s) (rows_of memmed_row (\<lambda>m. ms_spellId m \<noteq> 0) (sv_memmedSpell s)) @
     phase ''skill'' (sv_characterId s)
       (rows_of skill_row savable (sk_skill (sv_skill s)) @ rows_of (\<lambda>i. skill_row (i + 100)) savable (sk_language (sv_skill s))) @
     phase ''bind_point'' (sv_characterId s) (rows_of bind_row (\<lambda>b. bp_zoneId b \<noteq> 0) (sv_bindPoints s)) @
     phase ''inventory'' (sv_characterId s) (map inv_row (filter (\<lambda>slot. si_itemId slot \<noteq> 0) (sv_inv s))) @
     phase ''spellbook'' (sv_characterId s) (map spell_row (sv_spellbook s))"
  by (simp add: client_save_transaction_def phase_def Let_def EQP_DB_LANGUAGE_SKILL_OFFSET_def)

text \<open>The arrays of a snapshot, of their lengths, and spells in different slots.\<close>

definition well_formed_save :: "saved_client \<Rightarrow> bool" where
  "well_formed_save s \<longleftrightarrow> length (sv_memmedSpell s) = 9 \<and> length (sk_skill (sv_skill s)) = 74 \<and>
     length (sk_language (sv_skill s)) = 24 \<and> length (sv_bindPoints s) = 5 \<and> distinct (map ss_slotId (sv_spellbook s))"

lemma transaction_saves:
  assumes "well_formed_save s"
  shows "\<exists>db'. exec_all (client_save_transaction s) db = Inr db' \<and>
    select db' ''character'' stats_columns (sv_characterId s) =
      map (\<lambda>(i, r). map (set_columns (character_columns s) r) stats_columns) (filter (\<lambda>(i, r). i = sv_characterId s) (db ''character'')) \<and>
    select db' ''memmed_spells'' memmed_columns (sv_characterId s) =
      map (\<lambda>r. map (table_row r) memmed_columns) (rows_of memmed_row (\<lambda>m. ms_spellId m \<noteq> 0) (sv_memmedSpell s)) \<and>
    select db' ''skill'' skill_columns (sv_characterId s) =
      map (\<lambda>r. map (table_row r) skill_columns)
        (rows_of skill_row savable (sk_skill (sv_skill s)) @ rows_of (\<lambda>i. skill_row (i + 100)) savable (sk_language (sv_skill s))) \<and>
    select db' ''bind_point'' bind_columns (sv_characterId s) =
      map (\<lambda>r. map (table_row r) bind_columns) (rows_of bind_row (\<lambda>b. bp_zoneId b \<noteq> 0) (sv_bindPoints s))"
proof -
  let ?c = "sv_characterId s"
  let ?m = "rows_of memmed_row (\<lambda>m. ms_spellId m \<noteq> 0) (sv_memmedSpell s)"
  let ?k = "rows_of skill_row savable (sk_skill (sv_skill s)) @ rows_of (\<lambda>i. skill_row (i + 100)) savable (sk_language (sv_skill s))"
  let ?b = "rows_of bind_row (\<lambda>b. bp_zoneId b \<noteq> 0) (sv_bindPoints s)"
  let ?i = "map inv_row (filter (\<lambda>slot. si_itemId slot \<noteq> 0) (sv_inv s))"
  let ?p = "map spell_row (sv_spellbook s)"
  have ok: "keys_ok ''memmed_spells'' ?m" "keys_ok ''skill'' ?k" "keys_ok ''bind_point'' ?b" "keys_ok ''inventory'' ?i" "keys_ok ''spellbook'' ?p"
    using assms memmed_keys skill_keys bind_keys inventory_keys spellbook_keys by (simp_all add: well_formed_save_def)
  define upd where "upd = (\<lambda>t rows (db :: database). db(t := filter (\<lambda>(i, r). i \<noteq> ?c) (db t) @ map (\<lambda>r. (?c, table_row r)) rows))"
  have phases: "exec_all (phase ''memmed_spells'' ?c ?m) d = Inr (upd ''memmed_spells'' ?m d)"
    "exec_all (phase ''skill'' ?c ?k) d = Inr (upd ''skill'' ?k d)" "exec_all (phase ''bind_point'' ?c ?b) d = Inr (upd ''bind_point'' ?b d)"
    "exec_all (phase ''inventory'' ?c ?i) d = Inr (upd ''inventory'' ?i d)" "exec_all (phase ''spellbook'' ?c ?p) d = Inr (upd ''spellbook'' ?p d)"
    for d using ok exec_phase unfolding upd_def by metis+
  define d0 where "d0 = db(''character'' := map (\<lambda>(i, r). (i, if i = ?c then set_columns (character_columns s) r else r)) (db ''character''))"
  define d where "d = upd ''spellbook'' ?p (upd ''inventory'' ?i (upd ''bind_point'' ?b (upd ''skill'' ?k (upd ''memmed_spells'' ?m d0))))"
  have "exec_all (client_save_transaction s) db = Inr d"
    unfolding client_save_transaction_phases exec_all_append by (simp add: phases d_def d0_def del: append_assoc)
  moreover have "select d ''character'' stats_columns ?c =
      map (\<lambda>(i, r). map (set_columns (character_columns s) r) stats_columns) (filter (\<lambda>(i, r). i = ?c) (db ''character''))"
    unfolding select_def d_def upd_def d0_def by (simp add: filter_map comp_def case_prod_unfold)
  moreover have "select d ''memmed_spells'' memmed_columns ?c = map (\<lambda>r. map (table_row r) memmed_columns) ?m"
    "select d ''skill'' skill_columns ?c = map (\<lambda>r. map (table_row r) skill_columns) ?k"
    "select d ''bind_point'' bind_columns ?c = map (\<lambda>r. map (table_row r) bind_columns) ?b"
    by (rule select_at, simp add: d_def upd_def d0_def)+
  ultimately show ?thesis by blast
qed

section \<open>Loading what was saved\<close>

lemma rows_cols: "map (\<lambda>r. map (table_row r) cols) (rows_of row keep xs) =
    map (\<lambda>(i, x). map (table_row (row i x)) cols) (filter (\<lambda>(i, x). keep x) (enumerate 0 xs))"
  by (simp add: rows_of_def case_prod_unfold)

lemma memmed_reload:
  assumes "sqlite_ok q" "length (sb_memorized b) = 9" "length xs = 9" "j < 9"
  shows "sb_memorized (load_memmed_spells q (map (\<lambda>r. map (table_row r) memmed_columns) (rows_of memmed_row keep xs)) b) ! j =
    (if keep (xs ! j) then (xs ! j)\<lparr>ms_castingTimeMilliseconds := 0\<rparr> else sb_memorized b ! j)"
  using memmed.load_enumerate [of 0 xs q b keep] assms unfolding rows_cols by auto

lemma bind_reload:
  assumes "sqlite_ok q" "length (cl_bindPoints c) = 5" "length xs = 5" "j < 5"
  shows "cl_bindPoints (load_bind_points q (map (\<lambda>r. map (table_row r) bind_columns) (rows_of bind_row keep xs)) c) ! j =
    (if keep (xs ! j) then xs ! j else cl_bindPoints c ! j)"
  using bind.load_enumerate [of 0 xs q c keep] assms unfolding rows_cols by auto

lemma load_skills_append: "load_skills q (xs @ ys) sk = bindE (load_skills q xs sk) (load_skills q ys)"
proof (induction xs arbitrary: sk)
  case (Cons x xs)
  then show ?case by (cases "skills_set_from_db sk (query_get_int q x 1) (query_get_int q x 2)") simp_all
qed simp

lemma skills_reload:
  assumes "sqlite_ok q" "length (sk_skill sk) = 74" "length (sk_language sk) = 24" "length xs = 74" "length ys = 24"
  shows "\<exists>sk'. load_skills q (map (\<lambda>r. map (table_row r) skill_columns)
        (rows_of skill_row keep xs @ rows_of (\<lambda>i. skill_row (i + 100)) keep ys)) sk = Inr sk' \<and>
    (\<forall>j < 74. sk_skill sk' ! j = (if j < 24 \<and> keep (ys ! j) then ys ! j else if keep (xs ! j) then xs ! j else sk_skill sk ! j)) \<and>
    (\<forall>j < 24. sk_language sk' ! j = (if keep (ys ! j) then ys ! j else sk_language sk ! j))"
proof -
  obtain sk1 where sk1: "load_skills q (map (\<lambda>r. map (table_row r) skill_columns) (rows_of skill_row keep xs)) sk = Inr sk1"
    "length (sk_skill sk1) = 74" "sk_language sk1 = sk_language sk"
    "\<forall>j < 74. sk_skill sk1 ! j = (if keep (xs ! j) then xs ! j else sk_skill sk ! j)"
    using skill.load_enumerate [of 0 xs q sk "sk_language sk" keep] assms unfolding rows_cols by auto
  obtain sk2 where sk2:
    "load_skills q (map (\<lambda>r. map (table_row r) skill_columns) (rows_of (\<lambda>i. skill_row (i + 100)) keep ys)) sk1 = Inr sk2"
    "\<forall>j < 74. (sk_skill sk2 ! j, if j < 24 then sk_language sk2 ! j else 0) =
      (if j < 24 \<and> keep (ys ! j) then (ys ! j, ys ! j) else (sk_skill sk1 ! j, if j < 24 then sk_language sk1 ! j else 0))"
    using language.load_enumerate [of 0 ys q sk1 keep] assms(1,3,5) sk1(2,3) unfolding rows_cols by auto
  have "sk_skill sk2 ! j = (if j < 24 \<and> keep (ys ! j) then ys ! j else if keep (xs ! j) then xs ! j else sk_skill sk ! j)"
    if "j < 74" for j using sk2(2) sk1(4) that by (auto split: if_splits)
  moreover have "sk_language sk2 ! j = (if keep (ys ! j) then ys ! j else sk_language sk ! j)" if "j < 24" for j
    using sk2(2) [rule_format, of j] sk1(3) that by (simp split: if_splits)
  ultimately show ?thesis using sk1(1) sk2(1) by (simp add: load_skills_append)
qed

end
