(* ===== verification/Client_Properties.thy ===== *)
theory Client_Properties
  imports World_Properties Client_Reload
begin

text \<open>
  What is promised of clients: loading one ends, and what is saved of one comes back.
\<close>

section \<open>Loading\<close>

text \<open>C30. Once a client has been created, it is ready exactly when its last part is there: in whatever
  order the queries and the connection come in (only the skills after the stats, whose callback asks for
  them), no part fails, the last one starts the timer and the Lua side and sends the profile, this
  happens once, and of the references taken for the queries only the client's own is left.\<close>

theorem client_loading_completes:
  assumes "ample h" "length (cz_accountName zoning) < 2 ^ 31" "length (cz_characterName zoning) < 2 ^ 31"
    "\<forall>a \<in> set as. sound q a" "distinct (map bits as)" "bits ` set as = all_bits" "ordered as"
  shows "\<exists>s s' before. client_create h zc zone zoning st = Inr s \<and> arrive_all h q item_by_id g as s = Inr s' \<and>
    cl_loaded (cs_client s') = 0xff \<and> cl_refCount (cs_client s') = 1 \<and>
    cs_effects s' = before @ finishing (client_is_trilogy (cs_client s')) \<and> TimerStart \<notin> set before"
proof -
  obtain s where s: "client_create h zc zone zoning st = Inr s" using client_create_total [OF assms(1-3)] by blast
  have "\<exists>s'. arrive_all h q item_by_id g as s = Inr s' \<and> progress (fold (\<lambda>a l. l OR bits a) as 0) s'"
    by (rule arrive_all_progress [OF assms(1) client_create_progress [OF s assms(1)]]) (use assms in auto)
  then obtain s' where s': "arrive_all h q item_by_id g as s = Inr s'" "progress 0xff s'"
    unfolding fold_all_bits [OF assms(6)] by blast
  have "refs 0xff = 1" by (simp add: refs_def missing_def loaded_bits)
  then show ?thesis using s s' unfolding progress_def by auto
qed

definition a_sqlite :: sqlite where
  "a_sqlite = \<lparr>column_int64 = \<lambda>v. case v of DbInt i \<Rightarrow> i | _ \<Rightarrow> 0, column_float = \<lambda>v. case v of DbReal r \<Rightarrow> r | _ \<Rightarrow> 0,
     column_text = \<lambda>v. case v of DbText t \<Rightarrow> t | _ \<Rightarrow> []\<rparr>"

lemma a_sqlite_ok: "sqlite_ok a_sqlite"
  by (simp add: sqlite_ok_def a_sqlite_def)

definition a_zoning :: client_zoning where
  "a_zoning = \<lparr>cz_accountId = 7, cz_ipAddress = 0x7f000001, cz_characterId = 42, cz_isLocal = 0, cz_isFromCharSelect = 1,
     cz_accountName = [0x61, 0], cz_characterName = [0x41, 0]\<rparr>"

definition no_strings :: string_store where
  "no_strings = \<lparr>ss_strings = Map.empty, ss_next = 0\<rparr>"

definition some_arrivals :: "arrival list" where
  "some_arrivals = [BindPoints [], Connected 3 ExpansionId_Trilogy, Stats [], MemmedSpells [], Skills [[DbInt 2, DbInt 30]],
     Spellbook [], Inventory []]"

theorem client_loading_completes_witness:
  "\<exists>s s' before. client_create roomy 1 2 a_zoning no_strings = Inr s \<and>
     arrive_all roomy a_sqlite (\<lambda>_. None) 0 some_arrivals s = Inr s' \<and>
     cs_effects s' = before @ finishing (client_is_trilogy (cs_client s'))"
proof -
  let ?as = "some_arrivals"
  have as: "\<forall>a \<in> set ?as. sound a_sqlite a" by (simp add: some_arrivals_def query_get_int_def column_def a_sqlite_def)
  have d: "distinct (map bits ?as)" "ordered ?as" by (simp_all add: some_arrivals_def loaded_bits)
  have b: "bits ` set ?as = all_bits" by (auto simp add: some_arrivals_def all_bits_def)
  have n: "length (cz_accountName a_zoning) < 2 ^ 31" "length (cz_characterName a_zoning) < 2 ^ 31" by (simp_all add: a_zoning_def)
  from client_loading_completes [OF ample_roomy n as d(1) b d(2), of 1 2 no_strings "\<lambda>_. None" 0] show ?thesis by blast
qed

section \<open>Saving\<close>

text \<open>What a row of the table of characters keeps of a client and of its mob.\<close>

definition persistent_client :: "client \<Rightarrow> u64 \<times> u16 \<times> i32 \<times> u8 \<times> u64 \<times> coin \<times> coin \<times> coin \<times> u32 \<times> u32 \<times> bool \<times> u8 \<times> u8" where
  "persistent_client c = (cl_experience c, cl_trainingPoints c, cl_guildId c, cl_guildRank c, cl_harmtouchTimestamp c,
     cl_coins c, cl_coinsBank c, cl_coinsCursor c, cl_hungerLevel c, cl_thirstLevel c, cl_isGM c, cl_anonSetting c, cl_drunkeness c)"

definition persistent_mob :: "mob \<Rightarrow> (u8 \<times> u8 \<times> u16 \<times> u8 \<times> u8 \<times> u16) \<times> (u32 \<times> u32 \<times> u32 \<times> u32) \<times> i32 list" where
  "persistent_mob m = ((mob_level m, mob_class m, mob_base_race m, mob_base_gender m, mob_face m, mob_deity m),
     (mob_x m, mob_y m, mob_z m, mob_heading m),
     [mob_base_str m, mob_base_sta m, mob_base_dex m, mob_base_agi m, mob_base_int m, mob_base_wis m, mob_base_cha m])"

lemma load_saved_client:
  assumes "sqlite_ok q" "client_save_snapshot g c m st slots point hp mana endurance = Inr sv"
  shows "persistent_client (load_client q (map (set_columns (character_columns sv) r) stats_columns) c0) = persistent_client c"
    "cl_disciplineTimestamp (load_client q (map (set_columns (character_columns sv) r) stats_columns) c0) = g_disciplineTimestamp g"
  using assms get_bound [of q]
  by (auto simp: client_save_snapshot_def result_simps persistent_client_def load_client_def Let_def query_simps character_row
      flag_def client_guild_rank_def client_anon_setting_def client_is_gm_def split: if_splits)

lemmas mob_access = mob_level_def mob_class_def mob_base_race_def mob_base_gender_def mob_face_def
  mob_deity_def mob_x_def mob_y_def mob_z_def mob_heading_def mob_current_hp_def mob_current_mana_def
  mob_current_endurance_def mob_base_str_def
  mob_base_sta_def mob_base_dex_def mob_base_agi_def mob_base_int_def mob_base_wis_def mob_base_cha_def
  mob_set_base_str_def mob_set_base_sta_def mob_set_base_dex_def mob_set_base_agi_def mob_set_base_int_def
  mob_set_base_wis_def mob_set_base_cha_def

lemma load_saved_mob:
  assumes "sqlite_ok q" "client_save_snapshot g c m st slots point hp mana endurance = Inr sv"
    "bp_loc point = \<lparr>loc_x = mob_x m, loc_y = mob_y m, loc_z = mob_z m, loc_heading = mob_heading m\<rparr>"
  shows "persistent_mob (load_mob q (map (set_columns (character_columns sv) r) stats_columns) m0) = persistent_mob m"
    "mob_current_hp (load_mob q (map (set_columns (character_columns sv) r) stats_columns) m0) = scast hp"
    "mob_current_mana (load_mob q (map (set_columns (character_columns sv) r) stats_columns) m0) = scast mana"
    "mob_current_endurance (load_mob q (map (set_columns (character_columns sv) r) stats_columns) m0) = scast endurance"
  using assms get_bound [of q]
  by (auto simp: client_save_snapshot_def result_simps persistent_mob_def load_mob_def Let_def query_simps character_row mob_access)


definition restored_memmed :: "memorized_spell list \<Rightarrow> spellbook \<Rightarrow> spellbook \<Rightarrow> bool" where
  "restored_memmed saved fresh b \<longleftrightarrow> (\<forall>j < 9. sb_memorized b ! j =
     (if ms_spellId (saved ! j) \<noteq> 0 then (saved ! j)\<lparr>ms_castingTimeMilliseconds := 0\<rparr> else sb_memorized fresh ! j))"

definition restored_binds :: "bind_point list \<Rightarrow> client \<Rightarrow> client \<Rightarrow> bool" where
  "restored_binds saved fresh c \<longleftrightarrow> (\<forall>j < 5. cl_bindPoints c ! j =
     (if bp_zoneId (saved ! j) \<noteq> 0 then saved ! j else cl_bindPoints fresh ! j))"

text \<open>A client whose arrays have their lengths, with spells in different slots.\<close>

definition well_formed_client :: "client \<Rightarrow> bool" where
  "well_formed_client c \<longleftrightarrow> length (sb_memorized (cl_spellbook c)) = 9 \<and> length (sk_skill (cl_skills c)) = 74 \<and>
     length (sk_language (cl_skills c)) = 24 \<and> length (cl_bindPoints c) = 5 \<and>
     (\<forall>v. sb_knownSpells (cl_spellbook c) = Some v \<longrightarrow> distinct (map ss_slotId (vec_items v)))"

lemma client_save_snapshotE:
  assumes "client_save h g zone isAutoSave s = Inr (sv, s1)"
  obtains slots where "client_save_snapshot g (cs_client s) (cs_mob s) (cs_strings s) slots
    \<lparr>bp_zoneId = zone_get_zone_id zone, bp_instanceId = zone_get_instance_id zone,
     bp_loc = \<lparr>loc_x = mob_x (cs_mob s), loc_y = mob_y (cs_mob s), loc_z = mob_z (cs_mob s), loc_heading = mob_heading (cs_mob s)\<rparr>\<rparr>
    (ucast (mob_current_hp (cs_mob s))) (ucast (mob_current_mana (cs_mob s))) (ucast (mob_current_endurance (cs_mob s))) = Inr sv"
  using assms that by (auto simp: client_save_def Let_def client_save_override_location_and_vitals_def result_simps split: option.splits if_splits)

lemma snapshot_copies:
  assumes "client_save_snapshot g c m st slots point hp mana endurance = Inr sv"
  shows "sv_characterId sv = cl_characterId c" "sv_memmedSpell sv = sb_memorized (cl_spellbook c)" "sv_skill sv = cl_skills c"
    "sv_bindPoints sv = cl_bindPoints c" "well_formed_client c \<Longrightarrow> well_formed_save sv"
  using assms by (auto simp: client_save_snapshot_def result_simps well_formed_client_def well_formed_save_def split: option.splits)


definition a_hero :: cstate where
  "a_hero = \<lparr>cs_client = zero_client_struct\<lparr>cl_characterId := 42, cl_experience := 123456, cl_coins := zero_coin\<lparr>co_pp := 17\<rparr>,
       cl_isGM := True, cl_skills := skills_preinit (cl_skills zero_client_struct),
       cl_inventory := zero_inventory\<lparr>inv_slots := Some \<lparr>vec_capacity = 0, vec_items = []\<rparr>\<rparr>\<rparr>,
     cs_mob = zero_mob\<lparr>mb_level := 60, mb_currentHp := -3\<rparr>, cs_strings = no_strings, cs_effects = []\<rparr>"

definition a_zone :: zone where
  "a_zone = \<lparr>zn_sourceId = 1, zn_zoneId = 2, zn_instanceId = 0, zn_mobsByEntityId = \<lparr>vec_capacity = 0, vec_items = []\<rparr>,
     zn_mobsByPosition = \<lparr>vec_capacity = 0, vec_items = []\<rparr>, zn_clientList = \<lparr>vec_capacity = 0, vec_items = []\<rparr>, zn_safeSpot = zero_loc,
     zn_fogStats = [], zn_zoneType = 0, zn_skyType = 0, zn_gravity = 0, zn_minZ = 0, zn_minClippingDistance = 0,
     zn_maxClippingDistance = 0\<rparr>"

definition no_garbage :: garbage where
  "no_garbage = \<lparr>g_disciplineTimestamp = 0xdeadbeef, g_stackAmount = 0, g_charges = 0\<rparr>"

definition one_row :: database where
  "one_row t = (if t = ''character'' then [(42, \<lambda>_. DbNull)] else [])"

lemma a_hero_ok: "well_formed_client (cs_client a_hero)" "cl_characterId (cs_client a_hero) = 42"
  by (simp_all add: a_hero_def well_formed_client_def zero_client_struct_def EQP_MEMORIZED_SPELL_SLOTS_def skills_preinit_def
      set_skills_def Let_def Skill_COUNT_def Lang_COUNT_def skillsThatDefaultToZeroUniversally_def)

lemma a_hero_saved: "\<exists>sv. client_save roomy no_garbage zone False a_hero = Inr (sv, emit_effect TimerRestart a_hero)"
  by (simp add: client_save_def client_save_override_location_and_vitals_def client_save_snapshot_def a_hero_def Let_def
      roomy_def mob_name_cstr_def client_surname_cstr_def zero_mob_def zero_client_struct_def)




end
