(* ===== verification/Packet_Ops.thy ===== *)
theory Packet_Ops
  imports Aligned Packet_Trilogy Vec
begin

text \<open>
  How the packets are built: every function that fills a packet is a straight sequence of calls of
  \<^verbatim>\<open>aligned.c\<close> on one cursor. Such a sequence is data here, field by field, and its
  execution goes through the model of the cursor. The lemmas relate it to a layout: if the calls
  for each field use exactly its bytes, every field of the struct holds what its own calls make of it.
\<close>

section \<open>Calls\<close>

text \<open>\<open>Paint\<close> is a \<^verbatim>\<open>memset\<close> at the cursor that does not move it. A \<open>Poke\<close> moves the cursor, writes and
  resets it; the second kind moves two bytes further by a second call. \<open>Back\<close> resets the cursor to a position kept from before.\<close>

datatype op =
    U8 u8
  | U16 u16
  | U32 u32
  | Skip nat
  | Txt nat bytes
  | Fill u8 nat
  | Buf bytes
  | Paint u8 nat
  | Poke16 u32 u16
  | Poke8 u32 u8
  | Back nat

primrec exec_op :: "op \<Rightarrow> aligned \<Rightarrow> aligned result" where
  "exec_op (U8 v) w = aligned_write_uint8 w v"
| "exec_op (U16 v) w = aligned_write_uint16 w v"
| "exec_op (U32 v) w = aligned_write_uint32 w v"
| "exec_op (Skip n) w = bindE (aligned_advance w (of_nat n)) (\<lambda>(w, c). Inr w)"
| "exec_op (Txt n t) w = aligned_write_snprintf_full_advance w (of_nat n) t"
| "exec_op (Fill v n) w = aligned_write_memset w v (of_nat n)"
| "exec_op (Buf bs) w = aligned_write_buffer w bs (of_nat (length bs))"
| "exec_op (Paint v n) w = aligned_store w (al_cursor w) (replicate n v)"
| "exec_op (Poke16 off v) w =
     bindE (aligned_advance w off) (\<lambda>(w', c).
     bindE (aligned_write_uint16 w' v) (\<lambda>w'. Inr (aligned_reset_to w' (al_cursor w))))"
| "exec_op (Poke8 off v) w =
     bindE (aligned_advance w off) (\<lambda>(w', c).
     bindE (aligned_advance w' 2) (\<lambda>(w', c).
     bindE (aligned_write_uint8 w' v) (\<lambda>w'. Inr (aligned_reset_to w' (al_cursor w)))))"
| "exec_op (Back n) w = Inr (aligned_reset_to w (al_cursor w - of_nat n))"

primrec exec_ops :: "op list \<Rightarrow> aligned \<Rightarrow> aligned result" where
  "exec_ops [] w = Inr w"
| "exec_ops (x # xs) w = bindE (exec_op x w) (exec_ops xs)"

text \<open>A program names the fields it fills, in order.\<close>

type_synonym program = "(string \<times> op list) list"
type_synonym layout = "(string \<times> nat) list"

definition run_program :: "program \<Rightarrow> aligned \<Rightarrow> aligned result" where
  "run_program prog w = exec_ops (concat (map snd prog)) w"

definition layout_size :: "layout \<Rightarrow> nat" where
  "layout_size l = sum_list (map snd l)"

section \<open>Calls on the bytes of one field\<close>

primrec local_op :: "op \<Rightarrow> nat \<Rightarrow> bytes \<Rightarrow> bytes" where
  "local_op (U8 v) p bs = overwrite bs p [v]"
| "local_op (U16 v) p bs = overwrite bs p (uint16_bytes v)"
| "local_op (U32 v) p bs = overwrite bs p (uint32_bytes v)"
| "local_op (Skip n) p bs = bs"
| "local_op (Txt n t) p bs = overwrite bs p (if n = 0 then [] else take (n - 1) t @ [0])"
| "local_op (Fill v n) p bs = overwrite bs p (replicate n v)"
| "local_op (Buf xs) p bs = overwrite bs p xs"
| "local_op (Paint v n) p bs = overwrite bs p (replicate n v)"
| "local_op (Poke16 off v) p bs = overwrite bs (p + unat off) (uint16_bytes v)"
| "local_op (Poke8 off v) p bs = overwrite bs (p + unat off + 2) [v]"
| "local_op (Back n) p bs = bs"

text \<open>Where the cursor is after a call.\<close>

primrec after :: "op \<Rightarrow> nat \<Rightarrow> nat" where
  "after (U8 v) p = p + 1"
| "after (U16 v) p = p + 2"
| "after (U32 v) p = p + 4"
| "after (Skip n) p = p + n"
| "after (Txt n t) p = p + n"
| "after (Fill v n) p = p + n"
| "after (Buf xs) p = p + length xs"
| "after (Paint v n) p = p"
| "after (Poke16 off v) p = p"
| "after (Poke8 off v) p = p"
| "after (Back n) p = p - n"

text \<open>A call that starts at position \<open>p\<close> of a field and stays inside its \<open>n\<close> bytes.\<close>

primrec fits_op :: "op \<Rightarrow> nat \<Rightarrow> nat \<Rightarrow> bool" where
  "fits_op (U8 v) p n \<longleftrightarrow> p + 1 \<le> n"
| "fits_op (U16 v) p n \<longleftrightarrow> p + 2 \<le> n"
| "fits_op (U32 v) p n \<longleftrightarrow> p + 4 \<le> n"
| "fits_op (Skip k) p n \<longleftrightarrow> p + k \<le> n"
| "fits_op (Txt k t) p n \<longleftrightarrow> p + k \<le> n"
| "fits_op (Fill v k) p n \<longleftrightarrow> p + k \<le> n"
| "fits_op (Buf xs) p n \<longleftrightarrow> p + length xs \<le> n"
| "fits_op (Paint v k) p n \<longleftrightarrow> p + k \<le> n"
| "fits_op (Poke16 off v) p n \<longleftrightarrow> p + unat off + 2 \<le> n"
| "fits_op (Poke8 off v) p n \<longleftrightarrow> p + unat off + 3 \<le> n"
| "fits_op (Back k) p n \<longleftrightarrow> k \<le> p \<and> p \<le> n"

primrec local_ops :: "op list \<Rightarrow> nat \<Rightarrow> bytes \<Rightarrow> bytes" where
  "local_ops [] p bs = bs"
| "local_ops (x # xs) p bs = local_ops xs (after x p) (local_op x p bs)"

primrec fits_ops :: "op list \<Rightarrow> nat \<Rightarrow> nat \<Rightarrow> bool" where
  "fits_ops [] p n \<longleftrightarrow> p = n"
| "fits_ops (x # xs) p n \<longleftrightarrow> fits_op x p n \<and> fits_ops xs (after x p) n"

definition conforms :: "program \<Rightarrow> layout \<Rightarrow> bool" where
  "conforms prog l \<longleftrightarrow> list_all2 (\<lambda>(f, xs) (f', n). f = f' \<and> fits_ops xs 0 n) prog l"

text \<open>What the bytes of a struct become, each field for itself.\<close>

fun fill_fields :: "program \<Rightarrow> layout \<Rightarrow> bytes \<Rightarrow> bytes" where
  "fill_fields ((f, xs) # prog) ((f', n) # l) bs = local_ops xs 0 (take n bs) @ fill_fields prog l (drop n bs)"
| "fill_fields _ _ bs = bs"

section \<open>Execution\<close>

abbreviation cursor_at :: "nat \<Rightarrow> nat \<Rightarrow> bytes \<Rightarrow> aligned" where
  "cursor_at c n buf \<equiv> \<lparr>al_cursor = of_nat c, al_length = of_nat n, al_buffer = buf\<rparr>"

lemma unat_small: "n < 2 ^ 31 \<Longrightarrow> unat (of_nat n :: u32) = n"
  using unat_of_nat_u32 [of n] by simp

lemma cur_advance: "c + k \<le> n \<Longrightarrow> n < 2 ^ 31 \<Longrightarrow> aligned_advance (cursor_at c n buf) (of_nat k) = Inr (cursor_at (c + k) n buf, of_nat c)"
  using unat_small [of "c + k"] unat_small [of n] by (simp add: aligned_advance_def Let_def word_less_nat_alt del: of_nat_add) (simp add: of_nat_add)

lemma cur_store:
  "c + length xs \<le> length buf \<Longrightarrow> c < 2 ^ 31 \<Longrightarrow>
   aligned_store \<lparr>al_cursor = e, al_length = n, al_buffer = buf\<rparr> (of_nat c) xs =
     Inr \<lparr>al_cursor = e, al_length = n, al_buffer = overwrite buf c xs\<rparr>"
  by (simp add: aligned_store_def mem_write_def unat_small)

lemma overwrite_inside: "p + length xs \<le> length bs \<Longrightarrow> overwrite (pre @ bs @ post) (length pre + p) xs = pre @ overwrite bs p xs @ post"
  by (simp add: overwrite_def)

lemma length_bytes [simp]: "length (uint16_bytes v) = 2" "length (uint32_bytes u) = 4"
  by (simp_all add: uint16_bytes_def uint32_bytes_def)

lemma length_local_op [simp]: "fits_op x p (length bs) \<Longrightarrow> length (local_op x p bs) = length bs"
  by (cases x) auto

lemma exec_op_local:
  assumes "fits_op x p (length bs)" "length pre + length bs \<le> n" "n \<le> length (pre @ bs @ post)" "n < 2 ^ 31"
  shows "exec_op x (cursor_at (length pre + p) n (pre @ bs @ post)) =
    Inr (cursor_at (length pre + after x p) n (pre @ local_op x p bs @ post))"
proof -
  let ?c = "length pre + p" and ?buf = "pre @ bs @ post"
  have adv: "aligned_advance (cursor_at (length pre + q) n ?buf) (of_nat k) = Inr (cursor_at (length pre + q + k) n ?buf, of_nat (length pre + q))"
    if "q + k \<le> length bs" for q k using cur_advance [of "length pre + q" k n ?buf] that assms(2,4) by simp
  have st: "aligned_store \<lparr>al_cursor = e, al_length = l, al_buffer = ?buf\<rparr> (of_nat (length pre + q)) xs =
      Inr \<lparr>al_cursor = e, al_length = l, al_buffer = pre @ overwrite bs q xs @ post\<rparr>"
    if "q + length xs \<le> length bs" for e l q xs
    using that cur_store [of "length pre + q" xs ?buf e l] overwrite_inside [OF that] assms(2,3,4) by simp
  show ?thesis
  proof (cases x)
    case (U8 v)
    then show ?thesis using adv [of p 1] st [of p "[v]"] assms(1) by (simp add: aligned_write_uint8_def)
  next
    case (U16 v)
    then show ?thesis using adv [of p 2] st [of p "uint16_bytes v"] assms(1) by (simp add: aligned_write_uint16_def)
  next
    case (U32 v)
    then show ?thesis using adv [of p 4] st [of p "uint32_bytes v"] assms(1) by (simp add: aligned_write_uint32_def)
  next
    case (Skip k)
    then show ?thesis using adv [of p k] assms(1) by simp
  next
    case (Txt k t)
    then show ?thesis using adv [of p k] st [of p "if k = 0 then [] else take (k - 1) t @ [0]"] assms unat_small [of k]
      by (auto simp: aligned_write_snprintf_full_advance_def)
  next
    case (Fill v k)
    then show ?thesis using adv [of p k] st [of p "replicate k v"] assms unat_small [of k]
      by (simp add: aligned_write_memset_def)
  next
    case (Buf xs)
    then show ?thesis using adv [of p "length xs"] st [of p xs] assms unat_small [of "length xs"]
      by (simp add: aligned_write_buffer_def mem_read_def slice_def)
  next
    case (Paint v k)
    then show ?thesis using st [of p "replicate k v"] assms(1) by simp
  next
    case (Poke16 off v)
    then show ?thesis using adv [of p "unat off"] adv [of "p + unat off" 2] st [of "p + unat off" "uint16_bytes v"] assms(1)
      by (simp add: aligned_write_uint16_def aligned_reset_to_def add.assoc)
  next
    case (Poke8 off v)
    then show ?thesis using adv [of p "unat off"] adv [of "p + unat off" 2] adv [of "p + unat off + 2" 1]
        st [of "p + unat off + 2" "[v]"] assms(1)
      by (simp add: aligned_write_uint8_def aligned_reset_to_def add.assoc)
  next
    case (Back k)
    then show ?thesis using assms(1) of_nat_diff [of k "length pre + p", where 'a = u32]
      by (simp add: aligned_reset_to_def)
  qed
qed

lemma length_local_ops [simp]: "fits_ops xs p (length bs) \<Longrightarrow> length (local_ops xs p bs) = length bs"
  by (induction xs arbitrary: p bs) auto

lemma exec_ops_local:
  "fits_ops xs p (length bs) \<Longrightarrow> length pre + length bs \<le> n \<Longrightarrow> n \<le> length (pre @ bs @ post) \<Longrightarrow> n < 2 ^ 31 \<Longrightarrow>
   exec_ops xs (cursor_at (length pre + p) n (pre @ bs @ post)) = Inr (cursor_at (length pre + length bs) n (pre @ local_ops xs p bs @ post))"
proof (induction xs arbitrary: p bs)
  case (Cons x xs)
  have f: "fits_op x p (length bs)" "fits_ops xs (after x p) (length (local_op x p bs))" using Cons.prems(1) by simp_all
  have "exec_op x (cursor_at (length pre + p) n (pre @ bs @ post)) = Inr (cursor_at (length pre + after x p) n (pre @ local_op x p bs @ post))"
    using exec_op_local [OF f(1) Cons.prems(2,3,4)] by (simp add: add.assoc)
  moreover have "exec_ops xs (cursor_at (length pre + after x p) n (pre @ local_op x p bs @ post)) =
      Inr (cursor_at (length pre + length (local_op x p bs)) n (pre @ local_ops xs (after x p) (local_op x p bs) @ post))"
    by (rule Cons.IH [OF f(2)]) (use Cons.prems f(1) in simp_all)
  ultimately show ?case using f(1) by (simp only: exec_ops.simps bindE.simps length_local_op local_ops.simps)
qed simp

lemma exec_ops_append: "exec_ops (xs @ ys) w = bindE (exec_ops xs w) (exec_ops ys)"
proof (induction xs arbitrary: w)
  case (Cons x xs)
  then show ?case by (cases "exec_op x w") simp_all
qed simp

lemma conforms_Cons: "conforms ((f, xs) # prog) l \<longleftrightarrow> (\<exists>n l'. l = (f, n) # l' \<and> fits_ops xs 0 n \<and> conforms prog l')"
  by (cases l) (auto simp: conforms_def)

text \<open>The sequence on one cursor fills the fields each for itself.\<close>

lemma run_program_conforms:
  "conforms prog l \<Longrightarrow> layout_size l \<le> length bs \<Longrightarrow> length pre + layout_size l \<le> n \<Longrightarrow> n \<le> length (pre @ bs) \<Longrightarrow> n < 2 ^ 31 \<Longrightarrow>
   run_program prog (cursor_at (length pre) n (pre @ bs)) = Inr (cursor_at (length pre + layout_size l) n (pre @ fill_fields prog l bs))"
proof (induction prog arbitrary: l pre bs)
  case Nil
  then show ?case by (simp add: conforms_def run_program_def layout_size_def)
next
  case (Cons fx prog)
  obtain f xs where fx: "fx = (f, xs)" by (cases fx)
  obtain k l' where l: "l = (f, k) # l'" "fits_ops xs 0 k" "conforms prog l'" using Cons.prems(1) unfolding fx conforms_Cons by blast
  have k: "k + layout_size l' \<le> length bs" "length pre + (k + layout_size l') \<le> n" using Cons.prems(2,3) l(1) by (simp_all add: layout_size_def)
  define b where "b = local_ops xs 0 (take k bs)"
  have lb: "length (take k bs) = k" "length b = k" using k(1) l(2) by (simp_all add: b_def)
  have "exec_ops xs (cursor_at (length pre + 0) n (pre @ take k bs @ drop k bs)) =
      Inr (cursor_at (length pre + length (take k bs)) n (pre @ b @ drop k bs))"
    unfolding b_def by (rule exec_ops_local) (use l(2) lb(1) k Cons.prems(4,5) in simp_all)
  then have e: "exec_ops xs (cursor_at (length pre) n (pre @ bs)) = Inr (cursor_at (length (pre @ b)) n ((pre @ b) @ drop k bs))" using lb by simp
  have "run_program prog (cursor_at (length (pre @ b)) n ((pre @ b) @ drop k bs)) =
      Inr (cursor_at (length (pre @ b) + layout_size l') n ((pre @ b) @ fill_fields prog l' (drop k bs)))"
    by (rule Cons.IH [OF l(3)]) (use k lb Cons.prems(4,5) in simp_all)
  then have "exec_ops (concat (map snd prog)) (cursor_at (length (pre @ b)) n ((pre @ b) @ drop k bs)) =
      Inr (cursor_at (length pre + layout_size l) n (pre @ fill_fields (fx # prog) l bs))"
    unfolding run_program_def l(1) fx layout_size_def using lb by (simp add: b_def add.assoc)
  then show ?case unfolding run_program_def fx by (simp only: list.map concat.simps snd_conv exec_ops_append e bindE.simps)
qed

section \<open>Reading a field\<close>

text \<open>Where a field lies, and what it holds.\<close>

fun field_offset :: "layout \<Rightarrow> string \<Rightarrow> nat" where
  "field_offset [] f = 0"
| "field_offset ((f', n) # l) f = (if f' = f then 0 else n + field_offset l f)"

definition field :: "layout \<Rightarrow> string \<Rightarrow> bytes \<Rightarrow> bytes" where
  "field l f bs = slice bs (field_offset l f) (case map_of l f of Some n \<Rightarrow> n | None \<Rightarrow> 0)"

lemma length_fill_fields: "conforms prog l \<Longrightarrow> layout_size l \<le> length bs \<Longrightarrow> length (fill_fields prog l bs) = length bs"
proof (induction prog l bs rule: fill_fields.induct)
  case (1 f xs prog f' n l bs)
  then have n: "fits_ops xs 0 n" "conforms prog l" "n + layout_size l \<le> length bs" by (simp_all add: conforms_def layout_size_def)
  then show ?case using 1 by simp
qed simp_all

lemma conforms_names: "conforms prog l \<Longrightarrow> map fst prog = map fst l"
  unfolding conforms_def by (induction rule: list_all2_induct) auto

lemma field_fill_fields:
  "conforms prog l \<Longrightarrow> layout_size l \<le> length bs \<Longrightarrow> distinct (map fst l) \<Longrightarrow> (f, xs) \<in> set prog \<Longrightarrow>
   field l f (fill_fields prog l bs) = local_ops xs 0 (field l f bs)"
proof (induction prog l bs rule: fill_fields.induct)
  case (1 g ys prog g' n l bs)
  have n: "g' = g" "fits_ops ys 0 n" "conforms prog l" "n + layout_size l \<le> length bs"
    using 1(2,3) by (simp_all add: conforms_def layout_size_def)
  have lf: "length (local_ops ys 0 (take n bs)) = n" using n by simp
  have names: "map fst prog = map fst l" using conforms_names [OF n(3)] .
  show ?case
  proof (cases "f = g")
    case True
    then have "(f, xs) \<notin> set prog" using 1(4) n(1) names by (metis distinct.simps(2) fst_conv image_eqI list.set_map list.simps(9))
    then have "xs = ys" using 1(5) True by simp
    then show ?thesis using True n(1) lf by (simp add: field_def slice_def)
  next
    case False
    then have "(f, xs) \<in> set prog" using 1(5) by simp
    then have "field l f (fill_fields prog l (drop n bs)) = local_ops xs 0 (field l f (drop n bs))"
      using 1(1,4) n by simp
    then show ?thesis using False n(1) lf by (simp add: field_def slice_def add.commute)
  qed
qed (auto simp: conforms_def)

section \<open>Packets\<close>

text \<open>A program that fills the first fields of a struct; what it does not reach keeps its bytes.\<close>

definition fills :: "program \<Rightarrow> layout \<Rightarrow> bool" where
  "fills prog l \<longleftrightarrow> conforms prog (take (length prog) l)"

definition fill_struct :: "program \<Rightarrow> layout \<Rightarrow> bytes \<Rightarrow> bytes" where
  "fill_struct prog l bs = fill_fields prog (take (length prog) l) bs"

definition aligned_write_zero_all :: "aligned \<Rightarrow> aligned result" where
  "aligned_write_zero_all w = aligned_store w 0 (replicate (unat (al_length w)) 0)"

definition packet_trilogy_data :: "packet \<Rightarrow> bytes" where
  "packet_trilogy_data p = drop (unat DATA_OFFSET) (pt_data p)"

text \<open>The frame of every function that makes a packet: allocate, start a cursor, for some packets clear
  the memory first, write.\<close>

definition make_packet :: "heap \<Rightarrow> u16 \<Rightarrow> u32 \<Rightarrow> bool \<Rightarrow> program \<Rightarrow> packet result" where
  "make_packet h opcode len zeroed prog =
     bindE (packet_trilogy_create h opcode len) (\<lambda>p.
     let w = aligned_init (packet_trilogy_data p) (pt_dataLength p) in
     bindE (if zeroed then aligned_write_zero_all w else Inr w) (\<lambda>w.
     bindE (run_program prog w) (\<lambda>w.
     Inr (p\<lparr>pt_data := take (unat DATA_OFFSET) (pt_data p) @ al_buffer w\<rparr>))))"

definition payload :: "packet \<Rightarrow> bytes" where
  "payload p = take (unat (pt_dataLength p)) (packet_trilogy_data p)"

lemma alloc_enough:
  assumes "unat len \<le> 2 ^ 16"
  shows "unat len + 30 \<le> unat (fst (packet_trilogy_calc_length_and_frag_count len))"
proof -
  let ?n = "unat len"
  show ?thesis
  proof (cases "len \<le> DATA_SPACE")
    case True
    have u: "unat (len + 34) = ?n + unat (34 :: u32)" by (rule unat_add_u32) (use assms in simp)
    have e: "sizeof_PacketTrilogy + DATA_OFFSET + len + CRC_SIZE = len + 34"
      by (simp add: sizeof_PacketTrilogy_def DATA_OFFSET_def CRC_SIZE_def)
    have "unat (sizeof_PacketTrilogy + DATA_OFFSET + len + CRC_SIZE) = ?n + 34" unfolding e u by simp
    then show ?thesis using True by (simp add: packet_trilogy_calc_length_and_frag_count_def)
  next
    case False
    then have n: "512 < ?n" by (simp add: DATA_SPACE_def word_le_nat_alt)
    define k where "k = (if len mod DATA_SPACE \<noteq> 0 then len div DATA_SPACE + 1 else len div DATA_SPACE)"
    have d: "unat (len div DATA_SPACE) = ?n div 512" "?n div 512 \<le> 128" using assms by (simp_all add: DATA_SPACE_def unat_div)
    have "unat (len div DATA_SPACE + 1) = ?n div 512 + unat (1 :: u32)"
      unfolding d(1) [symmetric] by (rule unat_add_u32) (use d in simp)
    then have k: "1 \<le> unat k" "unat k \<le> 129" using d n by (auto simp: k_def)
    have l12: "unat (len + 12) = ?n + unat (12 :: u32)" by (rule unat_add_u32) (use assms in simp)
    have "unat (22 * k) = 22 * unat k" using k by (simp add: unat_word_ariths)
    moreover have "unat (22 * k + (len + 12)) = unat (22 * k) + unat (len + 12)"
      by (rule unat_add_u32) (use calculation k assms l12 in simp)
    moreover have e: "sizeof_PacketTrilogy + DATA_OFFSET * k + len + CRC_SIZE * k = 22 * k + (len + 12)"
      by (simp add: sizeof_PacketTrilogy_def DATA_OFFSET_def CRC_SIZE_def algebra_simps)
    ultimately have "?n + 30 \<le> unat (sizeof_PacketTrilogy + DATA_OFFSET * k + len + CRC_SIZE * k)" unfolding e using k(1) l12 by simp
    then show ?thesis using False by (simp add: packet_trilogy_calc_length_and_frag_count_def Let_def k_def)
  qed
qed

lemma fill_fields_append:
  "conforms prog l \<Longrightarrow> layout_size l \<le> length bs \<Longrightarrow> fill_fields prog l (bs @ rest) = fill_fields prog l bs @ rest"
proof (induction prog l bs rule: fill_fields.induct)
  case (1 f xs prog f' n l bs)
  then have "conforms prog l" "n + layout_size l \<le> length bs" by (simp_all add: conforms_def layout_size_def)
  then show ?case using 1(1) by simp
qed simp_all

lemma layout_size_take: "layout_size (take k l) \<le> layout_size l"
proof -
  have "layout_size l = layout_size (take k l @ drop k l)" by simp
  also have "\<dots> = layout_size (take k l) + layout_size (drop k l)"
    unfolding layout_size_def map_append sum_list_append by simp
  finally show ?thesis by simp
qed

lemma length_fill_struct: "fills prog l \<Longrightarrow> layout_size l \<le> length bs \<Longrightarrow> length (fill_struct prog l bs) = length bs"
  unfolding fills_def fill_struct_def using length_fill_fields layout_size_take order_trans by blast

text \<open>On a buffer of the size of the struct.\<close>

lemma run_fills:
  assumes "fills prog l" "layout_size l \<le> n" "n \<le> length buf" "n < 2 ^ 31"
  shows "\<exists>c. run_program prog (cursor_at 0 n buf) = Inr (cursor_at c n (fill_struct prog l (take n buf) @ drop n buf))"
proof -
  let ?l = "take (length prog) l"
  have c: "conforms prog ?l" "layout_size ?l \<le> n" using assms(1,2) layout_size_take [of "length prog" l] by (auto simp: fills_def)
  have "run_program prog (cursor_at 0 n buf) = Inr (cursor_at (layout_size ?l) n (fill_fields prog ?l buf))"
    using run_program_conforms [OF c(1), of buf "[]" n] c(2) assms(3,4) by simp
  moreover have "fill_fields prog ?l buf = fill_struct prog l (take n buf) @ drop n buf"
    using fill_fields_append [OF c(1), of "take n buf" "drop n buf"] c(2) assms(3) by (simp add: fill_struct_def)
  ultimately show ?thesis by auto
qed

lemma make_packet_spec:
  assumes "ample h" "fills prog l" "layout_size l = n" "n \<le> 2 ^ 16"
  shows "\<exists>p bs. make_packet h opcode (of_nat n) zeroed prog = Inr p \<and> pt_opcode p = opcode \<and> pt_dataLength p = of_nat n \<and>
    length bs = n \<and> (zeroed \<longrightarrow> bs = replicate n 0) \<and> payload p = fill_struct prog l bs"
proof -
  have u: "unat (of_nat n :: u32) = n" using assms(4) by (intro unat_small) simp
  obtain p0 where p0: "packet_trilogy_create h opcode (of_nat n) = Inr p0" "pt_opcode p0 = opcode" "pt_dataLength p0 = of_nat n"
    "length (pt_data p0) = unat (fst (packet_trilogy_calc_length_and_frag_count (of_nat n))) - 12"
    using assms(1) by (cases "packet_trilogy_calc_length_and_frag_count (of_nat n)")
      (auto simp: packet_trilogy_create_def Let_def ample_def eqp_realloc_def sizeof_PacketTrilogy_def)
  define buf where "buf = packet_trilogy_data p0"
  have d: "18 \<le> length (pt_data p0)" "n \<le> length buf"
    using alloc_enough [of "of_nat n"] u p0(4) assms(4) by (simp_all add: buf_def packet_trilogy_data_def DATA_OFFSET_def)
  define buf1 where "buf1 = (if zeroed then replicate n 0 @ drop n buf else buf)"
  have b1: "n \<le> length buf1" using d(2) by (auto simp: buf1_def)
  have z: "(if zeroed then aligned_write_zero_all (cursor_at 0 n buf) else Inr (cursor_at 0 n buf)) = Inr (cursor_at 0 n buf1)"
    using d(2) u by (simp add: aligned_write_zero_all_def aligned_store_def mem_write_def buf1_def overwrite_def)
  obtain c where r: "run_program prog (cursor_at 0 n buf1) = Inr (cursor_at c n (fill_struct prog l (take n buf1) @ drop n buf1))"
    using run_fills [OF assms(2) _ b1] assms(3,4) by auto
  define p where "p = p0\<lparr>pt_data := take 18 (pt_data p0) @ fill_struct prog l (take n buf1) @ drop n buf1\<rparr>"
  have "make_packet h opcode (of_nat n) zeroed prog = Inr p"
    using p0(1,3) z r by (cases zeroed) (simp_all add: make_packet_def Let_def buf_def [symmetric] aligned_init_def aligned_init_cursor_def p_def DATA_OFFSET_def)
  moreover have "payload p = fill_struct prog l (take n buf1)"
    using p0(3) u d(1) length_fill_struct [OF assms(2), of "take n buf1"] b1 assms(3)
    by (simp add: payload_def packet_trilogy_data_def p_def DATA_OFFSET_def)
  ultimately show ?thesis using p0(2,3) b1 by (intro exI [of _ p] exI [of _ "take n buf1"]) (auto simp: p_def buf1_def)
qed

end
