(* ===== verification/Client_Packets.thy ===== *)
theory Client_Packets
  imports Packet_Ops Client_Save Crc Item_Prototype Protocol_Handler
begin

text \<open>
  \<^verbatim>\<open>zone_cluster/mob/client_packet_trilogy_output.c\<close>: the packets a zone sends to clients of the
  Trilogy expansion. The structs of \<^verbatim>\<open>structs_trilogy.h\<close> and \<^verbatim>\<open>player_profile.h\<close> are packed; they
  are layouts here, the functions that fill them are programs. zlib is a parameter.
\<close>

section \<open>Structs\<close>

text \<open>The deltas of a spawn are bit fields of one \<^verbatim>\<open>int\<close>; the tail of the profile is given as the part that
  is written and the rest.\<close>

definition Trilogy_ZoneEntry :: layout where
  "Trilogy_ZoneEntry =
     [(''crc'', 4), (''unknownA'', 1), (''name'', 30), (''zoneShortName'', 20), (''unknownB'', 1), (''y'', 4), (''x'', 4),
      (''z'', 4), (''heading'', 4), (''unknownC'', 76), (''guildId'', 2), (''unknownD'', 7), (''class'', 1), (''race'', 2),
      (''gender'', 1), (''level'', 1), (''unknownE'', 2), (''isPvP'', 1), (''unknownF'', 2), (''face'', 1),
      (''helmMaterial'', 1), (''unknownG'', 6), (''secondaryWeaponModelId'', 1), (''primaryWeaponModelId'', 1),
      (''unknownH'', 3), (''helmColor'', 4), (''unknownI'', 32), (''texture'', 1), (''unknownJ'', 19),
      (''walkingSpeed'', 4), (''runningSpeed'', 4), (''unknownK'', 12), (''anon'', 1), (''unknownL'', 23),
      (''surname'', 20), (''unknownM'', 2), (''deity'', 2), (''unknownN'', 8)]"

definition Trilogy_Weather :: layout where
  "Trilogy_Weather =
     [(''type'', 4), (''intensity'', 4)]"

definition Trilogy_ZoneInfo :: layout where
  "Trilogy_ZoneInfo =
     [(''characterName'', 30), (''zoneShortName'', 20), (''zoneLongName'', 180), (''zoneType'', 1), (''fogRed'', 4),
      (''fogGreen'', 4), (''fogBlue'', 4), (''unknownA'', 1), (''fogMinClippingDistance'', 16),
      (''fogMaxClippingDistance'', 16), (''gravity'', 4), (''unknownB'', 50), (''skyType'', 2), (''unknownC'', 8),
      (''unknownD'', 4), (''safeSpotX'', 4), (''safeSpotY'', 4), (''safeSpotZ'', 4), (''safeSpotHeading'', 4),
      (''minZ'', 4), (''minClippingDistance'', 4), (''maxClippingDistance'', 4), (''unknownE'', 32)]"

definition Trilogy_SpawnAppearance :: layout where
  "Trilogy_SpawnAppearance =
     [(''entityId'', 2), (''unknownA'', 2), (''type'', 2), (''unknownB'', 2), (''value'', 4)]"

definition Trilogy_Spawn :: layout where
  "Trilogy_Spawn =
     [(''unknownA'', 4), (''size'', 4), (''walkingSpeed'', 4), (''runningSpeed'', 4), (''tints'', 28), (''unknownB'', 9),
      (''heading'', 1), (''headingDelta'', 1), (''y'', 2), (''x'', 2), (''z'', 2), (''deltas'', 4), (''unknownC'', 1),
      (''entityId'', 2), (''bodyType'', 2), (''ownerEntityId'', 2), (''hpPercent'', 2), (''guildId'', 2), (''race'', 1),
      (''mobType'', 1), (''class'', 1), (''gender'', 1), (''level'', 1), (''isInvisible'', 1), (''unknownD'', 1),
      (''isPvP'', 1), (''uprightState'', 1), (''light'', 1), (''anon'', 1), (''isAfk'', 1), (''unknownE'', 1),
      (''isLinkdead'', 1), (''isGM'', 1), (''unknownF'', 1), (''texture'', 1), (''helmTexture'', 1), (''unknownG'', 1),
      (''materials'', 9), (''name'', 30), (''surname'', 20), (''guildRank'', 1), (''unknownH'', 1), (''deity'', 2),
      (''unknownI'', 10)]"

definition Trilogy_Item :: layout where
  "Trilogy_Item =
     [(''name'', 35), (''lore'', 60), (''model'', 6), (''typeFlag'', 2), (''unknownA'', 22), (''weight'', 1),
      (''isPermanent'', 1), (''isDroppable'', 1), (''size'', 1), (''itemType'', 1), (''itemId'', 2), (''icon'', 2),
      (''currentSlot'', 2), (''slotsBitfield'', 4), (''cost'', 4), (''unknownB'', 16), (''instanceId'', 4),
      (''isDroppableRoleplayServer'', 1), (''unknownC'', 7), (''basic.STR'', 1), (''basic.STA'', 1), (''basic.CHA'', 1),
      (''basic.DEX'', 1), (''basic.INT'', 1), (''basic.AGI'', 1), (''basic.WIS'', 1), (''basic.MR'', 1), (''basic.FR'', 1),
      (''basic.CR'', 1), (''basic.DR'', 1), (''basic.PR'', 1), (''basic.hp'', 1), (''basic.mana'', 1), (''basic.AC'', 1),
      (''basic.isStackable'', 1), (''basic.isTestItem'', 1), (''basic.light'', 1), (''basic.delay'', 1),
      (''basic.damage'', 1), (''basic.clickyType'', 1), (''basic.range'', 1), (''basic.skill'', 1), (''basic.isMagic'', 1),
      (''basic.clickableLevel'', 1), (''basic.material'', 1), (''basic.unknownA'', 2), (''basic.tint'', 4),
      (''basic.unknownB'', 2), (''basic.spellId'', 2), (''basic.classesBitfield'', 4), (''basic.racesBitfield'', 4),
      (''basic.consumableType'', 1), (''basic.procLevel'', 1), (''basic.charges'', 1), (''basic.effectType'', 1),
      (''basic.clickySpellId'', 2), (''basic.unknownC'', 10), (''basic.castingTime'', 4), (''basic.unknownD'', 28),
      (''basic.recommendedLevel'', 1), (''basic.unknownE'', 23), (''basic.deityBitfield'', 4)]"

definition Trilogy_PlayerProfile :: layout where
  "Trilogy_PlayerProfile =
     [(''crc'', 4), (''name'', 30), (''surname'', 20), (''gender'', 2), (''race'', 2), (''class'', 2), (''level'', 4),
      (''experience'', 4), (''trainingPoints'', 2), (''currentMana'', 2), (''face'', 1), (''unknownA'', 47),
      (''currentHp'', 2), (''unknownB'', 1), (''STR'', 1), (''STA'', 1), (''CHA'', 1), (''DEX'', 1), (''INT'', 1),
      (''AGI'', 1), (''WIS'', 1), (''languages'', 24), (''unknownC'', 14), (''mainInventoryItemIds'', 60),
      (''mainInventoryInternalUnused'', 120), (''mainInventoryItemProperties'', 300), (''buffs'', 150),
      (''baggedItemIds'', 180), (''baggedItemProperties'', 900), (''spellbook'', 512), (''memmedSpellIds'', 16),
      (''unknownD'', 2), (''y'', 4), (''x'', 4), (''z'', 4), (''heading'', 4), (''zoneShortName'', 32),
      (''unknownEDefault100'', 4), (''coins'', 16), (''coinsBank'', 16), (''coinsCursor'', 16), (''skills'', 74),
      (''unknownF'', 162), (''autoSplit'', 4), (''pvpEnabled'', 4), (''unknownG'', 12), (''isGM'', 4), (''unknownH'', 20),
      (''disciplinesReady'', 4), (''unknownI'', 20), (''hunger'', 4), (''thirst'', 4), (''unknownJ'', 24),
      (''bindZoneShortName'', 100), (''bankInventoryItemProperties'', 80), (''bankBaggedItemProperties'', 800),
      (''unknownK'', 4), (''unknownL'', 4), (''bindLocY'', 20), (''bindLocX'', 20), (''bindLocZ'', 20),
      (''bindLocHeading'', 20), (''bankInventoryInternalUnused'', 32), (''unknownM'', 12), (''unixTimeA'', 4),
      (''unknownN'', 8), (''unknownODefault1'', 4), (''unknownP'', 8), (''bankInventoryItemIds'', 16),
      (''bankBaggedItemIds'', 160), (''deity'', 2), (''guildId'', 2), (''unixTimeB'', 4), (''unknownQ'', 4),
      (''unknownRDefault7f7f'', 2), (''fatiguePercent'', 1), (''unknownS'', 1), (''unknownTDefault1'', 1), (''anon'', 2),
      (''guildRank'', 1), (''drunkeness'', 1), (''showEqLoadScreen'', 1), (''unknownU'', 2),
      (''spellGemRefreshMilliseconds'', 32), (''unknownV'', 4), (''harmtouchRefreshMilliseconds'', 4),
      (''groupMember'', 240), (''unknownW'', 264), (''unknownW rest'', 3380)]"

definition TrilogyOp_ZoneEntry :: u16 where "TrilogyOp_ZoneEntry = 0x202a"
definition TrilogyOp_PlayerProfile :: u16 where "TrilogyOp_PlayerProfile = 0x202d"
definition TrilogyOp_Weather :: u16 where "TrilogyOp_Weather = 0x2136"
definition TrilogyOp_ZoneInfo :: u16 where "TrilogyOp_ZoneInfo = 0x205b"
definition TrilogyOp_SpawnAppearance :: u16 where "TrilogyOp_SpawnAppearance = 0x20f5"
definition TrilogyOp_Spawn :: u16 where "TrilogyOp_Spawn = 0x2149"
definition TrilogyOp_CustomMessage :: u16 where "TrilogyOp_CustomMessage = 0x2180"

section \<open>Values\<close>

text \<open>The characters of a C string.\<close>

definition cstr :: "bytes \<Rightarrow> bytes" where
  "cstr bs = takeWhile (\<lambda>c. c \<noteq> 0) bs"

definition optional_text :: "nat \<Rightarrow> bytes option \<Rightarrow> op" where
  "optional_text n t = (case t of Some t \<Rightarrow> Txt n t | None \<Rightarrow> Skip n)"

text \<open>A float, by its bits: twice its value, and the integer it is cut to.\<close>

definition float_exponent :: "u32 \<Rightarrow> nat" where "float_exponent v = unat (drop_bit 23 v AND 0xff)"
definition float_fraction :: "u32 \<Rightarrow> nat" where "float_fraction v = unat (v AND 0x7fffff)"

definition float_double :: "u32 \<Rightarrow> u32" where
  "float_double v =
     (if float_exponent v = 255 then v
      else if float_exponent v = 0 then (v AND 0x80000000) OR push_bit 1 (v AND 0x7fffff)
      else if float_exponent v = 254 then (v AND 0x80000000) OR 0x7f800000
      else v + 0x800000)"

definition float_significand :: "u32 \<Rightarrow> nat" where
  "float_significand v = (if float_exponent v = 0 then float_fraction v else float_fraction v + 2 ^ 23)"

text \<open>The integer part of \<open>m * 2 ^ k\<close>, where the exponent has 150 added.\<close>

definition scaled :: "nat \<Rightarrow> nat \<Rightarrow> nat" where
  "scaled m k = (if 150 \<le> k then m * 2 ^ (k - 150) else m div 2 ^ (150 - k))"

definition signed_by :: "u32 \<Rightarrow> nat \<Rightarrow> int" where
  "signed_by v n = (if bit v 31 then - int n else int n)"

definition float_trunc :: "u32 \<Rightarrow> int option" where
  "float_trunc v =
     (if float_exponent v = 255 then None else Some (signed_by v (scaled (float_significand v) (max 1 (float_exponent v)))))"

text \<open>The product with 10 is rounded to 24 bits, to the nearest and then to even.\<close>

definition excess_bits :: "nat \<Rightarrow> nat" where
  "excess_bits m = (if m < 2 ^ 24 then 0 else if m < 2 ^ 25 then 1 else if m < 2 ^ 26 then 2 else if m < 2 ^ 27 then 3 else 4)"

definition round_even :: "nat \<Rightarrow> nat \<Rightarrow> nat" where
  "round_even m j =
     (let q = m div 2 ^ j; r = m mod 2 ^ j in
      if 2 * r > 2 ^ j \<or> 2 * r = 2 ^ j \<and> odd q then q + 1 else q)"

definition float_trunc_times_10 :: "u32 \<Rightarrow> int option" where
  "float_trunc_times_10 v =
     (if float_exponent v = 255 then None
      else (let m = float_significand v * 10; j = excess_bits m in
            Some (signed_by v (scaled (round_even m j) (max 1 (float_exponent v) + j)))))"

text \<open>The macro casts the float to \<^verbatim>\<open>uint16_t\<close>; that is undefined for any other integer part.\<close>

definition to_uint16 :: "int option \<Rightarrow> u16 result" where
  "to_uint16 r = (case r of Some i \<Rightarrow> if 0 \<le> i \<and> i < 65536 then Inr (word_of_int i) else Inl UndefinedBehaviour
     | None \<Rightarrow> Inl UndefinedBehaviour)"

definition float_0_75 :: u32 where "float_0_75 = 0x3f400000"

fun decimal :: "nat \<Rightarrow> bytes" where
  "decimal n = (if n < 10 then [of_nat (48 + n)] else decimal (n div 10) @ [of_nat (48 + n mod 10)])"

declare decimal.simps [simp del]

definition model_text :: "u32 \<Rightarrow> bytes" where
  "model_text modelId = [0x49, 0x54] @ decimal (unat modelId)"

definition zone_type :: "zone \<Rightarrow> u8" where "zone_type zone = zone_get_zone_type_id zone"
definition zone_sky_type :: "zone \<Rightarrow> u16" where "zone_sky_type zone = zone_get_sky_id zone"
definition zone_gravity :: "zone \<Rightarrow> u32" where "zone_gravity zone = zone_get_gravity zone"
definition zone_min_z :: "zone \<Rightarrow> u32" where "zone_min_z zone = zn_minZ zone"
definition zone_min_clipping_distance :: "zone \<Rightarrow> u32" where "zone_min_clipping_distance zone = zone_get_min_clipping_distance zone"
definition zone_max_clipping_distance :: "zone \<Rightarrow> u32" where "zone_max_clipping_distance zone = zone_get_max_clipping_distance zone"
definition mob_get_material :: "mob \<Rightarrow> nat \<Rightarrow> u8" where "mob_get_material mob i = mb_materials mob ! i"
definition mob_primary_model_id :: "mob \<Rightarrow> u32" where "mob_primary_model_id mob = mb_primaryModelId mob"
definition mob_secondary_model_id :: "mob \<Rightarrow> u32" where "mob_secondary_model_id mob = mb_secondaryModelId mob"
definition mob_owner_entity_id :: "mob \<Rightarrow> i32" where "mob_owner_entity_id mob = mb_ownerEntityId mob"
definition mob_get_tint :: "mob \<Rightarrow> nat \<Rightarrow> u32" where "mob_get_tint mob i = mb_tints mob ! i"

section \<open>Scheduling\<close>

definition client_trilogy_schedule_packet_individual ::
  "heap \<Rightarrow> handler_trilogy \<Rightarrow> nat \<Rightarrow> world \<Rightarrow> (handler_trilogy \<times> world) result" where
  "client_trilogy_schedule_packet_individual h t ptr w =
     bindE (deref_packet w (Some ptr)) (\<lambda>p.
     bindE (packet_trilogy_fragmentize p) (\<lambda>p.
     bindE (ack_mgr_trilogy_schedule_packet h (pht_ackMgr t) ptr False (w\<lparr>w_packets := (w_packets w)(ptr \<mapsto> p)\<rparr>)) (\<lambda>(m, w).
     Inr (t\<lparr>pht_ackMgr := m\<rparr>, w))))"

text \<open>The packet of a broadcast has been fragmented once for all.\<close>

definition client_trilogy_schedule_packet_broadcast ::
  "heap \<Rightarrow> handler_trilogy \<Rightarrow> nat \<Rightarrow> world \<Rightarrow> (handler_trilogy \<times> world) result" where
  "client_trilogy_schedule_packet_broadcast h t ptr w =
     bindE (deref_packet w (Some ptr)) (\<lambda>p.
     bindE (ack_mgr_trilogy_schedule_packet h (pht_ackMgr t) ptr False (w\<lparr>w_packets := (w_packets w)(ptr \<mapsto> packet_trilogy_grab p)\<rparr>)) (\<lambda>(m, w).
     Inr (t\<lparr>pht_ackMgr := m\<rparr>, w)))"

text \<open>A new packet gets the address \<open>ptr\<close>.\<close>

definition client_trilogy_send_zero_length_packet ::
  "heap \<Rightarrow> handler_trilogy \<Rightarrow> nat \<Rightarrow> u16 \<Rightarrow> world \<Rightarrow> (handler_trilogy \<times> world) result" where
  "client_trilogy_send_zero_length_packet h t ptr opcode w =
     bindE (packet_trilogy_create h opcode 0) (\<lambda>p.
     client_trilogy_schedule_packet_individual h t ptr (w\<lparr>w_packets := (w_packets w)(ptr \<mapsto> p)\<rparr>))"

definition client_trilogy_send_zeroed_packet_var_length ::
  "heap \<Rightarrow> handler_trilogy \<Rightarrow> nat \<Rightarrow> u16 \<Rightarrow> u32 \<Rightarrow> world \<Rightarrow> (handler_trilogy \<times> world) result" where
  "client_trilogy_send_zeroed_packet_var_length h t ptr opcode len w =
     bindE (packet_trilogy_create h opcode len) (\<lambda>p.
     bindE (mem_write (pt_data p) (unat DATA_OFFSET) (replicate (unat len) 0)) (\<lambda>d.
     client_trilogy_schedule_packet_individual h t ptr (w\<lparr>w_packets := (w_packets w)(ptr \<mapsto> p\<lparr>pt_data := d\<rparr>)\<rparr>)))"

section \<open>Small packets\<close>

definition weather_program :: "i32 \<Rightarrow> i32 \<Rightarrow> program" where
  "weather_program weatherType intensity =
     [(''type'', [U32 weatherType]), (''intensity'', [U32 intensity])]"

definition client_trilogy_make_op_weather :: "heap \<Rightarrow> i32 \<Rightarrow> i32 \<Rightarrow> packet result" where
  "client_trilogy_make_op_weather h weatherType intensity =
     make_packet h TrilogyOp_Weather (of_nat (layout_size Trilogy_Weather)) False (weather_program weatherType intensity)"

definition zone_info_program :: "zone \<Rightarrow> program" where
  "zone_info_program zone =
     [(''characterName'', [Skip 30]), (''zoneShortName'', [Txt 20 (bytes_of (zone_get_short_name zone))]),
      (''zoneLongName'', [Txt 180 (bytes_of (zone_get_long_name zone))]), (''zoneType'', [U8 (zone_type zone)]),
      (''fogRed'', [U8 (fs_red (zn_fogStats zone ! 0)), U8 (fs_red (zn_fogStats zone ! 1)), U8 (fs_red (zn_fogStats zone ! 2)), U8 (fs_red (zn_fogStats zone ! 3))]),
      (''fogGreen'', [U8 (fs_green (zn_fogStats zone ! 0)), U8 (fs_green (zn_fogStats zone ! 1)), U8 (fs_green (zn_fogStats zone ! 2)), U8 (fs_green (zn_fogStats zone ! 3))]),
      (''fogBlue'', [U8 (fs_blue (zn_fogStats zone ! 0)), U8 (fs_blue (zn_fogStats zone ! 1)), U8 (fs_blue (zn_fogStats zone ! 2)), U8 (fs_blue (zn_fogStats zone ! 3))]),
      (''unknownA'', [Skip 1]),
      (''fogMinClippingDistance'', [U32 (fs_minClippingDistance (zn_fogStats zone ! 0)), U32 (fs_minClippingDistance (zn_fogStats zone ! 1)), U32 (fs_minClippingDistance (zn_fogStats zone ! 2)), U32 (fs_minClippingDistance (zn_fogStats zone ! 3))]),
      (''fogMaxClippingDistance'', [U32 (fs_maxClippingDistance (zn_fogStats zone ! 0)), U32 (fs_maxClippingDistance (zn_fogStats zone ! 1)), U32 (fs_maxClippingDistance (zn_fogStats zone ! 2)), U32 (fs_maxClippingDistance (zn_fogStats zone ! 3))]),
      (''gravity'', [U32 (zone_gravity zone)]),
      (''unknownB'', [U8 0x20, Fill 0x0a 4, U8 0x18, U8 0x06, U8 0x02, U8 0x0a, Skip 8, Fill 0xff 32, Skip 1]),
      (''skyType'', [U16 (zone_sky_type zone)]), (''unknownC'', [U8 0x04, Skip 1, U8 0x02, Skip 5]),
      (''unknownD'', [U32 float_0_75]), (''safeSpotX'', [U32 (loc_x (zn_safeSpot zone))]),
      (''safeSpotY'', [U32 (loc_y (zn_safeSpot zone))]), (''safeSpotZ'', [U32 (loc_z (zn_safeSpot zone))]),
      (''safeSpotHeading'', [U32 (loc_heading (zn_safeSpot zone))]), (''minZ'', [U32 (zone_min_z zone)]),
      (''minClippingDistance'', [U32 (zone_min_clipping_distance zone)]),
      (''maxClippingDistance'', [U32 (zone_max_clipping_distance zone)])]"

definition client_trilogy_make_op_zone_info :: "heap \<Rightarrow> zone \<Rightarrow> packet result" where
  "client_trilogy_make_op_zone_info h zone =
     make_packet h TrilogyOp_ZoneInfo (of_nat (layout_size Trilogy_ZoneInfo)) True (zone_info_program zone)"

definition spawn_appearance_program :: "u16 \<Rightarrow> u16 \<Rightarrow> u32 \<Rightarrow> program" where
  "spawn_appearance_program entityId type val =
     [(''entityId'', [U16 entityId]), (''unknownA'', [U16 0]), (''type'', [U16 type]), (''unknownB'', [U16 0]),
      (''value'', [U32 val])]"

definition client_trilogy_make_op_spawn_appearance :: "heap \<Rightarrow> u16 \<Rightarrow> u16 \<Rightarrow> u32 \<Rightarrow> packet result" where
  "client_trilogy_make_op_spawn_appearance h entityId type val =
     make_packet h TrilogyOp_SpawnAppearance (of_nat (layout_size Trilogy_SpawnAppearance)) False
       (spawn_appearance_program entityId type val)"

text \<open>The length counts the terminator; the message is read from the caller's buffer.\<close>

definition client_trilogy_make_op_custom_message :: "heap \<Rightarrow> u32 \<Rightarrow> bytes \<Rightarrow> u32 \<Rightarrow> packet result" where
  "client_trilogy_make_op_custom_message h chatChannel str len =
     (let len = len + 1 in
      bindE (mem_read str 0 (unat len)) (\<lambda>msg.
      make_packet h TrilogyOp_CustomMessage (4 + len) False [(''chatChannel'', [U32 chatChannel]), (''message'', [Buf msg])]))"

text \<open>What the format gives, if it is valid; it is cut to the buffer of 4096 bytes.\<close>

definition client_trilogy_make_op_custom_message_format :: "heap \<Rightarrow> u32 \<Rightarrow> bytes option \<Rightarrow> packet result" where
  "client_trilogy_make_op_custom_message_format h chatChannel formatted =
     (case formatted of
        None \<Rightarrow> Inl ErrorFormatString
      | Some text \<Rightarrow>
          (let buf = take 4095 text @ [0]; len = (if length text \<ge> 4096 then 4095 else length text) in
           client_trilogy_make_op_custom_message h chatChannel buf (of_nat len)))"

section \<open>Zone entry\<close>

definition zone_entry_program :: "bytes \<Rightarrow> bytes option \<Rightarrow> bytes \<Rightarrow> client \<Rightarrow> mob \<Rightarrow> program" where
  "zone_entry_program name surname shortName c m =
     [(''crc'', [Skip 4]), (''unknownA'', [Skip 1]), (''name'', [Txt 30 name]), (''zoneShortName'', [Txt 20 shortName]),
      (''unknownB'', [Skip 1]), (''y'', [U32 (mob_y m)]), (''x'', [U32 (mob_x m)]), (''z'', [U32 (mob_z m)]),
      (''heading'', [U32 (float_double (mob_heading m))]), (''unknownC'', [Skip 76]),
      (''guildId'', [U16 (if cl_guildId c = 0 then 0xffff else ucast (cl_guildId c))]), (''unknownD'', [Skip 7]),
      (''class'', [U8 (mob_class m)]), (''race'', [U16 (mob_base_race m)]), (''gender'', [U8 (mob_base_gender m)]),
      (''level'', [U8 (mob_level m)]), (''unknownE'', [Skip 2]), (''isPvP'', [U8 (ucast (flag (client_is_pvp c)))]),
      (''unknownF'', [Skip 2]), (''face'', [U8 (mob_face m)]), (''helmMaterial'', [U8 (mob_helm_texture m)]),
      (''unknownG'', [Skip 6]), (''secondaryWeaponModelId'', [U8 (ucast (mob_secondary_model_id m))]),
      (''primaryWeaponModelId'', [U8 (ucast (mob_primary_model_id m))]), (''unknownH'', [Skip 3]), (''helmColor'', [U32 0]),
      (''unknownI'', [Skip 32]), (''texture'', [U8 (mob_texture m)]), (''unknownJ'', [Skip 19]),
      (''walkingSpeed'', [U32 (mob_base_walking_speed m)]), (''runningSpeed'', [U32 (mob_base_running_speed m)]),
      (''unknownK'', [Skip 12]), (''anon'', [U8 (cl_anonSetting c)]), (''unknownL'', [Skip 23]),
      (''surname'', [optional_text 20 surname]), (''unknownM'', [Skip 2]), (''deity'', [U16 (mob_deity m)])]"

text \<open>The checksum of what follows it is written into the first field at the end.\<close>

definition client_trilogy_make_zone_entry :: "heap \<Rightarrow> cstate \<Rightarrow> zone \<Rightarrow> packet result" where
  "client_trilogy_make_zone_entry h s zone =
     (let c = cs_client s; m = cs_mob s; st = cs_strings s in
      bindE (mob_name_cstr m st) (\<lambda>name.
      bindE (client_surname_cstr c st) (\<lambda>surname.
      bindE (make_packet h TrilogyOp_ZoneEntry (of_nat (layout_size Trilogy_ZoneEntry)) True
        (zone_entry_program (cstr name) (if cl_surname c = None then None else Some (cstr surname))
           (bytes_of (zone_get_short_name zone)) c m)) (\<lambda>p.
      let crc = NOT (crc_calc32 (drop 4 (payload p))) in
      Inr (p\<lparr>pt_data := overwrite (pt_data p) (unat DATA_OFFSET) (uint32_bytes crc)\<rparr>)))))"

section \<open>Spawns\<close>

definition MobType_NpcCorpse :: i32 where "MobType_NpcCorpse = 3"
definition MobType_ClientCorpse :: i32 where "MobType_ClientCorpse = 4"

text \<open>Of a type the switch does not name, the variable still holds the race.\<close>

definition spawn_type :: "mob \<Rightarrow> u8" where
  "spawn_type mob =
     (let t = mb_mobType mob in
      if t = MobType_Npc \<or> t = MobType_Pet then 1
      else if t = MobType_Client then 0
      else if t = MobType_NpcCorpse then 3
      else if t = MobType_ClientCorpse then 2
      else ucast (mob_current_race mob))"

definition spawn_program :: "mob \<Rightarrow> client option \<Rightarrow> bytes \<Rightarrow> bytes \<Rightarrow> u16 \<Rightarrow> u16 \<Rightarrow> u16 \<Rightarrow> u8 \<Rightarrow> program" where
  "spawn_program mob cl name surname x y z hp =
     [(''unknownA'', [Skip 4]), (''size'', [U32 (mob_current_size mob)]),
      (''walkingSpeed'', [U32 (mob_current_walking_speed mob)]), (''runningSpeed'', [U32 (mob_current_running_speed mob)]),
      (''tints'', [U32 (mob_get_tint mob 0), U32 (mob_get_tint mob 1), U32 (mob_get_tint mob 2), U32 (mob_get_tint mob 3), U32 (mob_get_tint mob 4), U32 (mob_get_tint mob 5), U32 (mob_get_tint mob 6)]),
      (''unknownB'', [Skip 9]), (''heading'', [U8 (ucast (mb_headingRaw mob))]), (''headingDelta'', [Skip 1]),
      (''y'', [U16 y]), (''x'', [U16 x]), (''z'', [U16 z]), (''deltas'', [Skip 4]), (''unknownC'', [Skip 1]),
      (''entityId'', [U16 (ucast (mob_entity_id mob))]), (''bodyType'', [U16 (mob_body_type mob)]),
      (''ownerEntityId'', [U16 (ucast (mob_owner_entity_id mob))]), (''hpPercent'', [U16 (ucast hp)]),
      (''guildId'', [U16 (case cl of Some c \<Rightarrow> (let guildId = ucast (cl_guildId c) in if guildId = 0 then 0xffff else guildId) | None \<Rightarrow> 0xffff)]),
      (''race'', [U8 (if 0xff < mob_current_race mob then 1 else ucast (mob_current_race mob))]),
      (''mobType'', [U8 (spawn_type mob)]), (''class'', [U8 (mob_class mob)]), (''gender'', [U8 (mob_current_gender mob)]),
      (''level'', [U8 (mob_level mob)]), (''isInvisible'', [U8 (ucast (flag (mob_is_invisible mob)))]),
      (''unknownD'', [Skip 1]),
      (''isPvP'', [case cl of Some c \<Rightarrow> U8 (ucast (flag (client_is_pvp c))) | None \<Rightarrow> Skip 1]),
      (''uprightState'', [U8 (mob_upright_state mob)]), (''light'', [U8 (mob_light_level mob)]),
      (''anon'', [case cl of Some c \<Rightarrow> U8 (client_anon_setting c) | None \<Rightarrow> Skip 1]),
      (''isAfk'', [case cl of Some c \<Rightarrow> U8 (ucast (flag (client_is_afk c))) | None \<Rightarrow> Skip 1]),
      (''unknownE'', [Skip 1]),
      (''isLinkdead'', [case cl of Some c \<Rightarrow> U8 (ucast (flag (client_is_linkdead c))) | None \<Rightarrow> Skip 1]),
      (''isGM'', [case cl of Some c \<Rightarrow> U8 (ucast (flag (client_is_gm c))) | None \<Rightarrow> Skip 1]),
      (''unknownF'', [Skip 1]), (''texture'', [U8 (mob_texture mob)]), (''helmTexture'', [U8 (mob_helm_texture mob)]),
      (''unknownG'', [Skip 1]),
      (''materials'', [U8 (mob_get_material mob 0), U8 (mob_get_material mob 1), U8 (mob_get_material mob 2), U8 (mob_get_material mob 3), U8 (mob_get_material mob 4), U8 (mob_get_material mob 5), U8 (mob_get_material mob 6), U8 (ucast (mob_primary_model_id mob)), U8 (ucast (mob_secondary_model_id mob))]),
      (''name'', [Txt 30 name]),
      (''surname'', [case cl of Some c \<Rightarrow> Txt 20 surname | None \<Rightarrow> Skip 20]),
      (''guildRank'', [case cl of Some c \<Rightarrow> U8 (client_guild_rank c) | None \<Rightarrow> Skip 1]),
      (''unknownH'', [Skip 1]), (''deity'', [U16 (mob_deity mob)])]"

text \<open>Whole words of the packet, in the order of the machine.\<close>

definition word_at :: "bytes \<Rightarrow> nat \<Rightarrow> u32" where
  "word_at bs i = ucast (bs ! (4 * i)) OR push_bit 8 (ucast (bs ! (4 * i + 1))) OR push_bit 16 (ucast (bs ! (4 * i + 2)))
     OR push_bit 24 (ucast (bs ! (4 * i + 3)))"

fun words_of :: "bytes \<Rightarrow> u32 list" where
  "words_of (a # b # c # d # bs) =
     (ucast a OR push_bit 8 (ucast b) OR push_bit 16 (ucast c) OR push_bit 24 (ucast d)) # words_of bs"
| "words_of _ = []"

definition bytes_of_words :: "u32 list \<Rightarrow> bytes" where
  "bytes_of_words ws = concat (map uint32_bytes ws)"

definition rotate_left :: "nat \<Rightarrow> u32 \<Rightarrow> u32" where
  "rotate_left k v = push_bit k v OR drop_bit (32 - k) v"

text \<open>Both obfuscations: the constants and the rotations differ.\<close>

primrec obfuscate :: "u32 \<Rightarrow> nat \<Rightarrow> nat \<Rightarrow> u32 \<Rightarrow> u32 list \<Rightarrow> u32 list" where
  "obfuscate key r1 r2 cur [] = []"
| "obfuscate key r1 r2 cur (x # xs) =
     (rotate_left r2 (rotate_left r1 x + key) - cur) # obfuscate key r1 r2 (cur + x - key) xs"

definition obfuscate_bytes :: "(u32 list \<Rightarrow> u32 list) \<Rightarrow> bytes \<Rightarrow> bytes" where
  "obfuscate_bytes f bs = bytes_of_words (f (words_of bs)) @ drop (length bs - length bs mod 4) bs"

definition client_trilogy_spawn_obfuscate :: "bytes \<Rightarrow> bytes" where
  "client_trilogy_spawn_obfuscate = obfuscate_bytes (obfuscate 0x65e7 9 13 0)"

definition swap_first_middle :: "nat \<Rightarrow> u32 list \<Rightarrow> u32 list" where
  "swap_first_middle i ws = (ws[0 := ws ! i])[i := ws ! 0]"

definition client_trilogy_make_op_spawn :: "heap \<Rightarrow> mob \<Rightarrow> client option \<Rightarrow> string_store \<Rightarrow> packet result" where
  "client_trilogy_make_op_spawn h mob cl st =
     (if mb_mobType mob = MobType_Client \<and> cl = None then Inl UndefinedBehaviour
      else (let cl = (if mb_mobType mob = MobType_Client then cl else None) in
       bindE (to_uint16 (float_trunc (mob_y mob))) (\<lambda>y.
       bindE (to_uint16 (float_trunc (mob_x mob))) (\<lambda>x.
       bindE (to_uint16 (float_trunc_times_10 (mob_z mob))) (\<lambda>z.
       bindE (mob_hp_ratio mob) (\<lambda>hp.
       bindE (mob_client_friendly_name_cstr mob st) (\<lambda>name.
       bindE (case cl of Some c \<Rightarrow> client_surname_cstr c st | None \<Rightarrow> Inr []) (\<lambda>surname.
       bindE (make_packet h TrilogyOp_Spawn (of_nat (layout_size Trilogy_Spawn)) True
         (spawn_program mob cl (cstr name) (cstr surname) x y z hp)) (\<lambda>p.
       Inr (p\<lparr>pt_data := overwrite (pt_data p) (unat DATA_OFFSET) (client_trilogy_spawn_obfuscate (payload p))\<rparr>))))))))))"

section \<open>Items\<close>

definition lore_ops :: "item_prototype \<Rightarrow> op list" where
  "lore_ops proto =
     (if item_proto_is_lore proto \<noteq> 0
      then [U8 0x2a, Txt 59 (cstr (item_proto_get_lore_text proto))]
      else [Txt 60 (cstr (item_proto_get_lore_text proto))])"

definition item_program_common :: "item_prototype \<Rightarrow> u16 \<Rightarrow> program" where
  "item_program_common proto slotId =
     [(''name'', [Txt 35 (cstr (item_proto_get_name proto))]), (''lore'', lore_ops proto),
      (''model'', [Txt 6 (model_text (item_proto_get_model_id proto))]), (''typeFlag'', [U16 0x3336]),
      (''unknownA'', [Fill 0 22]), (''weight'', [U8 (item_proto_get_weight proto)]),
      (''isPermanent'', [U8 (if item_proto_is_permanent proto \<noteq> 0 then 255 else 0)]),
      (''isDroppable'', [U8 (ucast (item_proto_is_droppable proto))]), (''size'', [U8 (item_proto_get_size proto)]),
      (''itemType'', [U8 0]), (''itemId'', [U16 (ucast (item_proto_get_item_id proto))]),
      (''icon'', [U16 (ucast (item_proto_get_icon_id proto))]), (''currentSlot'', [U16 slotId]),
      (''slotsBitfield'', [U32 (push_bit 1 (item_proto_get_slot_bitfield proto))]),
      (''cost'', [U32 (item_proto_get_cost proto)]), (''unknownB'', [Fill 0 16]), (''instanceId'', [U32 0]),
      (''isDroppableRoleplayServer'', [U8 (ucast (item_proto_is_droppable proto))]), (''unknownC'', [Fill 0 7])]"

definition item_program_basic :: "item_prototype \<Rightarrow> item \<Rightarrow> program" where
  "item_program_basic proto item =
     [(''basic.STR'', [U8 (ucast (item_proto_get_str proto))]), (''basic.STA'', [U8 (ucast (item_proto_get_sta proto))]),
      (''basic.CHA'', [U8 (ucast (item_proto_get_cha proto))]), (''basic.DEX'', [U8 (ucast (item_proto_get_dex proto))]),
      (''basic.INT'', [U8 (ucast (item_proto_get_int proto))]), (''basic.AGI'', [U8 (ucast (item_proto_get_agi proto))]),
      (''basic.WIS'', [U8 (ucast (item_proto_get_wis proto))]),
      (''basic.MR'', [U8 (ucast (item_proto_get_sv_magic proto))]),
      (''basic.FR'', [U8 (ucast (item_proto_get_sv_fire proto))]),
      (''basic.CR'', [U8 (ucast (item_proto_get_sv_cold proto))]),
      (''basic.DR'', [U8 (ucast (item_proto_get_sv_disease proto))]),
      (''basic.PR'', [U8 (ucast (item_proto_get_sv_poison proto))]), (''basic.hp'', [U8 (ucast (item_proto_get_hp proto))]),
      (''basic.mana'', [U8 (ucast (item_proto_get_mana proto))]), (''basic.AC'', [U8 (ucast (item_proto_get_ac proto))]),
      (''basic.isStackable'', [U8 (if item_proto_is_stackable proto \<noteq> 0 then 1 else 0)]),
      (''basic.isTestItem'', [U8 0]), (''basic.light'', [U8 (item_proto_get_light proto)]),
      (''basic.delay'', [U8 (ucast (item_proto_get_delay proto))]),
      (''basic.damage'', [U8 (ucast (item_proto_get_damage proto))]), (''basic.clickyType'', [U8 0]),
      (''basic.range'', [U8 (ucast (item_proto_get_range proto))]),
      (''basic.skill'', [U8 (item_proto_get_item_type_id proto)]),
      (''basic.isMagic'', [U8 (ucast (item_proto_is_magic proto))]), (''basic.clickableLevel'', [U8 0]),
      (''basic.material'', [U8 (item_proto_get_material proto)]), (''basic.unknownA'', [Fill 0 2]),
      (''basic.tint'', [U32 (item_proto_get_tint proto)]), (''basic.unknownB'', [Fill 0 2]),
      (''basic.spellId'', [U16 (ucast (item_proto_get_spell_id proto))]),
      (''basic.classesBitfield'', [U32 (item_proto_get_class_bitfield proto)]),
      (''basic.racesBitfield'', [U32 (item_proto_get_race_bitfield proto)]), (''basic.consumableType'', [U8 3]),
      (''basic.procLevel'', [U8 0]), (''basic.charges'', [U8 (ucast (item_get_charges item))]),
      (''basic.effectType'', [U8 0]), (''basic.clickySpellId'', [U16 (ucast (item_proto_get_spell_id proto))]),
      (''basic.unknownC'', [Fill 0 10]), (''basic.castingTime'', [U32 (item_proto_get_casting_time proto)]),
      (''basic.unknownD'', [Fill 0 28]), (''basic.recommendedLevel'', [U8 0]), (''basic.unknownE'', [Fill 0 23]),
      (''basic.deityBitfield'', [U32 0])]"

definition item_program :: "item_prototype \<Rightarrow> item \<Rightarrow> u16 \<Rightarrow> program" where
  "item_program proto item slotId = item_program_common proto slotId @ item_program_basic proto item"

definition client_trilogy_make_item_packet :: "heap \<Rightarrow> u16 \<Rightarrow> item_prototype \<Rightarrow> item \<Rightarrow> u16 \<Rightarrow> packet result" where
  "client_trilogy_make_item_packet h opcode proto item slotId =
     make_packet h opcode (of_nat (layout_size Trilogy_Item)) False (item_program proto item slotId)"

section \<open>The player profile\<close>

definition InvSlot_EquipMainAndCursorNoCharmBegin :: u32 where "InvSlot_EquipMainAndCursorNoCharmBegin = 1"
definition InvSlot_EquipMainAndCursorNoCharmEnd :: u32 where "InvSlot_EquipMainAndCursorNoCharmEnd = 30"
definition InvSlot_BagsSlotsIncludingCursorBegin :: u32 where "InvSlot_BagsSlotsIncludingCursorBegin = 251"
definition InvSlot_BagsSlotsIncludingCursorEnd :: u32 where "InvSlot_BagsSlotsIncludingCursorEnd = 340"
definition InvSlot_BankBegin :: u32 where "InvSlot_BankBegin = 2000"
definition InvSlot_BankEnd :: u32 where "InvSlot_BankEnd = 2007"
definition InvSlot_BankBagSlotsBegin :: u32 where "InvSlot_BankBagSlotsBegin = 2031"
definition InvSlot_BankBagSlotsEnd :: u32 where "InvSlot_BankBagSlotsEnd = 2111"

text \<open>The slots the iterator yields, and the calls that write their charges, which need the item.\<close>

record profile_slots =
  ps_main :: "inventory_slot list"
  ps_bags :: "inventory_slot list"
  ps_bank :: "inventory_slot list"
  ps_bankBags :: "inventory_slot list"
  ps_mainCharges :: "op list"
  ps_bagCharges :: "op list"
  ps_bankCharges :: "op list"
  ps_bankBagCharges :: "op list"

definition id_pokes :: "u32 \<Rightarrow> inventory_slot list \<Rightarrow> op list" where
  "id_pokes begin slots = map (\<lambda>s. Poke16 (2 * (ucast (is_slotId s) - begin)) (ucast (is_itemId s))) slots"

primrec charge_pokes :: "u32 \<Rightarrow> inventory_slot list \<Rightarrow> op list result" where
  "charge_pokes begin [] = Inr []"
| "charge_pokes begin (s # ss) =
     (case is_item s of
        None \<Rightarrow> Inl UndefinedBehaviour
      | Some item \<Rightarrow>
          bindE (charge_pokes begin ss) (\<lambda>xs.
          Inr (Poke8 (10 * (ucast (is_slotId s) - begin)) (ucast (item_get_charges item)) # xs)))"

definition slots_between :: "inventory \<Rightarrow> u32 \<Rightarrow> u32 \<Rightarrow> inventory_slot list result" where
  "slots_between iv from to =
     iterate_all (case inv_slots iv of Some v \<Rightarrow> length (vec_items v) + 1 | None \<Rightarrow> 1) iv (inventory_iterator_init from to)"

definition profile_slots_of :: "inventory \<Rightarrow> profile_slots result" where
  "profile_slots_of iv =
     bindE (slots_between iv InvSlot_EquipMainAndCursorNoCharmBegin InvSlot_EquipMainAndCursorNoCharmEnd) (\<lambda>main.
     bindE (charge_pokes 1 main) (\<lambda>mainCharges.
     bindE (slots_between iv InvSlot_BagsSlotsIncludingCursorBegin InvSlot_BagsSlotsIncludingCursorEnd) (\<lambda>bags.
     bindE (charge_pokes InvSlot_BagsSlotsIncludingCursorBegin bags) (\<lambda>bagCharges.
     bindE (slots_between iv InvSlot_BankBegin InvSlot_BankEnd) (\<lambda>bank.
     bindE (charge_pokes InvSlot_BankBegin bank) (\<lambda>bankCharges.
     bindE (slots_between iv InvSlot_BankBagSlotsBegin InvSlot_BankBagSlotsEnd) (\<lambda>bankBags.
     bindE (charge_pokes InvSlot_BankBagSlotsBegin bankBags) (\<lambda>bankBagCharges.
     Inr \<lparr>ps_main = main, ps_bags = bags, ps_bank = bank, ps_bankBags = bankBags, ps_mainCharges = mainCharges,
          ps_bagCharges = bagCharges, ps_bankCharges = bankCharges, ps_bankBagCharges = bankBagCharges\<rparr>))))))))"

text \<open>The properties of all slots of a part of the inventory, then the charges of the occupied ones.\<close>

definition item_properties :: "nat \<Rightarrow> op list \<Rightarrow> op list" where
  "item_properties n charges = concat (replicate n [Skip 4, U16 0xffff, Skip 4]) @ [Back (n * 10)] @ charges @ [Skip (n * 10)]"

definition EQP_TRILOGY_SPELLBOOK_SLOT_COUNT :: u32 where "EQP_TRILOGY_SPELLBOOK_SLOT_COUNT = 256"

definition spell_pokes :: "spellbook \<Rightarrow> op list" where
  "spell_pokes b =
     (case sb_knownSpells b of
        None \<Rightarrow> []
      | Some v \<Rightarrow> map (\<lambda>s. Poke16 (2 * ss_slotId s) (ucast (ss_spellId s)))
          (filter (\<lambda>s. \<not> ss_slotId s \<ge> EQP_TRILOGY_SPELLBOOK_SLOT_COUNT) (vec_items v)))"

definition coin_bytes :: "coin \<Rightarrow> bytes" where
  "coin_bytes co = uint32_bytes (co_pp co) @ uint32_bytes (co_gp co) @ uint32_bytes (co_sp co) @ uint32_bytes (co_cp co)"

definition remaining :: "u64 \<Rightarrow> u64 \<Rightarrow> u32" where
  "remaining time timestamp = (if time > timestamp then 0 else ucast (timestamp - time))"

definition profile_program_1 :: "bytes \<Rightarrow> bytes option \<Rightarrow> client \<Rightarrow> mob \<Rightarrow> program" where
  "profile_program_1 name surname c m =
     [(''crc'', [Skip 4]), (''name'', [Txt 30 name]), (''surname'', [optional_text 20 surname]),
      (''gender'', [U16 (ucast (mob_base_gender m))]), (''race'', [U16 (mob_base_race m)]),
      (''class'', [U16 (ucast (mob_class m))]), (''level'', [U32 (ucast (mob_level m))]),
      (''experience'', [U32 (ucast (cl_experience c))]), (''trainingPoints'', [U16 (cl_trainingPoints c)]),
      (''currentMana'', [U16 (ucast (mob_current_mana m))]), (''face'', [U8 (mob_face m)]), (''unknownA'', [Skip 47]),
      (''currentHp'', [U16 (ucast (mob_current_hp m))]), (''unknownB'', [Skip 1]), (''STR'', [U8 (ucast (mob_base_str m))]),
      (''STA'', [U8 (ucast (mob_base_sta m))]), (''CHA'', [U8 (ucast (mob_base_cha m))]),
      (''DEX'', [U8 (ucast (mob_base_dex m))]), (''INT'', [U8 (ucast (mob_base_int m))]),
      (''AGI'', [U8 (ucast (mob_base_agi m))]), (''WIS'', [U8 (ucast (mob_base_wis m))]),
      (''languages'', map U8 (take 24 (sk_language (cl_skills c)))), (''unknownC'', [Skip 14])]"

definition profile_program_2 :: "client \<Rightarrow> profile_slots \<Rightarrow> program" where
  "profile_program_2 c ps =
     [(''mainInventoryItemIds'', Paint 0xff 60 # id_pokes 1 (ps_main ps) @ [Skip 60]),
      (''mainInventoryInternalUnused'', [Skip 120]),
      (''mainInventoryItemProperties'', item_properties 30 (ps_mainCharges ps)),
      (''buffs'', concat (replicate 15 [Skip 4, U16 0xffff, Skip 4])),
      (''baggedItemIds'', Paint 0xff 180 # id_pokes InvSlot_BagsSlotsIncludingCursorBegin (ps_bags ps) @ [Skip 180]),
      (''baggedItemProperties'', item_properties 90 (ps_bagCharges ps)),
      (''spellbook'', Paint 0xff 512 # spell_pokes (cl_spellbook c) @ [Skip 512]),
      (''memmedSpellIds'', map (\<lambda>i. U16 (let spellId = ucast (ms_spellId (sb_memorized (cl_spellbook c) ! i)) in if spellId = 0 then 0xffff else spellId)) [0..<8])]"

definition profile_program_3 :: "u64 \<Rightarrow> bytes \<Rightarrow> client \<Rightarrow> mob \<Rightarrow> program" where
  "profile_program_3 time shortName c m =
     [(''unknownD'', [Skip 2]), (''y'', [U32 (mob_y m)]), (''x'', [U32 (mob_x m)]), (''z'', [U32 (mob_z m)]),
      (''heading'', [U32 (mob_heading m)]), (''zoneShortName'', [Txt 32 shortName]), (''unknownEDefault100'', [U32 100]),
      (''coins'', [Buf (coin_bytes (cl_coins c))]), (''coinsBank'', [Buf (coin_bytes (cl_coinsBank c))]),
      (''coinsCursor'', [Buf (coin_bytes (cl_coinsCursor c))]), (''skills'', map U8 (take 74 (sk_skill (cl_skills c)))),
      (''unknownF'', [Fill 0xff 27, Skip 1, U32 0xffffffff, Skip 1, Fill 0xff 3, Skip 1, U8 0xff, Skip 1, Fill 0xff 12, Skip 2, U8 0xff, Skip 2, U8 0x80, U8 0xbf, Skip 2, U16 0x4040, Skip 2, U8 0x20, U8 0x40, Skip 2, U8 0xb0, U8 0x40, Skip 92]),
      (''autoSplit'', [U32 (flag (cl_isAutoSplitEnabled c))]), (''pvpEnabled'', [U32 (flag (client_is_pvp c))]),
      (''unknownG'', [Skip 12]), (''isGM'', [U32 (flag (client_is_gm c))]), (''unknownH'', [Skip 20]),
      (''disciplinesReady'', [U32 (flag (time \<ge> cl_disciplineTimestamp c))]), (''unknownI'', [Skip 20]),
      (''hunger'', [U32 (cl_hungerLevel c)]), (''thirst'', [U32 (cl_thirstLevel c)]), (''unknownJ'', [Skip 24]),
      (''bindZoneShortName'', map (\<lambda>i. Txt 20 (bytes_of (zone_short_name_by_id (uint (bp_zoneId (cl_bindPoints c ! i)))))) [0..<5])]"

definition profile_program_4 :: "client \<Rightarrow> profile_slots \<Rightarrow> program" where
  "profile_program_4 c ps =
     [(''bankInventoryItemProperties'', item_properties 8 (ps_bankCharges ps)),
      (''bankBaggedItemProperties'', item_properties 80 (ps_bankBagCharges ps)), (''unknownK'', [Skip 4]),
      (''unknownL'', [Skip 4]),
      (''bindLocY'', [U32 (loc_y (bp_loc (cl_bindPoints c ! 0))), U32 (loc_y (bp_loc (cl_bindPoints c ! 1))), U32 (loc_y (bp_loc (cl_bindPoints c ! 2))), U32 (loc_y (bp_loc (cl_bindPoints c ! 3))), U32 (loc_y (bp_loc (cl_bindPoints c ! 4)))]),
      (''bindLocX'', [U32 (loc_x (bp_loc (cl_bindPoints c ! 0))), U32 (loc_x (bp_loc (cl_bindPoints c ! 1))), U32 (loc_x (bp_loc (cl_bindPoints c ! 2))), U32 (loc_x (bp_loc (cl_bindPoints c ! 3))), U32 (loc_x (bp_loc (cl_bindPoints c ! 4)))]),
      (''bindLocZ'', [U32 (loc_z (bp_loc (cl_bindPoints c ! 0))), U32 (loc_z (bp_loc (cl_bindPoints c ! 1))), U32 (loc_z (bp_loc (cl_bindPoints c ! 2))), U32 (loc_z (bp_loc (cl_bindPoints c ! 3))), U32 (loc_z (bp_loc (cl_bindPoints c ! 4)))]),
      (''bindLocHeading'', [U32 (loc_heading (bp_loc (cl_bindPoints c ! 0))), U32 (loc_heading (bp_loc (cl_bindPoints c ! 1))), U32 (loc_heading (bp_loc (cl_bindPoints c ! 2))), U32 (loc_heading (bp_loc (cl_bindPoints c ! 3))), U32 (loc_heading (bp_loc (cl_bindPoints c ! 4)))]),
      (''bankInventoryInternalUnused'', [Skip 32]), (''unknownM'', [Skip 12]),
      (''unixTimeA'', [U32 (ucast (cl_creationTimestamp c))]), (''unknownN'', [Skip 8]), (''unknownODefault1'', [U32 1]),
      (''unknownP'', [Skip 8])]"

definition profile_program_5 :: "u64 \<Rightarrow> client \<Rightarrow> mob \<Rightarrow> profile_slots \<Rightarrow> program" where
  "profile_program_5 time c m ps =
     [(''bankInventoryItemIds'', Paint 0xff 16 # id_pokes InvSlot_BankBegin (ps_bank ps) @ [Skip 16]),
      (''bankBaggedItemIds'', Paint 0xff 160 # id_pokes InvSlot_BankBagSlotsBegin (ps_bankBags ps) @ [Skip 160]),
      (''deity'', [U16 (mob_deity m)]), (''guildId'', [U16 (if cl_guildId c = 0 then 0xffff else ucast (cl_guildId c))]),
      (''unixTimeB'', [U32 (ucast time)]), (''unknownQ'', [Skip 4]), (''unknownRDefault7f7f'', [U16 0x7f7f]),
      (''fatiguePercent'', [U8 0]), (''unknownS'', [Skip 1]), (''unknownTDefault1'', [U8 1]),
      (''anon'', [U16 (ucast (cl_anonSetting c))]),
      (''guildRank'', [U8 (if cl_guildId c = 0 then 0xff else cl_guildRank c)]), (''drunkeness'', [U8 (cl_drunkeness c)]),
      (''showEqLoadScreen'', [Skip 1]), (''unknownU'', [Skip 2]),
      (''spellGemRefreshMilliseconds'', map (\<lambda>i. U32 (remaining time (ms_recastTimestamp (sb_memorized (cl_spellbook c) ! i)))) [0..<8]),
      (''unknownV'', [Skip 4]), (''harmtouchRefreshMilliseconds'', [U32 (remaining time (cl_harmtouchTimestamp c))]),
      (''groupMember'', replicate 5 (Skip 48)),
      (''unknownW'', [Skip 70, U16 0xffff, Skip 6, Fill 0xff 6, Skip 176, U16 0xffff, Skip 2])]"

definition profile_program ::
  "u64 \<Rightarrow> bytes \<Rightarrow> bytes option \<Rightarrow> bytes \<Rightarrow> client \<Rightarrow> mob \<Rightarrow> profile_slots \<Rightarrow> program" where
  "profile_program time name surname shortName c m ps =
     profile_program_1 name surname c m @ profile_program_2 c ps @ profile_program_3 time shortName c m @ profile_program_4 c ps @ profile_program_5 time c m ps"

definition player_profile_bytes :: "u64 \<Rightarrow> cstate \<Rightarrow> zone \<Rightarrow> bytes result" where
  "player_profile_bytes time s zone =
     (let c = cs_client s; m = cs_mob s; st = cs_strings s; n = layout_size Trilogy_PlayerProfile in
      bindE (mob_name_cstr m st) (\<lambda>name.
      bindE (client_surname_cstr c st) (\<lambda>surname.
      bindE (profile_slots_of (cl_inventory c)) (\<lambda>ps.
      bindE (run_program (profile_program time (cstr name) (if cl_surname c = None then None else Some (cstr surname))
          (bytes_of (zone_get_short_name zone)) c m ps) (aligned_init (replicate n 0) (of_nat n))) (\<lambda>w.
      let pp = al_buffer w in
      Inr (overwrite pp 0 (uint32_bytes (NOT (crc_calc32 (drop 4 pp))))))))))"

text \<open>The words are those of the whole buffer; only the first \<open>len div 4\<close> are changed by the loop.\<close>

definition client_trilogy_player_profile_obfuscate :: "bytes \<Rightarrow> nat \<Rightarrow> bytes" where
  "client_trilogy_player_profile_obfuscate buffer len =
     (let ws = swap_first_middle (len div 8) (words_of buffer); n = len div 4 in
      bytes_of_words (obfuscate 0x37a9 7 15 0x65e7 (take n ws) @ drop n ws))"

definition client_trilogy_send_player_profile ::
  "heap \<Rightarrow> (bytes \<Rightarrow> nat \<Rightarrow> bytes option) \<Rightarrow> bytes \<Rightarrow> u64 \<Rightarrow> cstate \<Rightarrow> zone \<Rightarrow> packet result" where
  "client_trilogy_send_player_profile h compress2 stack time s zone =
     bindE (player_profile_bytes time s zone) (\<lambda>pp.
     case compress2 pp (length pp) of
       None \<Rightarrow> Inl ErrorCompression
     | Some z \<Rightarrow>
         (let buffer = client_trilogy_player_profile_obfuscate (overwrite stack 0 z) (length z) in
          bindE (packet_trilogy_create h TrilogyOp_PlayerProfile (of_nat (length z))) (\<lambda>p.
          bindE (mem_write (pt_data p) (unat DATA_OFFSET) (take (length z) buffer)) (\<lambda>d.
          Inr (p\<lparr>pt_data := d\<rparr>)))))"

end
