(* ===== verification/Packet_Layouts.thy ===== *)
theory Packet_Layouts
  imports Client_Packets
begin

text \<open>
  The programs of \<open>Client_Packets\<close> against the layouts of their structs, and the two obfuscations.
\<close>

section \<open>Sizes\<close>

lemma layout_sizes [simp]:
  "layout_size Trilogy_Weather = 8" "layout_size Trilogy_ZoneInfo = 404" "layout_size Trilogy_SpawnAppearance = 12"
  "layout_size Trilogy_ZoneEntry = 312" "layout_size Trilogy_Spawn = 168" "layout_size Trilogy_Item = 292"
  "layout_size Trilogy_PlayerProfile = 8104"
  by (simp_all add: layout_size_def Trilogy_Weather_def Trilogy_ZoneInfo_def Trilogy_SpawnAppearance_def Trilogy_ZoneEntry_def
      Trilogy_Spawn_def Trilogy_Item_def Trilogy_PlayerProfile_def)

lemma layouts_distinct:
  "distinct (map fst Trilogy_Weather)" "distinct (map fst Trilogy_ZoneInfo)" "distinct (map fst Trilogy_SpawnAppearance)"
  "distinct (map fst Trilogy_ZoneEntry)" "distinct (map fst Trilogy_Spawn)" "distinct (map fst Trilogy_Item)"
  "distinct (map fst Trilogy_PlayerProfile)"
  by code_simp+

section \<open>The programs fill their structs\<close>

lemma fills_weather: "fills (weather_program t i) Trilogy_Weather"
  by (simp add: fills_def conforms_def weather_program_def Trilogy_Weather_def)

lemma fills_spawn_appearance: "fills (spawn_appearance_program e t v) Trilogy_SpawnAppearance"
  by (simp add: fills_def conforms_def spawn_appearance_program_def Trilogy_SpawnAppearance_def)

lemma fills_zone_info: "fills (zone_info_program zone) Trilogy_ZoneInfo"
  by (simp add: fills_def conforms_def zone_info_program_def Trilogy_ZoneInfo_def)

lemma fits_optional_text: "fits_ops (optional_text n t # xs) p k \<longleftrightarrow> p + n \<le> k \<and> fits_ops xs (p + n) k"
  by (cases t) (simp_all add: optional_text_def)

lemma fills_zone_entry: "fills (zone_entry_program name surname short c m) Trilogy_ZoneEntry"
  by (simp add: fills_def conforms_def zone_entry_program_def Trilogy_ZoneEntry_def fits_optional_text del: fits_ops.simps(2))
    (simp add: fits_optional_text)

lemma fills_spawn: "fills (spawn_program mob cl name surname x y z hp) Trilogy_Spawn"
  by (cases cl) (simp_all add: fills_def conforms_def spawn_program_def Trilogy_Spawn_def)

lemma fills_item: "fills (item_program proto item slotId) Trilogy_Item"
  by (simp add: fills_def conforms_def item_program_def item_program_common_def item_program_basic_def lore_ops_def Trilogy_Item_def)

section \<open>The profile\<close>

primrec afters :: "op list \<Rightarrow> nat \<Rightarrow> nat" where
  "afters [] p = p"
| "afters (x # xs) p = afters xs (after x p)"

primrec inside :: "op list \<Rightarrow> nat \<Rightarrow> nat \<Rightarrow> bool" where
  "inside [] p n \<longleftrightarrow> True"
| "inside (x # xs) p n \<longleftrightarrow> fits_op x p n \<and> inside xs (after x p) n"

lemma fits_append: "fits_ops (xs @ ys) p n \<longleftrightarrow> inside xs p n \<and> fits_ops ys (afters xs p) n"
  by (induction xs arbitrary: p) auto

lemma fits_uniform:
  assumes "\<And>x p. after (f x) p = p + k" "\<And>x p n. fits_op (f x) p n \<longleftrightarrow> p + k \<le> n"
  shows "fits_ops (map f xs) p n \<longleftrightarrow> p + k * length xs = n"
proof (induction xs arbitrary: p)
  case (Cons x xs)
  show ?case using Cons.IH [of "p + k"] assms by auto
qed simp

lemmas fits_maps = fits_uniform [of "\<lambda>i. U16 (g i)" 2 for g, simplified] fits_uniform [of "\<lambda>i. U32 (g i)" 4 for g, simplified]
  fits_uniform [of "\<lambda>i. Txt k (g i)" k for k g, simplified]

lemma fits_bytes: "fits_ops (map U8 bs) p n \<longleftrightarrow> p + length bs = n"
  using fits_uniform [of U8 1 bs p n] by simp

lemma fits_skips: "fits_ops (replicate k (Skip j)) p n \<longleftrightarrow> p + k * j = n"
  using fits_uniform [of "\<lambda>_. Skip j" j "replicate k ()" p n] by (simp add: map_replicate_const mult.commute)

lemma blanks_afters: "afters (concat (replicate k [Skip 4, U16 v, Skip 4])) p = p + 10 * k"
proof (induction k arbitrary: p)
  case (Suc k)
  show ?case using Suc.IH [of "p + 4 + 2 + 4"] by simp
qed simp

lemma blanks_inside: "p + 10 * k \<le> n \<Longrightarrow> inside (concat (replicate k [Skip 4, U16 v, Skip 4])) p n"
proof (induction k arbitrary: p)
  case (Suc k)
  show ?case using Suc.IH [of "p + 4 + 2 + 4"] Suc.prems by simp
qed simp

text \<open>Calls that leave the cursor where it is.\<close>

definition stays_inside :: "op list \<Rightarrow> nat \<Rightarrow> bool" where
  "stays_inside xs n \<longleftrightarrow> (\<forall>x \<in> set xs. fits_op x 0 n \<and> after x 0 = 0)"

lemma stays: "(\<And>x. x \<in> set xs \<Longrightarrow> after x 0 = 0 \<and> fits_op x 0 n) \<Longrightarrow> inside xs 0 n \<and> afters xs 0 = 0"
  by (induction xs) auto

lemma fits_painted: "stays_inside xs n \<Longrightarrow> fits_ops (Paint v n # xs @ [Skip n]) 0 n"
  using stays [of xs n] by (simp add: fits_append stays_inside_def)

lemma fits_properties: "stays_inside xs (k * 10) \<Longrightarrow> fits_ops (item_properties k xs) 0 (k * 10)"
  using stays [of xs "k * 10"] blanks_inside [of 0 k "k * 10" "0xffff"] blanks_afters [of k "0xffff" 0]
  by (simp add: item_properties_def fits_append stays_inside_def mult.commute)

lemma fits_buffs: "fits_ops (concat (replicate k [Skip 4, U16 v, Skip 4])) 0 (k * 10)"
proof -
  have "fits_ops (concat (replicate k [Skip 4, U16 v, Skip 4]) @ []) 0 (k * 10)"
    unfolding fits_append using blanks_inside [of 0 k "k * 10" v] blanks_afters [of k v 0] by simp
  then show ?thesis by simp
qed

text \<open>The slots of every part have their place in the profile.\<close>

definition slots_fit :: "profile_slots \<Rightarrow> bool" where
  "slots_fit ps \<longleftrightarrow>
     stays_inside (id_pokes 1 (ps_main ps)) 60 \<and> stays_inside (ps_mainCharges ps) 300 \<and>
     stays_inside (id_pokes InvSlot_BagsSlotsIncludingCursorBegin (ps_bags ps)) 180 \<and> stays_inside (ps_bagCharges ps) 900 \<and>
     stays_inside (id_pokes InvSlot_BankBegin (ps_bank ps)) 16 \<and> stays_inside (ps_bankCharges ps) 80 \<and>
     stays_inside (id_pokes InvSlot_BankBagSlotsBegin (ps_bankBags ps)) 160 \<and> stays_inside (ps_bankBagCharges ps) 800"

lemma spells_fit: "stays_inside (spell_pokes b) 512"
proof -
  have "unat (2 * s) + 2 \<le> 512" if "\<not> s \<ge> EQP_TRILOGY_SPELLBOOK_SLOT_COUNT" for s
  proof -
    have "unat s < 256" using that by (simp add: EQP_TRILOGY_SPELLBOOK_SLOT_COUNT_def word_le_nat_alt)
    then show ?thesis by (simp add: unat_word_ariths)
  qed
  then show ?thesis by (auto simp: stays_inside_def spell_pokes_def split: option.splits)
qed

lemma length_coin_bytes [simp]: "length (coin_bytes co) = 16"
  by (simp add: coin_bytes_def)

lemma fits_special:
  assumes "slots_fit ps" "length (sk_language (cl_skills c)) = 24" "length (sk_skill (cl_skills c)) = 74"
  shows "fits_ops (Paint 0xff 60 # id_pokes 1 (ps_main ps) @ [Skip 60]) 0 60"
    "fits_ops (item_properties 30 (ps_mainCharges ps)) 0 300"
    "fits_ops (concat (replicate 15 [Skip 4, U16 0xffff, Skip 4])) 0 150"
    "fits_ops (Paint 0xff 180 # id_pokes InvSlot_BagsSlotsIncludingCursorBegin (ps_bags ps) @ [Skip 180]) 0 180"
    "fits_ops (item_properties 90 (ps_bagCharges ps)) 0 900"
    "fits_ops (Paint 0xff 512 # spell_pokes b @ [Skip 512]) 0 512"
    "fits_ops (item_properties 8 (ps_bankCharges ps)) 0 80"
    "fits_ops (item_properties 80 (ps_bankBagCharges ps)) 0 800"
    "fits_ops (Paint 0xff 16 # id_pokes InvSlot_BankBegin (ps_bank ps) @ [Skip 16]) 0 16"
    "fits_ops (Paint 0xff 160 # id_pokes InvSlot_BankBagSlotsBegin (ps_bankBags ps) @ [Skip 160]) 0 160"
    "fits_ops (map U8 (take 24 (sk_language (cl_skills c)))) 0 24"
    "fits_ops (map U8 (take 74 (sk_skill (cl_skills c)))) 0 74"
    "fits_ops (replicate 5 (Skip 48)) 0 240"
  using assms fits_painted fits_properties [of _ 30] fits_properties [of _ 90] fits_properties [of _ 8] fits_properties [of _ 80]
    fits_buffs [of 15 "0xffff"] spells_fit fits_bytes fits_skips
  by (simp_all add: slots_fit_def del: fits_ops.simps(2))

lemma conforms_append:
  "conforms p l \<Longrightarrow> conforms q m \<Longrightarrow> conforms (p @ q) (l @ m)"
  unfolding conforms_def by (rule list_all2_appendI)

lemma conforms_profile_1:
  assumes "slots_fit ps" "length (sk_language (cl_skills c)) = 24" "length (sk_skill (cl_skills c)) = 74"
  shows "conforms (profile_program_1 name surname c m) (take 23 (drop 0 Trilogy_PlayerProfile))"
  by (simp add: conforms_def profile_program_1_def Trilogy_PlayerProfile_def fits_special [OF assms] fits_optional_text
      del: fits_ops.simps(2)) (simp add: fits_maps fits_optional_text)

lemma conforms_profile_2:
  assumes "slots_fit ps" "length (sk_language (cl_skills c)) = 24" "length (sk_skill (cl_skills c)) = 74"
  shows "conforms (profile_program_2 c ps) (take 8 (drop 23 Trilogy_PlayerProfile))"
  by (simp add: conforms_def profile_program_2_def Trilogy_PlayerProfile_def fits_special [OF assms] fits_optional_text
      del: fits_ops.simps(2)) (simp add: fits_maps fits_optional_text)

lemma conforms_profile_3:
  assumes "slots_fit ps" "length (sk_language (cl_skills c)) = 24" "length (sk_skill (cl_skills c)) = 74"
  shows "conforms (profile_program_3 time shortName c m) (take 23 (drop 31 Trilogy_PlayerProfile))"
  by (simp add: conforms_def profile_program_3_def Trilogy_PlayerProfile_def fits_special [OF assms] fits_optional_text
      del: fits_ops.simps(2)) (simp add: fits_maps fits_optional_text)

lemma conforms_profile_4:
  assumes "slots_fit ps" "length (sk_language (cl_skills c)) = 24" "length (sk_skill (cl_skills c)) = 74"
  shows "conforms (profile_program_4 c ps) (take 14 (drop 54 Trilogy_PlayerProfile))"
  by (simp add: conforms_def profile_program_4_def Trilogy_PlayerProfile_def fits_special [OF assms] fits_optional_text
      del: fits_ops.simps(2)) (simp add: fits_maps fits_optional_text)

lemma conforms_profile_5:
  assumes "slots_fit ps" "length (sk_language (cl_skills c)) = 24" "length (sk_skill (cl_skills c)) = 74"
  shows "conforms (profile_program_5 time c m ps) (take 20 (drop 68 Trilogy_PlayerProfile))"
  by (simp add: conforms_def profile_program_5_def Trilogy_PlayerProfile_def fits_special [OF assms] fits_optional_text
      del: fits_ops.simps(2)) (simp add: fits_maps fits_optional_text)

lemma take_split: "take (i + j) (drop k xs) = take i (drop k xs) @ take j (drop (k + i) xs)"
  by (simp add: take_add drop_drop add.commute)

lemma fills_profile:
  assumes "slots_fit ps" "length (sk_language (cl_skills c)) = 24" "length (sk_skill (cl_skills c)) = 74"
  shows "fills (profile_program time name surname shortName c m ps) Trilogy_PlayerProfile"
proof -
  have "length (profile_program time name surname shortName c m ps) = 88"
    by (simp add: profile_program_def profile_program_1_def profile_program_2_def profile_program_3_def profile_program_4_def profile_program_5_def)
  moreover have "take 88 Trilogy_PlayerProfile = take 23 (drop 0 Trilogy_PlayerProfile) @ take 8 (drop 23 Trilogy_PlayerProfile) @ take 23 (drop 31 Trilogy_PlayerProfile) @ take 14 (drop 54 Trilogy_PlayerProfile) @ take 20 (drop 68 Trilogy_PlayerProfile)"
    using take_split [of 23 65 0 Trilogy_PlayerProfile] take_split [of 8 57 23 Trilogy_PlayerProfile]
      take_split [of 23 34 31 Trilogy_PlayerProfile] take_split [of 14 20 54 Trilogy_PlayerProfile] by simp
  ultimately show ?thesis unfolding fills_def profile_program_def
    using conforms_profile_1 [OF assms] conforms_profile_2 [OF assms] conforms_profile_3 [OF assms] conforms_profile_4 [OF assms]
      conforms_profile_5 [OF assms] by (simp add: conforms_append)
qed

end
