(* ===== verification/Packet_Obfuscation.thy ===== *)
theory Packet_Obfuscation
  imports Client_Packets
begin

text \<open>
  The obfuscation of spawn packets and profiles loses nothing: a client can undo it word by word.
\<close>

section \<open>Words and their bytes\<close>

lemma word_of_bytes:
  "uint32_bytes (ucast a OR push_bit 8 (ucast b) OR push_bit 16 (ucast c) OR push_bit 24 (ucast d)) = [a, b, c, d]"
  unfolding uint32_bytes_def byte_masks list.inject
  by (intro conjI bit_word_eqI refl) (auto simp: bit_simps dest: bit_imp_le_length)

lemma words_of_bytes: "words_of (bytes_of_words ws) = ws"
proof (induction ws)
  case (Cons w ws)
  have "uint32_bytes w = [uint32_bytes w ! 0, uint32_bytes w ! 1, uint32_bytes w ! 2, uint32_bytes w ! 3]"
    by (simp add: uint32_bytes_def)
  then have "words_of (bytes_of_words (w # ws)) =
      (ucast (uint32_bytes w ! 0) OR push_bit 8 (ucast (uint32_bytes w ! 1)) OR push_bit 16 (ucast (uint32_bytes w ! 2))
        OR push_bit 24 (ucast (uint32_bytes w ! 3))) # words_of (bytes_of_words ws)"
    by (metis append_Cons append_Nil bytes_of_words_def concat.simps(2) list.simps(9) words_of.simps(1))
  then show ?case using Cons uint32_roundtrip [of w] by simp
qed (simp add: bytes_of_words_def)

lemma bytes_of_words_of: "length bs mod 4 = 0 \<Longrightarrow> bytes_of_words (words_of bs) = bs"
proof (induction bs rule: words_of.induct)
  case (1 a b c d bs)
  then show ?case by (simp add: bytes_of_words_def word_of_bytes)
qed (simp_all add: bytes_of_words_def)

lemma length_words_of: "length (words_of bs) = length bs div 4"
  by (induction bs rule: words_of.induct) simp_all

lemma length_bytes_of_words [simp]: "length (bytes_of_words ws) = 4 * length ws"
  by (induction ws) (simp_all add: bytes_of_words_def uint32_bytes_def)

section \<open>Undoing it\<close>

definition rotate_right :: "nat \<Rightarrow> u32 \<Rightarrow> u32" where
  "rotate_right k v = drop_bit k v OR push_bit (32 - k) v"

lemma rotate_right_left: "0 < k \<Longrightarrow> k < 32 \<Longrightarrow> rotate_right k (rotate_left k v) = v"
proof (rule bit_word_eqI)
  fix n assume "0 < k" "k < 32" "n < LENGTH(32)"
  then show "bit (rotate_right k (rotate_left k v)) n = bit v n"
    by (cases "n + k < 32") (auto simp: rotate_right_def rotate_left_def bit_simps dest: bit_imp_le_length)
qed

primrec reveal :: "u32 \<Rightarrow> nat \<Rightarrow> nat \<Rightarrow> u32 \<Rightarrow> u32 list \<Rightarrow> u32 list" where
  "reveal key r1 r2 c [] = []"
| "reveal key r1 r2 c (y # ys) =
     (let x = rotate_right r1 (rotate_right r2 (y + c) - key) in x # reveal key r1 r2 (c + x - key) ys)"

lemma reveal_obfuscate: "0 < r1 \<Longrightarrow> r1 < 32 \<Longrightarrow> 0 < r2 \<Longrightarrow> r2 < 32 \<Longrightarrow> reveal key r1 r2 c (obfuscate key r1 r2 c xs) = xs"
  by (induction xs arbitrary: c) (simp_all add: Let_def rotate_right_left)

lemma length_obfuscate [simp]: "length (obfuscate key r1 r2 c xs) = length xs"
  by (induction xs arbitrary: c) simp_all

definition spawn_reveal :: "bytes \<Rightarrow> bytes" where
  "spawn_reveal bs = bytes_of_words (reveal 0x65e7 9 13 0 (words_of bs))"

lemma length_spawn_obfuscate: "length bs mod 4 = 0 \<Longrightarrow> length (client_trilogy_spawn_obfuscate bs) = length bs"
  by (auto simp: client_trilogy_spawn_obfuscate_def obfuscate_bytes_def length_words_of)

lemma spawn_reveal_obfuscate: "length bs mod 4 = 0 \<Longrightarrow> spawn_reveal (client_trilogy_spawn_obfuscate bs) = bs"
  by (simp add: spawn_reveal_def client_trilogy_spawn_obfuscate_def obfuscate_bytes_def words_of_bytes reveal_obfuscate bytes_of_words_of)

text \<open>Of a profile the client knows the length of the compressed data, a prefix of the buffer.\<close>

definition profile_reveal :: "bytes \<Rightarrow> nat \<Rightarrow> bytes" where
  "profile_reveal buffer len =
     (let ws = words_of buffer; n = len div 4 in
      bytes_of_words (swap_first_middle (len div 8) (reveal 0x37a9 7 15 0x65e7 (take n ws) @ drop n ws)))"

lemma swap_twice: "0 < length ws \<Longrightarrow> i < length ws \<Longrightarrow> swap_first_middle i (swap_first_middle i ws) = ws"
  by (rule nth_equalityI) (auto simp: swap_first_middle_def nth_list_update)

lemma profile_reveal_obfuscate:
  assumes "length buffer mod 4 = 0" "0 < length buffer" "len \<le> length buffer"
  shows "profile_reveal (client_trilogy_player_profile_obfuscate buffer len) len = buffer"
proof -
  let ?ws = "words_of buffer" and ?n = "len div 4"
  have l: "length ?ws = length buffer div 4" by (rule length_words_of)
  obtain k where k: "length buffer = 4 * k" "0 < k" using assms(1,2) by (metis dvdE mod_eq_0_iff_dvd mult_0_right neq0_conv)
  then have "len div 8 < k" using assms(3) by linarith
  then have "0 < length ?ws" "len div 8 < length ?ws" using l k by simp_all
  note sw = swap_twice [OF this]
  let ?s = "swap_first_middle (len div 8) ?ws"
  have ls: "length ?s = length ?ws" by (simp add: swap_first_middle_def)
  have n: "?n \<le> length ?s" using assms(3) l ls by (simp add: div_le_mono)
  have "words_of (client_trilogy_player_profile_obfuscate buffer len) = obfuscate 0x37a9 7 15 0x65e7 (take ?n ?s) @ drop ?n ?s"
    by (simp add: client_trilogy_player_profile_obfuscate_def Let_def words_of_bytes)
  then show ?thesis using n sw bytes_of_words_of [OF assms(1)] by (simp add: profile_reveal_def Let_def reveal_obfuscate)
qed

end
