(* ===== verification/Packet_Properties.thy ===== *)
theory Packet_Properties
  imports Client_Properties Packet_Layouts Packet_Obfuscation
begin

text \<open>
  What is promised of the packets a zone sends: they are their structs, and nothing is lost on the way.
\<close>

section \<open>Structs\<close>

text \<open>Every field of a struct in a buffer holds what the calls for it make of the bytes it had.\<close>

definition holds_fields :: "program \<Rightarrow> layout \<Rightarrow> bytes \<Rightarrow> bytes \<Rightarrow> bool" where
  "holds_fields prog l old new \<longleftrightarrow> length new = length old \<and> (\<forall>(f, xs) \<in> set prog. field l f new = local_ops xs 0 (field l f old))"

lemma holds_field: "holds_fields prog l old new \<Longrightarrow> (f, xs) \<in> set prog \<Longrightarrow> field l f new = local_ops xs 0 (field l f old)"
  unfolding holds_fields_def by blast

lemma field_take:
  assumes "distinct (map fst l)" "f \<in> fst ` set (take k l)"
  shows "field (take k l) f = field l f"
proof
  fix bs
  have o: "field_offset (take k l) f = field_offset l f \<and> map_of (take k l) f = map_of l f"
    using assms
  proof (induction l arbitrary: k)
    case (Cons x l)
    then show ?case by (cases x; cases k) auto
  qed simp
  then show "field (take k l) f bs = field l f bs" by (simp add: field_def)
qed

lemma fill_struct_fields:
  assumes "fills prog l" "distinct (map fst l)" "layout_size l \<le> length bs"
  shows "holds_fields prog l bs (fill_struct prog l bs)"
proof -
  let ?l = "take (length prog) l"
  have c: "conforms prog ?l" using assms(1) by (simp add: fills_def)
  have s: "layout_size ?l \<le> length bs" using assms(3) layout_size_take order_trans by blast
  have d: "distinct (map fst ?l)" using assms(2) by (simp add: take_map [symmetric])
  have "field l f (fill_struct prog l bs) = local_ops xs 0 (field l f bs)" if "(f, xs) \<in> set prog" for f xs
  proof -
    have "f \<in> fst ` set ?l" using that conforms_names [OF c] by (metis fst_conv image_eqI list.set_map)
    then show ?thesis using field_fill_fields [OF c s d that] field_take [OF assms(2)] by (simp add: fill_struct_def)
  qed
  then show ?thesis using length_fill_struct [OF assms(1,3)] by (auto simp: holds_fields_def)
qed

text \<open>A packet that is such a struct.\<close>

definition is_struct :: "u16 \<Rightarrow> program \<Rightarrow> layout \<Rightarrow> bool \<Rightarrow> packet \<Rightarrow> bool" where
  "is_struct opcode prog l zeroed p \<longleftrightarrow> pt_opcode p = opcode \<and> unat (pt_dataLength p) = layout_size l \<and>
     (\<exists>old. (zeroed \<longrightarrow> old = replicate (layout_size l) 0) \<and> length old = layout_size l \<and> holds_fields prog l old (payload p))"

lemma make_packet_struct:
  assumes "ample h" "fills prog l" "distinct (map fst l)" "layout_size l \<le> 2 ^ 16"
  shows "\<exists>p. make_packet h opcode (of_nat (layout_size l)) zeroed prog = Inr p \<and> is_struct opcode prog l zeroed p"
proof -
  obtain p bs where p: "make_packet h opcode (of_nat (layout_size l)) zeroed prog = Inr p" "pt_opcode p = opcode"
    "pt_dataLength p = of_nat (layout_size l)" "length bs = layout_size l" "zeroed \<longrightarrow> bs = replicate (layout_size l) 0"
    "payload p = fill_struct prog l bs"
    using make_packet_spec [OF assms(1,2) refl assms(4)] by blast
  have "unat (of_nat (layout_size l) :: u32) = layout_size l" using assms(4) by (intro unat_small) simp
  then show ?thesis using p fill_struct_fields [OF assms(2,3), of bs] by (auto simp: is_struct_def)
qed


definition an_item :: item where
  "an_item = \<lparr>it_luaIndex = 0, it_prototype = Some 1, it_charges = 3, it_stackAmount = 1, it_isBag = False, it_isCustomized = False\<rparr>"

lemma field_value: "length bs = 4 \<Longrightarrow> local_ops [U32 v] 0 bs = uint32_bytes v" "length cs = 2 \<Longrightarrow> local_ops [U16 w] 0 cs = uint16_bytes w"
  by (simp_all add: overwrite_def)


section \<open>Spawns\<close>

text \<open>C34. The packet of a mob whose coordinates the casts can represent is built, has the length of the
  struct, and is obfuscated without loss: undoing the obfuscation gives the cleared struct with every
  field filled from the mob.\<close>

theorem spawn_packet_revealed:
  assumes "ample h" "to_uint16 (float_trunc (mob_x mob)) = Inr x" "to_uint16 (float_trunc (mob_y mob)) = Inr y"
    "to_uint16 (float_trunc_times_10 (mob_z mob)) = Inr z" "mob_hp_ratio mob = Inr hp"
    "mob_client_friendly_name_cstr mob st = Inr name"
    "mb_mobType mob = MobType_Client \<longrightarrow> (\<exists>c. cl = Some c \<and> client_surname_cstr c st = Inr surname)"
  shows "\<exists>p. client_trilogy_make_op_spawn h mob cl st = Inr p \<and> pt_opcode p = TrilogyOp_Spawn \<and> unat (pt_dataLength p) = 168 \<and>
    holds_fields (if mb_mobType mob = MobType_Client then spawn_program mob cl (cstr name) (cstr surname) x y z hp
        else spawn_program mob None (cstr name) [] x y z hp) Trilogy_Spawn (replicate 168 0) (spawn_reveal (payload p))"
proof -
  let ?prog = "if mb_mobType mob = MobType_Client then spawn_program mob cl (cstr name) (cstr surname) x y z hp
    else spawn_program mob None (cstr name) [] x y z hp"
  have "fills ?prog Trilogy_Spawn" by (simp add: fills_spawn)
  from make_packet_struct [OF assms(1) this, of TrilogyOp_Spawn True] obtain p0 where
    p0: "make_packet h TrilogyOp_Spawn (of_nat (layout_size Trilogy_Spawn)) True ?prog = Inr p0" "is_struct TrilogyOp_Spawn ?prog Trilogy_Spawn True p0"
    using layouts_distinct by auto
  then have s: "pt_opcode p0 = TrilogyOp_Spawn" "unat (pt_dataLength p0) = 168"
    "holds_fields ?prog Trilogy_Spawn (replicate 168 0) (payload p0)" by (auto simp: is_struct_def)
  define p where "p = p0\<lparr>pt_data := overwrite (pt_data p0) (unat DATA_OFFSET) (client_trilogy_spawn_obfuscate (payload p0))\<rparr>"
  have "client_trilogy_make_op_spawn h mob cl st = Inr p"
    using assms(2-7) p0(1) by (auto simp: client_trilogy_make_op_spawn_def Let_def p_def cstr_def split: if_splits)
  moreover have l: "length (payload p0) = 168" using s(3) by (simp add: holds_fields_def)
  then have o: "length (client_trilogy_spawn_obfuscate (payload p0)) = 168" using length_spawn_obfuscate [of "payload p0"] by simp
  have d: "unat DATA_OFFSET + 168 \<le> length (pt_data p0)" using l s(2) by (simp add: payload_def packet_trilogy_data_def DATA_OFFSET_def)
  have "payload p = client_trilogy_spawn_obfuscate (payload p0)"
    using d o s(2) by (simp add: payload_def packet_trilogy_data_def p_def overwrite_def)
  then have "spawn_reveal (payload p) = payload p0" using spawn_reveal_obfuscate [of "payload p0"] l by simp
  ultimately show ?thesis using s by (auto simp: p_def)
qed

definition a_wolf :: mob where
  "a_wolf = zero_mob\<lparr>mb_x := 0x42c80000, mb_y := 0, mb_z := 0x40400000, mb_currentHp := 30,
     mb_currentStats := zero_stats\<lparr>st_maxHp := 90\<rparr>\<rparr>"

theorem spawn_packet_revealed_witness:
  "\<exists>p. client_trilogy_make_op_spawn roomy a_wolf None no_strings = Inr p \<and> unat (pt_dataLength p) = 168 \<and>
     field Trilogy_Spawn ''z'' (spawn_reveal (payload p)) = [30, 0]"
proof -
  have f: "to_uint16 (float_trunc 0x42c80000) = Inr 100" "to_uint16 (float_trunc 0) = Inr 0"
    "to_uint16 (float_trunc_times_10 0x40400000) = Inr 30"
    by (simp_all add: to_uint16_def float_trunc_def float_trunc_times_10_def float_exponent_def float_fraction_def float_significand_def
        scaled_def signed_by_def round_even_def excess_bits_def Let_def max_def)
  have v: "to_uint16 (float_trunc (mob_x a_wolf)) = Inr 100" "to_uint16 (float_trunc (mob_y a_wolf)) = Inr 0"
    "to_uint16 (float_trunc_times_10 (mob_z a_wolf)) = Inr 30" "mob_hp_ratio a_wolf = Inr 33"
    "mob_client_friendly_name_cstr a_wolf no_strings = Inr [0]" "mb_mobType a_wolf \<noteq> MobType_Client"
    using f by (simp_all add: a_wolf_def mob_x_def mob_y_def mob_z_def mob_hp_ratio_def Let_def zero_stats_def
        mob_client_friendly_name_cstr_def mob_name_cstr_def zero_mob_def MobType_Client_def)
  obtain p where p: "client_trilogy_make_op_spawn roomy a_wolf None no_strings = Inr p" "unat (pt_dataLength p) = 168"
    "holds_fields (spawn_program a_wolf None (cstr [0]) [] 100 0 30 33) Trilogy_Spawn (replicate 168 0) (spawn_reveal (payload p))"
    using spawn_packet_revealed [OF ample_roomy v(1-5), of None "[]"] v(6) by auto
  have "(''z'', [U16 30]) \<in> set (spawn_program a_wolf None (cstr [0]) [] 100 0 30 33)" by (simp add: spawn_program_def)
  then have "field Trilogy_Spawn ''z'' (spawn_reveal (payload p)) = local_ops [U16 30] 0 (field Trilogy_Spawn ''z'' (replicate 168 0))"
    by (rule holds_field [OF p(3)])
  moreover have "length (field Trilogy_Spawn ''z'' (replicate 168 0)) = 2" by (simp add: field_def Trilogy_Spawn_def)
  moreover have "uint16_bytes 30 = [30, 0]" by code_simp
  ultimately show ?thesis using p(1,2) field_value(2) by metis
qed

section \<open>The profile\<close>

text \<open>An inventory whose occupied slots have their items, and none of which is the one slot the profile
  has no room for.\<close>

definition profile_ready :: "inventory \<Rightarrow> bool" where
  "profile_ready iv \<longleftrightarrow> (case inv_slots iv of None \<Rightarrow> False
     | Some v \<Rightarrow> length (vec_items v) < 2 ^ 31 \<and>
         (\<forall>s \<in> set (vec_items v). is_itemId s \<noteq> 0 \<longrightarrow> is_item s \<noteq> None \<and> is_slotId s \<noteq> 2111))"

lemma slots_between_spec:
  assumes "inv_slots iv = Some v" "length (vec_items v) < 2 ^ 31" "from \<le> to"
  shows "slots_between iv from to = Inr (filter (matches from to) (vec_items v))"
proof -
  have "\<not> from > to" using assms(3) by simp
  then show ?thesis using iterate_all_spec [OF assms(1), of "inventory_iterator_init from to" "length (vec_items v) + 1"] assms(1,2)
    by (simp add: slots_between_def inventory_iterator_init_def)
qed

definition charge_ops :: "u32 \<Rightarrow> inventory_slot list \<Rightarrow> op list" where
  "charge_ops b ss = map (\<lambda>s. Poke8 (10 * (ucast (is_slotId s) - b)) (ucast (item_get_charges (the (is_item s))))) ss"

lemma charge_pokes_map: "(\<forall>s \<in> set ss. is_item s \<noteq> None) \<Longrightarrow> charge_pokes b ss = Inr (charge_ops b ss)"
  by (induction ss) (auto simp: charge_ops_def)

lemma slot_offset:
  assumes "(b :: u32) \<le> ucast (s :: u16)" "k \<le> 10"
  shows "unat (of_nat k * (ucast s - b)) = k * (unat s - unat b)"
proof -
  have u: "unat (ucast s :: u32) = unat s" by (simp add: unat_ucast_up)
  have "unat (ucast s - b) = unat s - unat b" using assms(1) u by (simp add: unat_sub)
  moreover have "unat s - unat b < 2 ^ 16" using unat_lt_u16 [of s] by (simp add: less_imp_diff_less)
  then have "k * (unat s - unat b) < 10 * 2 ^ 16 + 1" using assms(2) mult_le_mono [of k 10 "unat s - unat b" "2 ^ 16"] by simp
  ultimately show ?thesis using assms(2) by (simp add: unat_word_ariths unat_of_nat)
qed

lemma matches_offset:
  assumes "matches b e s"
  shows "unat (2 * (ucast (is_slotId s) - b)) = 2 * (unat (is_slotId s) - unat b)"
    "unat (10 * (ucast (is_slotId s) - b)) = 10 * (unat (is_slotId s) - unat b)" "unat (is_slotId s) \<le> unat e"
  using assms slot_offset [of b "is_slotId s" 2] slot_offset [of b "is_slotId s" 10]
  by (simp_all add: matches_def word_le_nat_alt unat_ucast_up)

lemma ids_fit: "2 * (unat e - unat b) + 2 \<le> n \<Longrightarrow> stays_inside (id_pokes b (filter (matches b e) items)) n"
  using matches_offset(1,3) by (fastforce simp: stays_inside_def id_pokes_def)

lemma charges_fit: "10 * (unat e - unat b) + 3 \<le> n \<Longrightarrow> stays_inside (charge_ops b (filter (matches b e) items)) n"
  using matches_offset(2,3) by (fastforce simp: stays_inside_def charge_ops_def)

text \<open>Without the slot 2111 the last range is one shorter.\<close>

lemma bank_bags: "\<forall>s \<in> set items. is_itemId s \<noteq> 0 \<longrightarrow> is_slotId s \<noteq> 2111 \<Longrightarrow>
    filter (matches 2031 2111) items = filter (matches 2031 2110) items"
proof (rule filter_cong [OF refl])
  fix s assume "\<forall>s \<in> set items. is_itemId s \<noteq> 0 \<longrightarrow> is_slotId s \<noteq> 2111" "s \<in> set items"
  moreover have "unat (2111 :: u16) = 2111" by simp
  ultimately have "is_itemId s \<noteq> 0 \<Longrightarrow> unat (is_slotId s) \<noteq> 2111" by (metis word_unat_eq_iff)
  then show "matches 2031 2111 s = matches 2031 2110 s" by (auto simp: matches_def word_le_nat_alt unat_ucast_up)
qed

lemma profile_slots_ready:
  assumes "profile_ready iv"
  shows "\<exists>ps. profile_slots_of iv = Inr ps \<and> slots_fit ps"
proof -
  obtain v where v: "inv_slots iv = Some v" "length (vec_items v) < 2 ^ 31"
    "\<forall>s \<in> set (vec_items v). is_itemId s \<noteq> 0 \<longrightarrow> is_item s \<noteq> None \<and> is_slotId s \<noteq> 2111"
    using assms by (auto simp: profile_ready_def split: option.splits)
  have it: "\<forall>s \<in> set (filter (matches b e) (vec_items v)). is_item s \<noteq> None" for b e using v(3) by (auto simp: matches_def)
  note sl = slots_between_spec [OF v(1,2)] and ch = charge_pokes_map [OF it]
  have bb: "filter (matches 2031 2111) (vec_items v) = filter (matches 2031 2110) (vec_items v)" using v(3) by (intro bank_bags) blast
  note ranges = InvSlot_EquipMainAndCursorNoCharmBegin_def InvSlot_EquipMainAndCursorNoCharmEnd_def
    InvSlot_BagsSlotsIncludingCursorBegin_def InvSlot_BagsSlotsIncludingCursorEnd_def InvSlot_BankBegin_def InvSlot_BankEnd_def
    InvSlot_BankBagSlotsBegin_def InvSlot_BankBagSlotsEnd_def
  show ?thesis
    unfolding profile_slots_of_def ranges
    by (simp add: sl ch bb slots_fit_def ranges ids_fit charges_fit)
qed

text \<open>C35. The profile of a client is built, as long as no item lies in the slot 2111 (the range of the
  bags in the bank ends one slot after the profile does): it has the length of the struct, every field holds what
  the calls written for it say, each occupied slot is written at its own place, and the first field is the complement
  of the checksum of all that follows.\<close>

theorem player_profile_filled:
  assumes "profile_ready (cl_inventory (cs_client s))" "length (sk_language (cl_skills (cs_client s))) = 24"
    "length (sk_skill (cl_skills (cs_client s))) = 74" "mob_name_cstr (cs_mob s) (cs_strings s) = Inr name"
    "client_surname_cstr (cs_client s) (cs_strings s) = Inr surname"
  shows "\<exists>ps pp pp0. profile_slots_of (cl_inventory (cs_client s)) = Inr ps \<and> player_profile_bytes time s zone = Inr pp \<and>
    length pp = 8104 \<and> take 4 pp = uint32_bytes (NOT (crc_calc32 (drop 4 pp))) \<and> drop 4 pp = drop 4 pp0 \<and>
    holds_fields (profile_program time (cstr name) (if cl_surname (cs_client s) = None then None else Some (cstr surname))
      (bytes_of (zone_get_short_name zone)) (cs_client s) (cs_mob s) ps) Trilogy_PlayerProfile (replicate 8104 0) pp0"
proof -
  obtain ps where ps: "profile_slots_of (cl_inventory (cs_client s)) = Inr ps" "slots_fit ps" using profile_slots_ready [OF assms(1)] by blast
  define prog where "prog = profile_program time (cstr name) (if cl_surname (cs_client s) = None then None else Some (cstr surname))
      (bytes_of (zone_get_short_name zone)) (cs_client s) (cs_mob s) ps"
  have f: "fills prog Trilogy_PlayerProfile" unfolding prog_def by (rule fills_profile [OF ps(2) assms(2,3)])
  define pp0 where "pp0 = fill_struct prog Trilogy_PlayerProfile (replicate 8104 0)"
  have h: "holds_fields prog Trilogy_PlayerProfile (replicate 8104 0) pp0"
    unfolding pp0_def by (rule fill_struct_fields [OF f]) (use layouts_distinct in simp_all)
  then have l: "length pp0 = 8104" by (simp add: holds_fields_def)
  obtain c where r: "run_program prog (cursor_at 0 8104 (replicate 8104 0)) = Inr (cursor_at c 8104 pp0)"
    using run_fills [OF f, of 8104 "replicate 8104 0"] by (auto simp: pp0_def)
  define pp where "pp = overwrite pp0 0 (uint32_bytes (NOT (crc_calc32 (drop 4 pp0))))"
  have "player_profile_bytes time s zone = Inr pp"
    using assms(4,5) ps(1) r by (simp add: player_profile_bytes_def Let_def aligned_init_def aligned_init_cursor_def pp_def prog_def)
  moreover have d: "drop 4 pp = drop 4 pp0" "length pp = 8104" using l by (simp_all add: pp_def overwrite_def)
  moreover have "take 4 pp = uint32_bytes (NOT (crc_calc32 (drop 4 pp)))" unfolding d(1) by (simp add: pp_def overwrite_def)
  ultimately show ?thesis using ps(1) h unfolding prog_def by blast
qed

theorem player_profile_filled_witness:
  "\<exists>pp. player_profile_bytes 1000 a_hero a_zone = Inr pp \<and> length pp = 8104 \<and>
     take 4 pp = uint32_bytes (NOT (crc_calc32 (drop 4 pp)))"
proof -
  have r: "profile_ready (cl_inventory (cs_client a_hero))" by (simp add: profile_ready_def a_hero_def)
  have l: "length (sk_language (cl_skills (cs_client a_hero))) = 24" "length (sk_skill (cl_skills (cs_client a_hero))) = 74"
    using a_hero_ok(1) by (simp_all add: well_formed_client_def)
  have n: "mob_name_cstr (cs_mob a_hero) (cs_strings a_hero) = Inr [0]" "client_surname_cstr (cs_client a_hero) (cs_strings a_hero) = Inr [0]"
    by (simp_all add: a_hero_def mob_name_cstr_def client_surname_cstr_def zero_mob_def zero_client_struct_def)
  from player_profile_filled [OF r l n, of 1000 a_zone] show ?thesis by blast
qed

end
