(* ===== verification/Zone_Cluster.thy ===== *)
theory Zone_Cluster
  imports Zone_Tables Client_Load Timer_Pool Ipc_Buffer
begin

text \<open>
  \<^verbatim>\<open>zone_cluster/zone_cluster.c\<close>, \<^verbatim>\<open>zone_cluster_ipc.c\<close> and
  \<^verbatim>\<open>client_on_disconnect\<close>: a zone cluster, its zones, the clients it expects, and the
  clients that are connected, in a list, by name and in their zones. Clients, mobs, zones and protocol
  handlers live in stores; the two hash tables hold addresses of clients as eight bytes, and a pointer to
  something freed is \<open>UndefinedBehaviour\<close> to follow. A client and its mob have one address. What
  is called in other parts of the program is recorded in order, together with the timers that are
  pending; the item data of the shared memory, the map files and Lua are not modelled.
\<close>

section \<open>State\<close>

record zone_by_source_id =
  zs_sourceId :: i32
  zs_zone :: nat

record connected_client =
  cc_expansion :: i32
  cc_handler :: "nat option"
  cc_client :: nat

text \<open>What the cluster does with a handler: it counts its owners and knows its client object.\<close>

record handler_ref =
  hr_refCount :: int
  hr_object :: "nat option"

text \<open>The two callbacks of the timers made here, with their client.\<close>

datatype timer_callback =
    zc_expected_client_timeout nat
  | zc_remove_linkdead_client nat

datatype cluster_call =
    ClientCall nat effect
  | LogFileOpen i32
  | SendKeepAlive nat
  | SchedulePacket nat packet
  | BroadcastPacket "nat list" packet
  | ItemShareMemOpen bytes u32

record zc =
  zc_zoneList :: "zone_by_source_id vec"
  zc_expectedClientsByName :: table
  zc_connectedClients :: "connected_client vec"
  zc_connectedClientsByName :: table
  zc_timers :: "(u32 \<times> timer_callback) list"
  zc_zones :: "nat \<Rightarrow> zone option"
  zc_clients :: clients
  zc_mobs :: mobs
  zc_strings :: string_store
  zc_handlers :: "nat \<Rightarrow> handler_ref option"
  zc_next :: nat
  zc_calls :: "cluster_call list"

definition ZC_ADDRESS :: nat where "ZC_ADDRESS = 0"

definition sizeof_ZoneBySourceId :: u32 where "sizeof_ZoneBySourceId = 16"
definition sizeof_ConnectedClient :: u32 where "sizeof_ConnectedClient = 24"
definition sizeof_Server_ClientZoning :: nat where "sizeof_Server_ClientZoning = 120"
definition sizeof_Server_ItemSharedMemoryOpen :: nat where "sizeof_Server_ItemSharedMemoryOpen = 4"

definition EQP_CLIENT_ZONE_IN_EXPECTED_TIMEOUT :: u32 where "EQP_CLIENT_ZONE_IN_EXPECTED_TIMEOUT = 30 * 1000"
definition EQP_ZC_CLIENT_LINKDEAD_LINGER_TIMEOUT :: u32 where "EQP_ZC_CLIENT_LINKDEAD_LINGER_TIMEOUT = 30 * 1000"
definition EQP_SOURCE_ID_ZONE_INSTANCE_OFFSET :: int where "EQP_SOURCE_ID_ZONE_INSTANCE_OFFSET = 1000"
definition EQP_SOURCE_ID_ZONE_CLUSTER_OFFSET :: int where "EQP_SOURCE_ID_ZONE_CLUSTER_OFFSET = 1000000"
definition EQP_SOURCE_ID_ZONE_MAX :: int where "EQP_SOURCE_ID_ZONE_MAX = EQP_SOURCE_ID_ZONE_INSTANCE_OFFSET - 1"
definition EQP_SOURCE_ID_ZONE_INSTANCE_MAX :: int where
  "EQP_SOURCE_ID_ZONE_INSTANCE_MAX = EQP_SOURCE_ID_ZONE_CLUSTER_OFFSET sdiv EQP_SOURCE_ID_ZONE_INSTANCE_OFFSET - 1"

section \<open>Pointers\<close>

definition ptr_bytes :: "nat \<Rightarrow> bytes" where
  "ptr_bytes a = uint64_bytes (of_nat a)"

definition ptr_of :: "bytes \<Rightarrow> nat" where
  "ptr_of b = unat (ucast (b ! 0) OR push_bit 8 (ucast (b ! 1)) OR push_bit 16 (ucast (b ! 2)) OR push_bit 24 (ucast (b ! 3))
     OR push_bit 32 (ucast (b ! 4)) OR push_bit 40 (ucast (b ! 5)) OR push_bit 48 (ucast (b ! 6)) OR push_bit 56 (ucast (b ! 7)) :: u64)"

lemma ptr_bytes_length [simp]: "length (ptr_bytes a) = 8"
  by (simp add: ptr_bytes_def uint64_bytes_def)

lemma ptr_of_bytes [simp]: "a < 2 ^ 64 \<Longrightarrow> ptr_of (ptr_bytes a) = a"
  unfolding ptr_of_def ptr_bytes_def uint64_roundtrip by (simp add: take_bit_nat_eq_self unat_of_nat)

definition zone_at :: "zc \<Rightarrow> nat \<Rightarrow> zone result" where
  "zone_at zc a = (case zc_zones zc a of None \<Rightarrow> Inl UndefinedBehaviour | Some z \<Rightarrow> Inr z)"

definition handler_at :: "zc \<Rightarrow> nat \<Rightarrow> handler_ref result" where
  "handler_at zc p = (case zc_handlers zc p of None \<Rightarrow> Inl UndefinedBehaviour | Some r \<Rightarrow> Inr r)"

definition note_call :: "cluster_call \<Rightarrow> zc \<Rightarrow> zc" where
  "note_call c zc = zc\<lparr>zc_calls := zc_calls zc @ [c]\<rparr>"

text \<open>The zone and the cluster of a client: those of its mob; a stub has neither.\<close>

definition client_zone :: "zc \<Rightarrow> nat \<Rightarrow> nat result" where
  "client_zone zc a =
     bindE (mob_at (zc_mobs zc) a) (\<lambda>m. case mb_zone m of None \<Rightarrow> Inl UndefinedBehaviour | Some z \<Rightarrow> Inr z)"

definition client_zone_cluster :: "zc \<Rightarrow> nat \<Rightarrow> nat result" where
  "client_zone_cluster zc a =
     bindE (mob_at (zc_mobs zc) a) (\<lambda>m. case mb_zoneCluster m of None \<Rightarrow> Inl UndefinedBehaviour | Some z \<Rightarrow> Inr z)"

definition client_name :: "zc \<Rightarrow> nat \<Rightarrow> nat result" where
  "client_name zc a =
     bindE (mob_at (zc_mobs zc) a) (\<lambda>m. case mb_name m of None \<Rightarrow> Inl UndefinedBehaviour | Some s \<Rightarrow> Inr s)"

section \<open>Handlers and clients\<close>

definition handler_drop :: "nat \<Rightarrow> zc \<Rightarrow> zc result" where
  "handler_drop p zc =
     bindE (handler_at zc p) (\<lambda>r.
     Inr (zc\<lparr>zc_handlers := (zc_handlers zc)(p := if hr_refCount r > 1 then Some (r\<lparr>hr_refCount := hr_refCount r - 1\<rparr>) else None)\<rparr>))"

definition handler_grab :: "nat \<Rightarrow> zc \<Rightarrow> zc result" where
  "handler_grab p zc =
     bindE (handler_at zc p) (\<lambda>r.
     Inr (zc\<lparr>zc_handlers := (zc_handlers zc)(p \<mapsto> r\<lparr>hr_refCount := hr_refCount r + 1\<rparr>)\<rparr>))"

definition protocol_handler_set_object :: "nat \<Rightarrow> nat \<Rightarrow> zc \<Rightarrow> zc result" where
  "protocol_handler_set_object p a zc =
     bindE (handler_at zc p) (\<lambda>r.
     Inr (zc\<lparr>zc_handlers := (zc_handlers zc)(p \<mapsto> r\<lparr>hr_object := Some a\<rparr>)\<rparr>))"

text \<open>A packet for a client needs its handler, which a linkdead client does not have.\<close>

definition client_live_handler :: "nat \<Rightarrow> zc \<Rightarrow> nat result" where
  "client_live_handler a zc =
     bindE (client_at (zc_clients zc) a) (\<lambda>c.
     case cl_handler c of
       None \<Rightarrow> Inl UndefinedBehaviour
     | Some p \<Rightarrow> bindE (handler_at zc p) (\<lambda>r. Inr p))"

fun apply_effect :: "nat \<Rightarrow> effect \<Rightarrow> zc \<Rightarrow> zc result" where
  "apply_effect a Freed zc = Inr (zc\<lparr>zc_clients := (zc_clients zc)(a := None), zc_mobs := (zc_mobs zc)(a := None)\<rparr>)"
| "apply_effect a (DropHandler p) zc = handler_drop p zc"
| "apply_effect a (GrabHandler p) zc = handler_grab p zc"
| "apply_effect a (SendDisconnect p) zc = bindE (handler_at zc p) (\<lambda>r. Inr zc)"
| "apply_effect a SendPlayerProfile zc = bindE (client_live_handler a zc) (\<lambda>p. Inr zc)"
| "apply_effect a SendZoneEntry zc = bindE (client_live_handler a zc) (\<lambda>p. Inr zc)"
| "apply_effect a (SendWeather t i) zc = bindE (client_live_handler a zc) (\<lambda>p. Inr zc)"
| "apply_effect a (SendCustomMessage ch str) zc = bindE (client_live_handler a zc) (\<lambda>p. Inr zc)"
| "apply_effect a (ScheduleQuery q i) zc = Inr zc"
| "apply_effect a TimerInit zc = Inr zc"
| "apply_effect a TimerStart zc = Inr zc"
| "apply_effect a TimerRestart zc = Inr zc"
| "apply_effect a TimerDeinit zc = Inr zc"
| "apply_effect a LuaCreateClient zc = Inr zc"
| "apply_effect a (LuaEvent e) zc = Inr zc"
| "apply_effect a LuaDestroyObject zc = Inr zc"

primrec apply_effects :: "nat \<Rightarrow> effect list \<Rightarrow> zc \<Rightarrow> zc result" where
  "apply_effects a [] zc = Inr zc"
| "apply_effects a (e # es) zc = bindE (apply_effect a e (note_call (ClientCall a e) zc)) (apply_effects a es)"

definition put_client :: "nat \<Rightarrow> cstate \<Rightarrow> zc \<Rightarrow> zc" where
  "put_client a s zc = zc\<lparr>zc_clients := (zc_clients zc)(a \<mapsto> cs_client s), zc_mobs := (zc_mobs zc)(a \<mapsto> cs_mob s), zc_strings := cs_strings s\<rparr>"

text \<open>An operation of \<^verbatim>\<open>client.c\<close> on the client at an address.\<close>

definition on_client :: "nat \<Rightarrow> (cstate \<Rightarrow> cstate result) \<Rightarrow> zc \<Rightarrow> zc result" where
  "on_client a f zc =
     bindE (client_at (zc_clients zc) a) (\<lambda>c.
     bindE (mob_at (zc_mobs zc) a) (\<lambda>m.
     bindE (f \<lparr>cs_client = c, cs_mob = m, cs_strings = zc_strings zc, cs_effects = []\<rparr>) (\<lambda>s.
     apply_effects a (cs_effects s) (put_client a s zc))))"

definition zc_lua_event :: "nat \<Rightarrow> string \<Rightarrow> zc \<Rightarrow> zc result" where
  "zc_lua_event a event zc =
     bindE (client_zone zc a) (\<lambda>z. bindE (zone_at zc z) (\<lambda>zone. Inr (note_call (ClientCall a (LuaEvent event)) zc)))"

section \<open>Zones\<close>

definition zc_create :: "heap \<Rightarrow> zc result" where
  "zc_create h =
     bindE (vec_create h sizeof_ZoneBySourceId) (\<lambda>zones.
     bindE (hash_table_create h 8) (\<lambda>expected.
     bindE (vec_create h sizeof_ConnectedClient) (\<lambda>connected.
     bindE (hash_table_create h 8) (\<lambda>byName.
     Inr \<lparr>zc_zoneList = zones, zc_expectedClientsByName = expected, zc_connectedClients = connected,
          zc_connectedClientsByName = byName, zc_timers = [], zc_zones = Map.empty, zc_clients = Map.empty,
          zc_mobs = Map.empty, zc_strings = \<lparr>ss_strings = Map.empty, ss_next = 1\<rparr>, zc_handlers = Map.empty,
          zc_next = 1, zc_calls = []\<rparr>))))"

definition zc_get_zone_by_source_id :: "zc \<Rightarrow> i32 \<Rightarrow> nat option" where
  "zc_get_zone_by_source_id zc sourceId =
     map_option zs_zone (find (\<lambda>z. zs_sourceId z = sourceId) (vec_items (zc_zoneList zc)))"

text \<open>\<open>mapMinZ\<close> gives the lowest height of the map of a zone, if it has a map.\<close>

definition zc_start_zone :: "heap \<Rightarrow> (i32 \<Rightarrow> u32 option) \<Rightarrow> i32 \<Rightarrow> zc \<Rightarrow> zc result" where
  "zc_start_zone h mapMinZ sourceId zc =
     (let zoneId = sint sourceId smod EQP_SOURCE_ID_ZONE_INSTANCE_OFFSET;
          instId = sint sourceId sdiv EQP_SOURCE_ID_ZONE_INSTANCE_OFFSET in
      if instId < 0 \<or> instId > EQP_SOURCE_ID_ZONE_INSTANCE_MAX then Inr zc
      else if zoneId < 1 \<or> zoneId > EQP_SOURCE_ID_ZONE_MAX then Inr zc
      else if zc_get_zone_by_source_id zc sourceId \<noteq> None then Inr zc
      else (let zc = note_call (LogFileOpen sourceId) zc; a = zc_next zc; zid = word_of_int zoneId in
       bindE (zone_create h (mapMinZ zid) sourceId zid (word_of_int instId)) (\<lambda>zone.
       bindE (vec_push h sizeof_ZoneBySourceId (zc_zoneList zc) \<lparr>zs_sourceId = sourceId, zs_zone = a\<rparr>) (\<lambda>zones.
       Inr (zc\<lparr>zc_zoneList := zones, zc_zones := (zc_zones zc)(a \<mapsto> zone), zc_next := Suc a\<rparr>)))))"

section \<open>Expected clients\<close>

definition zoning_at :: "bytes \<Rightarrow> client_zoning" where
  "zoning_at d =
     (let u = (\<lambda>i. ucast (d ! i) OR push_bit 8 (ucast (d ! (i + 1))) OR push_bit 16 (ucast (d ! (i + 2))) OR push_bit 24 (ucast (d ! (i + 3))) :: u32)
      in \<lparr>cz_accountId = u 0, cz_ipAddress = u 4, cz_characterId = ucast (u 8) OR push_bit 32 (ucast (u 12)),
          cz_isLocal = u 16, cz_isFromCharSelect = u 20, cz_accountName = slice d 24 64, cz_characterName = slice d 88 32\<rparr>)"

definition eqp_timer_for :: "heap \<Rightarrow> u32 \<Rightarrow> timer_callback \<Rightarrow> zc \<Rightarrow> zc result" where
  "eqp_timer_for h ms cb zc =
     (if can_alloc h sizeof_Timer then Inr (zc\<lparr>zc_timers := zc_timers zc @ [(ms, cb)]\<rparr>) else Inl ErrorOutOfMemory)"

definition timer_destroy_for :: "timer_callback \<Rightarrow> zc \<Rightarrow> zc" where
  "timer_destroy_for cb zc = zc\<lparr>zc_timers := filter (\<lambda>t. snd t \<noteq> cb) (zc_timers zc)\<rparr>"

text \<open>Reading a name that has no terminator leaves its array.\<close>

definition zc_client_expected_to_zone_in :: "heap \<Rightarrow> i32 \<Rightarrow> bytes \<Rightarrow> zc \<Rightarrow> zc result" where
  "zc_client_expected_to_zone_in h sourceId data zc =
     (if length data < sizeof_Server_ClientZoning then Inr zc
      else case zc_get_zone_by_source_id zc sourceId of
        None \<Rightarrow> Inr zc
      | Some zone \<Rightarrow>
          (let zoning = zoning_at data; name = cz_characterName zoning in
           if 0 \<notin> set (cz_accountName zoning) \<or> 0 \<notin> set name then Inl UndefinedBehaviour
           else bindE (client_create h ZC_ADDRESS zone zoning (zc_strings zc)) (\<lambda>s.
                let a = zc_next zc in
                bindE (apply_effects a (cs_effects s) (put_client a s (zc\<lparr>zc_next := Suc a\<rparr>))) (\<lambda>zc.
                bindE (eqp_timer_for h EQP_CLIENT_ZONE_IN_EXPECTED_TIMEOUT (zc_expected_client_timeout a) zc) (\<lambda>zc.
                bindE (hash_table_set_by_cstr h (zc_expectedClientsByName zc) name (c_strlen name) (ptr_bytes a)) (\<lambda>(t, isNew).
                Inr (zc\<lparr>zc_expectedClientsByName := t\<rparr>)))))))"

definition zc_expected_client_timeout_callback :: "nat \<Rightarrow> zc \<Rightarrow> zc result" where
  "zc_expected_client_timeout_callback a zc =
     bindE (client_zone_cluster zc a) (\<lambda>_.
     bindE (client_name zc a) (\<lambda>n.
     bindE (string_at (zc_strings zc) n) (\<lambda>name.
     bindE (hash_table_get_by_cstr (zc_expectedClientsByName zc) (str_data name) (str_length name)) (\<lambda>found.
     bindE (if found = None then Inr zc
            else bindE (hash_table_remove_by_cstr (zc_expectedClientsByName zc) (str_data name) (str_length name)) (\<lambda>t.
                 on_client a client_drop (zc\<lparr>zc_expectedClientsByName := t\<rparr>))) (\<lambda>zc.
     Inr (timer_destroy_for (zc_expected_client_timeout a) zc))))))"

text \<open>\<open>name\<close> is what the packet holds from the name on.\<close>

definition zc_client_match_with_expected :: "nat \<Rightarrow> nat \<Rightarrow> bytes \<Rightarrow> zc \<Rightarrow> zc result" where
  "zc_client_match_with_expected clientStub handler name zc =
     (if 0 \<notin> set name then Inl UndefinedBehaviour
      else bindE (hash_table_get_by_cstr (zc_expectedClientsByName zc) name (c_strlen name)) (\<lambda>pclient.
      bindE (case pclient of
          Some p \<Rightarrow>
            (let a = ptr_of p in
             bindE (hash_table_remove_by_cstr (zc_expectedClientsByName zc) name (c_strlen name)) (\<lambda>t.
             bindE (client_at (zc_clients zc) a) (\<lambda>c.
             bindE (client_at (zc_clients zc) clientStub) (\<lambda>st.
             let zc = zc\<lparr>zc_expectedClientsByName := t,
                   zc_clients := (zc_clients zc)(a \<mapsto> c\<lparr>cl_handler := Some handler, cl_expansion := cl_expansion st\<rparr>)\<rparr> in
             bindE (protocol_handler_set_object handler a zc) (\<lambda>zc.
             on_client a (\<lambda>s. Inr (client_catch_up_with_loading_progress s)) zc)))))
        | None \<Rightarrow> handler_drop handler zc) (\<lambda>zc.
      Inr (zc\<lparr>zc_clients := (zc_clients zc)(clientStub := None), zc_mobs := (zc_mobs zc)(clientStub := None)\<rparr>))))"

section \<open>Connected clients\<close>

primrec keep_alive_loop :: "connected_client list \<Rightarrow> zc \<Rightarrow> zc result" where
  "keep_alive_loop [] zc = Inr zc"
| "keep_alive_loop (cli # cs) zc =
     (case cc_handler cli of
        None \<Rightarrow> keep_alive_loop cs zc
      | Some p \<Rightarrow>
          if cc_expansion cli = ExpansionId_Trilogy
          then bindE (handler_at zc p) (\<lambda>r. keep_alive_loop cs (note_call (SendKeepAlive p) zc))
          else keep_alive_loop cs zc)"

definition zc_client_keep_alive_callback :: "zc \<Rightarrow> zc result" where
  "zc_client_keep_alive_callback zc = keep_alive_loop (vec_items (zc_connectedClients zc)) zc"

text \<open>The index of a client in the list.\<close>

fun client_index :: "nat \<Rightarrow> connected_client list \<Rightarrow> nat option" where
  "client_index a [] = None"
| "client_index a (c # cs) = (if cc_client c = a then Some 0 else map_option Suc (client_index a cs))"

definition leave_zone :: "nat \<Rightarrow> zc \<Rightarrow> zc result" where
  "leave_zone a zc =
     bindE (client_zone zc a) (\<lambda>z.
     bindE (zone_at zc z) (\<lambda>zone.
     bindE (zone_remove_client zone a (zc_mobs zc) (zc_clients zc)) (\<lambda>(zone, ms, cs).
     Inr (zc\<lparr>zc_zones := (zc_zones zc)(z \<mapsto> zone), zc_mobs := ms, zc_clients := cs\<rparr>))))"

definition enter_zone :: "heap \<Rightarrow> nat \<Rightarrow> zc \<Rightarrow> zc result" where
  "enter_zone h a zc =
     bindE (client_zone zc a) (\<lambda>z.
     bindE (zone_at zc z) (\<lambda>zone.
     bindE (zone_spawn_client h zone a (zc_mobs zc) (zc_clients zc)) (\<lambda>(zone, ms, cs).
     Inr (zc\<lparr>zc_zones := (zc_zones zc)(z \<mapsto> zone), zc_mobs := ms, zc_clients := cs\<rparr>))))"

text \<open>The first part of \<open>zc_remove_connected_client\<close>: the connection is lost, the client lingers.\<close>

definition mark_linkdead :: "heap \<Rightarrow> nat \<Rightarrow> zc \<Rightarrow> zc result" where
  "mark_linkdead h a zc =
     bindE (client_at (zc_clients zc) a) (\<lambda>c.
     let zc = zc\<lparr>zc_clients := (zc_clients zc)(a \<mapsto> client_grab c)\<rparr> in
     case cl_handler c of
       None \<Rightarrow> Inl UndefinedBehaviour
     | Some p \<Rightarrow>
         bindE (handler_drop p zc) (\<lambda>zc.
         let zc = zc\<lparr>zc_clients := (zc_clients zc)(a \<mapsto> (client_grab c)\<lparr>cl_handler := None, cl_isLinkdead := True\<rparr>)\<rparr> in
         bindE (client_zone zc a) (\<lambda>z.
         bindE (zone_at zc z) (\<lambda>zone.
         bindE (zone_mark_client_as_linkdead zone a (zc_clients zc)) (\<lambda>zone.
         let zc = zc\<lparr>zc_zones := (zc_zones zc)(z \<mapsto> zone)\<rparr>; cons = vec_items (zc_connectedClients zc);
             zc = (case client_index a cons of
                     None \<Rightarrow> zc
                   | Some i \<Rightarrow> zc\<lparr>zc_connectedClients := (zc_connectedClients zc)\<lparr>vec_items := cons[i := (cons ! i)\<lparr>cc_handler := None\<rparr>]\<rparr>\<rparr>)
         in eqp_timer_for h EQP_ZC_CLIENT_LINKDEAD_LINGER_TIMEOUT (zc_remove_linkdead_client a) zc)))))"

definition zc_remove_connected_client :: "heap \<Rightarrow> nat \<Rightarrow> bool \<Rightarrow> zc \<Rightarrow> zc result" where
  "zc_remove_connected_client h a isLinkdead zc =
     (if isLinkdead then mark_linkdead h a zc
      else bindE (client_name zc a) (\<lambda>n.
           case client_index a (vec_items (zc_connectedClients zc)) of
             None \<Rightarrow> Inr zc
           | Some i \<Rightarrow>
               bindE (leave_zone a zc) (\<lambda>zc.
               bindE (string_at (zc_strings zc) n) (\<lambda>name.
               bindE (hash_table_remove_by_cstr (zc_connectedClientsByName zc) (str_data name) (str_length name)) (\<lambda>t.
               Inr (zc\<lparr>zc_connectedClientsByName := t,
                       zc_connectedClients := fst (vec_swap_and_pop (zc_connectedClients zc) (of_nat i))\<rparr>))))))"

text \<open>A client of the same name that is still connected has to go.\<close>

definition displace :: "heap \<Rightarrow> nat \<Rightarrow> zc \<Rightarrow> zc result" where
  "displace h cli zc =
     bindE (zc_remove_connected_client h cli False zc) (\<lambda>zc.
     bindE (client_at (zc_clients zc) cli) (\<lambda>c.
     if client_is_linkdead c then Inr zc
     else bindE (on_client cli (\<lambda>s. Inr (client_forcibly_disconnect s)) zc) (on_client cli client_drop)))"

definition zc_add_connected_client :: "heap \<Rightarrow> nat \<Rightarrow> zc \<Rightarrow> zc result" where
  "zc_add_connected_client h a zc =
     bindE (client_name zc a) (\<lambda>n.
     bindE (string_at (zc_strings zc) n) (\<lambda>name.
     bindE (hash_table_get_by_cstr (zc_connectedClientsByName zc) (str_data name) (str_length name)) (\<lambda>prev.
     bindE (case prev of None \<Rightarrow> Inr zc | Some p \<Rightarrow> displace h (ptr_of p) zc) (\<lambda>zc.
     bindE (string_at (zc_strings zc) n) (\<lambda>name.
     bindE (hash_table_set_by_cstr h (zc_connectedClientsByName zc) (str_data name) (str_length name) (ptr_bytes a)) (\<lambda>(t, isNew).
     bindE (client_at (zc_clients zc) a) (\<lambda>c.
     bindE (vec_push h sizeof_ConnectedClient (zc_connectedClients zc)
              \<lparr>cc_expansion = client_expansion c, cc_handler = cl_handler c, cc_client = a\<rparr>) (\<lambda>cons.
     enter_zone h a (zc\<lparr>zc_connectedClientsByName := t, zc_connectedClients := cons\<rparr>)))))))))"

definition zc_remove_linkdead_client_callback :: "heap \<Rightarrow> nat \<Rightarrow> zc \<Rightarrow> zc result" where
  "zc_remove_linkdead_client_callback h a zc =
     bindE (client_zone_cluster zc a) (\<lambda>_.
     bindE (zc_remove_connected_client h a False zc) (\<lambda>zc.
     bindE (on_client a client_drop zc) (\<lambda>zc.
     Inr (timer_destroy_for (zc_remove_linkdead_client a) zc))))"

definition zone_client_on_disconnect :: "heap \<Rightarrow> nat \<Rightarrow> bool \<Rightarrow> zc \<Rightarrow> zc result" where
  "zone_client_on_disconnect h a isLinkdead zc =
     bindE (client_zone_cluster zc a) (\<lambda>_.
     bindE (if isLinkdead then zc_lua_event a ''event_linkdead'' zc else Inr zc) (\<lambda>zc.
     bindE (zc_remove_connected_client h a isLinkdead zc) (\<lambda>zc.
     on_client a client_drop zc)))"

section \<open>Messages from the master\<close>

definition zc_items_open :: "bytes \<Rightarrow> zc \<Rightarrow> zc" where
  "zc_items_open data zc =
     (if length data < sizeof_Server_ItemSharedMemoryOpen + 1 then zc
      else note_call (ItemShareMemOpen (drop 4 data)
             (ucast (data ! 0) OR push_bit 8 (ucast (data ! 1)) OR push_bit 16 (ucast (data ! 2)) OR push_bit 24 (ucast (data ! 3)))) zc)"

definition zc_handle_packet :: "heap \<Rightarrow> (i32 \<Rightarrow> u32 option) \<Rightarrow> ipc_packet \<Rightarrow> zc \<Rightarrow> zc result" where
  "zc_handle_packet h mapMinZ packet zc =
     (let sourceId = word_of_int (ipp_sourceId packet);
          data = (case ipp_data packet of Some d \<Rightarrow> take (unat (ipp_length packet)) d | None \<Rightarrow> []) in
      case ipp_opcode packet of
        ServerOp_StartZone \<Rightarrow> zc_start_zone h mapMinZ sourceId zc
      | ServerOp_ClientZoning \<Rightarrow> zc_client_expected_to_zone_in h sourceId data zc
      | ServerOp_ItemSharedMemoryOpen \<Rightarrow> Inr (zc_items_open data zc)
      | _ \<Rightarrow> Inr zc)"

end
