(* ===== verification/Cluster_Tables.thy ===== *)
theory Cluster_Tables
  imports Zone_Cluster
begin

text \<open>
  What the tables of a zone cluster have in common: the list of connected clients, the table of their
  names and the tables of their zones always hold the same clients. The invariant is kept by all that
  happens to connected clients, \<open>cluster_reach\<close>.
\<close>

section \<open>Several zones\<close>

text \<open>A mob and a client without what its zone writes into them.\<close>

definition bare_mob :: "mob \<Rightarrow> mob" where
  "bare_mob m = m\<lparr>mb_zoneMobIndex := 0, mb_entityId := 0\<rparr>"

definition bare_client :: "client \<Rightarrow> client" where
  "bare_client c = c\<lparr>cl_zoneClientIndex := 0\<rparr>"

definition zone_same :: "mobs \<Rightarrow> clients \<Rightarrow> mobs \<Rightarrow> clients \<Rightarrow> bool" where
  "zone_same ms cs ms' cs' \<longleftrightarrow> (\<forall>b. map_option bare_mob (ms' b) = map_option bare_mob (ms b)) \<and>
     (\<forall>b. map_option bare_client (cs' b) = map_option bare_client (cs b))"

lemma bare_simps [simp]:
  "mb_zone (bare_mob m) = mb_zone m" "mb_name (bare_mob m) = mb_name m" "mb_zoneCluster (bare_mob m) = mb_zoneCluster m"
  "cl_handler (bare_client c) = cl_handler c" "cl_isLinkdead (bare_client c) = cl_isLinkdead c"
  "cl_refCount (bare_client c) = cl_refCount c" "mb_clientFriendlyName (bare_mob m) = mb_clientFriendlyName m"
  "cl_isStubClient (bare_client c) = cl_isStubClient c"
  by (simp_all add: bare_mob_def bare_client_def)

lemma bare_index [simp]:
  "bare_mob (m\<lparr>mb_zoneMobIndex := i\<rparr>) = bare_mob m" "bare_mob (m\<lparr>mb_entityId := e\<rparr>) = bare_mob m"
  "bare_client (c\<lparr>cl_zoneClientIndex := i\<rparr>) = bare_client c"
  by (simp_all add: bare_mob_def bare_client_def)

lemma bare_eqD:
  assumes "zone_same ms cs ms' cs'"
  shows "ms b = Some m \<Longrightarrow> \<exists>m'. ms' b = Some m' \<and> bare_mob m' = bare_mob m"
    "ms' b = Some m' \<Longrightarrow> \<exists>m. ms b = Some m \<and> bare_mob m' = bare_mob m"
    "cs b = Some c \<Longrightarrow> \<exists>c'. cs' b = Some c' \<and> bare_client c' = bare_client c"
    "cs' b = Some c' \<Longrightarrow> \<exists>c. cs b = Some c \<and> bare_client c' = bare_client c"
  using assms unfolding zone_same_def by (metis map_option_eq_Some option.map_sel)+

lemma bare_field: "bare_mob m' = bare_mob m \<Longrightarrow> mb_zone m' = mb_zone m \<and> mb_name m' = mb_name m \<and> mb_zoneCluster m' = mb_zoneCluster m \<and>
   mb_clientFriendlyName m' = mb_clientFriendlyName m"
  by (metis bare_simps(1-3,7))

lemma bare_client_field:
  "bare_client c' = bare_client c \<Longrightarrow> cl_handler c' = cl_handler c \<and> cl_isLinkdead c' = cl_isLinkdead c \<and> cl_refCount c' = cl_refCount c \<and>
   cl_isStubClient c' = cl_isStubClient c"
  by (metis bare_simps(4-6,8))

lemma zone_same_refl [simp]: "zone_same ms cs ms cs"
  by (simp add: zone_same_def)

lemma zone_same_trans: "zone_same ms cs ms' cs' \<Longrightarrow> zone_same ms' cs' ms'' cs'' \<Longrightarrow> zone_same ms cs ms'' cs''"
  by (simp add: zone_same_def)

lemma swap_and_pop_subset: "set (vec_items (fst (vec_swap_and_pop v i))) \<subseteq> set (vec_items v)"
proof (cases "unat i < length (vec_items v)")
  case True
  then have "last (vec_items v) \<in> set (vec_items v)" by (intro last_in_set) auto
  then have "set ((vec_items v)[unat i := last (vec_items v)]) \<subseteq> set (vec_items v)"
    using set_update_subset_insert [of "vec_items v" "unat i" "last (vec_items v)"] by blast
  then show ?thesis using True by (auto simp: vec_swap_and_pop_def Let_def dest!: in_set_butlastD)
qed (simp add: vec_swap_and_pop_def)

text \<open>Removing a client from its zone touches the mobs and the clients of this zone only.\<close>

lemma remove_position_frame:
  assumes "remove_position pv i ms = Inr (pv', ms')"
  shows "(\<forall>b. map_option bare_mob (ms' b) = map_option bare_mob (ms b)) \<and> (\<forall>b. b \<notin> mp_mob ` set (vec_items pv) \<longrightarrow> ms' b = ms b)"
proof -
  obtain v sw where sp: "vec_swap_and_pop pv i = (v, sw)" by (cases "vec_swap_and_pop pv i")
  show ?thesis
  proof (cases sw)
    case False
    then show ?thesis using assms sp by (auto simp: remove_position_def)
  next
    case True
    then obtain p m where p: "vec_get v i = Some p" "ms (mp_mob p) = Some m" "ms' = ms(mp_mob p \<mapsto> m\<lparr>mb_zoneMobIndex := i\<rparr>)"
      using assms sp by (auto simp: remove_position_def result_simps mob_at_def split: option.splits)
    have "p \<in> set (vec_items v)" using p(1) by (auto simp: vec_get_def split: if_splits)
    moreover have "set (vec_items v) \<subseteq> set (vec_items pv)"
      using sp swap_and_pop_subset [of pv i] by simp
    ultimately have "mp_mob p \<in> mp_mob ` set (vec_items pv)" by blast
    then show ?thesis unfolding p(3) using p(2) by auto
  qed
qed

lemma remove_listing_frame:
  assumes "remove_listing lv i cs = Inr (lv', cs')"
  shows "(\<forall>b. map_option bare_client (cs' b) = map_option bare_client (cs b)) \<and> (\<forall>b. b \<notin> ll_client ` set (vec_items lv) \<longrightarrow> cs' b = cs b)"
proof -
  obtain v sw where sp: "vec_swap_and_pop lv i = (v, sw)" by (cases "vec_swap_and_pop lv i")
  show ?thesis
  proof (cases sw)
    case False
    then show ?thesis using assms sp by (auto simp: remove_listing_def)
  next
    case True
    then obtain p m where p: "vec_get v i = Some p" "cs (ll_client p) = Some m" "cs' = cs(ll_client p \<mapsto> m\<lparr>cl_zoneClientIndex := i\<rparr>)"
      using assms sp by (auto simp: remove_listing_def result_simps client_at_def split: option.splits)
    have "p \<in> set (vec_items v)" using p(1) by (auto simp: vec_get_def split: if_splits)
    moreover have "set (vec_items v) \<subseteq> set (vec_items lv)"
      using sp swap_and_pop_subset [of lv i] by simp
    ultimately have "ll_client p \<in> ll_client ` set (vec_items lv)" by blast
    then show ?thesis unfolding p(3) using p(2) by auto
  qed
qed

lemma remove_client_frame:
  assumes "zone_remove_client z a ms cs = Inr (z', ms', cs')"
  shows "zone_same ms cs ms' cs' \<and> (\<forall>b. b \<notin> zone_mobs z \<longrightarrow> ms' b = ms b) \<and> (\<forall>b. b \<notin> zone_clients z \<longrightarrow> cs' b = cs b)"
proof -
  obtain ls i ps j where "remove_listing (zn_clientList z) i cs = Inr (ls, cs')" "remove_position (zn_mobsByPosition z) j ms = Inr (ps, ms')"
    using assms by (auto simp: zone_remove_client_def result_simps Let_def)
  from remove_listing_frame [OF this(1)] remove_position_frame [OF this(2)]
  show ?thesis by (simp add: zone_same_def zone_mobs_def zone_clients_def)
qed

lemma spawn_client_frame:
  assumes "zone_spawn_client h z a ms cs = Inr (z', ms', cs')"
  shows "zone_same ms cs ms' cs' \<and> (\<forall>b. b \<noteq> a \<longrightarrow> ms' b = ms b \<and> cs' b = cs b)"
  using assms
  by (auto simp: zone_spawn_client_def zone_spawn_mob_def result_simps Let_def mob_at_def client_at_def zone_same_def
      split: option.splits)

lemma remove_client_fits:
  assumes "zone_remove_client z a ms cs = Inr (z', ms', cs')" "fits z"
  shows "fits z'"
proof -
  obtain ls i ps j es e where r: "remove_listing (zn_clientList z) i cs = Inr (ls, cs')" "remove_position (zn_mobsByPosition z) j ms = Inr (ps, ms')"
    "(if e \<noteq> 0 then vec_set (zn_mobsByEntityId z) (e - 1) None else Inr (zn_mobsByEntityId z)) = Inr es"
    "z' = z\<lparr>zn_clientList := ls, zn_mobsByPosition := ps, zn_mobsByEntityId := es\<rparr>"
    using assms(1) by (auto simp: zone_remove_client_def result_simps Let_def)
  have "length (vec_items ls) \<le> length (clis z)"
    using r(1) by (auto simp: remove_listing_def vec_swap_and_pop_def Let_def result_simps split: if_splits option.splits)
  moreover have "length (vec_items ps) \<le> length (poss z)"
    using r(2) by (auto simp: remove_position_def vec_swap_and_pop_def Let_def result_simps split: if_splits option.splits)
  moreover have "length (vec_items es) = length (ents z)" using r(3) by (auto simp: vec_set_def split: if_splits)
  ultimately show ?thesis using assms(2) by (simp add: fits_def r(4))
qed

definition zones_ok :: "(nat \<Rightarrow> zone option) \<Rightarrow> mobs \<Rightarrow> clients \<Rightarrow> bool" where
  "zones_ok zs ms cs \<longleftrightarrow> (\<forall>z zone. zs z = Some zone \<longrightarrow> zone_ok zone ms cs \<and>
     (\<forall>a \<in> zone_mobs zone. \<exists>m. ms a = Some m \<and> mb_zone m = Some z))"

lemma zones_okD:
  assumes "zones_ok zs ms cs" "zs z = Some zone"
  shows "zone_ok zone ms cs" "a \<in> zone_mobs zone \<Longrightarrow> \<exists>m. ms a = Some m \<and> mb_zone m = Some z"
    "a \<in> zone_clients zone \<Longrightarrow> a \<in> zone_mobs zone"
  using assms by (auto simp: zones_ok_def zone_ok_def)

text \<open>One zone changes, and the mobs and clients that belong to it.\<close>

lemma zones_ok_update:
  assumes "zones_ok zs ms cs" "zone_ok zone' ms' cs'" "zone_same ms cs ms' cs'"
    "\<And>b. ms' b \<noteq> ms b \<or> cs' b \<noteq> cs b \<Longrightarrow> \<exists>m. ms b = Some m \<and> mb_zone m = Some z"
    "\<And>b. b \<in> zone_mobs zone' \<Longrightarrow> \<exists>m. ms b = Some m \<and> mb_zone m = Some z"
  shows "zones_ok (zs(z \<mapsto> zone')) ms' cs'"
  unfolding zones_ok_def
proof (intro allI impI)
  fix y zn assume y: "(zs(z \<mapsto> zone')) y = Some zn"
  have kept: "\<exists>m'. ms' b = Some m' \<and> mb_zone m' = Some x" if "\<exists>m. ms b = Some m \<and> mb_zone m = Some x" for b x
    using that bare_eqD(1) [OF assms(3)] bare_field by metis
  show "zone_ok zn ms' cs' \<and> (\<forall>a \<in> zone_mobs zn. \<exists>m. ms' a = Some m \<and> mb_zone m = Some y)"
  proof (cases "y = z")
    case True
    then show ?thesis using y assms(2,5) kept by auto
  next
    case False
    then have zn: "zs y = Some zn" using y by simp
    note ok = zones_okD [OF assms(1) zn]
    have same: "ms' b = ms b \<and> cs' b = cs b" if "b \<in> zone_mobs zn" for b
      using ok(2) [OF that] assms(4) [of b] False by (metis option.inject)
    have "zone_ok zn ms' cs'" by (rule elsewhere_ok [OF ok(1)]) (use same ok(3) in auto)
    then show ?thesis using ok(2) kept by blast
  qed
qed

lemma leave_ok:
  assumes "zones_ok zs ms cs" "zs z = Some zone" "a \<in> zone_clients zone"
  shows "\<exists>zone' ms' cs'. zone_remove_client zone a ms cs = Inr (zone', ms', cs') \<and> zones_ok (zs(z \<mapsto> zone')) ms' cs' \<and>
    zone_clients zone' = zone_clients zone - {a} \<and> zone_mobs zone' = zone_mobs zone - {a} \<and> zone_same ms cs ms' cs' \<and>
    (fits zone \<longrightarrow> fits zone')"
proof -
  note ok = zones_okD [OF assms(1,2)]
  obtain zone' ms' cs' where r: "zone_remove_client zone a ms cs = Inr (zone', ms', cs')" "zone_ok zone' ms' cs'"
    "zone_mobs zone' = zone_mobs zone - {a}" "zone_clients zone' = zone_clients zone - {a}"
    using remove_client_ok [OF ok(1) assms(3)] by blast
  note fr = remove_client_frame [OF r(1)]
  have "zones_ok (zs(z \<mapsto> zone')) ms' cs'"
  proof (rule zones_ok_update [OF assms(1) r(2)])
    show "\<exists>m. ms b = Some m \<and> mb_zone m = Some z" if "ms' b \<noteq> ms b \<or> cs' b \<noteq> cs b" for b
      using that fr ok(2,3) by blast
  qed (use fr r(3) ok(2) in auto)
  then show ?thesis using r fr remove_client_fits [OF r(1)] by blast
qed

lemma enter_ok:
  assumes "zones_ok zs ms cs" "zs z = Some zone" "fits zone" "ample h" "a \<notin> zone_mobs zone" "ms a = Some m" "mb_zone m = Some z" "cs a = Some c"
  shows "\<exists>zone' ms' cs'. zone_spawn_client h zone a ms cs = Inr (zone', ms', cs') \<and> zones_ok (zs(z \<mapsto> zone')) ms' cs' \<and>
    zone_clients zone' = insert a (zone_clients zone) \<and> zone_mobs zone' = insert a (zone_mobs zone) \<and> zone_same ms cs ms' cs'"
proof -
  note ok = zones_okD [OF assms(1,2)]
  obtain zone' m' c' where r: "zone_spawn_client h zone a ms cs = Inr (zone', ms(a \<mapsto> m'), cs(a \<mapsto> c'))"
    "zone_ok zone' (ms(a \<mapsto> m')) (cs(a \<mapsto> c'))" "zone_mobs zone' = insert a (zone_mobs zone)" "zone_clients zone' = insert a (zone_clients zone)"
    using spawn_client_ok [OF ok(1) assms(3-6,8)] by blast
  note fr = spawn_client_frame [OF r(1)]
  have "zones_ok (zs(z \<mapsto> zone')) (ms(a \<mapsto> m')) (cs(a \<mapsto> c'))"
    by (rule zones_ok_update [OF assms(1) r(2)]) (use fr r(3) ok(2) assms(6,7) in \<open>auto split: if_splits\<close>)
  then show ?thesis using r fr by blast
qed

section \<open>Names\<close>

definition name_is :: "estring \<Rightarrow> bytes \<Rightarrow> bool" where
  "name_is s k \<longleftrightarrow> 0 \<notin> set k \<and> length k < 2 ^ 31 \<and> str_length s = of_nat (length k) \<and> (\<exists>r. str_data s = k @ 0 # r)"

definition named :: "zc \<Rightarrow> nat \<Rightarrow> bytes \<Rightarrow> bool" where
  "named zc a k \<longleftrightarrow> (\<exists>m n s. zc_mobs zc a = Some m \<and> mb_name m = Some n \<and> ss_strings (zc_strings zc) n = Some s \<and> name_is s k)"

definition name_ptr :: "zc \<Rightarrow> nat \<Rightarrow> nat option" where
  "name_ptr zc a = (case zc_mobs zc a of None \<Rightarrow> None | Some m \<Rightarrow> mb_name m)"

lemma name_is_unique: "name_is s k \<Longrightarrow> name_is s k' \<Longrightarrow> k' = k"
  unfolding name_is_def by (metis cstr_append_null)

lemma named_unique: "named zc a k \<Longrightarrow> named zc a k' \<Longrightarrow> k' = k"
  using name_is_unique by (fastforce simp: named_def)

lemma namedE:
  assumes "named zc a k"
  obtains n s r where "client_name zc a = Inr n" "name_ptr zc a = Some n" "string_at (zc_strings zc) n = Inr s"
    "ss_strings (zc_strings zc) n = Some s" "str_data s = k @ 0 # r" "str_length s = of_nat (length k)" "0 \<notin> set k" "length k < 2 ^ 31"
  using assms by (auto simp: named_def name_is_def client_name_def name_ptr_def mob_at_def string_at_def)

lemma named_iff: "named zc a k \<longleftrightarrow> (\<exists>n s. name_ptr zc a = Some n \<and> ss_strings (zc_strings zc) n = Some s \<and> name_is s k)"
  by (auto simp: named_def name_ptr_def split: option.splits)

lemma named_cong:
  assumes "name_ptr zc' a = name_ptr zc a" "\<And>n. name_ptr zc a = Some n \<Longrightarrow> ss_strings (zc_strings zc') n = ss_strings (zc_strings zc) n"
  shows "named zc' a k = named zc a k"
  unfolding named_iff assms(1) using assms(2) by (metis (no_types))

section \<open>The invariant\<close>

abbreviation cons :: "zc \<Rightarrow> connected_client list" where "cons zc \<equiv> vec_items (zc_connectedClients zc)"

definition connected :: "zc \<Rightarrow> nat set" where
  "connected zc = cc_client ` set (cons zc)"

definition zone_ptr :: "zc \<Rightarrow> nat \<Rightarrow> nat option" where
  "zone_ptr zc a = (case zc_mobs zc a of None \<Rightarrow> None | Some m \<Rightarrow> mb_zone m)"

text \<open>What \<open>client_create\<close> makes: no stub, and a name that is not abbreviated for other clients.\<close>

definition player :: "zc \<Rightarrow> nat \<Rightarrow> bool" where
  "player zc a \<longleftrightarrow> (\<exists>m c. zc_mobs zc a = Some m \<and> mb_clientFriendlyName m = None \<and> zc_clients zc a = Some c \<and> \<not> cl_isStubClient c \<and>
     0 < cl_refCount c)"

definition tables_ok :: "zc \<Rightarrow> bool" where
  "tables_ok zc \<longleftrightarrow> table_inv (zc_connectedClientsByName zc) \<and> ht_elemSize (zc_connectedClientsByName zc) = 8 \<and>
     vec_ok sizeof_ConnectedClient (zc_connectedClients zc) \<and> distinct (map cc_client (cons zc)) \<and>
     (\<forall>k v. ht_contents (zc_connectedClientsByName zc) k = Some v \<longleftrightarrow> (\<exists>a \<in> connected zc. v = ptr_bytes a \<and> named zc a k))"

definition members_ok :: "zc \<Rightarrow> bool" where
  "members_ok zc \<longleftrightarrow> (\<forall>a \<in> connected zc. a < 2 ^ 64 \<and> player zc a \<and> (\<exists>k. named zc a k) \<and>
       (\<exists>z. zone_ptr zc a = Some z \<and> zc_zones zc z \<noteq> None)) \<and>
     (\<forall>a \<in> connected zc. \<forall>b \<in> connected zc. name_ptr zc a = name_ptr zc b \<longrightarrow> a = b)"

definition cluster_ok :: "zc \<Rightarrow> bool" where
  "cluster_ok zc \<longleftrightarrow> tables_ok zc \<and> members_ok zc \<and> zones_ok (zc_zones zc) (zc_mobs zc) (zc_clients zc) \<and>
     (\<forall>z zone. zc_zones zc z = Some zone \<longrightarrow> zone_clients zone = {a \<in> connected zc. zone_ptr zc a = Some z})"

lemma cluster_okD:
  assumes "cluster_ok zc"
  shows "tables_ok zc" "members_ok zc" "zones_ok (zc_zones zc) (zc_mobs zc) (zc_clients zc)"
    "zc_zones zc z = Some zone \<Longrightarrow> zone_clients zone = {a \<in> connected zc. zone_ptr zc a = Some z}"
  using assms by (auto simp: cluster_ok_def)

lemma memberD:
  assumes "members_ok zc" "a \<in> connected zc"
  obtains m c k z zone where "a < 2 ^ 64" "zc_mobs zc a = Some m" "zc_clients zc a = Some c" "named zc a k" "mb_zone m = Some z"
    "zone_ptr zc a = Some z" "zc_zones zc z = Some zone" "client_zone zc a = Inr z" "zone_at zc z = Inr zone"
proof -
  have "a < 2 ^ 64" "player zc a" "\<exists>k. named zc a k" "\<exists>z. zone_ptr zc a = Some z \<and> zc_zones zc z \<noteq> None"
    using assms by (simp_all add: members_ok_def)
  then obtain c k z zone where "zc_clients zc a = Some c" "named zc a k" "zone_ptr zc a = Some z" "zc_zones zc z = Some zone" "a < 2 ^ 64"
    by (auto simp: player_def)
  moreover obtain m where "zc_mobs zc a = Some m" "mb_zone m = Some z"
    using calculation(3) by (auto simp: zone_ptr_def split: option.splits)
  ultimately show ?thesis using that by (simp add: client_zone_def zone_at_def mob_at_def)
qed

lemma same_ptrs:
  assumes "zone_same (zc_mobs zc) (zc_clients zc) (zc_mobs zc') (zc_clients zc')"
  shows "name_ptr zc' b = name_ptr zc b" "zone_ptr zc' b = zone_ptr zc b" "player zc' b = player zc b"
proof -
  have m: "map_option bare_mob (zc_mobs zc' b) = map_option bare_mob (zc_mobs zc b)"
    and c: "map_option bare_client (zc_clients zc' b) = map_option bare_client (zc_clients zc b)"
    using assms by (simp_all add: zone_same_def)
  show "name_ptr zc' b = name_ptr zc b" "zone_ptr zc' b = zone_ptr zc b"
    using m by (cases "zc_mobs zc b"; cases "zc_mobs zc' b"; auto simp: name_ptr_def zone_ptr_def dest: bare_field)+
  show "player zc' b = player zc b"
    using m c by (cases "zc_mobs zc b"; cases "zc_mobs zc' b"; cases "zc_clients zc b"; cases "zc_clients zc' b";
        auto simp: player_def dest: bare_field bare_client_field)
qed

text \<open>Members stay members, and may leave.\<close>

lemma members_ok_subset:
  assumes "members_ok zc" "connected zc' \<subseteq> connected zc"
    "\<And>b. b \<in> connected zc' \<Longrightarrow> name_ptr zc' b = name_ptr zc b \<and> zone_ptr zc' b = zone_ptr zc b \<and> player zc' b = player zc b"
    "\<And>b n. b \<in> connected zc' \<Longrightarrow> name_ptr zc b = Some n \<Longrightarrow> ss_strings (zc_strings zc') n = ss_strings (zc_strings zc) n"
    "\<And>z. zc_zones zc z \<noteq> None \<Longrightarrow> zc_zones zc' z \<noteq> None"
  shows "members_ok zc' \<and> (\<forall>b \<in> connected zc'. \<forall>k. named zc' b k = named zc b k)"
proof -
  have n: "named zc' b k = named zc b k" if "b \<in> connected zc'" for b k
    using assms(3,4) [OF that] by (intro named_cong) auto
  have "\<exists>z. zone_ptr zc' a = Some z \<and> zc_zones zc' z \<noteq> None" if "a \<in> connected zc'" for a
  proof -
    have "a \<in> connected zc" using that assms(2) by blast
    then obtain z where "zone_ptr zc a = Some z" "zc_zones zc z \<noteq> None" using assms(1) by (auto simp: members_ok_def)
    then show ?thesis using assms(3) [OF that] assms(5) [of z] by auto
  qed
  moreover have "a < 2 ^ 64 \<and> player zc' a \<and> (\<exists>k. named zc' a k)" if "a \<in> connected zc'" for a
  proof -
    have "a \<in> connected zc" using that assms(2) by blast
    then show ?thesis using assms(1,3) that n [OF that] by (auto simp: members_ok_def)
  qed
  moreover have "a = b" if "a \<in> connected zc'" "b \<in> connected zc'" "name_ptr zc' a = name_ptr zc' b" for a b
  proof -
    have "name_ptr zc a = name_ptr zc b" "a \<in> connected zc" "b \<in> connected zc" using that assms(2,3) by auto
    then show ?thesis using assms(1) by (auto simp: members_ok_def)
  qed
  ultimately show ?thesis using n by (simp add: members_ok_def)
qed

text \<open>Room in the tables.\<close>

definition cluster_fits :: "zc \<Rightarrow> bool" where
  "cluster_fits zc \<longleftrightarrow> unat (ht_capacity (zc_connectedClientsByName zc)) \<le> 2 ^ 30 \<and> length (cons zc) < 2 ^ 24 \<and>
     (\<forall>z zone. zc_zones zc z = Some zone \<longrightarrow> fits zone)"

section \<open>Leaving\<close>

lemma client_index_Some: "client_index a cs = Some i \<Longrightarrow> i < length cs \<and> cc_client (cs ! i) = a"
  by (induction cs arbitrary: i) (auto split: if_splits)

lemma client_index_None: "client_index a cs = None \<longleftrightarrow> a \<notin> cc_client ` set cs"
  by (induction cs) auto

lemma swap_and_pop_at:
  assumes "vec_ok esz v" "i < length (vec_items v)"
  shows "vec_items (fst (vec_swap_and_pop v (of_nat i))) = drop_swap i (vec_items v)" "vec_ok esz (fst (vec_swap_and_pop v (of_nat i)))"
proof -
  have "length (vec_items v) < 2 ^ 32" using vec_count_unat [OF assms(1)] unat_lt_u32 [of "vec_count v"] by simp
  then have "unat (of_nat i :: u32) = i" using assms(2) by (intro unat_of_nat_u32) simp
  then show "vec_items (fst (vec_swap_and_pop v (of_nat i))) = drop_swap i (vec_items v)" "vec_ok esz (fst (vec_swap_and_pop v (of_nat i)))"
    using assms vec_ok_shrink [OF assms(1)] by (simp_all add: vec_swap_and_pop_def Let_def drop_swap_def)
qed

lemma distinct_drop_swap:
  assumes "i < length xs" "distinct (map f xs)"
  shows "distinct (map f (drop_swap i xs))"
proof (rule card_distinct)
  have "card (f ` set xs - {f (xs ! i)}) = length xs - 1"
    using assms distinct_card [OF assms(2)] by (subst card_Diff_singleton) auto
  then show "card (set (map f (drop_swap i xs))) = length (map f (drop_swap i xs))"
    using set_drop_swap [OF assms] by simp
qed

definition in_zones :: "zc \<Rightarrow> nat set" where
  "in_zones zc = {a. \<exists>z zone. zc_zones zc z = Some zone \<and> a \<in> zone_mobs zone}"

lemma linkdead_frame:
  assumes "zone_mark_client_as_linkdead z a cs = Inr z'"
  shows "zone_mobs z' = zone_mobs z \<and> zone_clients z' = zone_clients z"
proof -
  obtain c where c: "cs a = Some c"
    using assms by (auto simp: zone_mark_client_as_linkdead_def client_at_def split: option.splits)
  show ?thesis
  proof (cases "vec_get (zn_clientList z) (cl_zoneClientIndex c)")
    case None
    then show ?thesis using assms c by (simp add: zone_mark_client_as_linkdead_def client_at_def)
  next
    case (Some l)
    then have i: "unat (cl_zoneClientIndex c) < length (clis z)" "l = clis z ! unat (cl_zoneClientIndex c)"
      by (auto simp: vec_get_def split: if_splits)
    have z': "z' = z\<lparr>zn_clientList := (zn_clientList z)\<lparr>vec_items := (clis z)[unat (cl_zoneClientIndex c) := l\<lparr>ll_isLinkdead := True\<rparr>]\<rparr>\<rparr>"
      using assms c Some i by (simp add: zone_mark_client_as_linkdead_def client_at_def vec_set_def Let_def)
    have "map ll_client (clis z') = map ll_client (clis z)"
      using i by (intro nth_equalityI) (auto simp: z' nth_list_update)
    then show ?thesis unfolding zone_clients_def by (metis list.set_map z' zone_mobs_def zone.select_convs(5) zone.surjective zone.update_convs(6))
  qed
qed

end
