(* ===== verification/Cluster_Correct.thy ===== *)
theory Cluster_Correct
  imports Cluster_Tables
begin

text \<open>
  The operations on connected clients keep the invariant of the tables of a zone cluster: entering, also
  under a name that is still connected, leaving, losing the connection, and the end of the time a lost
  client lingers.
\<close>

section \<open>Leaving\<close>

text \<open>Nothing but the tables and what the zone writes into mobs and clients has changed.\<close>

definition tables_only :: "zc \<Rightarrow> zc \<Rightarrow> bool" where
  "tables_only zc zc' \<longleftrightarrow> zone_same (zc_mobs zc) (zc_clients zc) (zc_mobs zc') (zc_clients zc') \<and>
     zc_strings zc' = zc_strings zc \<and> zc_handlers zc' = zc_handlers zc \<and> zc_timers zc' = zc_timers zc \<and>
     zc_expectedClientsByName zc' = zc_expectedClientsByName zc \<and> zc_calls zc' = zc_calls zc \<and>
     (\<forall>z. zc_zones zc' z = None \<longleftrightarrow> zc_zones zc z = None) \<and> in_zones zc' \<subseteq> in_zones zc"

lemma ptr_bytes_inj: "a < 2 ^ 64 \<Longrightarrow> b < 2 ^ 64 \<Longrightarrow> ptr_bytes a = ptr_bytes b \<Longrightarrow> a = b"
  by (metis ptr_of_bytes)

lemma name_taken_once:
  assumes "tables_ok zc" "members_ok zc" "a \<in> connected zc" "b \<in> connected zc" "named zc a k" "named zc b k"
  shows "b = a"
proof -
  have "ht_contents (zc_connectedClientsByName zc) k = Some (ptr_bytes a)" "ht_contents (zc_connectedClientsByName zc) k = Some (ptr_bytes b)"
    using assms(1,3-6) by (auto simp: tables_ok_def)
  then have "ptr_bytes a = ptr_bytes b" by simp
  then show ?thesis using ptr_bytes_inj [of a b] assms(2-4) by (auto simp: members_ok_def)
qed

lemma tables_removed:
  assumes "tables_ok zc" "members_ok zc" "a \<in> connected zc" "named zc a k"
    "remove_done (zc_connectedClientsByName zc) k (zc_connectedClientsByName zc')"
    "connected zc' = connected zc - {a}" "distinct (map cc_client (cons zc'))" "vec_ok sizeof_ConnectedClient (zc_connectedClients zc')"
    "\<And>b k. b \<in> connected zc' \<Longrightarrow> named zc' b k = named zc b k"
  shows "tables_ok zc'"
proof -
  have "ht_contents (zc_connectedClientsByName zc') k' = Some v \<longleftrightarrow> (\<exists>b \<in> connected zc'. v = ptr_bytes b \<and> named zc' b k')" for k' v
  proof (cases "k' = k")
    case True
    then show ?thesis
      using assms(5,6,9) name_taken_once [OF assms(1-3) _ assms(4)] by (auto simp: remove_done_def)
  next
    case False
    have "ht_contents (zc_connectedClientsByName zc') k' = ht_contents (zc_connectedClientsByName zc) k'"
      using assms(5) False by (simp add: remove_done_def)
    moreover have "\<not> named zc a k'" using named_unique [OF assms(4)] False by blast
    moreover have "ht_contents (zc_connectedClientsByName zc) k' = Some v \<longleftrightarrow> (\<exists>b \<in> connected zc. v = ptr_bytes b \<and> named zc b k')"
      using assms(1) by (simp add: tables_ok_def)
    ultimately show ?thesis using assms(6,9) by auto
  qed
  then show ?thesis using assms(1,5,7,8) by (simp add: tables_ok_def remove_done_def)
qed

lemma leave_zone_ok:
  assumes "cluster_ok zc" "a \<in> connected zc"
  obtains z zone' ms' cs' where "leave_zone a zc = Inr (zc\<lparr>zc_zones := (zc_zones zc)(z \<mapsto> zone'), zc_mobs := ms', zc_clients := cs'\<rparr>)"
    "zones_ok ((zc_zones zc)(z \<mapsto> zone')) ms' cs'" "zone_same (zc_mobs zc) (zc_clients zc) ms' cs'" "zone_ptr zc a = Some z"
    "zc_zones zc z \<noteq> None" "zone_clients zone' = {b \<in> connected zc - {a}. zone_ptr zc b = Some z}" "zone_mobs zone' \<subseteq> in_zones zc - {a}" "\<forall>zone. zc_zones zc z = Some zone \<longrightarrow> fits zone \<longrightarrow> fits zone'"
proof -
  note ok = cluster_okD [OF assms(1)]
  obtain m c k z zone where x: "zc_mobs zc a = Some m" "mb_zone m = Some z" "zone_ptr zc a = Some z" "zc_zones zc z = Some zone"
    "client_zone zc a = Inr z" "zone_at zc z = Inr zone" using memberD [OF ok(2) assms(2)] by metis
  have "a \<in> zone_clients zone" using ok(4) [OF x(4)] assms(2) x(3) by simp
  from leave_ok [OF ok(3) x(4) this] obtain zone' ms' cs' where
    r: "zone_remove_client zone a (zc_mobs zc) (zc_clients zc) = Inr (zone', ms', cs')" "zones_ok ((zc_zones zc)(z \<mapsto> zone')) ms' cs'"
    "zone_clients zone' = zone_clients zone - {a}" "zone_same (zc_mobs zc) (zc_clients zc) ms' cs'" "zone_mobs zone' = zone_mobs zone - {a}" "fits zone \<longrightarrow> fits zone'" by blast
  show ?thesis
    by (rule that) (use r x ok(4) [OF x(4)] in \<open>auto simp: leave_zone_def in_zones_def\<close>)
qed

lemma remove_connected_ok:
  assumes "cluster_ok zc" "a \<in> connected zc"
  obtains zc' where "zc_remove_connected_client h a False zc = Inr zc'" "cluster_ok zc'" "connected zc' = connected zc - {a}" "tables_only zc zc'"
    "a \<notin> in_zones zc'" "cluster_fits zc \<longrightarrow> cluster_fits zc'"
proof -
  note ok = cluster_okD [OF assms(1)]
  have tok: "vec_ok sizeof_ConnectedClient (zc_connectedClients zc)" "distinct (map cc_client (cons zc))" "table_inv (zc_connectedClientsByName zc)"
    using ok(1) by (simp_all add: tables_ok_def)
  obtain k where k: "named zc a k" using memberD [OF ok(2) assms(2)] by metis
  then obtain n s r where n: "client_name zc a = Inr n" "string_at (zc_strings zc) n = Inr s" "str_data s = k @ 0 # r"
    "str_length s = of_nat (length k)" "0 \<notin> set k" "length k < 2 ^ 31" by (rule namedE)
  obtain i where i: "client_index a (cons zc) = Some i" "i < length (cons zc)" "cc_client (cons zc ! i) = a"
    using assms(2) client_index_None [of a "cons zc"] client_index_Some [of a "cons zc"] by (cases "client_index a (cons zc)") (auto simp: connected_def)
  obtain z zone' ms' cs' where l: "leave_zone a zc = Inr (zc\<lparr>zc_zones := (zc_zones zc)(z \<mapsto> zone'), zc_mobs := ms', zc_clients := cs'\<rparr>)"
    "zones_ok ((zc_zones zc)(z \<mapsto> zone')) ms' cs'" "zone_same (zc_mobs zc) (zc_clients zc) ms' cs'" "zone_ptr zc a = Some z"
    "zc_zones zc z \<noteq> None" "zone_clients zone' = {b \<in> connected zc - {a}. zone_ptr zc b = Some z}" "zone_mobs zone' \<subseteq> in_zones zc - {a}" "\<forall>zone. zc_zones zc z = Some zone \<longrightarrow> fits zone \<longrightarrow> fits zone'"
    by (rule leave_zone_ok [OF assms])
  obtain t where t: "hash_table_remove_by_cstr (zc_connectedClientsByName zc) (k @ 0 # r) (of_nat (length k)) = Inr t"
    "remove_done (zc_connectedClientsByName zc) k t"
    by (rule remove_spec [OF tok(3) n(5), of r]) (use n(6) in auto)
  define zc' where "zc' = zc\<lparr>zc_zones := (zc_zones zc)(z \<mapsto> zone'), zc_mobs := ms', zc_clients := cs', zc_connectedClientsByName := t,
    zc_connectedClients := fst (vec_swap_and_pop (zc_connectedClients zc) (of_nat i))\<rparr>"
  have res: "zc_remove_connected_client h a False zc = Inr zc'"
    using n i l(1) t(1) by (simp add: zc_remove_connected_client_def zc'_def)
  note sp = swap_and_pop_at [OF tok(1) i(2)]
  have con: "connected zc' = connected zc - {a}"
    using set_drop_swap [OF i(2) tok(2)] i(3) sp(1) by (simp add: connected_def zc'_def)
  have same: "zone_same (zc_mobs zc) (zc_clients zc) (zc_mobs zc') (zc_clients zc')" using l(3) by (simp add: zc'_def)
  note sm = same_ptrs [OF same]
  have mem: "members_ok zc' \<and> (\<forall>b \<in> connected zc'. \<forall>k. named zc' b k = named zc b k)"
    by (rule members_ok_subset [OF ok(2)]) (use con sm in \<open>auto simp: zc'_def\<close>)
  have "tables_ok zc'"
    by (rule tables_removed [OF ok(1,2) assms(2) k])
       (use t(2) con mem sp distinct_drop_swap [OF i(2) tok(2)] in \<open>auto simp: zc'_def\<close>)
  moreover have "zone_clients zn = {b \<in> connected zc'. zone_ptr zc' b = Some y}" if "zc_zones zc' y = Some zn" for y zn
    using that l(4,6) ok(4) [of y zn] con sm by (auto simp: zc'_def split: if_splits)
  ultimately have "cluster_ok zc'" using mem l(2) by (auto simp: cluster_ok_def zc'_def)
  moreover have "a \<notin> in_zones zc'"
  proof
    assume "a \<in> in_zones zc'"
    then obtain y zn where y: "zc_zones zc' y = Some zn" "a \<in> zone_mobs zn" by (auto simp: in_zones_def)
    moreover have "zones_ok (zc_zones zc') (zc_mobs zc') (zc_clients zc')" using l(2) by (simp add: zc'_def)
    ultimately obtain m where "zc_mobs zc' a = Some m" "mb_zone m = Some y" using zones_okD(2) by blast
    then have "zone_ptr zc' a = Some y" by (simp add: zone_ptr_def)
    then have "y = z" using sm(2) [of a] l(4) by simp
    then show False using y l(7) by (auto simp: zc'_def)
  qed
  moreover have "in_zones zc' \<subseteq> in_zones zc" using l(7) by (auto simp: in_zones_def zc'_def split: if_splits)
  moreover have "cluster_fits zc \<longrightarrow> cluster_fits zc'"
    using t(2) sp(1) l(5,8) by (auto simp: cluster_fits_def remove_done_def zc'_def)
  moreover have "zc_zones zc' y = None \<longleftrightarrow> zc_zones zc y = None" for y using l(5) by (auto simp: zc'_def)
  ultimately show ?thesis using that res con same by (simp add: tables_only_def) (simp add: zc'_def)
qed

lemma remove_absent:
  assumes "a \<notin> connected zc" "named zc a k"
  shows "zc_remove_connected_client h a False zc = Inr zc"
proof -
  obtain n where "client_name zc a = Inr n" using assms(2) by (rule namedE)
  moreover have "client_index a (cons zc) = None" using assms(1) by (simp add: client_index_None connected_def)
  ultimately show ?thesis by (simp add: zc_remove_connected_client_def)
qed

section \<open>What leaves the tables alone\<close>

definition mob_key :: "mob \<Rightarrow> i32 \<times> i32 \<times> nat option \<times> nat option \<times> nat option" where
  "mob_key m = (mb_entityId m, mb_zoneMobIndex m, mb_zone m, mb_name m, mb_clientFriendlyName m)"

definition client_key :: "client \<Rightarrow> i32 \<times> bool \<times> bool" where
  "client_key c = (cl_zoneClientIndex c, cl_isStubClient c, 0 < cl_refCount c)"

definition cluster_kept :: "zc \<Rightarrow> zc \<Rightarrow> bool" where
  "cluster_kept zc zc' \<longleftrightarrow> zc_connectedClients zc' = zc_connectedClients zc \<and>
     zc_connectedClientsByName zc' = zc_connectedClientsByName zc \<and> zc_zones zc' = zc_zones zc \<and>
     (\<forall>z zone. zc_zones zc z = Some zone \<longrightarrow> (\<forall>b \<in> zone_mobs zone. map_option mob_key (zc_mobs zc' b) = map_option mob_key (zc_mobs zc b))) \<and>
     (\<forall>b \<in> connected zc. map_option client_key (zc_clients zc' b) = map_option client_key (zc_clients zc b)) \<and>
     (\<forall>b \<in> connected zc. \<forall>n. name_ptr zc b = Some n \<longrightarrow> ss_strings (zc_strings zc') n = ss_strings (zc_strings zc) n)"

lemma connected_zone:
  assumes "cluster_ok zc" "b \<in> connected zc"
  shows "\<exists>z zone. zc_zones zc z = Some zone \<and> zone_ptr zc b = Some z \<and> b \<in> zone_clients zone \<and> b \<in> zone_mobs zone"
proof -
  note ok = cluster_okD [OF assms(1)]
  obtain z zone where z: "zone_ptr zc b = Some z" "zc_zones zc z = Some zone" using memberD [OF ok(2) assms(2)] by metis
  then have "b \<in> zone_clients zone" using ok(4) [OF z(2)] assms(2) by simp
  then show ?thesis using z zones_okD(3) [OF ok(3) z(2)] by blast
qed

lemma key_ptrs:
  assumes "map_option mob_key (zc_mobs zc' b) = map_option mob_key (zc_mobs zc b)"
    "map_option client_key (zc_clients zc' b) = map_option client_key (zc_clients zc b)"
  shows "name_ptr zc' b = name_ptr zc b" "zone_ptr zc' b = zone_ptr zc b" "player zc' b = player zc b"
proof -
  show "name_ptr zc' b = name_ptr zc b" "zone_ptr zc' b = zone_ptr zc b"
    using assms(1) by (cases "zc_mobs zc b"; cases "zc_mobs zc' b"; simp add: name_ptr_def zone_ptr_def mob_key_def)+
  show "player zc' b = player zc b"
    using assms by (cases "zc_mobs zc b"; cases "zc_mobs zc' b"; cases "zc_clients zc b"; cases "zc_clients zc' b";
        simp add: player_def mob_key_def client_key_def)
qed

lemma key_fields:
  "map_option mob_key x = map_option mob_key y \<Longrightarrow>
   map_option mb_entityId x = map_option mb_entityId y \<and> map_option mb_zoneMobIndex x = map_option mb_zoneMobIndex y \<and>
   map_option mb_zone x = map_option mb_zone y"
  "map_option client_key u = map_option client_key v \<Longrightarrow> map_option cl_zoneClientIndex u = map_option cl_zoneClientIndex v"
  by (cases x; cases y; simp add: mob_key_def) (cases u; cases v; simp add: client_key_def)

lemma cluster_ok_kept:
  assumes "cluster_ok zc" "cluster_kept zc zc'"
  shows "cluster_ok zc'"
proof -
  note ok = cluster_okD [OF assms(1)]
  have eq: "zc_connectedClients zc' = zc_connectedClients zc" "zc_connectedClientsByName zc' = zc_connectedClientsByName zc" "zc_zones zc' = zc_zones zc"
    and mk: "\<And>z zone b. zc_zones zc z = Some zone \<Longrightarrow> b \<in> zone_mobs zone \<Longrightarrow> map_option mob_key (zc_mobs zc' b) = map_option mob_key (zc_mobs zc b)"
    and ck: "\<And>b. b \<in> connected zc \<Longrightarrow> map_option client_key (zc_clients zc' b) = map_option client_key (zc_clients zc b)"
    and st: "\<And>b n. b \<in> connected zc \<Longrightarrow> name_ptr zc b = Some n \<Longrightarrow> ss_strings (zc_strings zc') n = ss_strings (zc_strings zc) n"
    using assms(2) unfolding cluster_kept_def by blast+
  have con: "connected zc' = connected zc" by (simp add: connected_def eq)
  have ptr: "name_ptr zc' b = name_ptr zc b \<and> zone_ptr zc' b = zone_ptr zc b \<and> player zc' b = player zc b" if "b \<in> connected zc" for b
    using connected_zone [OF assms(1) that] mk ck [OF that] key_ptrs [of zc' b zc] by blast
  have mem: "members_ok zc' \<and> (\<forall>b \<in> connected zc'. \<forall>k. named zc' b k = named zc b k)"
    by (rule members_ok_subset [OF ok(2)]) (use ptr st in \<open>auto simp: con eq\<close>)
  then have "tables_ok zc'" using ok(1) con by (simp add: tables_ok_def eq)
  moreover have "zones_ok (zc_zones zc') (zc_mobs zc') (zc_clients zc')"
    unfolding zones_ok_def
  proof (intro allI impI)
    fix z zone assume "zc_zones zc' z = Some zone"
    then have z: "zc_zones zc z = Some zone" by (simp add: eq)
    note zok = zones_okD [OF ok(3) z]
    have "zone_ok zone (zc_mobs zc') (zc_clients zc')"
    proof (rule elsewhere_ok [OF zok(1)])
      show "map_option cl_zoneClientIndex (zc_clients zc' b) = map_option cl_zoneClientIndex (zc_clients zc b)" if "b \<in> zone_clients zone" for b
        using that ok(4) [OF z] ck key_fields(2) by blast
    qed (use mk [OF z] key_fields(1) in blast)
    moreover have "\<exists>m. zc_mobs zc' a = Some m \<and> mb_zone m = Some z" if "a \<in> zone_mobs zone" for a
      using zok(2) [OF that] key_fields(1) [OF mk [OF z that]] by auto
    ultimately show "zone_ok zone (zc_mobs zc') (zc_clients zc') \<and> (\<forall>a \<in> zone_mobs zone. \<exists>m. zc_mobs zc' a = Some m \<and> mb_zone m = Some z)" by blast
  qed
  moreover have "zone_clients zone = {a \<in> connected zc'. zone_ptr zc' a = Some z}" if "zc_zones zc' z = Some zone" for z zone
    using ok(4) [of z zone] that ptr con by (auto simp: eq)
  ultimately show ?thesis using mem by (simp add: cluster_ok_def)
qed

section \<open>Dropping\<close>

lemma drop_kept:
  assumes "zc_clients zc a = Some c" "zc_mobs zc a = Some m" "cl_refCount c > 1"
  shows "on_client a client_drop zc = Inr (zc\<lparr>zc_clients := (zc_clients zc)(a \<mapsto> c\<lparr>cl_refCount := cl_refCount c - 1\<rparr>)\<rparr>)"
  using assms by (simp add: on_client_def client_at_def mob_at_def client_drop_def upd_client_def put_client_def fun_upd_idem)

lemma drop_freed:
  assumes "zc_clients zc a = Some c" "zc_mobs zc a = Some m" "cl_refCount c \<le> 1" "\<not> cl_isStubClient c" "mb_clientFriendlyName m = None"
    "mb_name m = Some n" "ss_strings (zc_strings zc) n = Some s" "\<And>p. cl_handler c = Some p \<Longrightarrow> zc_handlers zc p \<noteq> None"
  shows "\<exists>hs calls. on_client a client_drop zc =
    Inr (zc\<lparr>zc_clients := (zc_clients zc)(a := None), zc_mobs := (zc_mobs zc)(a := None),
      zc_strings := (zc_strings zc)\<lparr>ss_strings := (ss_strings (zc_strings zc))(n := string_drop s)\<rparr>, zc_handlers := hs, zc_calls := calls\<rparr>)
    \<and> (\<forall>p. cl_handler c \<noteq> Some p \<longrightarrow> hs p = zc_handlers zc p) \<and>
    (\<forall>p r. cl_handler c = Some p \<longrightarrow> zc_handlers zc p = Some r \<longrightarrow> hr_refCount r > 1 \<longrightarrow> hs p = Some (r\<lparr>hr_refCount := hr_refCount r - 1\<rparr>))"
proof (cases "cl_handler c")
  case None
  then show ?thesis
    using assms by (intro exI [of _ "zc_handlers zc"] exI [of _ "zc_calls zc @ [ClientCall a TimerDeinit, ClientCall a LuaDestroyObject,
        ClientCall a LuaDestroyObject, ClientCall a Freed]"])
      (simp add: on_client_def client_at_def mob_at_def client_drop_def upd_client_def put_client_def emit_effect_def
        mob_deinit_def if_present_def drop_at_def string_at_def Let_def note_call_def)
next
  case (Some p)
  then obtain r where r: "zc_handlers zc p = Some r" using assms(8) by blast
  show ?thesis
    using assms Some r
    by (intro exI [of _ "(zc_handlers zc)(p := if hr_refCount r > 1 then Some (r\<lparr>hr_refCount := hr_refCount r - 1\<rparr>) else None)"]
        exI [of _ "zc_calls zc @ [ClientCall a TimerDeinit, ClientCall a LuaDestroyObject, ClientCall a LuaDestroyObject,
          ClientCall a (DropHandler p), ClientCall a Freed]"])
      (simp add: on_client_def client_at_def mob_at_def client_drop_def upd_client_def put_client_def emit_effect_def
        mob_deinit_def if_present_def drop_at_def string_at_def Let_def note_call_def handler_drop_def handler_at_def)
qed

text \<open>A client that is in no table, whose name no connected client shares.\<close>

definition detached :: "zc \<Rightarrow> nat \<Rightarrow> bool" where
  "detached zc a \<longleftrightarrow> player zc a \<and> (\<exists>k. named zc a k) \<and> a \<notin> connected zc \<and> a \<notin> in_zones zc \<and>
     (\<forall>b \<in> connected zc. name_ptr zc b \<noteq> name_ptr zc a)"

lemma playerE:
  assumes "player zc a" "named zc a k"
  obtains m c n s where "zc_mobs zc a = Some m" "mb_clientFriendlyName m = None" "zc_clients zc a = Some c" "\<not> cl_isStubClient c"
    "0 < cl_refCount c" "mb_name m = Some n" "name_ptr zc a = Some n" "ss_strings (zc_strings zc) n = Some s"
  using assms by (auto simp: player_def named_def name_ptr_def)

lemma drop_dead_handler:
  assumes "zc_clients zc a = Some c" "zc_mobs zc a = Some m" "cl_refCount c \<le> 1" "\<not> cl_isStubClient c" "mb_clientFriendlyName m = None"
    "mb_name m = Some n" "ss_strings (zc_strings zc) n = Some s" "cl_handler c = Some p" "zc_handlers zc p = None"
  shows "on_client a client_drop zc = Inl UndefinedBehaviour"
  using assms by (simp add: on_client_def client_at_def mob_at_def client_drop_def upd_client_def put_client_def emit_effect_def
      mob_deinit_def if_present_def drop_at_def string_at_def Let_def note_call_def handler_drop_def handler_at_def)

lemma drop_ok:
  assumes "cluster_ok zc" "detached zc a" "on_client a client_drop zc = Inr zc'"
  shows "cluster_ok zc' \<and> connected zc' = connected zc \<and> zc_connectedClientsByName zc' = zc_connectedClientsByName zc \<and>
    zc_connectedClients zc' = zc_connectedClients zc \<and> zc_zones zc' = zc_zones zc \<and>
    (\<forall>b. b \<noteq> a \<longrightarrow> zc_mobs zc' b = zc_mobs zc b \<and> zc_clients zc' b = zc_clients zc b) \<and>
    (\<forall>n. name_ptr zc a \<noteq> Some n \<longrightarrow> ss_strings (zc_strings zc') n = ss_strings (zc_strings zc) n)"
proof -
  have d: "player zc a" "\<exists>k. named zc a k" "a \<notin> connected zc" "a \<notin> in_zones zc" "\<forall>b \<in> connected zc. name_ptr zc b \<noteq> name_ptr zc a"
    using assms(2) by (auto simp: detached_def)
  then obtain m c n s where x: "zc_mobs zc a = Some m" "mb_clientFriendlyName m = None" "zc_clients zc a = Some c" "\<not> cl_isStubClient c"
    "mb_name m = Some n" "name_ptr zc a = Some n" "ss_strings (zc_strings zc) n = Some s" by (metis playerE)
  have z: "b \<noteq> a" if "zc_zones zc z = Some zone" "b \<in> zone_mobs zone" for z zone b using that d(4) by (auto simp: in_zones_def)
  have r: "zc_connectedClients zc' = zc_connectedClients zc \<and> zc_connectedClientsByName zc' = zc_connectedClientsByName zc \<and>
    zc_zones zc' = zc_zones zc \<and> (\<forall>b. b \<noteq> a \<longrightarrow> zc_mobs zc' b = zc_mobs zc b \<and> zc_clients zc' b = zc_clients zc b) \<and>
    (\<forall>n'. n' \<noteq> n \<longrightarrow> ss_strings (zc_strings zc') n' = ss_strings (zc_strings zc) n')"
  proof (cases "cl_refCount c > 1")
    case True
    then show ?thesis using drop_kept [OF x(3,1)] assms(3) by auto
  next
    case False
    then have le: "cl_refCount c \<le> 1" by simp
    have "zc_handlers zc p \<noteq> None" if "cl_handler c = Some p" for p
      using drop_dead_handler [OF x(3,1) le x(4,2,5,7) that] assms(3) by auto
    then show ?thesis using drop_freed [OF x(3,1) le x(4,2,5,7)] assms(3) by fastforce
  qed
  have c: "zc_clients zc' b = zc_clients zc b" if "b \<in> connected zc" for b using that d(3) r by metis
  have "cluster_kept zc zc'"
    unfolding cluster_kept_def using r z c d(5) x(6) by auto
  then show ?thesis using cluster_ok_kept [OF assms(1)] r x(6) by (simp add: connected_def)
qed

lemma removed_detached:
  assumes "cluster_ok zc" "a \<in> connected zc" "cluster_ok zc'" "connected zc' = connected zc - {a}" "tables_only zc zc'" "a \<notin> in_zones zc'"
  shows "detached zc' a"
proof -
  have mem: "members_ok zc" using assms(1) by (rule cluster_okD)
  have same: "zone_same (zc_mobs zc) (zc_clients zc) (zc_mobs zc') (zc_clients zc')" "zc_strings zc' = zc_strings zc"
    using assms(5) by (simp_all add: tables_only_def)
  note sm = same_ptrs [OF same(1)]
  have "named zc' a k = named zc a k" for k by (rule named_cong) (simp_all add: sm same(2))
  then show ?thesis using mem assms(2,4,6) sm by (auto simp: detached_def members_ok_def)
qed

lemma leave_drop_ok:
  assumes "cluster_ok zc" "a \<in> connected zc \<or> detached zc a" "bindE (zc_remove_connected_client h a False zc) (on_client a client_drop) = Inr zc'"
  shows "cluster_ok zc' \<and> connected zc' = connected zc - {a}"
proof (cases "a \<in> connected zc")
  case True
  obtain zc1 where r: "zc_remove_connected_client h a False zc = Inr zc1" "cluster_ok zc1" "connected zc1 = connected zc - {a}"
    "tables_only zc zc1" "a \<notin> in_zones zc1" by (rule remove_connected_ok [OF assms(1) True, of h])
  have "detached zc1 a" by (rule removed_detached [OF assms(1) True r(2-5)])
  then show ?thesis using drop_ok [OF r(2)] r assms(3) by simp
next
  case False
  then have d: "detached zc a" using assms(2) by simp
  then obtain k where "named zc a k" by (auto simp: detached_def)
  then have "on_client a client_drop zc = Inr zc'" using remove_absent [OF False, of k h] assms(3) by simp
  then show ?thesis using drop_ok [OF assms(1) d] False by blast
qed

end
