(* ===== verification/Cluster_Enter.thy ===== *)
theory Cluster_Enter
  imports Cluster_Correct
begin

text \<open>
  Entering a zone and losing the connection keep the invariant of the tables of a zone cluster; with
  leaving, from \<open>Cluster_Correct\<close>, it holds in all states that \<open>cluster_reach\<close> describes.
\<close>

section \<open>Losing the connection\<close>

lemma cons_update:
  assumes "vec_ok esz v" "i < length (vec_items v)" "cc_client x = cc_client (vec_items v ! i)"
  shows "map cc_client ((vec_items v)[i := x]) = map cc_client (vec_items v)" "vec_ok esz (v\<lparr>vec_items := (vec_items v)[i := x]\<rparr>)"
  using assms vec_ok_shrink [OF assms(1)] by (auto simp: map_update list_update_same_conv)

lemma connected_cong: "map cc_client (cons zc') = map cc_client (cons zc) \<Longrightarrow> connected zc' = connected zc"
  unfolding connected_def by (metis list.set_map)

text \<open>The list of connected clients may change in what it says of a client.\<close>

lemma cluster_ok_listed:
  assumes "cluster_ok zc" "map cc_client (cons zc') = map cc_client (cons zc)" "vec_ok sizeof_ConnectedClient (zc_connectedClients zc')"
    "zc' = zc\<lparr>zc_connectedClients := zc_connectedClients zc'\<rparr>"
  shows "cluster_ok zc'"
proof -
  have con: "connected zc' = connected zc" by (rule connected_cong [OF assms(2)])
  have eq: "zc_connectedClientsByName zc' = zc_connectedClientsByName zc" "zc_zones zc' = zc_zones zc" "zc_mobs zc' = zc_mobs zc"
    "zc_clients zc' = zc_clients zc" "zc_strings zc' = zc_strings zc"
    by (subst assms(4), simp)+
  have p: "named zc' = named zc" "zone_ptr zc' = zone_ptr zc" "name_ptr zc' = name_ptr zc" "player zc' = player zc"
    by (auto simp: fun_eq_iff named_def zone_ptr_def name_ptr_def player_def eq)
  show ?thesis using assms(1,2,3) by (simp add: cluster_ok_def tables_ok_def members_ok_def con eq p)
qed

lemma mark_linkdead_ok:
  assumes "cluster_ok zc" "a \<in> connected zc" "mark_linkdead h a zc = Inr zc'"
  shows "cluster_ok zc' \<and> connected zc' = connected zc \<and> (\<exists>c m. zc_clients zc' a = Some c \<and> 1 < cl_refCount c \<and> cl_isLinkdead c \<and>
    cl_handler c = None \<and> zc_mobs zc' a = Some m)"
proof -
  note ok = cluster_okD [OF assms(1)]
  obtain m c k z zone where x: "a < 2 ^ 64" "zc_mobs zc a = Some m" "zc_clients zc a = Some c" "named zc a k" "mb_zone m = Some z"
    "zone_ptr zc a = Some z" "zc_zones zc z = Some zone" by (rule memberD [OF ok(2) assms(2)])
  have pl: "player zc a" using ok(2) assms(2) by (simp add: members_ok_def)
  then have rc: "0 < cl_refCount c" "\<not> cl_isStubClient c" using x(3) by (auto simp: player_def)
  define c' where "c' = (client_grab c)\<lparr>cl_handler := None, cl_isLinkdead := True\<rparr>"
  obtain p zone' hs where r: "cl_handler c = Some p" "zone_mark_client_as_linkdead zone a ((zc_clients zc)(a \<mapsto> c')) = Inr zone'"
    and hs: "handler_drop p (zc\<lparr>zc_clients := (zc_clients zc)(a \<mapsto> client_grab c)\<rparr>) = Inr (zc\<lparr>zc_clients := (zc_clients zc)(a \<mapsto> client_grab c), zc_handlers := hs\<rparr>)"
    using assms(3) x(2,3,5,7)
    by (auto simp: mark_linkdead_def client_at_def result_simps client_zone_def zone_at_def mob_at_def handler_drop_def handler_at_def c'_def
        Let_def split: option.splits)
  define zc1 where "zc1 = zc\<lparr>zc_clients := (zc_clients zc)(a \<mapsto> c'), zc_handlers := hs\<rparr>"
  have "cluster_kept zc zc1"
    using x(3) rc by (auto simp: cluster_kept_def zc1_def c'_def client_grab_def client_key_def)
  then have ok1: "cluster_ok zc1" by (rule cluster_ok_kept [OF assms(1)])
  note okd = cluster_okD [OF ok1]
  have z1: "zc_zones zc1 z = Some zone" using x(7) by (simp add: zc1_def)
  define zc2 where "zc2 = zc1\<lparr>zc_zones := (zc_zones zc1)(z \<mapsto> zone')\<rparr>"
  have r': "zone_mark_client_as_linkdead zone a (zc_clients zc1) = Inr zone'" using r(2) by (simp add: zc1_def)
  note lf = linkdead_frame [OF r']
  have zok: "zone_ok zone' (zc_mobs zc1) (zc_clients zc1)" by (rule linkdead_ok [OF zones_okD(1) [OF okd(3) z1] r'])
  have "zones_ok ((zc_zones zc1)(z \<mapsto> zone')) (zc_mobs zc1) (zc_clients zc1)"
    by (rule zones_ok_update [OF okd(3) zok]) (use lf zones_okD(2) [OF okd(3) z1] in auto)
  moreover have p: "connected zc2 = connected zc1" "named zc2 = named zc1" "zone_ptr zc2 = zone_ptr zc1" "name_ptr zc2 = name_ptr zc1" "player zc2 = player zc1"
    by (auto simp: fun_eq_iff connected_def named_def zone_ptr_def name_ptr_def player_def zc2_def)
  moreover have "tables_ok zc2" using okd(1) unfolding tables_ok_def p by (simp add: zc2_def)
  moreover have "members_ok zc2"
    using members_ok_subset [OF okd(2), of zc2] by (simp add: p) (simp add: zc2_def)
  moreover have "zone_clients zn = {b \<in> connected zc1. zone_ptr zc1 b = Some y}" if "zc_zones zc2 y = Some zn" for y zn
    using that okd(4) [of y zn] okd(4) [OF z1] lf by (auto simp: zc2_def split: if_splits)
  ultimately have ok2: "cluster_ok zc2" by (simp add: cluster_ok_def) (simp add: zc2_def)
  obtain i where i: "client_index a (cons zc) = Some i" "i < length (cons zc)" "cc_client (cons zc ! i) = a"
    using assms(2) client_index_None [of a "cons zc"] client_index_Some [of a "cons zc"] by (cases "client_index a (cons zc)") (auto simp: connected_def)
  define v where "v = (zc_connectedClients zc)\<lparr>vec_items := (cons zc)[i := (cons zc ! i)\<lparr>cc_handler := None\<rparr>]\<rparr>"
  have vo: "vec_ok sizeof_ConnectedClient (zc_connectedClients zc)" using ok(1) by (simp add: tables_ok_def)
  have v: "map cc_client (vec_items v) = map cc_client (cons zc)" "vec_ok sizeof_ConnectedClient v"
    using cons_update [OF vo i(2), of "(cons zc ! i)\<lparr>cc_handler := None\<rparr>"] by (simp_all add: v_def)
  have zc': "zc' = zc2\<lparr>zc_connectedClients := v, zc_timers := zc_timers zc @ [(EQP_ZC_CLIENT_LINKDEAD_LINGER_TIMEOUT, zc_remove_linkdead_client a)]\<rparr>"
    using assms(3) x(2,3,5,7) r hs i(1)
    by (auto simp: mark_linkdead_def client_at_def client_zone_def zone_at_def mob_at_def Let_def c'_def [symmetric] zc2_def zc1_def v_def
        eqp_timer_for_def split: if_splits)
  have "cluster_ok (zc2\<lparr>zc_connectedClients := v\<rparr>)"
    by (rule cluster_ok_listed [OF ok2]) (use v in \<open>auto simp: zc2_def zc1_def\<close>)
  then have ok': "cluster_ok zc'" by (rule cluster_ok_kept) (simp add: zc' cluster_kept_def)
  have "connected zc' = connected zc" by (rule connected_cong) (simp add: zc' v)
  then show ?thesis using ok' x(2) rc by (simp add: zc' zc2_def zc1_def c'_def client_grab_def)
qed

lemma lost_ok:
  assumes "cluster_ok zc" "a \<in> connected zc" "zone_client_on_disconnect h a True zc = Inr zc'"
  shows "cluster_ok zc' \<and> connected zc' = connected zc"
proof -
  obtain zc1 zc2 where r: "zc_lua_event a ''event_linkdead'' zc = Inr zc1" "mark_linkdead h a zc1 = Inr zc2" "on_client a client_drop zc2 = Inr zc'"
    using assms(3) by (auto simp: zone_client_on_disconnect_def zc_remove_connected_client_def result_simps)
  have zc1: "zc1 = note_call (ClientCall a (LuaEvent ''event_linkdead'')) zc" using r(1) by (auto simp: zc_lua_event_def result_simps)
  have "cluster_kept zc zc1" by (simp add: zc1 note_call_def cluster_kept_def)
  then have ok1: "cluster_ok zc1" by (rule cluster_ok_kept [OF assms(1)])
  have con1: "connected zc1 = connected zc" by (simp add: connected_def zc1 note_call_def)
  obtain c m where m: "cluster_ok zc2" "connected zc2 = connected zc1" "zc_clients zc2 a = Some c" "1 < cl_refCount c" "zc_mobs zc2 a = Some m"
    using mark_linkdead_ok [OF ok1 _ r(2)] assms(2) con1 by auto
  have z: "zc' = zc2\<lparr>zc_clients := (zc_clients zc2)(a \<mapsto> c\<lparr>cl_refCount := cl_refCount c - 1\<rparr>)\<rparr>" using drop_kept [OF m(3,5,4)] r(3) by simp
  have "cluster_kept zc2 zc'" using m(3,4) by (auto simp: cluster_kept_def z client_key_def)
  then show ?thesis using cluster_ok_kept [OF m(1)] m(2) con1 by (simp add: connected_def z)
qed

section \<open>Entering\<close>

definition newcomer :: "zc \<Rightarrow> nat \<Rightarrow> bool" where
  "newcomer zc a \<longleftrightarrow> detached zc a \<and> a < 2 ^ 64 \<and>
     (\<exists>z. zone_ptr zc a = Some z \<and> zc_zones zc z \<noteq> None)"

lemma tables_added:
  assumes "tables_ok zc" "a \<notin> connected zc" "named zc a k" "ht_contents (zc_connectedClientsByName zc) k = None"
    "set_done (zc_connectedClientsByName zc) k (ptr_bytes a) (zc_connectedClientsByName zc') b"
    "cons zc' = cons zc @ [x]" "cc_client x = a" "vec_ok sizeof_ConnectedClient (zc_connectedClients zc')"
    "\<And>b k. named zc' b k = named zc b k"
  shows "tables_ok zc'"
proof -
  have con: "connected zc' = insert a (connected zc)" using assms(6,7) by (auto simp: connected_def)
  have b: "b" using assms(4,5) by (simp add: set_done_def)
  have nk: "\<not> named zc a k'" if "k' \<noteq> k" for k' using named_unique [OF assms(3)] that by blast
  have none: "\<not> (\<exists>b \<in> connected zc. named zc b k)"
    using assms(1,4) unfolding tables_ok_def by (metis option.distinct(1))
  have "ht_contents (zc_connectedClientsByName zc') k' = Some v \<longleftrightarrow> (\<exists>b \<in> connected zc'. v = ptr_bytes b \<and> named zc' b k')" for k' v
  proof (cases "k' = k")
    case True
    then show ?thesis using assms(3,5,9) b con none by (auto simp: set_done_def)
  next
    case False
    then have "ht_contents (zc_connectedClientsByName zc') k' = ht_contents (zc_connectedClientsByName zc) k'"
      using assms(5) b by (simp add: set_done_def)
    moreover have "ht_contents (zc_connectedClientsByName zc) k' = Some v \<longleftrightarrow> (\<exists>b \<in> connected zc. v = ptr_bytes b \<and> named zc b k')"
      using assms(1) by (simp add: tables_ok_def)
    ultimately show ?thesis using con nk [OF False] assms(9) by auto
  qed
  then show ?thesis using assms(1,2,5-8) con by (auto simp: tables_ok_def set_done_def connected_def)
qed

text \<open>The second half of \<open>zc_add_connected_client\<close>.\<close>

definition admit :: "heap \<Rightarrow> nat \<Rightarrow> nat \<Rightarrow> zc \<Rightarrow> zc result" where
  "admit h a n zc =
     bindE (string_at (zc_strings zc) n) (\<lambda>name.
     bindE (hash_table_set_by_cstr h (zc_connectedClientsByName zc) (str_data name) (str_length name) (ptr_bytes a)) (\<lambda>(t, isNew).
     bindE (client_at (zc_clients zc) a) (\<lambda>c.
     bindE (vec_push h sizeof_ConnectedClient (zc_connectedClients zc)
              \<lparr>cc_expansion = client_expansion c, cc_handler = cl_handler c, cc_client = a\<rparr>) (\<lambda>cons.
     enter_zone h a (zc\<lparr>zc_connectedClientsByName := t, zc_connectedClients := cons\<rparr>)))))"

lemma add_connected_split:
  "zc_add_connected_client h a zc =
     bindE (client_name zc a) (\<lambda>n.
     bindE (string_at (zc_strings zc) n) (\<lambda>name.
     bindE (hash_table_get_by_cstr (zc_connectedClientsByName zc) (str_data name) (str_length name)) (\<lambda>prev.
     bindE (case prev of None \<Rightarrow> Inr zc | Some p \<Rightarrow> displace h (ptr_of p) zc) (admit h a n))))"
  by (simp add: zc_add_connected_client_def admit_def [abs_def])

lemma admit_ok:
  assumes "cluster_ok zc" "newcomer zc a" "cluster_fits zc" "ample h" "named zc a k" "name_ptr zc a = Some n"
    "ht_contents (zc_connectedClientsByName zc) k = None"
  shows "\<exists>zc'. admit h a n zc = Inr zc' \<and> cluster_ok zc' \<and> connected zc' = insert a (connected zc) \<and> named zc' a k \<and>
    zone_same (zc_mobs zc) (zc_clients zc) (zc_mobs zc') (zc_clients zc') \<and> zc_strings zc' = zc_strings zc \<and> zc_handlers zc' = zc_handlers zc \<and>
    zc_expectedClientsByName zc' = zc_expectedClientsByName zc \<and> dom (zc_zones zc') = dom (zc_zones zc) \<and> in_zones zc' = insert a (in_zones zc)"
proof -
  note ok = cluster_okD [OF assms(1)]
  have tok: "table_inv (zc_connectedClientsByName zc)" "ht_elemSize (zc_connectedClientsByName zc) = 8"
    "vec_ok sizeof_ConnectedClient (zc_connectedClients zc)" using ok(1) by (simp_all add: tables_ok_def)
  have new: "detached zc a" "a < 2 ^ 64" using assms(2) by (simp_all add: newcomer_def)
  then have dt: "player zc a" "a \<notin> connected zc" "a \<notin> in_zones zc" "\<forall>b \<in> connected zc. name_ptr zc b \<noteq> name_ptr zc a"
    by (simp_all add: detached_def)
  obtain z zone where z: "zone_ptr zc a = Some z" "zc_zones zc z = Some zone" "fits zone" using assms(2,3) by (auto simp: newcomer_def cluster_fits_def)
  obtain m c where x: "zc_mobs zc a = Some m" "mb_zone m = Some z" "zc_clients zc a = Some c"
    using dt(1) z(1) by (auto simp: player_def zone_ptr_def)
  obtain s r where n: "string_at (zc_strings zc) n = Inr s" "str_data s = k @ 0 # r" "str_length s = of_nat (length k)" "0 \<notin> set k" "length k < 2 ^ 31"
    using assms(5,6) by (auto elim!: namedE)
  have al: "alloc_ok h k" "grow_ok h (zc_connectedClientsByName zc)"
    using n(5) assms(3,4) by (simp_all add: alloc_ok_def grow_ok_def ample_def cluster_fits_def)
  obtain t b where t: "hash_table_set_by_cstr h (zc_connectedClientsByName zc) (k @ 0 # r) (of_nat (length k)) (ptr_bytes a) = Inr (t, b)"
    "set_done (zc_connectedClientsByName zc) k (ptr_bytes a) t b"
    using set_spec [OF tok(1) n(4) al(1) _ al(2), of "ptr_bytes a" r] tok(2) by auto
  define con where "con = \<lparr>cc_expansion = client_expansion c, cc_handler = cl_handler c, cc_client = a\<rparr>"
  have "2 * length (cons zc) * unat sizeof_ConnectedClient < 2 ^ 32" "0 < unat sizeof_ConnectedClient"
    using assms(3) by (simp_all add: cluster_fits_def sizeof_ConnectedClient_def)
  from vec_push_ample [OF tok(3) assms(4) this, of con] obtain v where
    v: "vec_push h sizeof_ConnectedClient (zc_connectedClients zc) con = Inr v" "vec_ok sizeof_ConnectedClient v" "vec_items v = cons zc @ [con]" by blast
  have "a \<notin> zone_mobs zone" using dt(3) z(2) by (auto simp: in_zones_def)
  from enter_ok [OF ok(3) z(2,3) assms(4) this x] obtain zone' ms' cs' where
    e: "zone_spawn_client h zone a (zc_mobs zc) (zc_clients zc) = Inr (zone', ms', cs')" "zones_ok ((zc_zones zc)(z \<mapsto> zone')) ms' cs'"
    "zone_clients zone' = insert a (zone_clients zone)" "zone_same (zc_mobs zc) (zc_clients zc) ms' cs'"
    "zone_mobs zone' = insert a (zone_mobs zone)" by blast
  define zc' where "zc' = zc\<lparr>zc_connectedClientsByName := t, zc_connectedClients := v, zc_zones := (zc_zones zc)(z \<mapsto> zone'), zc_mobs := ms', zc_clients := cs'\<rparr>"
  have res: "admit h a n zc = Inr zc'"
    using n t(1) x z(2) v(1) e(1)
    by (simp add: admit_def client_at_def con_def [symmetric] enter_zone_def client_zone_def mob_at_def zone_at_def zc'_def)
  have same: "zone_same (zc_mobs zc) (zc_clients zc) (zc_mobs zc') (zc_clients zc')" using e(4) by (simp add: zc'_def)
  note sm = same_ptrs [OF same]
  have nm: "named zc' b k = named zc b k" for b k by (rule named_cong) (simp_all add: sm(1), simp add: zc'_def)
  have con': "connected zc' = insert a (connected zc)" using v(3) by (auto simp: connected_def zc'_def con_def)
  have "tables_ok zc'"
    by (rule tables_added [OF ok(1) dt(2) assms(5,7), of zc' b con]) (use t(2) v(2,3) nm in \<open>auto simp: zc'_def con_def\<close>)
  moreover have "members_ok zc'"
    unfolding members_ok_def con' sm nm using ok(2) dt(1,4) new(2) assms(5) z(1) by (auto simp: members_ok_def zc'_def) metis
  moreover have "zone_clients zn = {b \<in> connected zc'. zone_ptr zc' b = Some y}" if "zc_zones zc' y = Some zn" for y zn
    using that ok(4) [of y zn] ok(4) [OF z(2)] e(3) z(1) con' sm by (auto simp: zc'_def split: if_splits)
  ultimately have "cluster_ok zc'" using e(2) by (auto simp: cluster_ok_def zc'_def)
  moreover have "dom (zc_zones zc') = dom (zc_zones zc)" using z(2) by (auto simp: zc'_def)
  moreover have "in_zones zc' = insert a (in_zones zc)" using e(5) z(2) by (auto simp: in_zones_def zc'_def split: if_splits) (metis option.inject)
  ultimately show ?thesis using res con' nm assms(5) same by (intro exI [of _ zc']) (simp add: zc'_def)
qed

text \<open>The client that was connected under the name makes way.\<close>

lemma forcibly_disconnect_kept:
  assumes "on_client b (\<lambda>s. Inr (client_forcibly_disconnect s)) zc = Inr zc'"
  shows "\<exists>calls. zc' = zc\<lparr>zc_calls := calls\<rparr>"
proof -
  obtain c m where x: "zc_clients zc b = Some c" "zc_mobs zc b = Some m"
    using assms by (auto simp: on_client_def result_simps client_at_def mob_at_def split: option.splits)
  then have "(zc_clients zc)(b \<mapsto> c) = zc_clients zc" "(zc_mobs zc)(b \<mapsto> m) = zc_mobs zc" by (simp_all add: fun_upd_idem)
  then show ?thesis
    using assms x
    by (cases "cl_handler c")
       (auto simp: on_client_def client_at_def mob_at_def client_forcibly_disconnect_def emit_effect_def put_client_def note_call_def
          handler_at_def result_simps split: option.splits intro: exI [of _ "zc_calls zc"])
qed

lemma displace_ok:
  assumes "cluster_ok zc" "newcomer zc a" "cluster_fits zc" "b \<in> connected zc" "displace h b zc = Inr zc'"
  shows "cluster_ok zc' \<and> connected zc' = connected zc - {b} \<and> newcomer zc' a \<and> cluster_fits zc' \<and> name_ptr zc' a = name_ptr zc a \<and>
    (\<forall>x k. x \<in> insert a (connected zc') \<longrightarrow> named zc' x k = named zc x k)"
proof -
  have new: "player zc a" "\<exists>k. named zc a k" "a \<notin> connected zc" "a \<notin> in_zones zc" "\<And>b. b \<in> connected zc \<Longrightarrow> name_ptr zc b \<noteq> name_ptr zc a"
    "a < 2 ^ 64" "\<exists>z. zone_ptr zc a = Some z \<and> zc_zones zc z \<noteq> None" using assms(2) by (auto simp: newcomer_def detached_def)
  have ab: "a \<noteq> b" using new(3) assms(4) by blast
  note ok = cluster_okD [OF assms(1)]
  have inj: "name_ptr zc x \<noteq> name_ptr zc b" if "x \<in> connected zc" "x \<noteq> b" for x
    using ok(2) that assms(4) by (auto simp: members_ok_def)
  obtain zc1 where r: "zc_remove_connected_client h b False zc = Inr zc1" "cluster_ok zc1" "connected zc1 = connected zc - {b}"
    "tables_only zc zc1" "b \<notin> in_zones zc1" "cluster_fits zc \<longrightarrow> cluster_fits zc1" by (rule remove_connected_ok [OF assms(1,4), of h])
  have same: "zone_same (zc_mobs zc) (zc_clients zc) (zc_mobs zc1) (zc_clients zc1)" "zc_strings zc1 = zc_strings zc"
    "in_zones zc1 \<subseteq> in_zones zc" "\<And>z. zc_zones zc1 z = None \<longleftrightarrow> zc_zones zc z = None" using r(4) by (auto simp: tables_only_def)
  note sm = same_ptrs [OF same(1)]
  have nm: "named zc1 x k = named zc x k" for x k by (rule named_cong) (simp_all add: sm same(2))
  have new1: "newcomer zc1 a" using new r(3) same(3,4) by (auto simp: newcomer_def detached_def sm nm)
  have det: "detached zc1 b" by (rule removed_detached [OF assms(1,4) r(2-5)])
  obtain c where c: "zc_clients zc1 b = Some c" using det by (auto simp: detached_def player_def)
  show ?thesis
  proof (cases "client_is_linkdead c")
    case True
    then have "zc' = zc1" using assms(5) r(1) c by (simp add: displace_def client_at_def)
    then show ?thesis using r new1 assms(3) sm nm by simp
  next
    case False
    then obtain zc2 where d: "on_client b (\<lambda>s. Inr (client_forcibly_disconnect s)) zc1 = Inr zc2" "on_client b client_drop zc2 = Inr zc'"
      using assms(5) r(1) c by (auto simp: displace_def client_at_def result_simps)
    obtain calls where zc2: "zc2 = zc1\<lparr>zc_calls := calls\<rparr>" using forcibly_disconnect_kept [OF d(1)] by blast
    have ok2: "cluster_ok zc2" by (rule cluster_ok_kept [OF r(2)]) (simp add: zc2 cluster_kept_def)
    have p: "connected zc2 = connected zc1" "in_zones zc2 = in_zones zc1" "named zc2 = named zc1" "zone_ptr zc2 = zone_ptr zc1"
      "name_ptr zc2 = name_ptr zc1" "player zc2 = player zc1"
      by (auto simp: fun_eq_iff connected_def in_zones_def named_def zone_ptr_def name_ptr_def player_def zc2)
    have det2: "detached zc2 b" using det unfolding detached_def p .
    note dr = drop_ok [OF ok2 det2 d(2)]
    have ptr: "name_ptr zc' x = name_ptr zc x \<and> zone_ptr zc' x = zone_ptr zc x \<and> player zc' x = player zc x" if "x \<noteq> b" for x
    proof -
      have "zc_mobs zc' x = zc_mobs zc2 x" "zc_clients zc' x = zc_clients zc2 x" using dr that by auto
      then have "name_ptr zc' x = name_ptr zc2 x \<and> zone_ptr zc' x = zone_ptr zc2 x \<and> player zc' x = player zc2 x"
        by (simp add: name_ptr_def zone_ptr_def player_def)
      then show ?thesis by (simp add: p sm)
    qed
    have nm': "named zc' x k = named zc x k" if "x \<in> insert a (connected zc - {b})" for x k
    proof -
      have "x \<noteq> b" "name_ptr zc x \<noteq> name_ptr zc b" using that ab inj new(5) [OF assms(4)] by auto
      then have "named zc' x k = named zc2 x k" using dr ptr by (intro named_cong) (auto simp: p sm)
      then show ?thesis by (simp add: p nm)
    qed
    have con: "connected zc' = connected zc - {b}" using dr p r(3) by simp
    have inz: "in_zones zc' = in_zones zc1" using dr by (simp add: in_zones_def zc2)
    have "newcomer zc' a"
      using new ptr [OF ab] nm' [of a] ptr con inz same(3,4) dr
      by (auto simp: newcomer_def detached_def zc2)
    moreover have "cluster_fits zc'" using r(6) assms(3) dr by (simp add: cluster_fits_def zc2)
    ultimately show ?thesis using dr con nm' ptr [OF ab] by simp
  qed
qed

lemma add_connected_ok:
  assumes "cluster_ok zc" "newcomer zc a" "cluster_fits zc" "ample h" "zc_add_connected_client h a zc = Inr zc'" "named zc a k"
  shows "cluster_ok zc' \<and> connected zc' = insert a {b \<in> connected zc. \<not> named zc b k} \<and> named zc' a k"
proof -
  note ok = cluster_okD [OF assms(1)]
  have tok: "table_inv (zc_connectedClientsByName zc)" and iff: "\<And>k v. ht_contents (zc_connectedClientsByName zc) k = Some v \<longleftrightarrow>
    (\<exists>a \<in> connected zc. v = ptr_bytes a \<and> named zc a k)" using ok(1) by (simp_all add: tables_ok_def)
  obtain n s r where n: "client_name zc a = Inr n" "name_ptr zc a = Some n" "string_at (zc_strings zc) n = Inr s" "str_data s = k @ 0 # r"
    "str_length s = of_nat (length k)" "0 \<notin> set k" "length k < 2 ^ 31" using assms(6) by (rule namedE)
  have g: "hash_table_get_by_cstr (zc_connectedClientsByName zc) (k @ 0 # r) (of_nat (length k)) = Inr (ht_contents (zc_connectedClientsByName zc) k)"
    by (rule get_spec [OF tok n(6)]) (use n(7) in simp)
  have step: "bindE (case ht_contents (zc_connectedClientsByName zc) k of None \<Rightarrow> Inr zc | Some p \<Rightarrow> displace h (ptr_of p) zc) (admit h a n) = Inr zc'"
    using assms(5) n g by (simp add: add_connected_split)
  show ?thesis
  proof (cases "ht_contents (zc_connectedClientsByName zc) k")
    case None
    then have "{b \<in> connected zc. \<not> named zc b k} = connected zc" using iff [of k] by (metis (no_types, lifting) Collect_cong Collect_mem_eq option.distinct(1))
    then show ?thesis using admit_ok [OF assms(1-4,6) n(2) None] step None by auto
  next
    case (Some v)
    then obtain b where b: "b \<in> connected zc" "v = ptr_bytes b" "named zc b k" using iff by blast
    have "b < 2 ^ 64" using ok(2) b(1) by (simp add: members_ok_def)
    then obtain zc1 where d: "displace h b zc = Inr zc1" "admit h a n zc1 = Inr zc'" using step Some b(2) by (auto simp: result_simps)
    note dp = displace_ok [OF assms(1-3) b(1) d(1)]
    have nm: "named zc1 a k" using dp assms(6) by simp
    have other: "\<not> named zc x k" if "x \<in> connected zc" "x \<noteq> b" for x using name_taken_once [OF ok(1,2) b(1) that(1) b(3)] that(2) by blast
    have ok1: "tables_ok zc1" using dp cluster_okD(1) by blast
    have "ht_contents (zc_connectedClientsByName zc1) k = None"
    proof (rule ccontr)
      assume "ht_contents (zc_connectedClientsByName zc1) k \<noteq> None"
      then obtain x where "x \<in> connected zc1" "named zc1 x k" using ok1 by (auto simp: tables_ok_def)
      then show False using dp other by auto
    qed
    then obtain zc2 where "admit h a n zc1 = Inr zc2" "cluster_ok zc2" "connected zc2 = insert a (connected zc1)" "named zc2 a k"
      using admit_ok [OF _ _ _ assms(4) nm, of n] dp n(2) by auto
    moreover have "connected zc1 = {b \<in> connected zc. \<not> named zc b k}" using dp b other by auto
    ultimately show ?thesis using d(2) by simp
  qed
qed

lemma add_connected_fresh:
  assumes "cluster_ok zc" "newcomer zc a" "cluster_fits zc" "ample h" "named zc a k" "\<forall>b \<in> connected zc. \<not> named zc b k"
  shows "\<exists>n. name_ptr zc a = Some n \<and> zc_add_connected_client h a zc = admit h a n zc \<and> ht_contents (zc_connectedClientsByName zc) k = None"
proof -
  have t: "tables_ok zc" using cluster_okD(1) [OF assms(1)] .
  have c: "ht_contents (zc_connectedClientsByName zc) k = None"
  proof (rule ccontr)
    assume "ht_contents (zc_connectedClientsByName zc) k \<noteq> None"
    then show False using t assms(6) by (auto simp: tables_ok_def)
  qed
  obtain n s r where n: "client_name zc a = Inr n" "name_ptr zc a = Some n" "string_at (zc_strings zc) n = Inr s" "str_data s = k @ 0 # r"
    "str_length s = of_nat (length k)" "0 \<notin> set k" "length k < 2 ^ 31" using assms(5) by (rule namedE)
  have "hash_table_get_by_cstr (zc_connectedClientsByName zc) (k @ 0 # r) (of_nat (length k)) = Inr None"
    using get_spec [of "zc_connectedClientsByName zc" k r] t n(6,7) c by (simp add: tables_ok_def)
  then show ?thesis using n c by (auto simp: add_connected_split)
qed

section \<open>Reachable states\<close>

lemma zc_create_ok:
  assumes "zc_create h = Inr zc"
  shows "cluster_ok zc"
proof -
  obtain v t where x: "vec_create h sizeof_ConnectedClient = Inr v" "hash_table_create h 8 = Inr t" "zc_connectedClients zc = v"
    "zc_connectedClientsByName zc = t" "zc_zones zc = Map.empty"
    using assms by (auto simp: zc_create_def result_simps)
  have "vec_ok sizeof_ConnectedClient v \<and> vec_items v = []" by (rule vec_create_spec [OF x(1)]) (simp add: sizeof_ConnectedClient_def)
  then show ?thesis using create_spec [OF x(2)] x(3-5)
    by (simp add: cluster_ok_def tables_ok_def members_ok_def zones_ok_def connected_def)
qed

lemma start_zone_ok:
  assumes "cluster_ok zc" "zc_start_zone h mapMinZ sourceId zc = Inr zc'" "zc_zones zc (zc_next zc) = None"
  shows "cluster_ok zc' \<and> connected zc' = connected zc"
proof (cases "zc' = zc")
  case False
  then obtain mz zid iid zone v where r1: "zone_create h mz sourceId zid iid = Inr zone"
    and r: "zc' = zc\<lparr>zc_calls := zc_calls zc @ [LogFileOpen sourceId], zc_zoneList := v, zc_zones := (zc_zones zc)(zc_next zc \<mapsto> zone), zc_next := Suc (zc_next zc)\<rparr>"
    using assms(2) by (auto simp: zc_start_zone_def Let_def result_simps note_call_def split: if_splits)
  note ok = cluster_okD [OF assms(1)]
  have e: "zone_mobs zone = {}" "zone_clients zone = {}" "zone_ok zone (zc_mobs zc) (zc_clients zc)"
    using r1 zone_create_ok [OF r1] by (auto simp: zone_create_def result_simps zone_mobs_def zone_clients_def vec_create_def split: if_splits)
  have p: "connected zc' = connected zc" "named zc' = named zc" "zone_ptr zc' = zone_ptr zc" "name_ptr zc' = name_ptr zc" "player zc' = player zc"
    by (auto simp: fun_eq_iff connected_def named_def zone_ptr_def name_ptr_def player_def r)
  have "tables_ok zc'" using ok(1) unfolding tables_ok_def p by (simp add: r)
  moreover have "members_ok zc'" using members_ok_subset [OF ok(2), of zc'] by (simp add: p) (simp add: r)
  moreover have "zones_ok (zc_zones zc') (zc_mobs zc') (zc_clients zc')" using ok(3) e by (auto simp: zones_ok_def r)
  moreover have "zone_clients zn = {b \<in> connected zc'. zone_ptr zc' b = Some y}" if "zc_zones zc' y = Some zn" for y zn
    using that ok(2) ok(4) [of y zn] e(2) assms(3) unfolding p by (auto simp: r members_ok_def split: if_splits)
  ultimately show ?thesis using p(1) by (simp add: cluster_ok_def)
qed (use assms(1) in simp)

text \<open>What happens to the connected clients of a cluster. The allocator never returns an address in use;
  the last rule is everything else the program does with clients and mobs.\<close>

inductive cluster_reach :: "heap \<Rightarrow> zc \<Rightarrow> bool" for h where
  created: "zc_create h = Inr zc \<Longrightarrow> cluster_reach h zc"
| started: "cluster_reach h zc \<Longrightarrow> zc_start_zone h mapMinZ sourceId zc = Inr zc' \<Longrightarrow> zc_zones zc (zc_next zc) = None \<Longrightarrow> cluster_reach h zc'"
| entered: "cluster_reach h zc \<Longrightarrow> newcomer zc a \<Longrightarrow> cluster_fits zc \<Longrightarrow> zc_add_connected_client h a zc = Inr zc' \<Longrightarrow> cluster_reach h zc'"
| left: "cluster_reach h zc \<Longrightarrow> a \<in> connected zc \<Longrightarrow> zone_client_on_disconnect h a False zc = Inr zc' \<Longrightarrow> cluster_reach h zc'"
| lost: "cluster_reach h zc \<Longrightarrow> a \<in> connected zc \<Longrightarrow> zone_client_on_disconnect h a True zc = Inr zc' \<Longrightarrow> cluster_reach h zc'"
| lingered: "cluster_reach h zc \<Longrightarrow> a \<in> connected zc \<or> detached zc a \<Longrightarrow> zc_remove_linkdead_client_callback h a zc = Inr zc' \<Longrightarrow> cluster_reach h zc'"
| elsewhere: "cluster_reach h zc \<Longrightarrow> cluster_kept zc zc' \<Longrightarrow> cluster_reach h zc'"

lemma left_ok:
  assumes "cluster_ok zc" "a \<in> connected zc" "zone_client_on_disconnect h a False zc = Inr zc'"
  shows "cluster_ok zc' \<and> connected zc' = connected zc - {a}"
  using leave_drop_ok [OF assms(1), of a h zc'] assms(2,3) by (auto simp: zone_client_on_disconnect_def result_simps)

lemma lingered_ok:
  assumes "cluster_ok zc" "a \<in> connected zc \<or> detached zc a" "zc_remove_linkdead_client_callback h a zc = Inr zc'"
  shows "cluster_ok zc' \<and> connected zc' = connected zc - {a}"
proof -
  obtain zc1 where r: "bindE (zc_remove_connected_client h a False zc) (on_client a client_drop) = Inr zc1"
    "zc' = timer_destroy_for (zc_remove_linkdead_client a) zc1"
    using assms(3) by (auto simp: zc_remove_linkdead_client_callback_def result_simps)
  have "cluster_kept zc1 zc'" by (simp add: r(2) timer_destroy_for_def cluster_kept_def)
  then show ?thesis using leave_drop_ok [OF assms(1,2) r(1)] cluster_ok_kept by (auto simp: connected_def r(2) timer_destroy_for_def)
qed

lemma cluster_reach_ok: "cluster_reach h zc \<Longrightarrow> ample h \<Longrightarrow> cluster_ok zc"
proof (induction rule: cluster_reach.induct)
  case (entered zc a zc')
  then obtain k where "named zc a k" by (auto simp: newcomer_def detached_def)
  then show ?case using add_connected_ok [of zc a h zc' k] entered by simp
qed (auto intro: zc_create_ok dest: start_zone_ok left_ok lost_ok lingered_ok cluster_ok_kept)

end
