(* ===== verification/Client_Input.thy ===== *)
theory Client_Input
  imports Zone_Cluster Client_Packets
begin

text \<open>
  \<^verbatim>\<open>mob/client_packet_trilogy_input.c\<close>: what a packet of a player does in a zone cluster. A
  stub, the client object of a connection whose player is not known yet, may only say who it is; the others
  ask for their inventory, for the zone, and to enter it. The cursor is at the start of the data, and a
  packet to a client is recorded with the handler it is queued at. The prototypes of items are in shared
  memory, a parameter, and the clock is read once.
\<close>

definition TrilogyOp_SetDataRate :: u16 where "TrilogyOp_SetDataRate = 0x21e8"
definition TrilogyOp_InventoryRequest :: u16 where "TrilogyOp_InventoryRequest = 0x205d"
definition TrilogyOp_ZoneInfoRequest :: u16 where "TrilogyOp_ZoneInfoRequest = 0x200a"
definition TrilogyOp_ZoneInUnknown :: u16 where "TrilogyOp_ZoneInUnknown = 0x2147"
definition TrilogyOp_EnterZone :: u16 where "TrilogyOp_EnterZone = 0x20d8"
definition TrilogyOp_EnteredZoneUnknown :: u16 where "TrilogyOp_EnteredZoneUnknown = 0x21c3"
definition TrilogyOp_Inventory :: u16 where "TrilogyOp_Inventory = 0x2031"
definition TrilogyOp_SwapItem :: u16 where "TrilogyOp_SwapItem = 0x212c"
definition Trilogy_SpawnAppearance_SetEntityId :: u16 where "Trilogy_SpawnAppearance_SetEntityId = 16"
definition EQP_CLIENT_ZONE_IN_NO_AUTH_TIMEOUT :: u64 where "EQP_CLIENT_ZONE_IN_NO_AUTH_TIMEOUT = 30 * 1000"
definition sizeof_Trilogy_ZoneEntryFromClient :: u32 where "sizeof_Trilogy_ZoneEntryFromClient = 36"
definition sizeof_Trilogy_SwapItem :: u32 where "sizeof_Trilogy_SwapItem = 12"

lemmas input_opcodes = TrilogyOp_SetDataRate_def TrilogyOp_InventoryRequest_def TrilogyOp_ZoneInfoRequest_def TrilogyOp_ZoneInUnknown_def
  TrilogyOp_EnterZone_def TrilogyOp_EnteredZoneUnknown_def TrilogyOp_Inventory_def TrilogyOp_SwapItem_def TrilogyOp_ZoneEntry_def

section \<open>Packets to one client and to all\<close>

definition schedule_individual :: "nat \<Rightarrow> packet \<Rightarrow> zc \<Rightarrow> zc result" where
  "schedule_individual a packet zc =
     bindE (packet_trilogy_fragmentize packet) (\<lambda>packet.
     bindE (client_live_handler a zc) (\<lambda>p. Inr (note_call (SchedulePacket p packet) zc)))"

definition send_zero_length :: "heap \<Rightarrow> nat \<Rightarrow> u16 \<Rightarrow> zc \<Rightarrow> zc result" where
  "send_zero_length h a opcode zc = bindE (packet_trilogy_create h opcode 0) (\<lambda>packet. schedule_individual a packet zc)"

definition send_zeroed :: "heap \<Rightarrow> nat \<Rightarrow> u16 \<Rightarrow> u32 \<Rightarrow> zc \<Rightarrow> zc result" where
  "send_zeroed h a opcode len zc =
     bindE (packet_trilogy_create h opcode len) (\<lambda>packet.
     bindE (mem_write (pt_data packet) (unat DATA_OFFSET) (replicate (unat len) 0)) (\<lambda>d.
     schedule_individual a (packet\<lparr>pt_data := d\<rparr>) zc))"

primrec live_handlers :: "nat list \<Rightarrow> zc \<Rightarrow> nat list result" where
  "live_handlers [] zc = Inr []"
| "live_handlers (a # as) zc = bindE (client_live_handler a zc) (\<lambda>p. bindE (live_handlers as zc) (\<lambda>ps. Inr (p # ps)))"

definition packet_broadcast_encode_op_spawn :: "heap \<Rightarrow> mob \<Rightarrow> client option \<Rightarrow> string_store \<Rightarrow> i32 \<Rightarrow> packet option result" where
  "packet_broadcast_encode_op_spawn h mob cl st expansionId =
     (if expansionId = ExpansionId_Trilogy
      then bindE (client_trilogy_make_op_spawn h mob cl st) (\<lambda>p. Inr (Some p)) else Inr None)"

section \<open>Stubs\<close>

definition client_trilogy_handle_op_zone_entry :: "nat \<Rightarrow> aligned \<Rightarrow> zc \<Rightarrow> zc result" where
  "client_trilogy_handle_op_zone_entry clientStub a zc =
     (if aligned_remaining a < sizeof_Trilogy_ZoneEntryFromClient then Inr zc
      else bindE (client_live_handler clientStub zc) (\<lambda>handler.
           bindE (aligned_advance a 4) (\<lambda>(a, _).
           zc_client_match_with_expected clientStub handler (drop (unat (al_cursor a)) (al_buffer a)) zc)))"

definition client_stub_recv_packet_trilogy :: "u64 \<Rightarrow> nat \<Rightarrow> u16 \<Rightarrow> aligned \<Rightarrow> zc \<Rightarrow> zc result" where
  "client_stub_recv_packet_trilogy now a opcode al zc =
     bindE (client_at (zc_clients zc) a) (\<lambda>c.
     if now - cl_creationTimestamp c \<ge> EQP_CLIENT_ZONE_IN_NO_AUTH_TIMEOUT
     then bindE (client_live_handler a zc) (\<lambda>p. Inr (note_call (ClientCall a (SendDisconnect p)) zc))
     else if opcode = TrilogyOp_ZoneEntry then client_trilogy_handle_op_zone_entry a al zc
     else Inr zc)"

section \<open>Clients\<close>

definition client_trilogy_echo_packet :: "heap \<Rightarrow> nat \<Rightarrow> u16 \<Rightarrow> aligned \<Rightarrow> zc \<Rightarrow> zc result" where
  "client_trilogy_echo_packet h a opcode al zc =
     (let len = aligned_remaining al in
      bindE (packet_trilogy_create h opcode len) (\<lambda>packet.
      bindE (if len \<noteq> 0
             then bindE (mem_read (al_buffer al) (unat (al_cursor al)) (unat len)) (\<lambda>d.
                  bindE (mem_write (pt_data packet) (unat DATA_OFFSET) d) (\<lambda>d. Inr (packet\<lparr>pt_data := d\<rparr>)))
             else Inr packet) (\<lambda>packet.
      schedule_individual a packet zc)))"

primrec inventory_request_loop :: "heap \<Rightarrow> prototypes \<Rightarrow> nat \<Rightarrow> inventory_slot list \<Rightarrow> zc \<Rightarrow> zc result" where
  "inventory_request_loop h protos a [] zc = Inr zc"
| "inventory_request_loop h protos a (slot # slots) zc =
     (if is_itemId slot = 0 \<or> is_augSlotId slot \<noteq> 0 then inventory_request_loop h protos a slots zc
      else case is_item slot of
        None \<Rightarrow> Inl UndefinedBehaviour
      | Some item \<Rightarrow>
          (case Option.bind (it_prototype item) protos of
             None \<Rightarrow> Inl UndefinedBehaviour
           | Some proto \<Rightarrow>
               bindE (client_trilogy_make_item_packet h TrilogyOp_Inventory proto item (is_slotId slot)) (\<lambda>packet.
               bindE (schedule_individual a packet zc) (inventory_request_loop h protos a slots))))"

definition client_trilogy_handle_op_inventory_request :: "heap \<Rightarrow> prototypes \<Rightarrow> nat \<Rightarrow> zc \<Rightarrow> zc result" where
  "client_trilogy_handle_op_inventory_request h protos a zc =
     bindE (client_at (zc_clients zc) a) (\<lambda>c.
     case inv_slots (cl_inventory c) of
       None \<Rightarrow> Inl UndefinedBehaviour
     | Some slots \<Rightarrow> inventory_request_loop h protos a (vec_items slots) zc)"

definition client_trilogy_handle_op_zone_info_request :: "heap \<Rightarrow> nat \<Rightarrow> zc \<Rightarrow> zc result" where
  "client_trilogy_handle_op_zone_info_request h a zc =
     bindE (client_zone zc a) (\<lambda>z.
     bindE (zone_at zc z) (\<lambda>zone.
     bindE (client_trilogy_make_op_zone_info h zone) (\<lambda>packet.
     bindE (schedule_individual a packet zc) (\<lambda>zc.
     send_zero_length h a TrilogyOp_EnterZone zc))))"

text \<open>The packet for everyone in the zone, the new client included.\<close>

definition broadcast_spawn :: "heap \<Rightarrow> nat \<Rightarrow> zc \<Rightarrow> zc result" where
  "broadcast_spawn h a zc =
     bindE (mob_at (zc_mobs zc) a) (\<lambda>mob.
     bindE (client_trilogy_make_op_spawn h mob (zc_clients zc a) (zc_strings zc)) (\<lambda>packet.
     bindE (packet_broadcast_set_packet_for_expansion
              (packet_broadcast_init (packet_broadcast_encode_op_spawn h mob (zc_clients zc a) (zc_strings zc)))
              ExpansionId_Trilogy packet) (\<lambda>pb.
     bindE (client_zone zc a) (\<lambda>z.
     bindE (zone_at zc z) (\<lambda>zone.
     bindE (zone_broadcast_packet zone pb None) (\<lambda>(pb, to).
     bindE (live_handlers to zc) (\<lambda>ps.
     Inr (case pb_trilogy pb of None \<Rightarrow> zc | Some packet \<Rightarrow> note_call (BroadcastPacket ps packet) zc))))))))"

definition client_trilogy_handle_op_enter_zone :: "heap \<Rightarrow> nat \<Rightarrow> zc \<Rightarrow> zc result" where
  "client_trilogy_handle_op_enter_zone h a zc =
     bindE (zc_add_connected_client h a zc) (\<lambda>zc.
     bindE (mob_at (zc_mobs zc) a) (\<lambda>mob.
     bindE (client_trilogy_make_op_spawn_appearance h 0 Trilogy_SpawnAppearance_SetEntityId (mob_entity_id mob)) (\<lambda>packet.
     bindE (schedule_individual a packet zc) (\<lambda>zc.
     bindE (broadcast_spawn h a zc) (\<lambda>zc.
     bindE (send_zeroed h a TrilogyOp_EnteredZoneUnknown 8 zc) (\<lambda>zc.
     bindE (send_zero_length h a TrilogyOp_EnterZone zc) (\<lambda>zc.
     bindE (client_at (zc_clients zc) a) (\<lambda>c.
     bindE (if cl_isFromCharSelect c then zc_lua_event a ''event_connect'' zc else Inr zc) (\<lambda>zc.
     zc_lua_event a ''event_spawn'' zc)))))))))"

text \<open>The three numbers are read, and nothing is done with them.\<close>

definition client_trilogy_handle_op_swap_item :: "aligned \<Rightarrow> zc \<Rightarrow> zc result" where
  "client_trilogy_handle_op_swap_item a zc =
     (if aligned_remaining a < sizeof_Trilogy_SwapItem then Inr zc
      else bindE (aligned_read_uint32 a) (\<lambda>(a, srcSlot).
           bindE (aligned_read_uint32 a) (\<lambda>(a, dstSlot).
           bindE (aligned_read_uint32 a) (\<lambda>(a, stackAmt). Inr zc))))"

definition zone_client_recv_packet_trilogy :: "heap \<Rightarrow> prototypes \<Rightarrow> u64 \<Rightarrow> nat \<Rightarrow> u16 \<Rightarrow> aligned \<Rightarrow> zc \<Rightarrow> zc result" where
  "zone_client_recv_packet_trilogy h protos now a opcode al zc =
     bindE (client_live_handler a zc) (\<lambda>p.
     bindE (client_at (zc_clients zc) a) (\<lambda>c.
     if cl_isStubClient c then client_stub_recv_packet_trilogy now a opcode al zc
     else if opcode = TrilogyOp_InventoryRequest then client_trilogy_handle_op_inventory_request h protos a zc
     else if opcode = TrilogyOp_ZoneInfoRequest then client_trilogy_handle_op_zone_info_request h a zc
     else if opcode = TrilogyOp_EnterZone then client_trilogy_handle_op_enter_zone h a zc
     else if opcode = TrilogyOp_SwapItem then client_trilogy_handle_op_swap_item al zc
     else if opcode = TrilogyOp_ZoneInUnknown then client_trilogy_echo_packet h a opcode al zc
     else on_client a (\<lambda>s. Inr (client_on_unhandled_packet_opcode opcode s)) zc))"

end
