(* ===== verification/Cluster_Zoning.thy ===== *)
theory Cluster_Zoning
  imports Cluster_Enter Client_Input
begin

text \<open>
  A player on the way into a zone: the master announces it, its client is created and waits under its
  name until a connection says it; and what goes wrong when there are two clients of one name.
\<close>

section \<open>Announced\<close>

lemma strlen_key: "0 \<notin> set k \<Longrightarrow> c_strlen (k @ 0 # r) = of_nat (length k)"
  unfolding c_strlen_def by (subst takeWhile_append2) auto

lemma split_terminated: "(0 :: u8) \<in> set cs \<Longrightarrow> \<exists>r. cs = cstr cs @ 0 # r \<and> 0 \<notin> set (cstr cs)"
proof -
  assume a: "(0 :: u8) \<in> set cs"
  then have "dropWhile (\<lambda>c. c \<noteq> 0) cs \<noteq> []" by (simp add: dropWhile_eq_Nil_conv)
  then obtain x r where d: "dropWhile (\<lambda>c. c \<noteq> 0) cs = x # r" by (cases "dropWhile (\<lambda>c. c \<noteq> 0) cs") auto
  then have "x = 0" using hd_dropWhile [of "\<lambda>c. c \<noteq> 0" cs] by auto
  moreover have "cs = takeWhile (\<lambda>c. c \<noteq> 0) cs @ dropWhile (\<lambda>c. c \<noteq> 0) cs" by simp
  ultimately have "cs = cstr cs @ 0 # r" using d by (simp add: cstr_def)
  moreover have "0 \<notin> set (cstr cs)" by (auto simp: cstr_def dest: set_takeWhileD)
  ultimately show ?thesis by blast
qed

lemma created_name:
  assumes "string_create_from_cstr h (k @ 0 # r) (of_nat (length k)) = Inr s" "0 \<notin> set k" "length k < 2 ^ 31"
  shows "name_is s k"
proof -
  have "string_create_from_cstr h k (of_nat (length k)) = Inr s"
    using assms(1,3) string_create_prefix [of k h "0 # r"] by simp
  moreover have u: "unat (of_nat (length k) :: u32) = length k" using assms(3) by (intro unat_of_nat_u32) simp
  ultimately have sp: "string_inv s \<and> str_chars s = k \<and> str_refCount s = 1 \<and> str_data s ! length k = 0"
    using string_create_from_cstr_spec [of h k "of_nat (length k)" s] assms(3) by simp
  have len: "str_length s = of_nat (length k)"
    using assms(1)
    by (auto simp: string_create_from_cstr_def string_realloc_and_fill_def string_realloc_next_pow2_def Let_def result_simps)
  have "take (length k) (str_data s) = k" "length k < length (str_data s)"
    using sp len u by (auto simp: str_chars_def string_inv_def)
  then have "str_data s = k @ 0 # drop (Suc (length k)) (str_data s)"
    using sp by (metis append_take_drop_id Cons_nth_drop_Suc)
  then show ?thesis using assms(2,3) len by (auto simp: name_is_def)
qed

lemma client_create_fields:
  assumes "client_create h z zone zoning st = Inr s" "ample h" "cz_characterName zoning = k @ 0 # r" "0 \<notin> set k" "length k < 2 ^ 31"
  shows "\<exists>n str. mb_name (cs_mob s) = Some n \<and> ss_strings (cs_strings s) n = Some str \<and> name_is str k \<and> mb_zone (cs_mob s) = Some zone \<and>
    mb_zoneCluster (cs_mob s) = Some z \<and> mb_clientFriendlyName (cs_mob s) = None \<and> cl_refCount (cs_client s) = 6 \<and> cl_loaded (cs_client s) = 0 \<and>
    \<not> cl_isStubClient (cs_client s) \<and> cl_handler (cs_client s) = None \<and> cl_characterId (cs_client s) = cz_characterId zoning \<and>
    cs_effects s = TimerInit # map (\<lambda>q. ScheduleQuery q (cz_characterId zoning)) [''character'', ''inventory'', ''spellbook'', ''memmed_spells'', ''bind_point'']"
proof -
  have tw: "takeWhile (\<lambda>c. c \<noteq> 0) (k @ 0 # r) = k" using assms(4) by (subst takeWhile_append2) auto
  obtain str str2 where x: "string_create_from_cstr h (k @ 0 # r) (of_nat (length k)) = Inr str"
    "mb_name (cs_mob s) = Some (ss_next st)" "cs_strings s = snd (new_string (snd (new_string st str)) str2)"
    "mb_zone (cs_mob s) = Some zone" "mb_zoneCluster (cs_mob s) = Some z" "mb_clientFriendlyName (cs_mob s) = None"
    "cl_refCount (cs_client s) = 6" "cl_loaded (cs_client s) = 0" "\<not> cl_isStubClient (cs_client s)" "cl_handler (cs_client s) = None"
    "cl_characterId (cs_client s) = cz_characterId zoning"
    "cs_effects s = TimerInit # map (\<lambda>q. ScheduleQuery q (cz_characterId zoning)) [''character'', ''inventory'', ''spellbook'', ''memmed_spells'', ''bind_point'']"
    using assms(1)
    by (auto simp: client_create_def mob_init_client_def result_simps Let_def new_string_def assms(3) tw zero_client_struct_def zero_mob_def
        start_query_def emit_effect_def upd_client_def client_grab_def split: if_splits)
  have "ss_strings (cs_strings s) (ss_next st) = Some str" by (simp add: x(3) new_string_def)
  then show ?thesis using x created_name [OF x(1) assms(4,5)] by simp
qed

lemma queries_kept: "apply_effects a (map (\<lambda>q. ScheduleQuery q i) qs) zc = Inr (zc\<lparr>zc_calls := zc_calls zc @ map (\<lambda>q. ClientCall a (ScheduleQuery q i)) qs\<rparr>)"
  by (induction qs arbitrary: zc) (simp_all add: note_call_def)

definition announced_calls :: "nat \<Rightarrow> u64 \<Rightarrow> cluster_call list" where
  "announced_calls a characterId = ClientCall a TimerInit #
     map (\<lambda>q. ClientCall a (ScheduleQuery q characterId)) [''character'', ''inventory'', ''spellbook'', ''memmed_spells'', ''bind_point'']"

lemma expected_registered:
  assumes "ample h" "table_inv (zc_expectedClientsByName zc)" "ht_elemSize (zc_expectedClientsByName zc) = 8"
    "unat (ht_capacity (zc_expectedClientsByName zc)) \<le> 2 ^ 30" "sizeof_Server_ClientZoning \<le> length data"
    "zc_get_zone_by_source_id zc sourceId = Some z" "cz_characterName (zoning_at data) = k @ 0 # r" "0 \<notin> set k"
    "0 \<in> set (cz_accountName (zoning_at data))" "ht_contents (zc_expectedClientsByName zc) k = None"
  shows "\<exists>zc' s. zc_client_expected_to_zone_in h sourceId data zc = Inr zc' \<and>
    client_create h ZC_ADDRESS z (zoning_at data) (zc_strings zc) = Inr s \<and>
    table_inv (zc_expectedClientsByName zc') \<and>
    ht_contents (zc_expectedClientsByName zc') = (ht_contents (zc_expectedClientsByName zc))(k \<mapsto> ptr_bytes (zc_next zc)) \<and>
    zc' = (put_client (zc_next zc) s zc)\<lparr>zc_next := Suc (zc_next zc),
      zc_calls := zc_calls zc @ announced_calls (zc_next zc) (cz_characterId (zoning_at data)),
      zc_timers := zc_timers zc @ [(EQP_CLIENT_ZONE_IN_EXPECTED_TIMEOUT, zc_expected_client_timeout (zc_next zc))],
      zc_expectedClientsByName := zc_expectedClientsByName zc'\<rparr>"
proof -
  define zo a where "zo = zoning_at data" and "a = zc_next zc"
  have len: "length (cz_accountName zo) \<le> 64" "length (cz_characterName zo) \<le> 32" by (simp_all add: zo_def zoning_at_def Let_def slice_def)
  then have k31: "length k < 2 ^ 31" using assms(7) by (simp add: zo_def)
  obtain s where s: "client_create h ZC_ADDRESS z zo (zc_strings zc) = Inr s"
    using client_create_total [OF assms(1), of zo ZC_ADDRESS z "zc_strings zc"] len by auto
  note f = client_create_fields [OF s assms(1) _ assms(8) k31, of r]
  have eff: "cs_effects s = TimerInit # map (\<lambda>q. ScheduleQuery q (cz_characterId zo)) [''character'', ''inventory'', ''spellbook'', ''memmed_spells'', ''bind_point'']"
    using f assms(7) by (auto simp: zo_def)
  have al: "alloc_ok h k" "grow_ok h (zc_expectedClientsByName zc)" using k31 assms(1,4) by (simp_all add: alloc_ok_def grow_ok_def ample_def)
  obtain t b where t: "hash_table_set_by_cstr h (zc_expectedClientsByName zc) (k @ 0 # r) (of_nat (length k)) (ptr_bytes a) = Inr (t, b)"
    "set_done (zc_expectedClientsByName zc) k (ptr_bytes a) t b"
    using set_spec [OF assms(2,8) al(1) _ al(2), of "ptr_bytes a" r] assms(3) by auto
  define zc0 where "zc0 = put_client a s (zc\<lparr>zc_next := Suc a\<rparr>)"
  have ef: "apply_effects a (cs_effects s) zc0 = Inr (zc0\<lparr>zc_calls := zc_calls zc0 @ announced_calls a (cz_characterId zo)\<rparr>)"
    unfolding eff by (simp only: apply_effects.simps apply_effect.simps queries_kept) (simp add: queries_kept note_call_def announced_calls_def)
  define zc' where "zc' = zc0\<lparr>zc_calls := zc_calls zc0 @ announced_calls a (cz_characterId zo),
    zc_timers := zc_timers zc0 @ [(EQP_CLIENT_ZONE_IN_EXPECTED_TIMEOUT, zc_expected_client_timeout a)], zc_expectedClientsByName := t\<rparr>"
  have "zc_client_expected_to_zone_in h sourceId data zc = Inr zc'"
    using assms(1,5-7,9) s ef t(1) strlen_key [OF assms(8), of r]
    by (simp add: zc_client_expected_to_zone_in_def zo_def [symmetric] a_def [symmetric] zc0_def [symmetric] eqp_timer_for_def ample_def Let_def
        zc'_def) (simp add: zc0_def put_client_def)
  moreover have "table_inv t" "ht_contents t = (ht_contents (zc_expectedClientsByName zc))(k \<mapsto> ptr_bytes a)"
    using t(2) assms(10) by (auto simp: set_done_def)
  ultimately show ?thesis using s by (intro exI [of _ zc'] exI [of _ s]) (simp add: zo_def a_def zc'_def zc0_def put_client_def)
qed

section \<open>Found\<close>

lemma matched:
  assumes "table_inv (zc_expectedClientsByName zc)" "0 \<notin> set k" "length k < 2 ^ 31"
    "ht_contents (zc_expectedClientsByName zc) k = Some (ptr_bytes a)" "a < 2 ^ 64" "zc_clients zc a = Some c" "zc_mobs zc a = Some m"
    "zc_clients zc stub = Some st" "stub \<noteq> a" "zc_handlers zc p = Some r"
  shows "\<exists>t. zc_client_match_with_expected stub p (k @ 0 # r2) zc =
    Inr (zc\<lparr>zc_expectedClientsByName := t,
      zc_clients := (zc_clients zc)(a \<mapsto> c\<lparr>cl_handler := Some p, cl_expansion := cl_expansion st, cl_loaded := cl_loaded c OR 0x81\<rparr>, stub := None),
      zc_mobs := (zc_mobs zc)(stub := None), zc_handlers := (zc_handlers zc)(p \<mapsto> r\<lparr>hr_object := Some a\<rparr>),
      zc_calls := zc_calls zc @ (if cl_loaded c OR 0x81 = 0xff then map (ClientCall a) (finishing (cl_expansion st = ExpansionId_Trilogy)) else [])\<rparr>) \<and>
    remove_done (zc_expectedClientsByName zc) k t"
proof -
  have k32: "length k < 2 ^ 32" using assms(3) by simp
  obtain t where t: "hash_table_remove_by_cstr (zc_expectedClientsByName zc) (k @ 0 # r2) (of_nat (length k)) = Inr t"
    "remove_done (zc_expectedClientsByName zc) k t" by (rule remove_spec [OF assms(1,2) k32, of r2])
  have g: "hash_table_get_by_cstr (zc_expectedClientsByName zc) (k @ 0 # r2) (of_nat (length k)) = Inr (Some (ptr_bytes a))"
    using get_spec [OF assms(1,2) k32, of r2] assms(4) by simp
  have l: "(cl_loaded c OR Loaded_connection) OR Loaded_unused = cl_loaded c OR 0x81"
    by (simp add: Loaded_connection_def Loaded_unused_def or.assoc)
  have mi: "(zc_mobs zc)(a \<mapsto> m) = zc_mobs zc" using assms(7) by (simp add: fun_upd_idem)
  show ?thesis
    using t g assms strlen_key [OF assms(2), of r2] l mi
    by (intro exI [of _ t])
       (auto simp: zc_client_match_with_expected_def client_at_def protocol_handler_set_object_def handler_at_def on_client_def mob_at_def
          client_catch_up_with_loading_progress_def client_check_loading_finished_def set_loaded_def upd_client_def put_client_def
          finishing_def client_is_trilogy_def note_call_def client_live_handler_def fun_upd_twist)
qed

section \<open>Two clients of one name\<close>

text \<open>What the displaced client leaves behind when nothing else refers to it.\<close>

lemma displaced_freed:
  assumes "cluster_ok zc" "b \<in> connected zc" "zc_clients zc b = Some c" "cl_refCount c = 1" "\<not> cl_isLinkdead c" "cl_handler c = Some p"
    "zc_handlers zc p = Some r" "1 < hr_refCount r" "name_ptr zc b = Some n"
  shows "\<exists>zc' s. displace h b zc = Inr zc' \<and> ss_strings (zc_strings zc) n = Some s \<and> zc_clients zc' b = None \<and> zc_mobs zc' b = None \<and>
    zc_handlers zc' p = Some (r\<lparr>hr_refCount := hr_refCount r - 1\<rparr>) \<and> ss_strings (zc_strings zc') n = string_drop s"
proof -
  note ok = cluster_okD [OF assms(1)]
  obtain k where k: "player zc b" "named zc b k" using ok(2) assms(2) by (auto simp: members_ok_def)
  obtain m s where x: "zc_mobs zc b = Some m" "mb_clientFriendlyName m = None" "mb_name m = Some n" "ss_strings (zc_strings zc) n = Some s"
    "\<not> cl_isStubClient c" using playerE [OF k] assms(3,9) by (metis option.inject)
  obtain zc1 where r: "zc_remove_connected_client h b False zc = Inr zc1" "tables_only zc zc1"
    by (rule remove_connected_ok [OF assms(1,2), of h])
  have same: "zone_same (zc_mobs zc) (zc_clients zc) (zc_mobs zc1) (zc_clients zc1)" "zc_strings zc1 = zc_strings zc" "zc_handlers zc1 = zc_handlers zc"
    using r(2) by (auto simp: tables_only_def)
  obtain c1 where c1: "zc_clients zc1 b = Some c1" "bare_client c1 = bare_client c" using bare_eqD(3) [OF same(1) assms(3)] by blast
  obtain m1 where m1: "zc_mobs zc1 b = Some m1" "bare_mob m1 = bare_mob m" using bare_eqD(1) [OF same(1) x(1)] by blast
  note fc = bare_client_field [OF c1(2)] and fm = bare_field [OF m1(2)]
  define zc2 where "zc2 = zc1\<lparr>zc_calls := zc_calls zc1 @ [ClientCall b (SendDisconnect p)]\<rparr>"
  have idem: "(zc_clients zc1)(b \<mapsto> c1) = zc_clients zc1" "(zc_mobs zc1)(b \<mapsto> m1) = zc_mobs zc1" using c1(1) m1(1) by (simp_all add: fun_upd_idem)
  have f: "on_client b (\<lambda>s. Inr (client_forcibly_disconnect s)) zc1 = Inr zc2"
    using c1(1) m1(1) fc assms(6,7) same(3) idem
    by (simp add: on_client_def client_at_def mob_at_def client_forcibly_disconnect_def emit_effect_def put_client_def note_call_def handler_at_def zc2_def)
  have "\<exists>hs calls. on_client b client_drop zc2 =
      Inr (zc2\<lparr>zc_clients := (zc_clients zc2)(b := None), zc_mobs := (zc_mobs zc2)(b := None),
        zc_strings := (zc_strings zc2)\<lparr>ss_strings := (ss_strings (zc_strings zc2))(n := string_drop s)\<rparr>, zc_handlers := hs, zc_calls := calls\<rparr>) \<and>
      (\<forall>p'. cl_handler c1 \<noteq> Some p' \<longrightarrow> hs p' = zc_handlers zc2 p') \<and>
      (\<forall>p' r'. cl_handler c1 = Some p' \<longrightarrow> zc_handlers zc2 p' = Some r' \<longrightarrow> hr_refCount r' > 1 \<longrightarrow> hs p' = Some (r'\<lparr>hr_refCount := hr_refCount r' - 1\<rparr>))"
    by (rule drop_freed [where m = m1]) (use c1(1) m1(1) fc fm x assms(4,6,7) same in \<open>auto simp: zc2_def\<close>)
  then obtain hs calls where d: "on_client b client_drop zc2 =
      Inr (zc2\<lparr>zc_clients := (zc_clients zc2)(b := None), zc_mobs := (zc_mobs zc2)(b := None),
        zc_strings := (zc_strings zc2)\<lparr>ss_strings := (ss_strings (zc_strings zc2))(n := string_drop s)\<rparr>, zc_handlers := hs, zc_calls := calls\<rparr>)"
      "hs p = Some (r\<lparr>hr_refCount := hr_refCount r - 1\<rparr>)"
    using fc assms(6-8) same(3) by (auto simp: zc2_def)
  have "displace h b zc = on_client b client_drop zc2"
    using r(1) c1(1) fc assms(5) f by (simp add: displace_def client_at_def client_is_linkdead_def)
  then show ?thesis using d x(4) same(2) by (simp add: zc2_def)
qed

lemma freed_disconnect: "zc_mobs zc b = None \<Longrightarrow> zone_client_on_disconnect h b isLinkdead zc = Inl UndefinedBehaviour"
  by (simp add: zone_client_on_disconnect_def client_zone_cluster_def mob_at_def)

lemma add_displaces:
  assumes "cluster_ok zc" "b \<in> connected zc" "named zc a k" "named zc b k" "name_ptr zc a = Some n"
  shows "zc_add_connected_client h a zc = bindE (displace h b zc) (admit h a n)"
proof -
  note ok = cluster_okD [OF assms(1)]
  have t: "table_inv (zc_connectedClientsByName zc)" "ht_contents (zc_connectedClientsByName zc) k = Some (ptr_bytes b)"
    using ok(1) assms(2,4) by (auto simp: tables_ok_def)
  have "b < 2 ^ 64" using ok(2) assms(2) by (simp add: members_ok_def)
  moreover obtain s r where n: "client_name zc a = Inr n" "string_at (zc_strings zc) n = Inr s" "str_data s = k @ 0 # r"
    "str_length s = of_nat (length k)" "0 \<notin> set k" "length k < 2 ^ 31" using assms(3,5) by (auto elim!: namedE)
  ultimately show ?thesis using get_spec [OF t(1) n(5), of r] t(2) by (simp add: add_connected_split)
qed

end
