(* ===== verification/Cluster_Demo.thy ===== *)
theory Cluster_Demo
  imports Cluster_Zoning Runtime_Properties
begin

text \<open>
  A small cluster on which the properties of zone clusters are tried: one zone, in it a player, and a
  second player of the same name outside.
\<close>

section \<open>Room\<close>

definition zone_size :: "zone \<Rightarrow> nat" where
  "zone_size z = length (ents z) + length (poss z) + length (clis z)"

definition small :: "nat \<Rightarrow> zc \<Rightarrow> bool" where
  "small n zc \<longleftrightarrow> pristine (ht_entries (zc_connectedClientsByName zc)) \<and> unat (ht_capacity (zc_connectedClientsByName zc)) \<le> 2 * 2 ^ n \<and>
     length (cons zc) \<le> n \<and> (\<forall>z zone. zc_zones zc z = Some zone \<longrightarrow> zone_size zone \<le> 3 * n)"

lemma small_fits: "small n zc \<Longrightarrow> n \<le> 20 \<Longrightarrow> cluster_fits zc"
proof -
  assume s: "small n zc" "n \<le> 20"
  have "2 * 2 ^ n \<le> (2 :: nat) * 2 ^ 20" using power_increasing [OF s(2), of "2 :: nat"] by simp
  then show ?thesis using s by (fastforce simp: small_def cluster_fits_def fits_def zone_size_def)
qed

lemma vec_push_length: "vec_push h esz v x = Inr v' \<Longrightarrow> length (vec_items v') = Suc (length (vec_items v))"
  by (auto simp: vec_push_def Let_def split: if_splits)

lemma spawn_client_size:
  assumes "zone_spawn_client h z a ms cs = Inr (z', ms', cs')"
  shows "zone_size z' \<le> zone_size z + 3"
proof -
  obtain es e ps ls x y where s: "zone_assign_entity_id h (zn_mobsByEntityId z) a = Inr (es, e)"
    "vec_push h sizeof_MobByPosition (zn_mobsByPosition z) x = Inr ps" "vec_push h sizeof_ClientListing (zn_clientList z) y = Inr ls"
    "zn_mobsByEntityId z' = es" "zn_mobsByPosition z' = ps" "zn_clientList z' = ls"
    using assms by (auto simp: zone_spawn_client_def zone_spawn_mob_def result_simps Let_def)
  have "length (vec_items es) \<le> Suc (length (ents z))"
    using s(1) by (auto simp: zone_assign_entity_id_def Let_def result_simps dest: vec_push_length split: option.splits)
  then show ?thesis using vec_push_length [OF s(2)] vec_push_length [OF s(3)] s(4-6) by (simp add: zone_size_def)
qed

lemma admit_small:
  assumes "admit h a n zc = Inr zc'" "small k zc"
  shows "small (Suc k) zc'"
proof -
  obtain s :: estring and t b c v where x: "hash_table_set_by_cstr h (zc_connectedClientsByName zc) (str_data s) (str_length s) (ptr_bytes a) = Inr (t, b)"
    "vec_push h sizeof_ConnectedClient (zc_connectedClients zc) c = Inr v"
    and e: "enter_zone h a (zc\<lparr>zc_connectedClientsByName := t, zc_connectedClients := v\<rparr>) = Inr zc'"
    using assms(1) by (auto simp: admit_def result_simps intro: that)
  obtain z zone zone' ms cs where y: "zc_zones zc z = Some zone" "zone_spawn_client h zone a (zc_mobs zc) (zc_clients zc) = Inr (zone', ms, cs)"
    "zc' = zc\<lparr>zc_connectedClientsByName := t, zc_connectedClients := v, zc_zones := (zc_zones zc)(z \<mapsto> zone'), zc_mobs := ms, zc_clients := cs\<rparr>"
    using e by (auto simp: enter_zone_def zone_at_def result_simps split: option.splits)
  have p: "pristine (ht_entries (zc_connectedClientsByName zc))" using assms(2) by (simp add: small_def)
  have "unat (ht_capacity (zc_connectedClientsByName zc) * 2) \<le> 2 * unat (ht_capacity (zc_connectedClientsByName zc))" by (simp add: unat_word_ariths)
  then have "pristine (ht_entries t) \<and> unat (ht_capacity t) \<le> 2 * unat (ht_capacity (zc_connectedClientsByName zc))"
    using set_grows [OF x(1) p] by auto
  then show ?thesis
    using assms(2) vec_push_length [OF x(2)] spawn_client_size [OF y(2)] y(1) by (fastforce simp: small_def y(3))
qed

section \<open>A zone\<close>

lemma demo_zone: "\<exists>zc. cluster_reach roomy zc \<and> connected zc = {} \<and> in_zones zc = {} \<and> small 0 zc \<and> zc_zones zc 1 \<noteq> None"
proof -
  obtain zc0 where z0: "zc_create roomy = Inr zc0"
    by (simp add: zc_create_def vec_create_def hash_table_create_def roomy_def Let_def)
  have i0: "zc_zones zc0 = Map.empty" "zc_next zc0 = 1" "vec_items (zc_zoneList zc0) = []" "vec_capacity (zc_zoneList zc0) = 2" "cons zc0 = []"
    "ht_entries (zc_connectedClientsByName zc0) = replicate 2 (fresh_entry 8)" "ht_capacity (zc_connectedClientsByName zc0) = 2"
    using z0 by (auto simp: zc_create_def vec_create_def hash_table_create_def roomy_def Let_def MIN_CAPACITY_def Hash_Table.DEFAULT_CAPACITY_def)
  obtain zone where zone: "zone_create roomy None 54 54 0 = Inr zone" by (simp add: zone_create_def vec_create_def roomy_def)
  have zs: "zone_size zone = 0" "zone_mobs zone = {}"
    using zone by (auto simp: zone_create_def vec_create_def roomy_def zone_size_def zone_mobs_def)
  obtain zc1 where z1: "zc_start_zone roomy (\<lambda>_. None) 54 zc0 = Inr zc1" "zc_zones zc1 = [1 \<mapsto> zone]"
    "zc_connectedClientsByName zc1 = zc_connectedClientsByName zc0" "zc_connectedClients zc1 = zc_connectedClients zc0"
    using i0 zone
    by (simp add: zc_start_zone_def Let_def note_call_def zc_get_zone_by_source_id_def vec_push_def vec_count_def EQP_SOURCE_ID_ZONE_INSTANCE_OFFSET_def
        EQP_SOURCE_ID_ZONE_INSTANCE_MAX_def EQP_SOURCE_ID_ZONE_CLUSTER_OFFSET_def EQP_SOURCE_ID_ZONE_MAX_def signed_divide_int_def signed_modulo_int_def)
  have "cluster_reach roomy zc1" by (rule started [OF created [OF z0] z1(1)]) (simp add: i0)
  moreover have "small 0 zc1" using i0 z1 zs by (auto simp: small_def pristine_def)
  ultimately show ?thesis using z1 i0 zs by (intro exI [of _ zc1]) (auto simp: connected_def in_zones_def)
qed

section \<open>Players\<close>

definition demo_key :: bytes where "demo_key = [0x41, 0x62]"

definition demo_name :: estring where
  "demo_name = \<lparr>str_length = 2, str_capacity = 4, str_refCount = 1, str_data = [0x41, 0x62, 0, 0, 0]\<rparr>"

lemma demo_name_is: "name_is demo_name demo_key"
  by (auto simp: name_is_def demo_name_def demo_key_def)

text \<open>A client at an address, with its name and its handler at others.\<close>

definition demo_client :: "nat \<Rightarrow> client" where
  "demo_client p = zero_client_struct\<lparr>cl_refCount := 1, cl_handler := Some p, cl_expansion := ExpansionId_Trilogy\<rparr>"

lemma demo_client_fields [simp]:
  "cl_refCount (demo_client p) = 1" "\<not> cl_isLinkdead (demo_client p)" "cl_handler (demo_client p) = Some p" "\<not> cl_isStubClient (demo_client p)"
  by (simp_all add: demo_client_def zero_client_struct_def)

definition demo_mob :: "nat \<Rightarrow> mob" where
  "demo_mob n = zero_mob\<lparr>mb_mobType := MobType_Client, mb_name := Some n, mb_zone := Some 1, mb_zoneCluster := Some ZC_ADDRESS\<rparr>"

definition demo_join :: "nat \<Rightarrow> nat \<Rightarrow> nat \<Rightarrow> zc \<Rightarrow> zc" where
  "demo_join a n p zc = zc\<lparr>zc_clients := (zc_clients zc)(a \<mapsto> demo_client p), zc_mobs := (zc_mobs zc)(a \<mapsto> demo_mob n),
     zc_strings := (zc_strings zc)\<lparr>ss_strings := (ss_strings (zc_strings zc))(n \<mapsto> demo_name)\<rparr>,
     zc_handlers := (zc_handlers zc)(p \<mapsto> \<lparr>hr_refCount = 2, hr_object = Some a\<rparr>)\<rparr>"

lemma demo_join_kept:
  assumes "a \<notin> connected zc" "a \<notin> in_zones zc" "\<forall>b \<in> connected zc. name_ptr zc b \<noteq> Some n"
  shows "cluster_kept zc (demo_join a n p zc)"
  using assms by (auto simp: cluster_kept_def demo_join_def in_zones_def)

lemma demo_join_newcomer:
  assumes "cluster_reach roomy zc" "a \<notin> connected zc" "a \<notin> in_zones zc" "\<forall>b \<in> connected zc. name_ptr zc b \<noteq> Some n" "a < 2 ^ 64" "zc_zones zc 1 \<noteq> None"
  shows "cluster_reach roomy (demo_join a n p zc) \<and> newcomer (demo_join a n p zc) a \<and> named (demo_join a n p zc) a demo_key \<and>
    name_ptr (demo_join a n p zc) a = Some n \<and> connected (demo_join a n p zc) = connected zc \<and> in_zones (demo_join a n p zc) = in_zones zc \<and>
    (\<forall>b \<in> connected zc. name_ptr (demo_join a n p zc) b = name_ptr zc b \<and> (\<forall>k. named (demo_join a n p zc) b k = named zc b k)) \<and>
    (\<forall>i. small i (demo_join a n p zc) = small i zc)"
proof -
  let ?zc = "demo_join a n p zc"
  have r: "cluster_reach roomy ?zc" by (rule elsewhere [OF assms(1) demo_join_kept [OF assms(2-4)]])
  have f: "connected ?zc = connected zc" "in_zones ?zc = in_zones zc" "zc_zones ?zc = zc_zones zc" "name_ptr ?zc a = Some n" "zone_ptr ?zc a = Some 1"
    "player ?zc a" "\<And>i. small i ?zc = small i zc"
    by (simp_all add: connected_def in_zones_def demo_join_def name_ptr_def zone_ptr_def player_def demo_mob_def demo_client_def zero_mob_def
        zero_client_struct_def small_def)
  have nm: "named ?zc a demo_key" using demo_name_is by (simp add: named_def demo_join_def demo_mob_def)
  have o: "name_ptr ?zc b = name_ptr zc b" if "b \<in> connected zc" for b
    using that assms(2) by (auto simp: name_ptr_def demo_join_def)
  have nb: "named ?zc b k = named zc b k" if "b \<in> connected zc" for b k
    by (rule named_cong [OF o [OF that]]) (use that assms(4) in \<open>auto simp: demo_join_def\<close>)
  have "newcomer ?zc a" using f nm o assms(2-6) by (auto simp: newcomer_def detached_def)
  then show ?thesis using r f nm o nb by blast
qed

definition demo_alone :: "zc \<Rightarrow> bool" where
  "demo_alone zc \<longleftrightarrow> cluster_reach roomy zc \<and> connected zc = {5} \<and> in_zones zc = {5} \<and> small 1 zc \<and> zc_zones zc 1 \<noteq> None \<and> named zc 5 demo_key \<and>
     name_ptr zc 5 = Some 3 \<and> ss_strings (zc_strings zc) 3 = Some demo_name \<and> zc_handlers zc 7 = Some \<lparr>hr_refCount = 2, hr_object = Some 5\<rparr> \<and>
     (\<exists>c. zc_clients zc 5 = Some c \<and> cl_refCount c = 1 \<and> \<not> cl_isLinkdead c \<and> cl_handler c = Some 7 \<and> \<not> cl_isStubClient c) \<and> client_zone_cluster zc 5 = Inr ZC_ADDRESS"

lemma demo_alone: "\<exists>zc. demo_alone zc"
proof -
  obtain zc0 where z: "cluster_reach roomy zc0" "connected zc0 = {}" "in_zones zc0 = {}" "small 0 zc0" "zc_zones zc0 1 \<noteq> None" using demo_zone by blast
  define zc where "zc = demo_join 5 3 7 zc0"
  have pre: "5 \<notin> connected zc0" "5 \<notin> in_zones zc0" "\<forall>b \<in> connected zc0. name_ptr zc0 b \<noteq> Some 3" "(5 :: nat) < 2 ^ 64" by (simp_all add: z)
  note J = demo_join_newcomer [OF z(1) pre z(5), of 7, folded zc_def]
  have j: "cluster_reach roomy zc" "newcomer zc 5" "named zc 5 demo_key" "name_ptr zc 5 = Some 3" "connected zc = {}" "in_zones zc = {}" "small 0 zc"
    using J z(2-4) by simp_all
  have f: "cluster_fits zc" by (rule small_fits [OF j(7)]) simp
  have ok: "cluster_ok zc" by (rule cluster_reach_ok [OF j(1) ample_roomy])
  have "\<exists>n. name_ptr zc 5 = Some n \<and> zc_add_connected_client roomy 5 zc = admit roomy 5 n zc \<and> ht_contents (zc_connectedClientsByName zc) demo_key = None"
    by (rule add_connected_fresh [OF ok j(2) f ample_roomy j(3)]) (simp add: j(5))
  then have a: "zc_add_connected_client roomy 5 zc = admit roomy 5 3 zc" "ht_contents (zc_connectedClientsByName zc) demo_key = None" using j(4) by auto
  obtain zc' where e: "admit roomy 5 3 zc = Inr zc'" "connected zc' = insert 5 (connected zc)" "named zc' 5 demo_key"
    "zone_same (zc_mobs zc) (zc_clients zc) (zc_mobs zc') (zc_clients zc')" "zc_strings zc' = zc_strings zc" "zc_handlers zc' = zc_handlers zc"
    "dom (zc_zones zc') = dom (zc_zones zc)" "in_zones zc' = insert 5 (in_zones zc)"
    using admit_ok [OF ok j(2) f ample_roomy j(3,4) a(2)] by (elim exE conjE) (rule that; assumption)
  have r: "cluster_reach roomy zc'" by (rule entered [OF j(1,2) f]) (simp add: a(1) e(1))
  have "zc_clients zc 5 = Some (demo_client 7)" by (simp add: zc_def demo_join_def)
  then obtain c where c: "zc_clients zc' 5 = Some c" "bare_client c = bare_client (demo_client 7)" using bare_eqD(3) [OF e(4)] by blast
  note cf = bare_client_field [OF c(2)]
  have "zc_zones zc' 1 \<noteq> None" using e(7) z(5) by (auto simp: zc_def demo_join_def dom_def)
  moreover have "cl_refCount c = 1 \<and> \<not> cl_isLinkdead c \<and> cl_handler c = Some 7 \<and> \<not> cl_isStubClient c" using cf by simp
  moreover have "name_ptr zc' 5 = Some 3" using same_ptrs(1) [OF e(4), of 5] j(4) by simp
  moreover have "ss_strings (zc_strings zc') 3 = Some demo_name" "zc_handlers zc' 7 = Some \<lparr>hr_refCount = 2, hr_object = Some 5\<rparr>"
    by (simp_all add: e(5,6) zc_def demo_join_def)
  moreover have "client_zone_cluster zc' 5 = Inr ZC_ADDRESS"
  proof -
    have "zc_mobs zc 5 = Some (demo_mob 3)" by (simp add: zc_def demo_join_def)
    then obtain m where "zc_mobs zc' 5 = Some m" "bare_mob m = bare_mob (demo_mob 3)" using bare_eqD(1) [OF e(4)] by blast
    then show ?thesis using bare_field [of m "demo_mob 3"] by (simp add: client_zone_cluster_def mob_at_def demo_mob_def)
  qed
  moreover have "small 1 zc'" using admit_small [OF e(1) j(7)] by simp
  ultimately have "demo_alone zc'" unfolding demo_alone_def using r e(2,3,8) j(5,6) c(1) by simp
  then show ?thesis by blast
qed

end
