(* ===== verification/Cluster_Properties.thy ===== *)
theory Cluster_Properties
  imports Client_Properties Cluster_Demo
begin

text \<open>
  What is promised of a zone cluster: its tables of connected clients agree, a player the master has
  announced is found when it connects; and what a second client of the same name does.
\<close>

section \<open>Connected clients\<close>



section \<open>Zoning in\<close>

text \<open>C37. When the master announces a player for a running zone, a client is created for it, its data are
  asked for, and it waits under its name; when a connection then says this name, the client gets the
  connection, its version and the handler gets the client, the name is free again, the stub is freed, and
  nothing is sent yet, since nothing has been loaded.\<close>

theorem announced_player_found:
  assumes "ample h" "table_inv (zc_expectedClientsByName zc)" "ht_elemSize (zc_expectedClientsByName zc) = 8"
    "unat (ht_capacity (zc_expectedClientsByName zc)) \<le> 2 ^ 30" "sizeof_Server_ClientZoning \<le> length data"
    "zc_get_zone_by_source_id zc sourceId = Some z" "cz_characterName (zoning_at data) = k @ 0 # r" "0 \<notin> set k"
    "0 \<in> set (cz_accountName (zoning_at data))" "ht_contents (zc_expectedClientsByName zc) k = None" "zc_next zc < 2 ^ 64"
    "zc_clients zc stub = Some st" "stub \<noteq> zc_next zc" "zc_handlers zc p = Some hr"
  shows "\<exists>zc1 zc2 c m. zc_client_expected_to_zone_in h sourceId data zc = Inr zc1 \<and>
    zc_calls zc1 = zc_calls zc @ announced_calls (zc_next zc) (cz_characterId (zoning_at data)) \<and>
    zc_client_match_with_expected stub p (k @ 0 # r') zc1 = Inr zc2 \<and>
    zc_clients zc2 (zc_next zc) = Some c \<and> cl_handler c = Some p \<and> cl_expansion c = cl_expansion st \<and>
    cl_characterId c = cz_characterId (zoning_at data) \<and> cl_refCount c = 6 \<and>
    zc_mobs zc2 (zc_next zc) = Some m \<and> mb_zone m = Some z \<and> named zc2 (zc_next zc) k \<and>
    zc_handlers zc2 p = Some (hr\<lparr>hr_object := Some (zc_next zc)\<rparr>) \<and> zc_clients zc2 stub = None \<and>
    ht_contents (zc_expectedClientsByName zc2) = ht_contents (zc_expectedClientsByName zc) \<and> zc_calls zc2 = zc_calls zc1"
proof -
  define a where "a = zc_next zc"
  have "length (cz_characterName (zoning_at data)) \<le> 32" by (simp add: zoning_at_def Let_def slice_def)
  then have k31: "length k < 2 ^ 31" using assms(7) by simp
  obtain zc1 s where e: "zc_client_expected_to_zone_in h sourceId data zc = Inr zc1" "client_create h ZC_ADDRESS z (zoning_at data) (zc_strings zc) = Inr s"
    "table_inv (zc_expectedClientsByName zc1)" "ht_contents (zc_expectedClientsByName zc1) = (ht_contents (zc_expectedClientsByName zc))(k \<mapsto> ptr_bytes a)"
    and zc1: "zc1 = (put_client a s zc)\<lparr>zc_next := Suc a, zc_calls := zc_calls zc @ announced_calls a (cz_characterId (zoning_at data)),
      zc_timers := zc_timers zc @ [(EQP_CLIENT_ZONE_IN_EXPECTED_TIMEOUT, zc_expected_client_timeout a)],
      zc_expectedClientsByName := zc_expectedClientsByName zc1\<rparr>"
    using expected_registered [OF assms(1-10)] unfolding a_def by blast
  obtain n str where f: "mb_name (cs_mob s) = Some n" "ss_strings (cs_strings s) n = Some str" "name_is str k" "mb_zone (cs_mob s) = Some z"
    "cl_refCount (cs_client s) = 6" "cl_loaded (cs_client s) = 0" "cl_characterId (cs_client s) = cz_characterId (zoning_at data)"
    using client_create_fields [OF e(2) assms(1,7,8) k31] by blast
  have v: "zc_clients zc1 = (zc_clients zc)(a \<mapsto> cs_client s)" "zc_mobs zc1 = (zc_mobs zc)(a \<mapsto> cs_mob s)" "zc_strings zc1 = cs_strings s"
    "zc_handlers zc1 = zc_handlers zc" "zc_calls zc1 = zc_calls zc @ announced_calls a (cz_characterId (zoning_at data))"
    by (subst zc1, simp add: put_client_def)+
  have ne: "stub \<noteq> a" using assms(13) by (simp add: a_def)
  define c where "c = (cs_client s)\<lparr>cl_handler := Some p, cl_expansion := cl_expansion st, cl_loaded := 0x81\<rparr>"
  have "\<exists>t. zc_client_match_with_expected stub p (k @ 0 # r') zc1 =
      Inr (zc1\<lparr>zc_expectedClientsByName := t, zc_clients := (zc_clients zc1)(a \<mapsto> c, stub := None),
        zc_mobs := (zc_mobs zc1)(stub := None), zc_handlers := (zc_handlers zc1)(p \<mapsto> hr\<lparr>hr_object := Some a\<rparr>), zc_calls := zc_calls zc1\<rparr>) \<and>
      remove_done (zc_expectedClientsByName zc1) k t"
    using matched [OF e(3) assms(8) k31, of a "cs_client s" "cs_mob s" stub st p hr r'] e(4) v ne assms(11,12,14) f(6)
    by (simp add: a_def c_def)
  then obtain t where m: "zc_client_match_with_expected stub p (k @ 0 # r') zc1 =
      Inr (zc1\<lparr>zc_expectedClientsByName := t, zc_clients := (zc_clients zc1)(a \<mapsto> c, stub := None),
        zc_mobs := (zc_mobs zc1)(stub := None), zc_handlers := (zc_handlers zc1)(p \<mapsto> hr\<lparr>hr_object := Some a\<rparr>), zc_calls := zc_calls zc1\<rparr>)"
      "remove_done (zc_expectedClientsByName zc1) k t" by blast
  have "ht_contents t = ht_contents (zc_expectedClientsByName zc)" using m(2) e(4) assms(10) by (simp add: remove_done_def fun_upd_idem)
  moreover have "cl_handler c = Some p" "cl_expansion c = cl_expansion st" "cl_characterId c = cz_characterId (zoning_at data)" "cl_refCount c = 6"
    using f by (simp_all add: c_def)
  ultimately show ?thesis
    unfolding a_def [symmetric] using e(1) m(1) v ne f
    by (intro exI [of _ zc1] exI [of _ "zc1\<lparr>zc_expectedClientsByName := t, zc_clients := (zc_clients zc1)(a \<mapsto> c, stub := None),
        zc_mobs := (zc_mobs zc1)(stub := None), zc_handlers := (zc_handlers zc1)(p \<mapsto> hr\<lparr>hr_object := Some a\<rparr>), zc_calls := zc_calls zc1\<rparr>"]
        exI [of _ c] exI [of _ "cs_mob s"]) (simp add: named_def)
qed

definition announcement :: bytes where
  "announcement = replicate 8 0 @ [42] @ replicate 15 0 @ [0x61] @ replicate 63 0 @ [0x41, 0x62] @ replicate 30 0"

definition empty_table :: table where
  "empty_table = \<lparr>ht_capacity = 2, ht_elemSize = 8, ht_freeIndex = 0, ht_entSize = 24, ht_entries = replicate 2 (fresh_entry 8)\<rparr>"

lemma empty_table: "table_inv empty_table" "ht_contents empty_table = Map.empty"
proof -
  have "hash_table_create roomy 8 = Inr empty_table"
    by (simp add: hash_table_create_def roomy_def Let_def empty_table_def Hash_Table.DEFAULT_CAPACITY_def hash_table_ent_size_def sizeof_HashTable_Entry_def)
  from create_spec [OF this] show "table_inv empty_table" "ht_contents empty_table = Map.empty" by simp_all
qed

text \<open>A cluster with one zone, and a stub at 9 whose handler is at 7.\<close>

definition waiting_zc :: zc where
  "waiting_zc = \<lparr>zc_zoneList = \<lparr>vec_capacity = 2, vec_items = [\<lparr>zs_sourceId = 54, zs_zone = 1\<rparr>]\<rparr>,
     zc_expectedClientsByName = empty_table, zc_connectedClients = \<lparr>vec_capacity = 2, vec_items = []\<rparr>, zc_connectedClientsByName = empty_table,
     zc_timers = [], zc_zones = Map.empty, zc_clients = [9 \<mapsto> zero_client_struct\<lparr>cl_expansion := ExpansionId_Trilogy\<rparr>], zc_mobs = Map.empty,
     zc_strings = \<lparr>ss_strings = Map.empty, ss_next = 1\<rparr>, zc_handlers = [7 \<mapsto> \<lparr>hr_refCount = 2, hr_object = Some 9\<rparr>], zc_next = 20, zc_calls = []\<rparr>"

lemma announcement_zoning:
  "length announcement = 120" "cz_characterName (zoning_at announcement) = demo_key @ 0 # replicate 29 0"
  "0 \<in> set (cz_accountName (zoning_at announcement))" "cz_characterId (zoning_at announcement) = 42"
  by code_simp+

theorem announced_player_found_witness:
  "\<exists>zc1 zc2 c. zc_client_expected_to_zone_in roomy 54 announcement waiting_zc = Inr zc1 \<and>
    zc_client_match_with_expected 9 7 (demo_key @ [0]) zc1 = Inr zc2 \<and> zc_clients zc2 20 = Some c \<and> cl_handler c = Some 7 \<and>
    cl_characterId c = 42 \<and> cl_expansion c = ExpansionId_Trilogy"
  using announced_player_found [OF ample_roomy, of waiting_zc announcement 54 1 demo_key "replicate 29 0" 9
      "zero_client_struct\<lparr>cl_expansion := ExpansionId_Trilogy\<rparr>" 7 "\<lparr>hr_refCount = 2, hr_object = Some 9\<rparr>" "[]"]
    announcement_zoning empty_table
  by (auto simp: waiting_zc_def zc_get_zone_by_source_id_def sizeof_Server_ClientZoning_def demo_key_def empty_table_def)

section \<open>Two clients of one name\<close>

text \<open>C38. When a player enters whose name is still connected, the cluster frees the old client and drops its
  handler, but the socket still holds this handler and the handler its client object: the end of that connection,
  closed or timed out, uses the freed client.\<close>

theorem second_login_dangles:
  assumes "cluster_reach h zc" "ample h" "newcomer zc a" "cluster_fits zc" "b \<in> connected zc" "named zc a k" "named zc b k"
    "zc_clients zc b = Some c" "cl_refCount c = 1" "\<not> cl_isLinkdead c" "cl_handler c = Some p"
    "zc_handlers zc p = Some r" "1 < hr_refCount r" "hr_object r = Some b"
  shows "\<exists>zc' r'. zc_add_connected_client h a zc = Inr zc' \<and> connected zc' = insert a (connected zc - {b}) \<and>
    zc_clients zc' b = None \<and> zc_handlers zc' p = Some r' \<and> hr_object r' = Some b \<and>
    (\<forall>isLinkdead. zone_client_on_disconnect h b isLinkdead zc' = Inl UndefinedBehaviour)"
proof -
  have ok: "cluster_ok zc" by (rule cluster_reach_ok [OF assms(1,2)])
  note okd = cluster_okD [OF ok]
  obtain n nb where n: "name_ptr zc a = Some n" "name_ptr zc b = Some nb" using assms(6,7) by (auto simp: named_iff)
  obtain zc1 where d: "displace h b zc = Inr zc1" "zc_clients zc1 b = None" "zc_mobs zc1 b = None"
    "zc_handlers zc1 p = Some (r\<lparr>hr_refCount := hr_refCount r - 1\<rparr>)"
    using displaced_freed [OF ok assms(5,8-13) n(2), of h] by blast
  note dp = displace_ok [OF ok assms(3,4,5) d(1)]
  have nm: "named zc1 a k" using dp assms(6) by simp
  have free: "ht_contents (zc_connectedClientsByName zc1) k = None"
  proof (rule ccontr)
    assume "ht_contents (zc_connectedClientsByName zc1) k \<noteq> None"
    then obtain x where "x \<in> connected zc1" "named zc1 x k" using dp by (auto simp: cluster_ok_def tables_ok_def)
    then have "x \<in> connected zc" "x \<noteq> b" "named zc x k" using dp by auto
    then show False using name_taken_once [OF okd(1,2) assms(5) _ assms(7)] by blast
  qed
  obtain zc' where e: "admit h a n zc1 = Inr zc'" "connected zc' = insert a (connected zc1)"
    "zone_same (zc_mobs zc1) (zc_clients zc1) (zc_mobs zc') (zc_clients zc')" "zc_handlers zc' = zc_handlers zc1"
    using admit_ok [OF _ _ _ assms(2) nm _ free, of n] dp n(1) by (elim exE conjE) auto
  have "zc_mobs zc' b = None" "zc_clients zc' b = None" using e(3) d(2,3) unfolding zone_same_def by (metis option.map_disc_iff)+
  then show ?thesis
    using add_displaces [OF ok assms(5-7) n(1), of h] d e dp assms(14) freed_disconnect [of zc' b h] by simp
qed

theorem second_login_dangles_witness:
  "\<exists>zc zc'. cluster_reach roomy zc \<and> connected zc = {5} \<and> zc_add_connected_client roomy 6 zc = Inr zc' \<and> connected zc' = {6} \<and>
    zc_clients zc' 5 = None \<and> zone_client_on_disconnect roomy 5 True zc' = Inl UndefinedBehaviour"
proof -
  obtain zc0 where "demo_alone zc0" using demo_alone by blast
  then obtain c where z: "cluster_reach roomy zc0" "connected zc0 = {5}" "in_zones zc0 = {5}" "small 1 zc0" "zc_zones zc0 1 \<noteq> None" "named zc0 5 demo_key"
    "name_ptr zc0 5 = Some 3" "zc_handlers zc0 7 = Some \<lparr>hr_refCount = 2, hr_object = Some 5\<rparr>"
    "zc_clients zc0 5 = Some c" "cl_refCount c = 1" "\<not> cl_isLinkdead c" "cl_handler c = Some 7" by (auto simp: demo_alone_def)
  define zc where "zc = demo_join 6 4 8 zc0"
  have pre: "6 \<notin> connected zc0" "6 \<notin> in_zones zc0" "\<forall>b \<in> connected zc0. name_ptr zc0 b \<noteq> Some 4" "(6 :: nat) < 2 ^ 64" by (simp_all add: z)
  note J = demo_join_newcomer [OF z(1) pre z(5), of 8, folded zc_def]
  have j: "cluster_reach roomy zc" "newcomer zc 6" "named zc 6 demo_key" "connected zc = {5}" "named zc 5 demo_key" "small 1 zc"
    using J z(2,4,6) by simp_all
  have f: "cluster_fits zc" by (rule small_fits [OF j(6)]) simp
  have h: "zc_handlers zc 7 = Some \<lparr>hr_refCount = 2, hr_object = Some 5\<rparr>" "zc_clients zc 5 = Some c" using z(8,9) by (simp_all add: zc_def demo_join_def)
  show ?thesis
    using second_login_dangles [OF j(1) ample_roomy j(2) f _ j(3,5) h(2) z(10-12) h(1)] j(1,4) by auto
qed

text \<open>C39. A player that is in its zone and sends the packet to enter it once more is displaced by itself: the client is
  freed, and the name it is to be entered under is read from freed memory.\<close>

theorem entering_twice_crashes:
  assumes "cluster_reach h zc" "ample h" "a \<in> connected zc" "zc_clients zc a = Some c" "cl_refCount c = 1" "\<not> cl_isLinkdead c"
    "cl_handler c = Some p" "zc_handlers zc p = Some r" "1 < hr_refCount r" "name_ptr zc a = Some n" "ss_strings (zc_strings zc) n = Some s" "str_refCount s = 1"
  shows "zone_client_recv_packet_trilogy h protos now a TrilogyOp_EnterZone al zc = Inl UndefinedBehaviour"
proof -
  have ok: "cluster_ok zc" by (rule cluster_reach_ok [OF assms(1,2)])
  note okd = cluster_okD [OF ok]
  obtain k where k: "named zc a k" using okd(2) assms(3) by (auto simp: members_ok_def)
  have "player zc a" using okd(2) assms(3) by (simp add: members_ok_def)
  then have ns: "\<not> cl_isStubClient c" using assms(4) by (auto simp: player_def)
  obtain zc1 where d: "displace h a zc = Inr zc1" "ss_strings (zc_strings zc1) n = string_drop s"
    using displaced_freed [OF ok assms(3-10), of h] assms(11) by auto
  have "string_drop s = None" using assms(12) by (simp add: string_drop_def)
  then have "admit h a n zc1 = Inl UndefinedBehaviour" using d(2) by (simp add: admit_def string_at_def)
  then have "zc_add_connected_client h a zc = Inl UndefinedBehaviour" using add_displaces [OF ok assms(3) k k assms(10), of h] d(1) by simp
  then show ?thesis
    using assms(4,7,8) ns
    by (simp add: zone_client_recv_packet_trilogy_def client_live_handler_def client_at_def handler_at_def client_trilogy_handle_op_enter_zone_def
        input_opcodes)
qed

theorem entering_twice_crashes_witness:
  "\<exists>zc. cluster_reach roomy zc \<and> connected zc = {5} \<and>
    zone_client_recv_packet_trilogy roomy Map.empty 0 5 TrilogyOp_EnterZone (aligned_init [] 0) zc = Inl UndefinedBehaviour"
proof -
  obtain zc where "demo_alone zc" using demo_alone by blast
  then obtain c where z: "cluster_reach roomy zc" "connected zc = {5}" "name_ptr zc 5 = Some 3" "ss_strings (zc_strings zc) 3 = Some demo_name"
    "zc_handlers zc 7 = Some \<lparr>hr_refCount = 2, hr_object = Some 5\<rparr>" "zc_clients zc 5 = Some c" "cl_refCount c = 1" "\<not> cl_isLinkdead c"
    "cl_handler c = Some 7" by (auto simp: demo_alone_def)
  have "str_refCount demo_name = 1" by (simp add: demo_name_def)
  from entering_twice_crashes [OF z(1) ample_roomy _ z(6-9,5) _ z(3,4) this, of Map.empty 0 "aligned_init [] 0"] z(1,2)
  show ?thesis by auto
qed

text \<open>C40. The timer of an expected client is not stopped when the client is found. When another client of
  the same name is expected at the time it fires, it forgets that one and drops the client that is in its zone: freed,
  it stays in the list of connected clients.\<close>

theorem stale_timer_frees_player:
  assumes "cluster_reach h zc" "ample h" "a \<in> connected zc" "named zc a k" "zc_clients zc a = Some c" "cl_refCount c = 1"
    "\<And>p. cl_handler c = Some p \<Longrightarrow> zc_handlers zc p \<noteq> None" "client_zone_cluster zc a = Inr z"
    "table_inv (zc_expectedClientsByName zc)" "ht_contents (zc_expectedClientsByName zc) k = Some v"
  shows "\<exists>zc'. zc_expected_client_timeout_callback a zc = Inr zc' \<and> a \<in> connected zc' \<and> zc_clients zc' a = None \<and>
    ht_contents (zc_expectedClientsByName zc') k = None"
proof -
  have ok: "cluster_ok zc" by (rule cluster_reach_ok [OF assms(1,2)])
  note okd = cluster_okD [OF ok]
  have "player zc a" using okd(2) assms(3) by (simp add: members_ok_def)
  then obtain m n s where x: "zc_mobs zc a = Some m" "mb_clientFriendlyName m = None" "\<not> cl_isStubClient c" "mb_name m = Some n" "ss_strings (zc_strings zc) n = Some s"
    using playerE [OF _ assms(4)] assms(5) by (metis option.inject)
  have ns: "client_name zc a = Inr n" "string_at (zc_strings zc) n = Inr s" using x by (simp_all add: client_name_def mob_at_def string_at_def)
  obtain r where k: "str_data s = k @ 0 # r" "str_length s = of_nat (length k)" "0 \<notin> set k" "length k < 2 ^ 31"
    using assms(4) x(1,4,5) by (auto simp: named_def name_is_def)
  have k32: "length k < 2 ^ 32" using k(4) by simp
  obtain t where t: "hash_table_remove_by_cstr (zc_expectedClientsByName zc) (k @ 0 # r) (of_nat (length k)) = Inr t"
    "remove_done (zc_expectedClientsByName zc) k t" by (rule remove_spec [OF assms(9) k(3) k32, of r])
  define zc1 where "zc1 = zc\<lparr>zc_expectedClientsByName := t\<rparr>"
  have "\<exists>hs calls. on_client a client_drop zc1 =
      Inr (zc1\<lparr>zc_clients := (zc_clients zc1)(a := None), zc_mobs := (zc_mobs zc1)(a := None),
        zc_strings := (zc_strings zc1)\<lparr>ss_strings := (ss_strings (zc_strings zc1))(n := string_drop s)\<rparr>, zc_handlers := hs, zc_calls := calls\<rparr>) \<and>
      (\<forall>p. cl_handler c \<noteq> Some p \<longrightarrow> hs p = zc_handlers zc1 p) \<and>
      (\<forall>p r. cl_handler c = Some p \<longrightarrow> zc_handlers zc1 p = Some r \<longrightarrow> hr_refCount r > 1 \<longrightarrow> hs p = Some (r\<lparr>hr_refCount := hr_refCount r - 1\<rparr>))"
    by (rule drop_freed [where m = m]) (use x assms(5-7) in \<open>auto simp: zc1_def\<close>)
  then obtain hs calls where d: "on_client a client_drop zc1 =
      Inr (zc1\<lparr>zc_clients := (zc_clients zc1)(a := None), zc_mobs := (zc_mobs zc1)(a := None),
        zc_strings := (zc_strings zc1)\<lparr>ss_strings := (ss_strings (zc_strings zc1))(n := string_drop s)\<rparr>, zc_handlers := hs, zc_calls := calls\<rparr>)" by blast
  show ?thesis
    using assms(3,8,10) ns k t d get_spec [OF assms(9) k(3) k32, of r]
    by (simp add: zc_expected_client_timeout_callback_def zc1_def [symmetric] timer_destroy_for_def connected_def)
       (simp add: zc1_def remove_done_def)
qed

theorem stale_timer_frees_player_witness:
  "\<exists>zc zc'. cluster_reach roomy zc \<and> connected zc = {5} \<and> zc_expected_client_timeout_callback 5 zc = Inr zc' \<and> 5 \<in> connected zc' \<and> zc_clients zc' 5 = None"
proof -
  obtain zc0 where "demo_alone zc0" using demo_alone by blast
  then obtain c where z: "cluster_reach roomy zc0" "connected zc0 = {5}" "named zc0 5 demo_key" "zc_handlers zc0 7 = Some \<lparr>hr_refCount = 2, hr_object = Some 5\<rparr>"
    "zc_clients zc0 5 = Some c" "cl_refCount c = 1" "cl_handler c = Some 7" "client_zone_cluster zc0 5 = Inr ZC_ADDRESS" by (auto simp: demo_alone_def)
  have al: "alloc_ok roomy demo_key" "grow_ok roomy empty_table" by (simp_all add: alloc_ok_def grow_ok_def demo_key_def empty_table_def roomy_def)
  have kv: "0 \<notin> set demo_key" "unat (ht_elemSize empty_table) \<le> length (ptr_bytes 6)" by (simp_all add: demo_key_def empty_table_def)
  obtain t b where "set_done empty_table demo_key (take (unat (ht_elemSize empty_table)) (ptr_bytes 6)) t b"
    by (rule set_spec [OF empty_table(1) kv(1) al(1) kv(2) al(2), of "[]"])
  then have t: "table_inv t" "\<exists>v. ht_contents t demo_key = Some v" by (auto simp: set_done_def empty_table(2))
  then obtain v where v: "ht_contents t demo_key = Some v" by blast
  define zc where "zc = zc0\<lparr>zc_expectedClientsByName := t\<rparr>"
  have r: "cluster_reach roomy zc" by (rule elsewhere [OF z(1)]) (simp add: cluster_kept_def zc_def)
  have f: "connected zc = {5}" "named zc 5 demo_key" "zc_clients zc 5 = Some c" "client_zone_cluster zc 5 = Inr ZC_ADDRESS"
    "table_inv (zc_expectedClientsByName zc)" "ht_contents (zc_expectedClientsByName zc) demo_key = Some v" "zc_handlers zc 7 \<noteq> None"
    using z t(1) v by (simp_all add: zc_def connected_def named_def client_zone_cluster_def)
  show ?thesis using stale_timer_frees_player [OF r ample_roomy _ f(2,3) z(6) _ f(4-6)] f(1,7) z(7) r by auto
qed

end
