(* ===== verification/Spec2Isabelle.thy ===== *)
theory Spec2Isabelle
  imports Foundation_Properties Runtime_Properties Net_Properties Packet_Properties Cluster_Properties Item_Prototype
begin

text \<open>
  \<^bold>\<open>EQP, a server for a role-playing game: a verification library.\<close>

  The program is a set of executables under \<^verbatim>\<open>src/src\<close>. A master starts the others and sends
  them packets through rings in shared memory; a login server and a character selection talk to players before
  they play; zone clusters run the zones of the world and talk to the players in them over UDP; a log
  writer keeps the logs; tools prepare maps and items. All share the containers, the byte cursor, the
  timers and the rings of \<^verbatim>\<open>common\<close>; all that talk to players share the network code
  of \<^verbatim>\<open>non_master\<close>. The library follows a zone cluster from the bottom up: what its
  containers promise, how a datagram becomes a packet, what a player's packet does to the zone, and what is
  sent back.

  \<^bold>\<open>How the code is read.\<close> A function of the code is a function here with the same name, a struct is
  a record, an enum a datatype or a number. Machine integers are words of their width, so sums wrap where
  they do in C; floats are their bits. A function that can throw returns \<open>error + 'a\<close>: the errors
  are those of \<^verbatim>\<open>error_codes.h\<close>, and \<open>UndefinedBehaviour\<close>
  stands for what C does not define, such as an access outside a block or through a pointer to something
  freed. Memory comes from a \<open>heap\<close>, which says which requests are granted and what uninitialised
  memory holds. Shared objects (strings, mobs, clients, zones, handlers) live in stores, maps from addresses.
  A call of another part of the program that gives nothing back is recorded in a list, in order.

  \<^bold>\<open>Foundation.\<close>
  \<^item> \<open>Prelude\<close>: errors, results, the heap, blocks of bytes
    (\<^verbatim>\<open>error_codes.h\<close>, \<^verbatim>\<open>eqp_alloc.c\<close>,
    \<^verbatim>\<open>netcode.h\<close>), and what is shared by the proofs.
  \<^item> \<open>Bits\<close> (\<^verbatim>\<open>bit.c\<close>): the next power of two.
  \<^item> \<open>Dyn_Array\<close> (\<^verbatim>\<open>eqp_array.c\<close>): the array byte by byte, its
    invariant, and that it implements a list; \<open>Vec\<close>: the array as its clients see it, tied to
    the bytes by a simulation.
  \<^item> \<open>Aligned\<close> (\<^verbatim>\<open>aligned.c\<close>): the cursor all packets are read and written with.
  \<^item> \<open>Crc\<close> (\<^verbatim>\<open>crc.c\<close>): the checksum is the division of polynomials.
  \<^item> \<open>Eqp_String\<close> (\<^verbatim>\<open>eqp_string.c\<close>): the growing string.
  \<^item> \<open>Hash_Table\<close>, \<open>Chains\<close>, \<open>Hash_Table_Correct\<close>,
    \<open>Hash_Table_Growth\<close> (\<^verbatim>\<open>eqp_hash_table.c\<close>): chains threaded through
    one array, the invariant, that it implements a finite map, and how large it gets. The walk along a chain
    has as much fuel as there are slots, which is enough since chains have no cycles; setting a key runs at
    most twice, since growing leaves a free slot.
  \<^item> \<open>Foundation_Properties\<close>: the claims on these.

  \<^bold>\<open>Running.\<close>
  \<^item> \<open>Timer_Pool\<close> (\<^verbatim>\<open>timer.c\<close>, \<^verbatim>\<open>timer_pool.c\<close>):
    timers and their pool; callbacks and the clock are parameters.
  \<^item> \<open>Ipc_Buffer\<close> (\<^verbatim>\<open>ipc_buffer.c\<close>, \<^verbatim>\<open>eqp_semaphore.c\<close>,
    \<^verbatim>\<open>atomic_mutex.c\<close>, \<^verbatim>\<open>ipc_set.c\<close>): the rings
    between processes, one call at a time. A writer tries for ten milliseconds, as in the code; receiving has
    fuel for one more packet than the ring holds.
  \<^item> \<open>Runtime_Properties\<close>: a cycle of the timers, a ring is a queue.

  \<^bold>\<open>Network.\<close>
  \<^item> \<open>Packet_Trilogy\<close> (\<^verbatim>\<open>packet_trilogy.c\<close>, \<^verbatim>\<open>ack_common.c\<close>):
    packets and their fragments, numbers in a window.
  \<^item> \<open>Network_Client\<close> (\<^verbatim>\<open>network_client.c\<close>,
    \<^verbatim>\<open>network_client_trilogy.c\<close>): sending and resending.
  \<^item> \<open>Ack_Mgr\<close>, \<open>Ack_Mgr_Correct\<close> (\<^verbatim>\<open>ack_mgr_trilogy.c\<close>):
    order and reassembly of what comes in.
  \<^item> \<open>Protocol_Handler\<close>, \<open>Standard_Protocol\<close>, \<open>Wire_Format\<close>
    (\<^verbatim>\<open>protocol_handler*.c\<close>): the two variants of the protocol; what one side sends the
    other accepts. The standard variant unpacks packets within packets; its recursion has the length of the
    datagram as fuel, which is enough since every level is shorter. The decompression of zlib is a
    parameter.
  \<^item> \<open>Udp_Socket\<close> (\<^verbatim>\<open>udp_socket.c\<close>, \<^verbatim>\<open>udp_client.c\<close>):
    the table of connections.
  \<^item> \<open>Net_Properties\<close>: what gets through, and what datagrams can do harm.

  \<^bold>\<open>The world.\<close>
  \<^item> \<open>Item_Prototype\<close> (\<^verbatim>\<open>item_prototype.c\<close>, \<^verbatim>\<open>item.c\<close>),
    \<open>Player_Data\<close> (\<^verbatim>\<open>inventory.c\<close>, \<^verbatim>\<open>skills.c\<close>,
    \<^verbatim>\<open>spellbook.c\<close>, \<^verbatim>\<open>eq_time.c\<close>),
    \<open>Zone_Id\<close> (\<^verbatim>\<open>zone_id.c\<close>).
  \<^item> \<open>Mob\<close> (\<^verbatim>\<open>mob.c\<close>, \<^verbatim>\<open>npc_prototype.c\<close>,
    \<^verbatim>\<open>npc.c\<close>), \<open>Zone\<close>, \<open>Zone_Tables\<close>
    (\<^verbatim>\<open>zone.c\<close>, \<^verbatim>\<open>packet_broadcast.c\<close>): the tables of a zone agree
    with what mobs and clients know of their places in them.
  \<^item> \<open>World_Properties\<close>: names of zones, the calendar, inventories, the tables of a zone.

  \<^bold>\<open>Players.\<close>
  \<^item> \<open>Client\<close>, \<open>Client_Load\<close> (\<^verbatim>\<open>client.c\<close>): the queries of a client
    and their answers, in any order. \<open>Client_Save\<close>, \<open>Client_Reload\<close>
    (\<^verbatim>\<open>client_save.c\<close>): what is written and what comes back. Reading a value of sqlite as a
    number or a text is a parameter; that a query returns the rows a statement has written is
    part of the model.
  \<^item> \<open>Packet_Ops\<close>, \<open>Client_Packets\<close>, \<open>Packet_Layouts\<close>,
    \<open>Packet_Obfuscation\<close> (\<^verbatim>\<open>client_packet_trilogy_output.c\<close>): the packets, field by
    field. A function that fills a packet is a list of calls of the cursor; the list is run on the
    bytes of the packet and compared with the layout of the struct. The compression of zlib is a parameter.
  \<^item> \<open>Zone_Cluster\<close> (\<^verbatim>\<open>zone_cluster.c\<close>, \<^verbatim>\<open>zone_cluster_ipc.c\<close>):
    expected and connected clients and their timers. \<open>Client_Input\<close>
    (\<^verbatim>\<open>client_packet_trilogy_input.c\<close>): what the packets of players do.
  \<^item> \<open>Cluster_Tables\<close>, \<open>Cluster_Correct\<close>, \<open>Cluster_Enter\<close>: the invariant of
    the tables of a cluster, on top of those of the zones and of the hash table, and the states a cluster can
    reach. A step of \<open>cluster_reach\<close> is an operation on connected clients under the
    conditions the callers establish, or anything that leaves names, zones and tables alone.
    \<open>Cluster_Zoning\<close>, \<open>Cluster_Demo\<close>: a player on its way in, and a small cluster.
  \<^item> \<open>Client_Properties\<close>, \<open>Packet_Properties\<close>, \<open>Cluster_Properties\<close>: the
    claims on these.

  \<^bold>\<open>Interfaces.\<close> What a client relies on is stated as a locale and proved of the code's model: queues
  of elements for the array, a codec for every width of the cursor, a finite map for the hash table, a bounded queue
  for the ring, a table whose members know their index for the lists of a zone, a loader of rows for what comes from the database. The theories of the providers interpret them, and the
  properties rest on the interpretations.

  \<^bold>\<open>Bounds.\<close> Where a statement bounds a size (a string below 2 to the 31, a table of at most 2 to the 30
  slots, a cursor that does not come near 2 to the 32) the 32-bit arithmetic of the code wraps beyond it;
  \<open>aligned_advance_wraps\<close> shows what then happens. \<open>ample\<close> heaps grant what fits in memory; that a
  refusal is an error and nothing else is part of the definitions.

  \<^bold>\<open>Not modelled.\<close> Character selection, login server and master are sequences of queries, system calls
  and packets around parts that are modelled or are not in the repository (sqlite, OpenSSL, Lua). The map generator and
  the line of sight are floating-point geometry, for which HOL has only the bits. Threads are not
  interleaved within a call: the rings are modelled one operation at a time. Opening and closing
  sockets, files, shared memory and processes, logging, and the Lua state are left out; where the code calls
  Lua, the call is recorded.
\<close>

end
